(* ===== verification/Prelude.thy ===== *)
theory Prelude
  imports Complex_Main "HOL-Library.Char_ord" "HOL-Library.List_Lexorder"
    "HOL-Library.Product_Lexorder"
begin

text \<open>
  Shared vocabulary of the development: the Python values that cross a document boundary
  (\<^verbatim>\<open>json\<close>), exceptions as values of a sum type, the string operations the
  sources use, and the generic lemmas that carry the component proofs.

  A Python \<^verbatim>\<open>str\<close> is a \<^typ>\<open>string\<close>: one \<^typ>\<open>char\<close> per code point,
  so the model speaks about code points 0 to 255.  Operator messages and the
  \<^verbatim>\<open>details\<close> dictionaries of exceptions are not modelled; class, code and path are.
\<close>

section \<open>Automation\<close>

named_theorems result_simps \<open>equations that decide when a result is a value or an error\<close>
named_theorems spec_defs \<open>constants of a component that its proofs unfold together\<close>

section \<open>Exceptions and results\<close>

datatype exn_class =
    ResourceLimitError
  | UpstreamIdentityError
  | AutomationLedgerError
  | AutomationSchedulerError
  | ExecutionManagerError
  | RunStatusTransitionError
  | RunDocumentError
  | RecipeStoreError
  | ValidationAdmissionError
  | MutationGateClosed
  | CommandIdentityError
  | WorkspaceBusyError
  | FileNotFoundError
  | OSError
  | ValueError
  | TypeError
  | KeyError
  | IndexError
  | AttributeError
  | RuntimeError

text \<open>An exception: its class, its stable \<^verbatim>\<open>code\<close> attribute ("" when the class has
  none) and its \<^verbatim>\<open>path\<close>.\<close>

datatype exn = Exn (exn_class: exn_class) (exn_code: string) (exn_path: string)

type_synonym 'a result = "exn + 'a"

text \<open>Sequencing of fallible computations: the first exception propagates.\<close>

fun bind_r :: "('e + 'a) \<Rightarrow> ('a \<Rightarrow> 'e + 'b) \<Rightarrow> 'e + 'b" where
  "bind_r (Inl e) f = Inl e"
| "bind_r (Inr x) f = f x"

text \<open>A run of guards \<^verbatim>\<open>if cond: raise err\<close> in source order.\<close>

fun raise_first :: "(bool \<times> 'e) list \<Rightarrow> 'e + unit" where
  "raise_first [] = Inr ()"
| "raise_first ((bad, e) # cs) = (if bad then Inl e else raise_first cs)"

text \<open>A list comprehension whose element expression may raise.\<close>

fun map_r :: "('a \<Rightarrow> 'e + 'b) \<Rightarrow> 'a list \<Rightarrow> 'e + 'b list" where
  "map_r f [] = Inr []"
| "map_r f (x # xs) = bind_r (f x) (\<lambda>y. bind_r (map_r f xs) (\<lambda>ys. Inr (y # ys)))"

definition is_ok :: "'e + 'a \<Rightarrow> bool" where
  "is_ok r = (case r of Inl _ \<Rightarrow> False | Inr _ \<Rightarrow> True)"

lemma bind_r_Inr_iff [result_simps]:
  "bind_r m f = Inr y \<longleftrightarrow> (\<exists>x. m = Inr x \<and> f x = Inr y)"
  by (cases m) auto

lemma bind_r_Inl_iff [result_simps]:
  "bind_r m f = Inl e \<longleftrightarrow> m = Inl e \<or> (\<exists>x. m = Inr x \<and> f x = Inl e)"
  by (cases m) auto

lemma bind_r_InrE:
  assumes "bind_r m f = Inr y"
  obtains x where "m = Inr x" "f x = Inr y"
  using assms by (auto simp: bind_r_Inr_iff)

lemma if_Inl_InrE:
  assumes "(if b then Inl e else r) = Inr y"
  obtains "\<not> b" "r = Inr y"
  using assms by (auto split: if_splits)

lemmas result_elims = bind_r_InrE if_Inl_InrE

lemma raise_first_ok [result_simps]:
  "raise_first cs = Inr u \<longleftrightarrow> (\<forall>c \<in> set cs. \<not> fst c)"
  by (induction cs rule: raise_first.induct) auto

lemma raise_first_InlD: "raise_first cs = Inl e \<Longrightarrow> e \<in> snd ` set cs"
  by (induction cs rule: raise_first.induct) (auto split: if_splits)

lemma map_r_Inr_iff:
  "map_r f xs = Inr ys \<longleftrightarrow> length ys = length xs \<and> (\<forall>i < length xs. f (xs ! i) = Inr (ys ! i))"
proof (induction xs arbitrary: ys)
  case Nil
  then show ?case by auto
next
  case (Cons x xs)
  show ?case
  proof (cases ys)
    case Nil
    then show ?thesis by (auto simp: result_simps)
  next
    case (Cons y ys')
    have "map_r f (x # xs) = Inr ys \<longleftrightarrow> f x = Inr y \<and> map_r f xs = Inr ys'"
      using Cons by (auto simp: result_simps)
    then show ?thesis
      using Cons by (simp add: Cons.IH All_less_Suc2 conj_comms)
  qed
qed

lemma map_r_id:
  assumes "\<And>x. x \<in> set xs \<Longrightarrow> f (g x) = Inr x"
  shows "map_r f (map g xs) = Inr xs"
  using assms by (induction xs) auto

lemma if_Inl_Inr_iff [result_simps]:
  "(if b then Inl e else r) = Inr y \<longleftrightarrow> \<not> b \<and> r = Inr y"
  by simp

lemma is_ok_iff [simp]: "is_ok r \<longleftrightarrow> (\<exists>x. r = Inr x)"
  by (cases r) (auto simp: is_ok_def)

section \<open>Python values of a JSON document\<close>

text \<open>
  \<^verbatim>\<open>JFloat\<close> holds a finite float by its exact rational value (no NaN or infinity).
  A \<^verbatim>\<open>dict\<close> is its list of items in insertion order; the keys are distinct
  (\<^verbatim>\<open>json_wf\<close>).
\<close>

datatype json =
    JNull
  | JBool bool
  | JInt int
  | JFloat rat
  | JStr string
  | JArr "json list"
  | JObj "(string \<times> json) list"

text \<open>\<^verbatim>\<open>d.get(k)\<close>, with \<^verbatim>\<open>None\<close> for an absent key.\<close>

definition jget :: "(string \<times> json) list \<Rightarrow> string \<Rightarrow> json" where
  "jget kvs k = (case map_of kvs k of None \<Rightarrow> JNull | Some v \<Rightarrow> v)"

definition jkeys :: "(string \<times> json) list \<Rightarrow> string list" where
  "jkeys kvs = map fst kvs"

definition same_keys :: "(string \<times> json) list \<Rightarrow> string list \<Rightarrow> bool" where
  "same_keys kvs fields = (set (jkeys kvs) = set fields)"

definition has_key :: "(string \<times> json) list \<Rightarrow> string \<Rightarrow> bool" where
  "has_key kvs k = (map_of kvs k \<noteq> None)"

text \<open>\<^verbatim>\<open>d[k] = v\<close> keeps the place of an existing key, and \<^verbatim>\<open>d.update({...})\<close>.\<close>

fun jset :: "(string \<times> json) list \<Rightarrow> string \<Rightarrow> json \<Rightarrow> (string \<times> json) list" where
  "jset [] k v = [(k, v)]"
| "jset ((k', v') # kvs) k v = (if k' = k then (k, v) # kvs else (k', v') # jset kvs k v)"

definition jupdate :: "(string \<times> json) list \<Rightarrow> (string \<times> json) list \<Rightarrow> (string \<times> json) list" where
  "jupdate kvs new = fold (\<lambda>(k, v) d. jset d k v) new kvs"

text \<open>The first element of \<^verbatim>\<open>sorted(set(value) - FIELDS)\<close>, if there is one.\<close>

definition first_unknown :: "string list \<Rightarrow> string list \<Rightarrow> string option" where
  "first_unknown fields keys =
     (case sort (filter (\<lambda>k. k \<notin> set fields) keys) of [] \<Rightarrow> None | k # _ \<Rightarrow> Some k)"

fun truthy :: "json \<Rightarrow> bool" where
  "truthy JNull = False"
| "truthy (JBool b) = b"
| "truthy (JInt i) = (i \<noteq> 0)"
| "truthy (JFloat r) = (r \<noteq> 0)"
| "truthy (JStr s) = (s \<noteq> [])"
| "truthy (JArr xs) = (xs \<noteq> [])"
| "truthy (JObj kvs) = (kvs \<noteq> [])"

text \<open>\<^verbatim>\<open>isinstance(v, int) and not isinstance(v, bool)\<close>: in Python a bool is an int.\<close>

fun is_plain_int :: "json \<Rightarrow> bool" where
  "is_plain_int (JInt _) = True"
| "is_plain_int _ = False"

fun num_value :: "json \<Rightarrow> rat option" where
  "num_value (JBool b) = Some (if b then 1 else 0)"
| "num_value (JInt i) = Some (of_int i)"
| "num_value (JFloat r) = Some r"
| "num_value _ = None"

lemma json_arr_size [termination_simp]: "x \<in> set xs \<Longrightarrow> size x < Suc (size_list size xs)"
  by (induction xs) auto

lemma json_obj_size [termination_simp]:
  "(k, v) \<in> set kvs \<Longrightarrow> size v < Suc (size_list (size_prod (\<lambda>_. 0) size) kvs)"
  by (induction kvs) auto

text \<open>Python's \<^verbatim>\<open>==\<close> on such values: \<^verbatim>\<open>True == 1 == 1.0\<close>, dictionaries up to
  order.\<close>

fun py_eq :: "json \<Rightarrow> json \<Rightarrow> bool" where
  "py_eq JNull w = (w = JNull)"
| "py_eq (JStr s) w = (w = JStr s)"
| "py_eq (JArr xs) (JArr ys) = list_all2 py_eq xs ys"
| "py_eq (JObj xs) (JObj ys) =
     (length xs = length ys \<and>
      (\<forall>kv \<in> set xs. case map_of ys (fst kv) of None \<Rightarrow> False | Some w \<Rightarrow> py_eq (snd kv) w))"
| "py_eq v w = (num_value v \<noteq> None \<and> num_value v = num_value w)"

fun json_wf :: "json \<Rightarrow> bool" where
  "json_wf (JArr xs) = (\<forall>x \<in> set xs. json_wf x)"
| "json_wf (JObj kvs) = (distinct (jkeys kvs) \<and> (\<forall>kv \<in> set kvs. json_wf (snd kv)))"
| "json_wf _ = True"

text \<open>\<^verbatim>\<open>v in {"a", ...}\<close> for a set of strings: a list or a dict is unhashable and
  raises \<^verbatim>\<open>TypeError\<close>.\<close>

fun hashable :: "json \<Rightarrow> bool" where
  "hashable (JArr _) = False"
| "hashable (JObj _) = False"
| "hashable _ = True"

definition str_in :: "json \<Rightarrow> string list \<Rightarrow> bool result" where
  "str_in v xs = (if hashable v then Inr (v \<in> JStr ` set xs) else Inl (Exn TypeError [] []))"

fun opt_str :: "string option \<Rightarrow> json" where
  "opt_str None = JNull"
| "opt_str (Some s) = JStr s"

fun opt_int :: "int option \<Rightarrow> json" where
  "opt_int None = JNull"
| "opt_int (Some i) = JInt i"

lemma jget_Nil [simp]: "jget [] k = JNull"
  by (simp add: jget_def)

lemma jget_Cons [simp]: "jget ((k', v) # kvs) k = (if k' = k then v else jget kvs k)"
  by (simp add: jget_def)

lemma jkeys_simps [simp]:
  "jkeys [] = []"
  "jkeys ((k, v) # kvs) = k # jkeys kvs"
  by (simp_all add: jkeys_def)

lemma map_of_jset [simp]: "map_of (jset kvs k v) = (map_of kvs)(k \<mapsto> v)"
  by (induction kvs k v rule: jset.induct) (auto simp: fun_eq_iff)

lemma jget_jset [simp]: "jget (jset kvs k v) k' = (if k' = k then v else jget kvs k')"
  by (simp add: jget_def)

lemma has_key_jset [simp]: "has_key (jset kvs k v) k' \<longleftrightarrow> k' = k \<or> has_key kvs k'"
  by (simp add: has_key_def)

lemma jkeys_jset: "jkeys (jset kvs k v) = (if k \<in> set (jkeys kvs) then jkeys kvs else jkeys kvs @ [k])"
  by (induction kvs k v rule: jset.induct) auto

lemma has_key_iff: "has_key kvs k \<longleftrightarrow> k \<in> set (jkeys kvs)"
  unfolding has_key_def jkeys_def by (simp add: map_of_eq_None_iff)

lemma jset_jget [simp]: "has_key kvs k \<Longrightarrow> jset kvs k (jget kvs k) = kvs"
  by (induction kvs) (auto simp: has_key_def jget_def)

lemma jupdate_simps [simp]:
  "jupdate kvs [] = kvs"
  "jupdate kvs ((k, v) # new) = jupdate (jset kvs k v) new"
  by (simp_all add: jupdate_def)

lemma py_eq_refl: "json_wf v \<Longrightarrow> py_eq v v"
proof (induction v rule: json_wf.induct)
  case (1 xs)
  then show ?case by (simp add: list.rel_refl_strong)
next
  case (2 kvs)
  have "map_of kvs (fst kv) = Some (snd kv)" if "kv \<in> set kvs" for kv
    using 2(2) that by (simp add: jkeys_def)
  with 2 show ?case by simp
qed auto

lemma py_eq_JStr_iff [simp]: "py_eq v (JStr s) \<longleftrightarrow> v = JStr s"
  by (cases v) auto

lemma py_eq_JNull_iff [simp]: "py_eq v JNull \<longleftrightarrow> v = JNull"
  by (cases v) auto

lemma py_eq_JInt_iff: "py_eq (JInt i) (JInt j) \<longleftrightarrow> i = j"
  by simp

lemma opt_str_eq_iff [simp]: "opt_str a = opt_str b \<longleftrightarrow> a = b"
  by (cases a; cases b) auto

lemma opt_int_eq_iff [simp]: "opt_int a = opt_int b \<longleftrightarrow> a = b"
  by (cases a; cases b) auto

lemma str_in_JStr [simp]: "str_in (JStr s) xs = Inr (s \<in> set xs)"
  by (auto simp: str_in_def)

lemma str_in_JNull [simp]: "str_in JNull xs = Inr False"
  by (auto simp: str_in_def)

lemma str_in_True_iff [result_simps]:
  "str_in v xs = Inr True \<longleftrightarrow> (\<exists>s. v = JStr s \<and> s \<in> set xs)"
  by (cases v) (auto simp: str_in_def)

lemma first_unknown_None_iff: "first_unknown fields keys = None \<longleftrightarrow> set keys \<subseteq> set fields"
proof -
  have "sort (filter (\<lambda>k. k \<notin> set fields) keys) = [] \<longleftrightarrow>
      set (sort (filter (\<lambda>k. k \<notin> set fields) keys)) = {}"
    by (simp only: set_empty)
  also have "\<dots> \<longleftrightarrow> set keys \<subseteq> set fields"
    by auto
  finally have "sort (filter (\<lambda>k. k \<notin> set fields) keys) = [] \<longleftrightarrow> set keys \<subseteq> set fields" .
  then show ?thesis
    by (auto simp: first_unknown_def split: list.splits)
qed

section \<open>Strings\<close>

definition cord :: "char \<Rightarrow> nat" where
  "cord c = of_char c"

definition in_range :: "nat \<Rightarrow> nat \<Rightarrow> char \<Rightarrow> bool" where
  "in_range lo hi c = (lo \<le> cord c \<and> cord c \<le> hi)"

definition is_lower :: "char \<Rightarrow> bool" where "is_lower c = in_range 97 122 c"
definition is_upper :: "char \<Rightarrow> bool" where "is_upper c = in_range 65 90 c"
definition is_dec :: "char \<Rightarrow> bool" where "is_dec c = in_range 48 57 c"

text \<open>\<^verbatim>\<open>str.isspace\<close> on code points below 256.\<close>

definition is_space :: "char \<Rightarrow> bool" where
  "is_space c = (in_range 9 13 c \<or> in_range 28 32 c \<or> cord c = 133 \<or> cord c = 160)"

text \<open>\<^verbatim>\<open>str.isdigit\<close> on code points below 256: the decimal digits and the superscripts
  one, two and three.\<close>

definition is_py_digit :: "char \<Rightarrow> bool" where
  "is_py_digit c = (is_dec c \<or> cord c = 178 \<or> cord c = 179 \<or> cord c = 185)"

definition is_ctl :: "char \<Rightarrow> bool" where
  "is_ctl c = (cord c < 32)"

text \<open>\<^verbatim>\<open>str.lower\<close> on code points below 256.\<close>

definition lower_char :: "char \<Rightarrow> char" where
  "lower_char c =
     (if is_upper c \<or> (in_range 192 222 c \<and> cord c \<noteq> 215) then char_of (cord c + 32) else c)"

definition lower :: "string \<Rightarrow> string" where
  "lower s = map lower_char s"

definition strip :: "string \<Rightarrow> string" where
  "strip s = rev (dropWhile is_space (rev (dropWhile is_space s)))"

fun has_sub :: "string \<Rightarrow> string \<Rightarrow> bool" where
  "has_sub needle [] = (needle = [])"
| "has_sub needle (c # cs) = (take (length needle) (c # cs) = needle \<or> has_sub needle cs)"

definition starts_with :: "string \<Rightarrow> string \<Rightarrow> bool" where
  "starts_with p s = (take (length p) s = p)"

definition ends_with :: "string \<Rightarrow> string \<Rightarrow> bool" where
  "ends_with p s = starts_with (rev p) (rev s)"

text \<open>\<^verbatim>\<open>re.fullmatch(r"[...]{lo,hi}", s)\<close> for a character class.\<close>

definition matches :: "(char \<Rightarrow> bool) \<Rightarrow> nat \<Rightarrow> nat \<Rightarrow> string \<Rightarrow> bool" where
  "matches cls lo hi s = (lo \<le> length s \<and> length s \<le> hi \<and> list_all cls s)"

definition is_hex :: "char \<Rightarrow> bool" where
  "is_hex c = (is_dec c \<or> in_range 97 102 c)"

definition is_hex_any :: "char \<Rightarrow> bool" where
  "is_hex_any c = (is_dec c \<or> in_range 97 102 c \<or> in_range 65 70 c)"

text \<open>The class \<^verbatim>\<open>[A-Za-z0-9_.+-]\<close> of Recipe and Run identifiers.\<close>

definition is_name_char :: "char \<Rightarrow> bool" where
  "is_name_char c =
     (is_lower c \<or> is_upper c \<or> is_dec c \<or> c \<in> set ''_.+-'')"

text \<open>The class \<^verbatim>\<open>[a-z0-9_.-]\<close> of stable codes.\<close>

definition is_code_char :: "char \<Rightarrow> bool" where
  "is_code_char c = (is_lower c \<or> is_dec c \<or> c \<in> set ''_.-'')"

definition is_sha256 :: "string \<Rightarrow> bool" where
  "is_sha256 s = matches is_hex 64 64 s"

text \<open>\<^verbatim>\<open>str(n)\<close> for an integer.\<close>

fun digits_of :: "nat \<Rightarrow> string" where
  "digits_of n = (if n < 10 then [char_of (48 + n)] else digits_of (n div 10) @ [char_of (48 + n mod 10)])"

declare digits_of.simps [simp del]

definition str_int :: "int \<Rightarrow> string" where
  "str_int i = (if i < 0 then CHR ''-'' # digits_of (nat (- i)) else digits_of (nat i))"

lemma cord_char_of [simp]: "n < 256 \<Longrightarrow> cord (char_of n) = n"
  by (simp add: cord_def)

lemma char_of_cord [simp]: "char_of (cord c) = c"
  by (simp add: cord_def)

lemma cord_inject [simp]: "cord c = cord d \<longleftrightarrow> c = d"
  by (simp add: cord_def)

lemma cord_less [simp]: "cord c < 256"
  by (simp add: cord_def)

lemma lower_char_idem [simp]: "lower_char (lower_char c) = lower_char c"
  by (auto simp: lower_char_def is_upper_def in_range_def)

lemma lower_idem [simp]: "lower (lower s) = lower s"
  by (simp add: lower_def)

lemma length_lower [simp]: "length (lower s) = length s"
  by (simp add: lower_def)

lemma lower_char_hex [simp]: "is_hex c \<Longrightarrow> lower_char c = c"
  by (auto simp: lower_char_def is_hex_def is_upper_def is_dec_def in_range_def)

lemma lower_hex [simp]: "list_all is_hex s \<Longrightarrow> lower s = s"
  by (induction s) (auto simp: lower_def)

lemma lower_Nil_iff [simp]: "lower s = [] \<longleftrightarrow> s = []"
  by (simp add: lower_def)

lemma lower_char_space [simp]: "is_space (lower_char c) = is_space c"
  by (auto simp: lower_char_def is_space_def is_upper_def in_range_def)

lemma lower_char_ctl [simp]: "is_ctl (lower_char c) = is_ctl c"
  by (auto simp: lower_char_def is_ctl_def is_upper_def in_range_def)

lemma dropWhile_fixed: "dropWhile P xs = xs \<longleftrightarrow> xs = [] \<or> \<not> P (hd xs)"
proof (cases xs)
  case (Cons a as)
  have "length (dropWhile P as) \<le> length as"
    by (rule length_dropWhile_le)
  with Cons show ?thesis
    by (auto dest: arg_cong [where f = length])
qed simp

lemma strip_fixed: "strip s = s \<longleftrightarrow> s = [] \<or> \<not> is_space (hd s) \<and> \<not> is_space (last s)"
proof
  assume fixed: "strip s = s"
  have len: "length (strip s) \<le> length (dropWhile is_space s)"
    using length_dropWhile_le [of is_space "rev (dropWhile is_space s)"] by (simp add: strip_def)
  moreover have "length (dropWhile is_space s) \<le> length s"
    by (rule length_dropWhile_le)
  ultimately have "length (dropWhile is_space s) = length s"
    using fixed by simp
  then have one: "dropWhile is_space s = s"
    by (metis append_self_conv2 length_append length_0_conv add_cancel_left_left takeWhile_dropWhile_id)
  with fixed have "dropWhile is_space (rev s) = rev s"
    by (metis strip_def rev_rev_ident)
  with one show "s = [] \<or> \<not> is_space (hd s) \<and> \<not> is_space (last s)"
    by (auto simp: dropWhile_fixed hd_rev)
next
  assume "s = [] \<or> \<not> is_space (hd s) \<and> \<not> is_space (last s)"
  then have "dropWhile is_space s = s" "dropWhile is_space (rev s) = rev s"
    by (auto simp: dropWhile_fixed hd_rev)
  then show "strip s = s" by (simp add: strip_def)
qed

lemma strip_Nil [simp]: "strip [] = []"
  by (simp add: strip_def)

lemma strip_idem [simp]: "strip (strip s) = strip s"
proof (cases "strip s = []")
  case True
  show ?thesis unfolding True by simp
next
  case False
  let ?d = "dropWhile is_space s"
  have last: "\<not> is_space (last (strip s))"
    using False hd_dropWhile [of is_space "rev ?d"] by (simp add: strip_def last_rev)
  have d: "?d \<noteq> []"
  proof
    assume "?d = []"
    then have "strip s = []" unfolding strip_def by (simp only: rev.simps dropWhile.simps)
    with False show False ..
  qed
  have "?d = strip s @ rev (takeWhile is_space (rev ?d))"
    unfolding strip_def by (metis rev_append rev_rev_ident takeWhile_dropWhile_id)
  then have "hd (strip s) = hd ?d"
    using False by (metis hd_append2)
  then have "\<not> is_space (hd (strip s))"
    using d hd_dropWhile [of is_space s] by simp
  with last show ?thesis by (simp add: strip_fixed)
qed

lemma strip_lower: "strip (lower s) = lower (strip s)"
proof -
  have "is_space \<circ> lower_char = is_space" by (simp add: comp_def)
  then show ?thesis
    by (simp add: strip_def lower_def dropWhile_map rev_map)
qed

lemma set_strip: "set (strip s) \<subseteq> set s"
proof
  fix x assume "x \<in> set (strip s)"
  then have "x \<in> set (dropWhile is_space (rev (dropWhile is_space s)))"
    by (simp add: strip_def)
  then show "x \<in> set s"
    by (metis set_dropWhileD set_rev)
qed

text \<open>Character classes on a concrete text.\<close>

lemmas char_defs = is_space_def is_ctl_def is_dec_def is_upper_def is_lower_def is_py_digit_def
  is_code_char_def is_name_char_def is_hex_def in_range_def cord_def lower_char_def
  char_of_eq_iff take_bit_eq_mod

section \<open>Documents with a canonical form\<close>

text \<open>
  Every persisted document of the program has a validator, which maps a raw Python value to
  a canonical one, and the canonical value can be written out again.  The contract between
  the two: what is well formed survives a write and a read unchanged, and the validator
  returns only well-formed values.
\<close>

locale canonical_document =
  fixes validate :: "json \<Rightarrow> 'a result"
    and render :: "'a \<Rightarrow> json"
    and wf :: "'a \<Rightarrow> bool"
  assumes validate_render: "wf x \<Longrightarrow> validate (render x) = Inr x"
    and validate_wf: "validate j = Inr x \<Longrightarrow> wf x"
begin

lemma validate_idempotent: "validate j = Inr x \<Longrightarrow> validate (render x) = Inr x"
  by (blast intro: validate_render validate_wf)

lemma render_inject: "wf x \<Longrightarrow> wf y \<Longrightarrow> render x = render y \<Longrightarrow> x = y"
  by (metis validate_render Inr_inject)

lemma wf_iff_accepted: "wf x \<longleftrightarrow> validate (render x) = Inr x"
  by (blast intro: validate_render validate_wf)

end

section \<open>Interleaved components\<close>

text \<open>
  A component whose methods run under one lock is a step relation: each step is one
  critical section, and the steps of different threads come in any order.
\<close>

inductive reachable :: "('s \<Rightarrow> bool) \<Rightarrow> ('s \<Rightarrow> 's \<Rightarrow> bool) \<Rightarrow> 's \<Rightarrow> bool"
  for init :: "'s \<Rightarrow> bool" and step :: "'s \<Rightarrow> 's \<Rightarrow> bool" where
  reachable_init: "init s \<Longrightarrow> reachable init step s"
| reachable_step: "reachable init step s \<Longrightarrow> step s t \<Longrightarrow> reachable init step t"

lemma reachable_steps:
  assumes "reachable init step s" "step\<^sup>*\<^sup>* s t"
  shows "reachable init step t"
  using assms(2,1) by (induction rule: rtranclp_induct) (auto intro: reachable_step)

locale invariant_system =
  fixes init :: "'s \<Rightarrow> bool"
    and step :: "'s \<Rightarrow> 's \<Rightarrow> bool"
    and inv :: "'s \<Rightarrow> bool"
  assumes inv_init: "init s \<Longrightarrow> inv s"
    and inv_step: "inv s \<Longrightarrow> step s t \<Longrightarrow> inv t"
begin

lemma inv_reachable: "reachable init step s \<Longrightarrow> inv s"
  by (induction rule: reachable.induct) (auto intro: inv_init inv_step)

lemma inv_steps:
  assumes "inv s" "step\<^sup>*\<^sup>* s t"
  shows "inv t"
  using assms(2,1) by (induction rule: rtranclp_induct) (auto intro: inv_step)

lemma stable_steps:
  assumes "\<And>s t. inv s \<Longrightarrow> P s \<Longrightarrow> step s t \<Longrightarrow> P t"
    and "reachable init step s" "P s" "step\<^sup>*\<^sup>* s t"
  shows "P t"
proof -
  have "inv t \<and> P t"
    using assms(4) inv_reachable [OF assms(2)] assms(3)
    by (induction rule: rtranclp_induct) (auto intro: inv_step assms(1))
  then show ?thesis ..
qed

end

end
