(* ===== verification/Resource_Limits.thy ===== *)
theory Resource_Limits
  imports Prelude
begin

text \<open>
  \<^verbatim>\<open>src/debbuilder/resource_limits.py\<close>: the canonical per-Run resource policy, the
  resolution of a global and a Recipe policy, and the admission contract a Run document
  carries.  A policy is a total map from the five limit fields to an optional integer;
  \<^verbatim>\<open>policy_json\<close> is the dictionary the code builds.
\<close>

section \<open>Policies\<close>

datatype limit_field =
    Memory_max_bytes
  | Tasks_max
  | Cpu_quota_percent
  | Io_read_bandwidth_max_bytes_per_sec
  | Io_write_bandwidth_max_bytes_per_sec

type_synonym policy = "limit_field \<Rightarrow> int option"

definition FIELDS :: "limit_field list" where
  "FIELDS = [Memory_max_bytes, Tasks_max, Cpu_quota_percent,
     Io_read_bandwidth_max_bytes_per_sec, Io_write_bandwidth_max_bytes_per_sec]"

fun field_name :: "limit_field \<Rightarrow> string" where
  "field_name Memory_max_bytes = ''memory_max_bytes''"
| "field_name Tasks_max = ''tasks_max''"
| "field_name Cpu_quota_percent = ''cpu_quota_percent''"
| "field_name Io_read_bandwidth_max_bytes_per_sec = ''io_read_bandwidth_max_bytes_per_sec''"
| "field_name Io_write_bandwidth_max_bytes_per_sec = ''io_write_bandwidth_max_bytes_per_sec''"

fun CONTROL_FOR_FIELD :: "limit_field \<Rightarrow> string" where
  "CONTROL_FOR_FIELD Memory_max_bytes = ''memory''"
| "CONTROL_FOR_FIELD Tasks_max = ''tasks''"
| "CONTROL_FOR_FIELD Cpu_quota_percent = ''cpu''"
| "CONTROL_FOR_FIELD Io_read_bandwidth_max_bytes_per_sec = ''io_read''"
| "CONTROL_FOR_FIELD Io_write_bandwidth_max_bytes_per_sec = ''io_write''"

definition JS_SAFE_INTEGER :: int where "JS_SAFE_INTEGER = 2 ^ 53 - 1"
definition DBUS_UINT64_MAX :: int where "DBUS_UINT64_MAX = 2 ^ 64 - 1"

definition MAXIMUMS :: "limit_field \<Rightarrow> int" where
  "MAXIMUMS f = (if f = Cpu_quota_percent then min JS_SAFE_INTEGER (DBUS_UINT64_MAX div 10000)
                 else JS_SAFE_INTEGER)"

definition empty_policy :: policy where
  "empty_policy = (\<lambda>_. None)"

definition policy_json :: "policy \<Rightarrow> json" where
  "policy_json p = JObj (map (\<lambda>f. (field_name f, opt_int (p f))) FIELDS)"

text \<open>One turn of the loop of \<^verbatim>\<open>normalize_policy\<close>: what a raw field value stands for.\<close>

fun limit_value :: "string \<Rightarrow> limit_field \<Rightarrow> json \<Rightarrow> int option result" where
  "limit_value path f JNull = Inr None"
| "limit_value path f (JInt raw) =
     (let child = path @ ''.'' @ field_name f in
      if raw \<le> 0 then Inl (Exn ResourceLimitError ''invalid_resource_limit'' child)
      else if raw > MAXIMUMS f then Inl (Exn ResourceLimitError ''resource_limit_out_of_range'' child)
      else Inr (Some raw))"
| "limit_value path f _ =
     Inl (Exn ResourceLimitError ''invalid_resource_limit'' (path @ ''.'' @ field_name f))"

fun normalize_fields ::
  "string \<Rightarrow> (string \<times> json) list \<Rightarrow> limit_field list \<Rightarrow> policy \<Rightarrow> policy result" where
  "normalize_fields path kvs [] acc = Inr acc"
| "normalize_fields path kvs (f # fs) acc =
     bind_r (limit_value path f (jget kvs (field_name f)))
       (\<lambda>v. normalize_fields path kvs fs (acc(f := v)))"

definition normalize_policy :: "string \<Rightarrow> json \<Rightarrow> policy result" where
  "normalize_policy path value0 =
     (let value = (if value0 = JNull then JObj [] else value0) in
      case value of
        JObj kvs \<Rightarrow>
          (case first_unknown (map field_name FIELDS) (jkeys kvs) of
             Some k \<Rightarrow> Inl (Exn ResourceLimitError ''unknown_resource_limit'' (path @ ''.'' @ k))
           | None \<Rightarrow> normalize_fields path kvs FIELDS empty_policy)
      | _ \<Rightarrow> Inl (Exn ResourceLimitError ''invalid_resource_limits'' path))"

section \<open>Resolution\<close>

datatype origin = Unset | Recipe | Global | Global_and_recipe

fun origin_name :: "origin \<Rightarrow> string" where
  "origin_name Unset = ''unset''"
| "origin_name Recipe = ''recipe''"
| "origin_name Global = ''global''"
| "origin_name Global_and_recipe = ''global_and_recipe''"

fun resolve_field :: "int option \<Rightarrow> int option \<Rightarrow> int option \<times> origin" where
  "resolve_field None None = (None, Unset)"
| "resolve_field None (Some r) = (Some r, Recipe)"
| "resolve_field (Some g) None = (Some g, Global)"
| "resolve_field (Some g) (Some r) =
     (if g < r then (Some g, Global)
      else if r < g then (Some r, Recipe)
      else (Some g, Global_and_recipe))"

definition resolve_limits :: "policy \<Rightarrow> policy \<Rightarrow> policy \<times> (limit_field \<Rightarrow> origin)" where
  "resolve_limits g r = (\<lambda>f. fst (resolve_field (g f) (r f)), \<lambda>f. snd (resolve_field (g f) (r f)))"

definition resolve_policy :: "json \<Rightarrow> json \<Rightarrow> (policy \<times> (limit_field \<Rightarrow> origin)) result" where
  "resolve_policy global_policy recipe_policy =
     bind_r (normalize_policy ''$.settings.resource_limits'' global_policy) (\<lambda>g.
     bind_r (normalize_policy ''$.recipe.resource_limits'' recipe_policy) (\<lambda>r.
     Inr (resolve_limits g r)))"

definition origins_json :: "(limit_field \<Rightarrow> origin) \<Rightarrow> json" where
  "origins_json os = JObj (map (\<lambda>f. (field_name f, JStr (origin_name (os f)))) FIELDS)"

definition controls_of :: "policy \<Rightarrow> string list" where
  "controls_of p = map CONTROL_FOR_FIELD (filter (\<lambda>f. p f \<noteq> None) FIELDS)"

definition requested_controls :: "json \<Rightarrow> string list result" where
  "requested_controls policy =
     bind_r (normalize_policy ''$.resource_limits'' policy) (\<lambda>p. Inr (controls_of p))"

definition enforcement_required :: "json \<Rightarrow> bool result" where
  "enforcement_required policy = bind_r (requested_controls policy) (\<lambda>cs. Inr (cs \<noteq> []))"

text \<open>\<^verbatim>\<open>os.sysconf("SC_PAGE_SIZE")\<close> is an argument: \<^verbatim>\<open>None\<close> when it raises.\<close>

definition validate_host_enforceability :: "int option \<Rightarrow> string \<Rightarrow> json \<Rightarrow> policy result" where
  "validate_host_enforceability page_size path policy =
     bind_r (normalize_policy path policy) (\<lambda>canonical.
       let err = Exn ResourceLimitError ''resource_limits_unavailable'' (path @ ''.memory_max_bytes'') in
       case canonical Memory_max_bytes of
         None \<Rightarrow> Inr canonical
       | Some memory \<Rightarrow>
           (case page_size of
              None \<Rightarrow> Inl err
            | Some ps \<Rightarrow>
                if ps \<le> 0 then Inl err
                else if memory < ps then Inl err
                else Inr canonical))"

definition cpu_quota_usec :: "json \<Rightarrow> int result" where
  "cpu_quota_usec percent =
     bind_r (normalize_policy ''$.resource_limits'' (JObj [(''cpu_quota_percent'', percent)]))
       (\<lambda>canonical.
         case canonical Cpu_quota_percent of
           None \<Rightarrow> Inl (Exn RuntimeError ''AssertionError'' '''')
         | Some value \<Rightarrow>
             (let result = value * 10000 in
              if result > DBUS_UINT64_MAX
              then Inl (Exn ResourceLimitError ''resource_limit_out_of_range''
                          ''$.resource_limits.cpu_quota_percent'')
              else Inr result))"

section \<open>Admission contracts\<close>

definition POLICY_SCOPE :: string where "POLICY_SCOPE = ''each_command_cgroup''"

definition admission_contract :: "json \<Rightarrow> json \<Rightarrow> json \<Rightarrow> json result" where
  "admission_contract global_policy recipe_policy capability =
     bind_r (normalize_policy ''$.settings.resource_limits'' global_policy) (\<lambda>g.
     bind_r (normalize_policy ''$.recipe.resource_limits'' recipe_policy) (\<lambda>r.
     bind_r (resolve_policy (policy_json g) (policy_json r)) (\<lambda>(effective, origins).
     bind_r (enforcement_required (policy_json effective)) (\<lambda>required.
     Inr (JObj [
       (''policy_schema_version'', JInt 1),
       (''scope'', JStr POLICY_SCOPE),
       (''global'', policy_json g),
       (''recipe'', policy_json r),
       (''effective'', policy_json effective),
       (''origins'', origins_json origins),
       (''enforcement_required'', JBool required),
       (''admission_capability'', capability)])))))"

definition default_capability :: json where
  "default_capability = JObj [
     (''backend'', JStr ''not_evaluated''),
     (''available'', JBool True),
     (''requested_controls'', JArr []),
     (''reason'', JStr ''no finite resource control was requested'')]"

definition default_contract :: "json result" where
  "default_contract =
     admission_contract (policy_json empty_policy) (policy_json empty_policy) default_capability"

definition CONTRACT_FIELDS :: "string list" where
  "CONTRACT_FIELDS = [''policy_schema_version'', ''scope'', ''global'', ''recipe'', ''effective'',
     ''origins'', ''enforcement_required'', ''admission_capability'']"

definition CAPABILITY_FIELDS :: "string list" where
  "CAPABILITY_FIELDS = [''backend'', ''available'', ''requested_controls'', ''reason'']"

fun is_obj :: "json \<Rightarrow> bool" where
  "is_obj (JObj _) = True"
| "is_obj _ = False"

text \<open>The shape test on \<^verbatim>\<open>admission_capability\<close>, \<^verbatim>\<open>or\<close> chain by
  \<^verbatim>\<open>or\<close> chain: \<^verbatim>\<open>False\<close> when a disjunct of the refusal holds.\<close>

fun capability_ok :: "json \<Rightarrow> bool result" where
  "capability_ok (JObj c) =
     (if \<not> same_keys c CAPABILITY_FIELDS then Inr False
      else bind_r (str_in (jget c ''backend'') [''systemd_cgroup'', ''process_group'', ''not_evaluated''])
        (\<lambda>known. Inr (known \<and>
           (case jget c ''available'' of JBool _ \<Rightarrow> True | _ \<Rightarrow> False) \<and>
           (case jget c ''reason'' of JStr s \<Rightarrow> length s \<le> 500 | _ \<Rightarrow> False))))"
| "capability_ok _ = Inr False"

fun capability_get :: "json \<Rightarrow> string \<Rightarrow> json" where
  "capability_get (JObj c) k = jget c k"
| "capability_get _ k = JNull"

definition validate_contract :: "string \<Rightarrow> json \<Rightarrow> json result" where
  "validate_contract path value =
     (let bad = (\<lambda>p. Exn ResourceLimitError ''invalid_resource_contract'' p) in
      case value of
        JObj v \<Rightarrow>
          if \<not> same_keys v CONTRACT_FIELDS then Inl (bad path)
          else if \<not> py_eq (jget v ''policy_schema_version'') (JInt 1)
               \<or> \<not> py_eq (jget v ''scope'') (JStr POLICY_SCOPE) then Inl (bad path)
          else if \<not> is_obj (jget v ''global'') then Inl (bad (path @ ''.global''))
          else if \<not> is_obj (jget v ''recipe'') then Inl (bad (path @ ''.recipe''))
          else if \<not> is_obj (jget v ''effective'') then Inl (bad (path @ ''.effective''))
          else
            bind_r (normalize_policy (path @ ''.global'') (jget v ''global'')) (\<lambda>g.
            bind_r (normalize_policy (path @ ''.recipe'') (jget v ''recipe'')) (\<lambda>r.
            bind_r (resolve_policy (policy_json g) (policy_json r)) (\<lambda>(effective, origins).
            if \<not> py_eq (jget v ''effective'') (policy_json effective)
               \<or> \<not> py_eq (jget v ''origins'') (origins_json origins) then Inl (bad path)
            else
            bind_r (enforcement_required (policy_json effective)) (\<lambda>required.
            if jget v ''enforcement_required'' \<noteq> JBool required then Inl (bad path)
            else
              let capability = jget v ''admission_capability'' in
              bind_r (capability_ok capability) (\<lambda>ok.
              if \<not> ok then Inl (bad (path @ ''.admission_capability''))
              else if required \<and> capability_get capability ''available'' = JBool False
                then Inl (bad path)
              else if required \<and> capability_get capability ''backend'' \<noteq> JStr ''systemd_cgroup''
                then Inl (bad (path @ ''.admission_capability.backend''))
              else
                bind_r (requested_controls (policy_json effective)) (\<lambda>controls.
                if \<not> py_eq (capability_get capability ''requested_controls'') (JArr (map JStr controls))
                then Inl (bad (path @ ''.admission_capability.requested_controls''))
                else Inr value))))))
      | _ \<Rightarrow> Inl (bad path))"

section \<open>Lemmas\<close>

definition limit_ok :: "limit_field \<Rightarrow> int option \<Rightarrow> bool" where
  "limit_ok f v = (case v of None \<Rightarrow> True | Some n \<Rightarrow> 0 < n \<and> n \<le> MAXIMUMS f)"

definition policy_wf :: "policy \<Rightarrow> bool" where
  "policy_wf p = (\<forall>f. limit_ok f (p f))"

lemma set_FIELDS [simp]: "set FIELDS = UNIV"
proof -
  have "f \<in> set FIELDS" for f by (cases f) (simp_all add: FIELDS_def)
  then show ?thesis by auto
qed

lemma field_name_inject [simp]: "field_name f = field_name g \<longleftrightarrow> f = g"
  by (cases f; cases g) simp_all

lemma jget_fields: "jget (map (\<lambda>f. (field_name f, h f)) FIELDS) (field_name g) = h g"
  by (cases g) (simp_all add: FIELDS_def)

lemma jkeys_fields: "jkeys (map (\<lambda>f. (field_name f, h f)) fs) = map field_name fs"
  by (simp add: jkeys_def)

lemma limit_value_Inr_iff: "limit_value path f j = Inr v \<longleftrightarrow> j = opt_int v \<and> limit_ok f v"
  by (cases v; cases j) (auto simp: limit_ok_def Let_def not_le)

lemma normalize_fields_Inr_iff:
  "normalize_fields path kvs fs acc = Inr p \<longleftrightarrow>
     (\<forall>f \<in> set fs. limit_value path f (jget kvs (field_name f)) = Inr (p f)) \<and>
     (\<forall>f. f \<notin> set fs \<longrightarrow> p f = acc f)"
proof (induction fs arbitrary: acc)
  case Nil
  then show ?case by (auto simp: fun_eq_iff)
next
  case (Cons f fs)
  show ?case
    by (cases "f \<in> set fs") (auto simp: bind_r_Inr_iff Cons.IH)
qed

lemma normalize_policy_Inr_iff:
  "normalize_policy path j = Inr p \<longleftrightarrow>
     (\<exists>kvs. (j = JObj kvs \<or> j = JNull \<and> kvs = []) \<and>
       set (jkeys kvs) \<subseteq> range field_name \<and>
       (\<forall>f. jget kvs (field_name f) = opt_int (p f)) \<and> policy_wf p)"
proof -
  have unknown: "first_unknown (map field_name FIELDS) ks = None \<longleftrightarrow> set ks \<subseteq> range field_name" for ks
    by (simp add: first_unknown_None_iff)
  have "normalize_policy path (JObj kvs) = Inr p \<longleftrightarrow>
     set (jkeys kvs) \<subseteq> range field_name \<and>
       (\<forall>f. jget kvs (field_name f) = opt_int (p f)) \<and> policy_wf p" for kvs
    by (auto simp: normalize_policy_def Let_def unknown [symmetric] normalize_fields_Inr_iff
        limit_value_Inr_iff policy_wf_def split: option.splits)
  moreover have "normalize_policy path JNull = normalize_policy path (JObj [])"
    by (simp add: normalize_policy_def)
  moreover have "normalize_policy path j \<noteq> Inr p" if "\<And>kvs. j \<noteq> JObj kvs" "j \<noteq> JNull"
    using that by (cases j) (auto simp: normalize_policy_def)
  ultimately show ?thesis
    by (metis list.distinct(1))
qed

lemma normalize_policy_json [simp]: "policy_wf p \<Longrightarrow> normalize_policy path (policy_json p) = Inr p"
  by (simp add: normalize_policy_Inr_iff policy_json_def jget_fields jkeys_fields)

lemma normalize_policy_wf: "normalize_policy path j = Inr p \<Longrightarrow> policy_wf p"
  by (auto simp: normalize_policy_Inr_iff)

interpretation policy_doc: canonical_document "normalize_policy path" policy_json policy_wf for path
  by unfold_locales (auto intro: normalize_policy_wf)

lemma empty_policy_wf [simp]: "policy_wf empty_policy"
  by (simp add: policy_wf_def limit_ok_def empty_policy_def)

lemma resolve_limits_wf:
  assumes "policy_wf g" "policy_wf r"
  shows "policy_wf (fst (resolve_limits g r))"
  unfolding policy_wf_def
proof
  fix f
  from assms have "limit_ok f (g f)" "limit_ok f (r f)" by (auto simp: policy_wf_def)
  then show "limit_ok f (fst (resolve_limits g r) f)"
    by (cases "g f"; cases "r f") (auto simp: resolve_limits_def)
qed

lemma resolve_policy_json [simp]:
  "policy_wf g \<Longrightarrow> policy_wf r \<Longrightarrow> resolve_policy (policy_json g) (policy_json r) = Inr (resolve_limits g r)"
  by (simp add: resolve_policy_def)

lemma requested_controls_json [simp]:
  "policy_wf p \<Longrightarrow> requested_controls (policy_json p) = Inr (controls_of p)"
  by (simp add: requested_controls_def)

lemma enforcement_required_json [simp]:
  "policy_wf p \<Longrightarrow> enforcement_required (policy_json p) = Inr (controls_of p \<noteq> [])"
  by (simp add: enforcement_required_def)

lemma controls_of_Nil_iff: "controls_of p = [] \<longleftrightarrow> p = empty_policy"
  by (auto simp: controls_of_def empty_policy_def filter_empty_conv fun_eq_iff)

lemma json_wf_fields: "(\<And>f. json_wf (h f)) \<Longrightarrow> json_wf (JObj (map (\<lambda>f. (field_name f, h f)) FIELDS))"
  by (simp add: FIELDS_def)

lemma json_wf_policy_json [simp]: "json_wf (policy_json p)"
proof -
  have "json_wf (opt_int v)" for v by (cases v) auto
  then show ?thesis unfolding policy_json_def by (intro json_wf_fields)
qed

lemma json_wf_origins_json [simp]: "json_wf (origins_json os)"
  unfolding origins_json_def by (intro json_wf_fields) simp

section \<open>Properties\<close>

text \<open>\<^verbatim>\<open>normalize_policy\<close> accepts exactly \<^verbatim>\<open>None\<close> and the
  dictionaries whose keys are limit fields and whose values are null or integers between 1
  and the field's maximum, and returns those values with null for an absent field.\<close>

theorem normalize_policy_exact:
  "normalize_policy path j = Inr p \<longleftrightarrow>
     (\<exists>kvs. (j = JObj kvs \<or> j = JNull \<and> kvs = []) \<and>
       set (jkeys kvs) \<subseteq> range field_name \<and>
       (\<forall>f. jget kvs (field_name f) = opt_int (p f)) \<and>
       (\<forall>f. p f = None \<or> (\<exists>n. p f = Some n \<and> 1 \<le> n \<and> n \<le> MAXIMUMS f)))"
proof -
  have "policy_wf p \<longleftrightarrow> (\<forall>f. p f = None \<or> (\<exists>n. p f = Some n \<and> 1 \<le> n \<and> n \<le> MAXIMUMS f))"
    unfolding policy_wf_def limit_ok_def by (intro iff_allI) (auto split: option.splits)
  then show ?thesis by (simp add: normalize_policy_Inr_iff)
qed

text \<open>A limit is at most another when it is at least as tight; \<^verbatim>\<open>None\<close> is unlimited.\<close>

fun tighter :: "int option \<Rightarrow> int option \<Rightarrow> bool" where
  "tighter _ None = True"
| "tighter None (Some _) = False"
| "tighter (Some a) (Some b) = (a \<le> b)"

lemma resolve_field_glb:
  "tighter x (fst (resolve_field g r)) \<longleftrightarrow> tighter x g \<and> tighter x r"
  by (cases g; cases r; cases x) auto

lemma resolve_field_origin:
  "snd (resolve_field g r) =
     (if g = None \<and> r = None then Unset
      else if g = r then Global_and_recipe
      else if tighter g r then Global else Recipe)"
  by (cases g; cases r) auto

text \<open>Resolution gives the greatest lower bound of the two policies: a limit is within the
  effective policy exactly when it is within both inputs, and the recorded origin names the
  input (or both) that supplied the binding limit.\<close>

theorem resolve_policy_greatest_lower_bound:
  assumes "resolve_policy gj rj = Inr (effective, origins)"
  shows "\<exists>g r. normalize_policy ''$.settings.resource_limits'' gj = Inr g \<and>
    normalize_policy ''$.recipe.resource_limits'' rj = Inr r \<and>
    (\<forall>f x. tighter x (effective f) \<longleftrightarrow> tighter x (g f) \<and> tighter x (r f)) \<and>
    (\<forall>f. origins f =
       (if g f = None \<and> r f = None then Unset
        else if g f = r f then Global_and_recipe
        else if tighter (g f) (r f) then Global else Recipe))"
proof -
  from assms obtain g r where g: "normalize_policy ''$.settings.resource_limits'' gj = Inr g"
    and r: "normalize_policy ''$.recipe.resource_limits'' rj = Inr r"
    and eq: "(effective, origins) = resolve_limits g r"
    by (auto simp: resolve_policy_def bind_r_Inr_iff)
  have "tighter x (effective f) \<longleftrightarrow> tighter x (g f) \<and> tighter x (r f)" for f x
    using eq by (simp add: resolve_limits_def resolve_field_glb)
  moreover have "origins f = (if g f = None \<and> r f = None then Unset
        else if g f = r f then Global_and_recipe
        else if tighter (g f) (r f) then Global else Recipe)" for f
    using eq by (simp add: resolve_limits_def resolve_field_origin)
  ultimately show ?thesis using g r by blast
qed

lemma normalize_single:
  assumes "0 < n" "n \<le> MAXIMUMS f"
  shows "normalize_policy path (JObj [(field_name f, JInt n)]) = Inr (empty_policy(f := Some n))"
proof -
  have "jget [(field_name f, JInt n)] (field_name f') = opt_int ((empty_policy(f := Some n)) f')" for f'
    by (simp add: empty_policy_def)
  moreover have "policy_wf (empty_policy(f := Some n))"
    using assms by (auto simp: policy_wf_def limit_ok_def empty_policy_def)
  ultimately show ?thesis by (simp add: normalize_policy_Inr_iff)
qed

lemma normalize_JNull: "normalize_policy path JNull = Inr empty_policy"
  by (simp add: normalize_policy_Inr_iff) (simp add: empty_policy_def)

lemma tasks_max_bound: "n \<le> 100000 \<Longrightarrow> n \<le> MAXIMUMS Tasks_max"
  by (simp add: MAXIMUMS_def JS_SAFE_INTEGER_def)

lemmas normalize_tasks = normalize_single [where f = Tasks_max, simplified field_name.simps]

theorem resolve_policy_greatest_lower_bound_witness:
  "\<exists>effective origins g r.
     resolve_policy (JObj [(''tasks_max'', JInt 9)]) (JObj [(''tasks_max'', JInt 5)]) =
       Inr (effective, origins) \<and>
     normalize_policy ''$.settings.resource_limits'' (JObj [(''tasks_max'', JInt 9)]) = Inr g \<and>
     tighter (effective Tasks_max) (g Tasks_max) \<and> origins Tasks_max = Recipe"
proof -
  let ?g = "JObj [(''tasks_max'', JInt 9)]" and ?r = "JObj [(''tasks_max'', JInt 5)]"
  have h: "resolve_policy ?g ?r =
      Inr (resolve_limits (empty_policy(Tasks_max := Some 9)) (empty_policy(Tasks_max := Some 5)))"
    by (simp add: resolve_policy_def normalize_tasks tasks_max_bound)
  obtain e os where eo: "resolve_policy ?g ?r = Inr (e, os)"
    and vals: "e Tasks_max = Some 5" "os Tasks_max = Recipe"
    unfolding h by (simp add: resolve_limits_def)
  from resolve_policy_greatest_lower_bound [OF eo] vals eo show ?thesis
    by (metis tighter.simps(3) order_refl)
qed

text \<open>A CPU percentage is accepted exactly in range and its microsecond quota always fits
  the unsigned 64-bit D-Bus property: the overflow check after the multiplication never fires.\<close>

theorem cpu_quota_fits_uint64:
  "cpu_quota_usec j = Inr u \<longleftrightarrow>
     (\<exists>n. j = JInt n \<and> 0 < n \<and> n \<le> MAXIMUMS Cpu_quota_percent \<and> u = n * 10000 \<and> u < 2 ^ 64)"
proof -
  have keys: "''cpu_quota_percent'' \<in> range field_name"
    by (metis field_name.simps(3) rangeI)
  have norm: "normalize_policy p (JObj [(''cpu_quota_percent'', JInt n)]) =
      Inr (empty_policy(Cpu_quota_percent := Some n))"
    if "0 < n" "n \<le> MAXIMUMS Cpu_quota_percent" for p n
  proof -
    have "jget [(''cpu_quota_percent'', JInt n)] (field_name f) =
        opt_int ((empty_policy(Cpu_quota_percent := Some n)) f)" for f
      by (cases f) (simp_all add: empty_policy_def)
    moreover have "policy_wf (empty_policy(Cpu_quota_percent := Some n))"
      using that by (auto simp: policy_wf_def limit_ok_def empty_policy_def)
    ultimately show ?thesis using keys by (simp add: normalize_policy_Inr_iff)
  qed
  have only: "\<exists>n. j = JInt n \<and> c Cpu_quota_percent = Some n \<and> 0 < n \<and> n \<le> MAXIMUMS Cpu_quota_percent"
    if "normalize_policy p (JObj [(''cpu_quota_percent'', j)]) = Inr c" "c Cpu_quota_percent \<noteq> None" for p c
  proof -
    from that(1) have "jget [(''cpu_quota_percent'', j)] (field_name Cpu_quota_percent) =
        opt_int (c Cpu_quota_percent)" and "limit_ok Cpu_quota_percent (c Cpu_quota_percent)"
      unfolding normalize_policy_Inr_iff policy_wf_def by blast+
    with that(2) show ?thesis by (auto simp: limit_ok_def)
  qed
  have small: "n * 10000 \<le> DBUS_UINT64_MAX" if "n \<le> MAXIMUMS Cpu_quota_percent" for n
    using that by (simp add: MAXIMUMS_def DBUS_UINT64_MAX_def JS_SAFE_INTEGER_def)
  show ?thesis
  proof
    assume "cpu_quota_usec j = Inr u"
    then show "\<exists>n. j = JInt n \<and> 0 < n \<and> n \<le> MAXIMUMS Cpu_quota_percent \<and> u = n * 10000 \<and> u < 2 ^ 64"
      by (auto simp: cpu_quota_usec_def bind_r_Inr_iff Let_def not_less DBUS_UINT64_MAX_def
          split: option.splits if_splits dest!: only)
  next
    assume "\<exists>n. j = JInt n \<and> 0 < n \<and> n \<le> MAXIMUMS Cpu_quota_percent \<and> u = n * 10000 \<and> u < 2 ^ 64"
    then show "cpu_quota_usec j = Inr u"
      using small by (auto simp: cpu_quota_usec_def norm Let_def not_less)
  qed
qed

lemma validate_contract_JObj:
  "validate_contract path (JObj v) = Inr w \<longleftrightarrow>
     same_keys v CONTRACT_FIELDS \<and>
     py_eq (jget v ''policy_schema_version'') (JInt 1) \<and>
     py_eq (jget v ''scope'') (JStr POLICY_SCOPE) \<and>
     is_obj (jget v ''global'') \<and> is_obj (jget v ''recipe'') \<and> is_obj (jget v ''effective'') \<and>
     (\<exists>g r. normalize_policy (path @ ''.global'') (jget v ''global'') = Inr g \<and>
        normalize_policy (path @ ''.recipe'') (jget v ''recipe'') = Inr r \<and>
        py_eq (jget v ''effective'') (policy_json (fst (resolve_limits g r))) \<and>
        py_eq (jget v ''origins'') (origins_json (snd (resolve_limits g r))) \<and>
        jget v ''enforcement_required'' = JBool (controls_of (fst (resolve_limits g r)) \<noteq> []) \<and>
        capability_ok (jget v ''admission_capability'') = Inr True \<and>
        (controls_of (fst (resolve_limits g r)) \<noteq> [] \<longrightarrow>
           capability_get (jget v ''admission_capability'') ''available'' \<noteq> JBool False \<and>
           capability_get (jget v ''admission_capability'') ''backend'' = JStr ''systemd_cgroup'') \<and>
        py_eq (capability_get (jget v ''admission_capability'') ''requested_controls'')
          (JArr (map JStr (controls_of (fst (resolve_limits g r)))))) \<and>
     w = JObj v" (is "?L \<longleftrightarrow> ?R")
proof
  assume L: ?L
  then obtain g r where g: "normalize_policy (path @ ''.global'') (jget v ''global'') = Inr g"
    and r: "normalize_policy (path @ ''.recipe'') (jget v ''recipe'') = Inr r"
    by (auto simp: validate_contract_def Let_def result_simps)
  note wf = normalize_policy_wf [OF g] normalize_policy_wf [OF r]
  show ?R
    using L g r wf resolve_limits_wf [OF wf]
    by (auto simp: validate_contract_def Let_def result_simps split_beta simp del: py_eq.simps)
next
  assume R: ?R
  then obtain g r where g: "normalize_policy (path @ ''.global'') (jget v ''global'') = Inr g"
    and r: "normalize_policy (path @ ''.recipe'') (jget v ''recipe'') = Inr r"
    by blast
  note wf = normalize_policy_wf [OF g] normalize_policy_wf [OF r]
  show ?L
    using R g r wf resolve_limits_wf [OF wf]
    by (auto simp: validate_contract_def Let_def split_beta simp del: py_eq.simps)
qed

lemma admission_contract_accepted:
  assumes "normalize_policy ''$.settings.resource_limits'' gj = Inr g"
    and "normalize_policy ''$.recipe.resource_limits'' rj = Inr r"
    and "backend \<in> {''systemd_cgroup'', ''process_group'', ''not_evaluated''}"
    and "length reason \<le> 500"
    and "fst (resolve_limits g r) = empty_policy \<or> available \<and> backend = ''systemd_cgroup''"
  shows "\<exists>c. admission_contract gj rj
      (JObj [(''backend'', JStr backend), (''available'', JBool available),
        (''requested_controls'', JArr (map JStr (controls_of (fst (resolve_limits g r))))),
        (''reason'', JStr reason)]) = Inr c \<and>
      validate_contract path c = Inr c"
proof -
  note wf = normalize_policy_wf [OF assms(1)] normalize_policy_wf [OF assms(2)]
  let ?e = "fst (resolve_limits g r)" and ?o = "snd (resolve_limits g r)"
  let ?cap = "JObj [(''backend'', JStr backend), (''available'', JBool available),
        (''requested_controls'', JArr (map JStr (controls_of ?e))), (''reason'', JStr reason)]"
  let ?v = "[(''policy_schema_version'', JInt 1), (''scope'', JStr POLICY_SCOPE),
       (''global'', policy_json g), (''recipe'', policy_json r), (''effective'', policy_json ?e),
       (''origins'', origins_json ?o), (''enforcement_required'', JBool (controls_of ?e \<noteq> [])),
       (''admission_capability'', ?cap)]"
  have adm: "admission_contract gj rj ?cap = Inr (JObj ?v)"
    using assms(1,2) wf resolve_limits_wf [OF wf]
    by (simp add: admission_contract_def split_beta)
  have obj: "is_obj (policy_json p)" for p by (simp add: policy_json_def)
  have cap: "capability_ok ?cap = Inr True"
    using assms(3,4) by (auto simp: same_keys_def CAPABILITY_FIELDS_def)
  have refl: "py_eq (policy_json ?e) (policy_json ?e)" "py_eq (origins_json ?o) (origins_json ?o)"
    "py_eq (JArr (map JStr (controls_of ?e))) (JArr (map JStr (controls_of ?e)))"
    by (auto intro!: py_eq_refl simp del: py_eq.simps)
  have "validate_contract path (JObj ?v) = Inr (JObj ?v)"
    unfolding validate_contract_JObj
    using wf resolve_limits_wf [OF wf] obj cap refl assms(5)
    by (auto simp: same_keys_def CONTRACT_FIELDS_def controls_of_Nil_iff simp del: capability_ok.simps)
  with adm show ?thesis by blast
qed

lemma default_contract_accepted: "\<exists>c. default_contract = Inr c \<and> validate_contract path c = Inr c"
proof -
  have e: "fst (resolve_limits empty_policy empty_policy) = empty_policy"
    by (auto simp: resolve_limits_def empty_policy_def fun_eq_iff)
  have "length ''no finite resource control was requested'' \<le> 500" by simp
  from admission_contract_accepted [of "policy_json empty_policy" empty_policy "policy_json empty_policy"
      empty_policy "''not_evaluated''" _ True path, OF _ _ _ this] e
  show ?thesis
    by (simp add: default_contract_def default_capability_def controls_of_Nil_iff [THEN iffD2])
qed

text \<open>Validation of a persisted contract is fail-closed: an accepted contract is returned
  unchanged, its effective policy and origins equal (as Python values) what its global and
  Recipe policies resolve to, and a finite effective policy has an available systemd/cgroup
  admission capability that lists exactly the requested controls.\<close>

theorem validate_contract_sound:
  assumes "validate_contract path doc = Inr w"
  shows "\<exists>v g r. doc = JObj v \<and> w = doc \<and>
    normalize_policy (path @ ''.global'') (jget v ''global'') = Inr g \<and>
    normalize_policy (path @ ''.recipe'') (jget v ''recipe'') = Inr r \<and>
    py_eq (jget v ''effective'') (policy_json (fst (resolve_limits g r))) \<and>
    py_eq (jget v ''origins'') (origins_json (snd (resolve_limits g r))) \<and>
    (fst (resolve_limits g r) \<noteq> empty_policy \<longrightarrow>
       capability_get (jget v ''admission_capability'') ''available'' = JBool True \<and>
       capability_get (jget v ''admission_capability'') ''backend'' = JStr ''systemd_cgroup'') \<and>
    py_eq (capability_get (jget v ''admission_capability'') ''requested_controls'')
       (JArr (map JStr (controls_of (fst (resolve_limits g r)))))"
proof -
  obtain v where v: "doc = JObj v"
    using assms by (cases doc) (auto simp: validate_contract_def)
  have avail: "\<exists>b. capability_get c ''available'' = JBool b" if "capability_ok c = Inr True" for c
    using that by (cases c) (auto simp: result_simps split: if_splits json.splits)
  show ?thesis
    using assms unfolding v validate_contract_JObj
    by (auto simp: controls_of_Nil_iff dest: avail simp del: py_eq.simps)
qed

theorem validate_contract_sound_witness:
  "\<exists>c w v. admission_contract (JObj [(''tasks_max'', JInt 64)]) JNull
       (JObj [(''backend'', JStr ''systemd_cgroup''), (''available'', JBool True),
         (''requested_controls'', JArr [JStr ''tasks'']), (''reason'', JStr ''ready'')]) = Inr c \<and>
     validate_contract ''$.resource_limits'' c = Inr w \<and> c = JObj v \<and> w = c"
proof -
  have e: "fst (resolve_limits (empty_policy(Tasks_max := Some 64)) empty_policy) =
      empty_policy(Tasks_max := Some 64)"
    by (auto simp: resolve_limits_def empty_policy_def fun_eq_iff)
  have c: "controls_of (empty_policy(Tasks_max := Some 64)) = [''tasks'']"
    by (simp add: controls_of_def FIELDS_def empty_policy_def)
  obtain c where adm: "admission_contract (JObj [(''tasks_max'', JInt 64)]) JNull
       (JObj [(''backend'', JStr ''systemd_cgroup''), (''available'', JBool True),
         (''requested_controls'', JArr [JStr ''tasks'']), (''reason'', JStr ''ready'')]) = Inr c"
    and val: "validate_contract ''$.resource_limits'' c = Inr c"
    using admission_contract_accepted [OF normalize_tasks normalize_JNull,
        where path = "''$.resource_limits''" and backend = "''systemd_cgroup''" and available = True
          and reason = "''ready''", of 64]
    by (auto simp: e c tasks_max_bound)
  from validate_contract_sound [OF val] adm val show ?thesis by blast
qed

text \<open>A contract built at admission from any valid pair of policies validates and is returned
  unchanged, provided its capability has the recorded shape, lists the effective policy's
  controls, and is an available systemd/cgroup one when the policy is finite.\<close>

theorem admission_contract_validates:
  assumes "normalize_policy ''$.settings.resource_limits'' gj = Inr g"
    and "normalize_policy ''$.recipe.resource_limits'' rj = Inr r"
    and "backend \<in> {''systemd_cgroup'', ''process_group'', ''not_evaluated''}"
    and "length reason \<le> 500"
    and "fst (resolve_limits g r) = empty_policy \<or> available \<and> backend = ''systemd_cgroup''"
  shows "\<exists>c. admission_contract gj rj
      (JObj [(''backend'', JStr backend), (''available'', JBool available),
        (''requested_controls'', JArr (map JStr (controls_of (fst (resolve_limits g r))))),
        (''reason'', JStr reason)]) = Inr c \<and>
      validate_contract path c = Inr c"
  using assms by (rule admission_contract_accepted)

theorem admission_contract_validates_witness:
  "\<exists>c. admission_contract (JObj [(''tasks_max'', JInt 64)]) JNull
       (JObj [(''backend'', JStr ''systemd_cgroup''), (''available'', JBool True),
         (''requested_controls'', JArr [JStr ''tasks'']), (''reason'', JStr ''ready'')]) = Inr c \<and>
     validate_contract ''$.resource_limits'' c = Inr c"
proof -
  have e: "fst (resolve_limits (empty_policy(Tasks_max := Some 64)) empty_policy) =
      empty_policy(Tasks_max := Some 64)"
    by (auto simp: resolve_limits_def empty_policy_def fun_eq_iff)
  have c: "controls_of (empty_policy(Tasks_max := Some 64)) = [''tasks'']"
    by (simp add: controls_of_def FIELDS_def empty_policy_def)
  show ?thesis
    using admission_contract_validates [OF normalize_tasks normalize_JNull,
        where path = "''$.resource_limits''" and backend = "''systemd_cgroup''" and available = True
          and reason = "''ready''", of 64]
    by (simp add: e c tasks_max_bound)
qed

end
