(* ===== verification/Py_Json.thy ===== *)
theory Py_Json
  imports Prelude
begin

text \<open>
  \<^verbatim>\<open>json.dumps(value, ensure_ascii=False, sort_keys=True, separators=(",", ":"))\<close> and
  \<^verbatim>\<open>str.encode("utf-8")\<close>, the two library functions under every digest of the program,
  and the proof that the text determines the value up to the order of keys.  The rendering of
  a float is left open: no float reaches a digest.  Clocks, timestamp parsing and SHA-256 are
  members of \<^verbatim>\<open>py_env\<close>, an argument of the definitions that use them.
\<close>

section \<open>Library functions the model takes as arguments\<close>

text \<open>\<^verbatim>\<open>fromisoformat s\<close>: \<^verbatim>\<open>None\<close> when it raises, else whether the result has a
  timezone and its POSIX time in microseconds.  \<^verbatim>\<open>sha256_hex b\<close>: the hexadecimal digest
  of the bytes \<^verbatim>\<open>b\<close>.  \<^verbatim>\<open>py_repr v\<close>: \<^verbatim>\<open>str(v)\<close> for a float, a list or a
  dict.\<close>

record py_env =
  fromisoformat :: "string \<Rightarrow> (bool \<times> int) option"
  sha256_hex :: "string \<Rightarrow> string"
  py_repr :: "json \<Rightarrow> string"

text \<open>\<^verbatim>\<open>str(v)\<close>, and \<^verbatim>\<open>str(v or "")\<close>\<close>

fun py_str :: "py_env \<Rightarrow> json \<Rightarrow> string" where
  "py_str env JNull = ''None''"
| "py_str env (JBool b) = (if b then ''True'' else ''False'')"
| "py_str env (JInt i) = str_int i"
| "py_str env (JStr s) = s"
| "py_str env v = py_repr env v"

definition str_or :: "py_env \<Rightarrow> json \<Rightarrow> string \<Rightarrow> string" where
  "str_or env v alt = (if truthy v then py_str env v else alt)"

lemma str_or_JStr [simp]: "str_or env (JStr s) d = (if s = [] then d else s)"
  by (simp add: str_or_def)

section \<open>Rendering\<close>

definition hex_digit :: "nat \<Rightarrow> char" where
  "hex_digit n = (if n < 10 then char_of (48 + n) else char_of (87 + n))"

definition esc_char :: "char \<Rightarrow> string" where
  "esc_char c =
     (if c = CHR 0x22 then [CHR 0x5C, CHR 0x22]
      else if c = CHR 0x5C then [CHR 0x5C, CHR 0x5C]
      else if cord c = 10 then [CHR 0x5C, CHR ''n'']
      else if cord c = 13 then [CHR 0x5C, CHR ''r'']
      else if cord c = 9 then [CHR 0x5C, CHR ''t'']
      else if cord c = 8 then [CHR 0x5C, CHR ''b'']
      else if cord c = 12 then [CHR 0x5C, CHR ''f'']
      else if cord c < 32 then
        [CHR 0x5C, CHR ''u'', CHR ''0'', CHR ''0'', hex_digit (cord c div 16), hex_digit (cord c mod 16)]
      else [c])"

definition quote :: "string \<Rightarrow> string" where
  "quote s = CHR 0x22 # concat (map esc_char s) @ [CHR 0x22]"

fun join :: "string list \<Rightarrow> string" where
  "join [] = []"
| "join [x] = x"
| "join (x # xs) = x @ CHR '','' # join xs"

fun dumps :: "json \<Rightarrow> string" where
  "dumps JNull = ''null''"
| "dumps (JBool b) = (if b then ''true'' else ''false'')"
| "dumps (JInt i) = str_int i"
| "dumps (JStr s) = quote s"
| "dumps (JArr xs) = CHR ''['' # join (map dumps xs) @ '']''"
| "dumps (JObj kvs) =
     CHR ''{'' # join (map (\<lambda>kv. quote (fst kv) @ CHR '':'' # dumps (snd kv)) (sort_key fst kvs)) @ ''}''"

text \<open>\<^verbatim>\<open>json.dumps(value, indent=2, ensure_ascii=False, sort_keys=True)\<close> at indentation
  \<^verbatim>\<open>n\<close>.\<close>

definition new_line :: "nat \<Rightarrow> string" where
  "new_line n = char_of (10 :: nat) # replicate n CHR '' ''"

fun join_lines :: "nat \<Rightarrow> string list \<Rightarrow> string" where
  "join_lines n [] = []"
| "join_lines n [x] = new_line n @ x"
| "join_lines n (x # xs) = new_line n @ x @ CHR '','' # join_lines n xs"

fun dumps_indent :: "nat \<Rightarrow> json \<Rightarrow> string" where
  "dumps_indent n (JArr xs) =
     (if xs = [] then ''[]''
      else CHR ''['' # join_lines (n + 2) (map (dumps_indent (n + 2)) xs) @ new_line n @ '']'')"
| "dumps_indent n (JObj kvs) =
     (if kvs = [] then ''{}''
      else CHR ''{'' # join_lines (n + 2)
        (map (\<lambda>kv. quote (fst kv) @ '': '' @ dumps_indent (n + 2) (snd kv)) (sort_key fst kvs)) @ new_line n @ ''}'')"
| "dumps_indent n v = dumps v"

text \<open>UTF-8: a code point from 128 to 255 takes two bytes.\<close>

definition utf8_char :: "char \<Rightarrow> string" where
  "utf8_char c =
     (if cord c < 128 then [c] else [char_of (192 + cord c div 64), char_of (128 + cord c mod 64)])"

definition utf8 :: "string \<Rightarrow> string" where
  "utf8 s = concat (map utf8_char s)"

section \<open>The text determines the value\<close>

text \<open>Values without a float, and their form with sorted keys.\<close>

fun no_float :: "json \<Rightarrow> bool" where
  "no_float (JFloat _) = False"
| "no_float (JArr xs) = (\<forall>x \<in> set xs. no_float x)"
| "no_float (JObj kvs) = (\<forall>kv \<in> set kvs. no_float (snd kv))"
| "no_float _ = True"

fun canon :: "json \<Rightarrow> json" where
  "canon (JArr xs) = JArr (map canon xs)"
| "canon (JObj kvs) = JObj (map (\<lambda>kv. (fst kv, canon (snd kv))) (sort_key fst kvs))"
| "canon v = v"

text \<open>The first escaped character of a text can be read back.\<close>

definition hex_val :: "char \<Rightarrow> nat" where
  "hex_val c = (if cord c < 58 then cord c - 48 else cord c - 87)"

definition unesc_head :: "string \<Rightarrow> char \<times> string" where
  "unesc_head s =
     (if hd s \<noteq> CHR 0x5C then (hd s, tl s)
      else let k = s ! 1 in
        if k = CHR ''n'' then (char_of (10 :: nat), drop 2 s)
        else if k = CHR ''r'' then (char_of (13 :: nat), drop 2 s)
        else if k = CHR ''t'' then (char_of (9 :: nat), drop 2 s)
        else if k = CHR ''b'' then (char_of (8 :: nat), drop 2 s)
        else if k = CHR ''f'' then (char_of (12 :: nat), drop 2 s)
        else if k = CHR ''u'' then (char_of (16 * hex_val (s ! 4) + hex_val (s ! 5)), drop 6 s)
        else (k, drop 2 s))"

lemma hex_val_digit [simp]: "n < 16 \<Longrightarrow> hex_val (hex_digit n) = n"
  by (simp add: hex_digit_def hex_val_def)

lemma cord_eqD: "cord c = n \<Longrightarrow> c = char_of n"
  by auto

lemma unesc_head_esc: "unesc_head (esc_char c @ x) = (c, x)"
proof -
  have dm: "c = char_of (16 * (cord c div 16) + cord c mod 16)"
    by simp
  show ?thesis
    by (auto simp: unesc_head_def esc_char_def Let_def dest: cord_eqD)
qed

lemma esc_char_prefix: "esc_char c @ x = esc_char d @ y \<Longrightarrow> c = d \<and> x = y"
  by (metis unesc_head_esc Pair_inject)

lemma esc_char_not_quote: "esc_char c @ x \<noteq> CHR 0x22 # y"
  by (auto simp: esc_char_def)

lemma esc_prefix:
  "concat (map esc_char s) @ CHR 0x22 # x = concat (map esc_char t) @ CHR 0x22 # y \<Longrightarrow> s = t \<and> x = y"
proof (induction s arbitrary: t)
  case Nil
  then show ?case
    by (cases t) (auto dest: esc_char_not_quote [THEN notE, OF sym])
next
  case (Cons c s)
  show ?case
  proof (cases t)
    case Nil
    with Cons.prems show ?thesis
      using esc_char_not_quote [of c "concat (map esc_char s) @ CHR 0x22 # x" y] by simp
  next
    case (Cons d t')
    with Cons.prems have "c = d \<and> concat (map esc_char s) @ CHR 0x22 # x = concat (map esc_char t') @ CHR 0x22 # y"
      by (auto dest: esc_char_prefix)
    with Cons.IH Cons show ?thesis by blast
  qed
qed

lemma quote_prefix: "quote s @ x = quote t @ y \<Longrightarrow> s = t \<and> x = y"
  by (auto simp: quote_def dest: esc_prefix)

lemma digits_of_dec: "list_all is_dec (digits_of n)"
proof (induction n rule: digits_of.induct)
  case (1 n)
  then show ?case
    by (cases "n < 10") (simp_all add: digits_of.simps [of n], simp_all add: is_dec_def in_range_def)
qed

lemma digits_of_ne [simp]: "digits_of n \<noteq> []"
  by (subst digits_of.simps) simp

lemma digits_of_inject: "digits_of m = digits_of n \<Longrightarrow> m = n"
proof (induction m arbitrary: n rule: digits_of.induct)
  case (1 m)
  show ?case
  proof (cases "m < 10 \<or> n < 10")
    case True
    with 1(2) show ?thesis
      by (auto simp: digits_of.simps [of m] digits_of.simps [of n] append_eq_Cons_conv
          Cons_eq_append_conv split: if_splits dest!: arg_cong [where f = cord])
  next
    case False
    with 1(2) have "digits_of (m div 10) = digits_of (n div 10)" "48 + m mod 10 = 48 + n mod 10"
      by (auto simp: digits_of.simps [of m] digits_of.simps [of n] dest!: arg_cong [where f = cord])
    with 1(1) False have "m div 10 = n div 10" "m mod 10 = n mod 10" by auto
    then show ?thesis by (metis div_mult_mod_eq)
  qed
qed

text \<open>What may follow a rendered value inside a document.\<close>

definition delim :: "string \<Rightarrow> bool" where
  "delim r = (r = [] \<or> hd r \<in> set '',]}'')"

lemma delim_simps [simp]: "delim (CHR '','' # r)" "delim (CHR '']'' # r)" "delim (CHR ''}'' # r)" "delim []"
  by (simp_all add: delim_def)

lemma delim_not_dec: "delim (c # r) \<Longrightarrow> \<not> is_dec c"
  by (auto simp: delim_def is_dec_def in_range_def cord_def)

lemma all_prefix_inject:
  assumes "list_all P a" "list_all P b" "\<And>c s. x = c # s \<Longrightarrow> \<not> P c" "\<And>c s. y = c # s \<Longrightarrow> \<not> P c"
    and "a @ x = b @ y"
  shows "a = b \<and> x = y"
  using assms
proof (induction a arbitrary: b)
  case Nil
  then show ?case by (cases b) auto
next
  case (Cons c a)
  then show ?case by (cases b) auto
qed

lemma digits_of_hd: "digits_of n = c # s \<Longrightarrow> is_dec c"
  using digits_of_dec [of n] by simp

lemma str_int_prefix:
  assumes "str_int i @ x = str_int j @ y" "delim x" "delim y"
  shows "i = j \<and> x = y"
proof -
  have sep: "m = n \<and> x = y" if "digits_of m @ x = digits_of n @ y" for m n
  proof -
    have "digits_of m = digits_of n \<and> x = y"
      using assms(2,3) that
      by (intro all_prefix_inject [of is_dec]) (auto simp: digits_of_dec dest: delim_not_dec)
    then show ?thesis by (auto dest: digits_of_inject)
  qed
  have minus: "digits_of m @ x' \<noteq> CHR ''-'' # z" for m x' z
  proof
    assume "digits_of m @ x' = CHR ''-'' # z"
    then have "is_dec CHR ''-''"
      by (cases "digits_of m") (auto dest: digits_of_hd)
    then show False by (simp add: is_dec_def in_range_def cord_def)
  qed
  show ?thesis
  proof (cases "i < 0"; cases "j < 0")
    assume "i < 0" "j < 0"
    with assms(1) sep [of "nat (- i)" "nat (- j)"] show ?thesis by (auto simp: str_int_def eq_nat_nat_iff)
  next
    assume "\<not> i < 0" "\<not> j < 0"
    with assms(1) sep [of "nat i" "nat j"] show ?thesis by (auto simp: str_int_def eq_nat_nat_iff)
  qed (use assms(1) minus in \<open>simp_all add: str_int_def, metis+\<close>)
qed

lemma str_int_hd: "\<exists>c s. str_int i = c # s \<and> (is_dec c \<or> c = CHR ''-'')"
proof -
  obtain c s where "digits_of (nat i) = c # s" by (cases "digits_of (nat i)") auto
  then show ?thesis by (auto simp: str_int_def dest: digits_of_hd)
qed

text \<open>The kind of a value shows in the first character of its text.\<close>

fun json_kind :: "json \<Rightarrow> nat" where
  "json_kind JNull = 0"
| "json_kind (JBool True) = 1"
| "json_kind (JBool False) = 2"
| "json_kind (JInt _) = 3"
| "json_kind (JFloat _) = 4"
| "json_kind (JStr _) = 5"
| "json_kind (JArr _) = 6"
| "json_kind (JObj _) = 7"

definition kind_of_char :: "char \<Rightarrow> nat" where
  "kind_of_char c =
     (if c = CHR ''n'' then 0 else if c = CHR ''t'' then 1 else if c = CHR ''f'' then 2
      else if c = CHR 0x22 then 5 else if c = CHR ''['' then 6 else if c = CHR ''{'' then 7 else 3)"

lemma kind_dumps: "no_float v \<Longrightarrow> \<exists>c s. dumps v = c # s \<and> kind_of_char c = json_kind v"
proof (cases v)
  case (JBool b)
  then show ?thesis by (cases b) (auto simp: kind_of_char_def)
next
  case (JInt i)
  obtain c s where "str_int i = c # s" "is_dec c \<or> c = CHR ''-''" using str_int_hd by blast
  with JInt show ?thesis
    by (auto simp: kind_of_char_def is_dec_def in_range_def cord_def)
qed (auto simp: kind_of_char_def quote_def)

lemma dumps_same_kind:
  assumes "dumps v @ x = dumps w @ y" "no_float v" "no_float w"
  shows "json_kind v = json_kind w"
proof -
  obtain c s d t where "dumps v = c # s" "kind_of_char c = json_kind v" "dumps w = d # t" "kind_of_char d = json_kind w"
    using kind_dumps assms(2,3) by meson
  with assms(1) show ?thesis by simp
qed

lemma dumps_not_close: "no_float v \<Longrightarrow> dumps v @ x \<noteq> CHR '']'' # y"
proof
  assume "no_float v" and eq: "dumps v @ x = CHR '']'' # y"
  show False
  proof (cases v)
    case (JInt i)
    then show False
      using eq str_int_hd [of i] by (auto simp: is_dec_def in_range_def cord_def)
  qed (use eq \<open>no_float v\<close> in \<open>auto simp: quote_def split: if_splits\<close>)
qed

lemma join_Cons: "join (x # xs) = x @ (if xs = [] then [] else CHR '','' # join xs)"
  by (cases xs) auto

text \<open>A bracketed list of texts, each of which can be told from what follows it.\<close>

lemma join_prefix:
  assumes sep: "\<And>a b x y. a \<in> set as \<Longrightarrow> b \<in> set bs \<Longrightarrow> delim x \<Longrightarrow> delim y \<Longrightarrow>
      f a @ x = f b @ y \<Longrightarrow> g a = g b \<and> x = y"
    and open_f: "\<And>a x y. a \<in> set as \<union> set bs \<Longrightarrow> f a @ x \<noteq> c # y"
    and c: "c \<in> set '']}''"
    and eq: "join (map f as) @ c # x = join (map f bs) @ c # y"
  shows "map g as = map g bs \<and> x = y"
  using sep open_f eq
proof (induction as arbitrary: bs)
  case Nil
  then show ?case
    by (cases bs) (auto simp: join_Cons dest: sym)
next
  case (Cons a as)
  show ?case
  proof (cases bs)
    case Nil
    with Cons.prems show ?thesis by (auto simp: join_Cons)
  next
    case (Cons b bs')
    let ?ra = "(if as = [] then [] else CHR '','' # join (map f as)) @ c # x"
    let ?rb = "(if bs' = [] then [] else CHR '','' # join (map f bs')) @ c # y"
    have d: "delim ?ra" "delim ?rb" using c by (auto simp: delim_def)
    have "f a @ ?ra = f b @ ?rb"
      using Cons.prems(3) Cons by (simp add: join_Cons)
    then have ab: "g a = g b" and r: "?ra = ?rb"
      using Cons.prems(1) [of a b ?ra ?rb] d Cons by auto
    show ?thesis
    proof (cases "as = [] \<or> bs' = []")
      case True
      with r c show ?thesis using ab Cons by (auto split: if_splits)
    next
      case False
      with r have "join (map f as) @ c # x = join (map f bs') @ c # y" by simp
      moreover have "\<And>a b x y. a \<in> set as \<Longrightarrow> b \<in> set bs' \<Longrightarrow> delim x \<Longrightarrow> delim y \<Longrightarrow>
          f a @ x = f b @ y \<Longrightarrow> g a = g b \<and> x = y"
        using Cons.prems(1) Cons by (metis list.set_intros(2))
      ultimately show ?thesis
        using Cons.IH [of bs'] Cons.prems(2) ab Cons by auto
    qed
  qed
qed

lemma dumps_prefix:
  "no_float v \<Longrightarrow> no_float w \<Longrightarrow> delim x \<Longrightarrow> delim y \<Longrightarrow> dumps v @ x = dumps w @ y \<Longrightarrow>
     canon v = canon w \<and> x = y"
proof (induction v arbitrary: w x y rule: dumps.induct)
  case 1
  then have "w = JNull"
    using dumps_same_kind [OF 1(5) 1(1,2)] by (cases w rule: json_kind.cases) auto
  with 1 show ?case by simp
next
  case (2 b)
  then have "w = JBool b"
    using dumps_same_kind [OF 2(5) 2(1,2)] by (cases b; cases w rule: json_kind.cases) auto
  with 2 show ?case by simp
next
  case (3 i)
  then obtain j where "w = JInt j"
    using dumps_same_kind [OF 3(5) 3(1,2)] by (cases w rule: json_kind.cases) auto
  with 3 show ?case by (auto dest: str_int_prefix)
next
  case (4 s)
  then obtain t where "w = JStr t"
    using dumps_same_kind [OF 4(5) 4(1,2)] by (cases w rule: json_kind.cases) auto
  with 4 show ?case by (auto dest: quote_prefix)
next
  case (5 vs)
  then obtain ws where w: "w = JArr ws"
    using dumps_same_kind [OF 5(6) 5(2,3)] by (cases w rule: json_kind.cases) auto
  have "map canon vs = map canon ws \<and> x = y"
  proof (rule join_prefix [where f = dumps and c = "CHR '']''"])
    fix a b x y assume "a \<in> set vs" "b \<in> set ws" "delim x" "delim y" "dumps a @ x = dumps b @ y"
    with 5 w show "canon a = canon b \<and> x = y" by auto
  next
    fix a x y assume "a \<in> set vs \<union> set ws"
    with 5 w show "dumps a @ x \<noteq> CHR '']'' # y" by (auto dest: dumps_not_close)
  qed (use 5 w in auto)
  with w show ?case by simp
next
  case (6 kvs)
  then obtain ws where w: "w = JObj ws"
    using dumps_same_kind [OF 6(6) 6(2,3)] by (cases w rule: json_kind.cases) auto
  let ?f = "\<lambda>kv. quote (fst kv) @ CHR '':'' # dumps (snd kv)"
  let ?g = "\<lambda>kv. (fst kv, canon (snd kv))"
  have "map ?g (sort_key fst kvs) = map ?g (sort_key fst ws) \<and> x = y"
  proof (rule join_prefix [where f = ?f and c = "CHR ''}''"])
    fix a b x y
    assume ab: "a \<in> set (sort_key fst kvs)" "b \<in> set (sort_key fst ws)" "delim x" "delim y" "?f a @ x = ?f b @ y"
    then have "fst a = fst b \<and> dumps (snd a) @ x = dumps (snd b) @ y"
      by (auto dest!: quote_prefix)
    then show "?g a = ?g b \<and> x = y"
      using 6(1) [of a "snd b" x y] ab(1-4) 6(2,3) w by simp
  qed (use 6 w in \<open>auto simp: quote_def\<close>)
  with w show ?case by simp
qed simp

lemma dumps_inject: "dumps v = dumps w \<Longrightarrow> no_float v \<Longrightarrow> no_float w \<Longrightarrow> canon v = canon w"
  using dumps_prefix [of v w "[]" "[]"] by simp

lemma utf8_char_prefix:
  assumes "utf8_char c @ x = utf8_char d @ y"
  shows "c = d \<and> x = y"
proof -
  have two: "c = d" if "cord c div 64 = cord d div 64" "cord c mod 64 = cord d mod 64"
    using that by (metis cord_inject div_mult_mod_eq)
  have lt: "(192 + cord e div 64) mod 256 = 192 + cord e div 64" for e
  proof -
    have "cord e div 64 < 4" using cord_less [of e] by (simp add: less_mult_imp_div_less)
    then show ?thesis by simp
  qed
  have high: "cord (char_of (192 + cord e div 64)) = 192 + cord e div 64" for e
  proof -
    have "cord e div 64 < 4" using cord_less [of e] by (simp add: less_mult_imp_div_less)
    then show ?thesis by simp
  qed
  show ?thesis
    using assms lt [of c] lt [of d] high [of c] high [of d] two unfolding utf8_char_def
    by (auto split: if_splits dest!: arg_cong [where f = cord])
qed

lemma utf8_char_ne: "utf8_char c \<noteq> []"
  by (simp add: utf8_char_def)

lemma utf8_inject: "utf8 s = utf8 t \<Longrightarrow> s = t"
proof (induction s arbitrary: t)
  case Nil
  then show ?case by (cases t) (auto simp: utf8_def utf8_char_ne)
next
  case (Cons c s)
  then obtain d t' where t: "t = d # t'"
    by (cases t) (auto simp: utf8_def utf8_char_ne)
  with Cons.prems have "c = d \<and> utf8 s = utf8 t'"
    by (auto simp: utf8_def dest!: utf8_char_prefix)
  with Cons.IH t show ?case by blast
qed

text \<open>Two objects with the same text bind the same keys to values of the same form.\<close>

lemma canon_obj_get:
  assumes "canon (JObj kvs) = canon (JObj ws)" "distinct (jkeys kvs)" "distinct (jkeys ws)"
  shows "map_option canon (map_of kvs k) = map_option canon (map_of ws k)"
proof -
  have look: "map_option canon (map_of us k) =
      map_of (map (\<lambda>kv. (fst kv, canon (snd kv))) (sort_key fst us)) k" if "distinct (jkeys us)" for us
  proof -
    have "card (set (map fst (sort_key fst us))) = length (map fst (sort_key fst us))"
      using distinct_card [OF that] by (simp add: jkeys_def)
    then have "distinct (map fst (sort_key fst us))" by (rule card_distinct)
    then have "map_of (sort_key fst us) = map_of us"
      using that by (intro map_of_inject_set [THEN iffD2]) (auto simp: jkeys_def)
    moreover have "map_of (map (\<lambda>kv. (fst kv, canon (snd kv))) zs) k = map_option canon (map_of zs k)" for zs
      by (induction zs) auto
    ultimately show ?thesis by simp
  qed
  from assms(1) look [OF assms(2)] look [OF assms(3)] show ?thesis by simp
qed

lemma dumps_obj_get:
  assumes "dumps (JObj kvs) = dumps (JObj ws)" "no_float (JObj kvs)" "no_float (JObj ws)"
    and "distinct (jkeys kvs)" "distinct (jkeys ws)"
  shows "map_option canon (map_of kvs k) = map_option canon (map_of ws k)"
  using dumps_inject [OF assms(1-3)] assms(4,5) by (rule canon_obj_get)

end
