(* ===== verification/Upstream_Identity.thy ===== *)
theory Upstream_Identity
  imports Py_Json
begin

text \<open>
  \<^verbatim>\<open>src/debbuilder/automation_identity.py\<close>: the bounded exact upstream identity that pins
  a Run, its canonical form, the checks at execution time, and the attempt key that binds it
  to one Recipe revision.  The canonical dictionary is the record \<^verbatim>\<open>identity\<close>; its
  constant members (schema version, provider) and derived members (completeness, missing
  fields) are added by \<^verbatim>\<open>identity_json\<close>.
\<close>

section \<open>Fields\<close>

record identity =
  repository :: string
  tracking :: string
  source_type :: string
  payload_kind :: string
  requested_ref :: string
  release_id :: string
  asset_id :: string
  commit_sha :: string
  ref_object_sha :: string
  resolved_ref :: string
  resolved_version :: string
  content_sha256 :: string
  asset_name :: string
  expected_size :: "int option"
  source_archive_format :: string
  expected_package :: string
  expected_architecture :: string

definition IDENTITY_FIELDS :: "string list" where
  "IDENTITY_FIELDS = [
     ''schema_version'', ''provider'', ''repository'', ''tracking'', ''source_type'',
     ''payload_kind'', ''requested_ref'', ''release_id'', ''asset_id'', ''commit_sha'',
     ''resolved_ref'', ''resolved_version'', ''content_sha256'', ''completeness'',
     ''missing_fields'', ''asset_name'', ''expected_size'', ''source_archive_format'',
     ''expected_package'', ''expected_architecture'', ''ref_object_sha'']"

definition TRACKING :: "string list" where
  "TRACKING = [''latest_release'', ''tag'', ''manual'']"

definition SOURCE_TYPES :: "string list" where
  "SOURCE_TYPES = [''release_asset'', ''github_source_archive'', ''git_ref'']"

definition PAYLOAD_KINDS :: "string list" where
  "PAYLOAD_KINDS = [''deb'', ''archive'', ''raw_file'', ''source_archive'']"

definition MAX_IDENTITY_BYTES :: nat where "MAX_IDENTITY_BYTES = 4096"
definition MAX_TEXT :: nat where "MAX_TEXT = 200"

abbreviation id_err :: "string \<Rightarrow> exn" where
  "id_err field \<equiv> Exn UpstreamIdentityError ''invalid_upstream_identity'' (''$.'' @ field)"

abbreviation id_root_err :: exn where
  "id_root_err \<equiv> Exn UpstreamIdentityError ''invalid_upstream_identity'' ''$''"

section \<open>Field readers\<close>

text \<open>\<^verbatim>\<open>_text(value, field, required=..., maximum=...)\<close>\<close>

definition id_text :: "string \<Rightarrow> bool \<Rightarrow> nat \<Rightarrow> json \<Rightarrow> string result" where
  "id_text field required maximum v =
     (if v = JNull \<and> \<not> required then Inr []
      else case (case v of JStr s \<Rightarrow> Some s | JInt i \<Rightarrow> Some (str_int i) | _ \<Rightarrow> None) of
        None \<Rightarrow> Inl (id_err field)
      | Some s \<Rightarrow>
          (let result = strip s in
           if required \<and> result = [] \<or> length result > maximum \<or> list_ex is_ctl result
           then Inl (id_err field)
           else Inr result))"

text \<open>\<^verbatim>\<open>_sha(value, field, lengths=...)\<close>; \<^verbatim>\<open>lengths\<close> is never empty.\<close>

definition id_sha :: "string \<Rightarrow> nat list \<Rightarrow> json \<Rightarrow> string result" where
  "id_sha field lengths v =
     bind_r (id_text field False (Max (set lengths)) v) (\<lambda>t.
       let result = lower t in
       if result \<noteq> [] \<and> (length result \<notin> set lengths \<or> \<not> list_all is_hex result)
       then Inl (id_err field) else Inr result)"

definition ref_ok :: "string \<Rightarrow> bool" where
  "ref_ok s =
     (\<not> (starts_with ''/'' s \<or> ends_with ''/'' s \<or> has_sub ''..'' s \<or> has_sub ''://'' s
       \<or> has_sub [CHR 0x5C] s \<or> has_sub ''@'' s \<or> has_sub ''='' s
       \<or> list_ex (\<lambda>c. c \<in> set ''~^:?*['') s \<or> list_ex is_space s))"

text \<open>\<^verbatim>\<open>_github_ref\<close>\<close>

definition id_github_ref :: "string \<Rightarrow> json \<Rightarrow> string result" where
  "id_github_ref field v =
     bind_r (id_text field False MAX_TEXT v) (\<lambda>result.
       if result \<noteq> [] \<and> \<not> ref_ok result then Inl (id_err field) else Inr result)"

definition version_ok :: "string \<Rightarrow> bool" where
  "version_ok s =
     (\<not> (has_sub ''/'' s \<or> has_sub [CHR 0x5C] s \<or> has_sub ''://'' s \<or> has_sub ''@'' s
       \<or> has_sub ''='' s \<or> list_ex is_space s))"

text \<open>\<^verbatim>\<open>_version\<close>\<close>

definition id_version :: "json \<Rightarrow> string result" where
  "id_version v =
     bind_r (id_text ''resolved_version'' False MAX_TEXT v) (\<lambda>result.
       if result \<noteq> [] \<and> \<not> version_ok result then Inl (id_err ''resolved_version'') else Inr result)"

definition MAX_SIZE :: int where "MAX_SIZE = 500 * 1024 * 1024"

text \<open>\<^verbatim>\<open>_size\<close>\<close>

definition id_size :: "json \<Rightarrow> int option result" where
  "id_size v =
     (if v = JNull \<or> v = JStr [] then Inr None
      else case v of
        JInt n \<Rightarrow> if 0 \<le> n \<and> n \<le> MAX_SIZE then Inr (Some n) else Inl (id_err ''expected_size'')
      | _ \<Rightarrow> Inl (id_err ''expected_size''))"

definition repo_ok :: "string \<Rightarrow> bool" where
  "repo_ok s =
     (let owner = takeWhile is_code_char s; rest = dropWhile is_code_char s in
      owner \<noteq> [] \<and> rest \<noteq> [] \<and> hd rest = CHR ''/'' \<and> tl rest \<noteq> [] \<and> list_all is_code_char (tl rest))"

text \<open>\<^verbatim>\<open>_required_fields\<close>, each name with the value it is looked up with.\<close>

definition required_fields :: "identity \<Rightarrow> (string \<times> string) list" where
  "required_fields i =
     (''resolved_ref'', resolved_ref i) #
     (if source_type i = ''release_asset'' then
        [(''release_id'', release_id i), (''asset_id'', asset_id i), (''asset_name'', asset_name i)] @
        (if payload_kind i = ''deb''
         then [(''expected_package'', expected_package i), (''expected_architecture'', expected_architecture i)]
         else [])
      else if source_type i = ''github_source_archive'' then
        [(''release_id'', release_id i), (''commit_sha'', commit_sha i),
         (''ref_object_sha'', ref_object_sha i), (''source_archive_format'', source_archive_format i)]
      else
        [(''requested_ref'', requested_ref i), (''commit_sha'', commit_sha i),
         (''source_archive_format'', source_archive_format i)] @
        (if tracking i = ''tag'' then [(''ref_object_sha'', ref_object_sha i)] else []))"

definition missing_fields :: "identity \<Rightarrow> string list" where
  "missing_fields i = map fst (filter (\<lambda>nv. snd nv = []) (required_fields i))"

definition identity_complete :: "identity \<Rightarrow> bool" where
  "identity_complete i = (missing_fields i = [])"

definition completeness :: "identity \<Rightarrow> string" where
  "completeness i = (if identity_complete i then ''complete'' else ''partial'')"

text \<open>The dictionary \<^verbatim>\<open>normalize_upstream_identity\<close> returns.\<close>

definition identity_items :: "identity \<Rightarrow> (string \<times> json) list" where
  "identity_items i = [
     (''schema_version'', JInt 1),
     (''provider'', JStr ''github''),
     (''repository'', JStr (repository i)),
     (''tracking'', JStr (tracking i)),
     (''source_type'', JStr (source_type i)),
     (''payload_kind'', JStr (payload_kind i)),
     (''requested_ref'', JStr (requested_ref i)),
     (''release_id'', JStr (release_id i)),
     (''asset_id'', JStr (asset_id i)),
     (''commit_sha'', JStr (commit_sha i)),
     (''ref_object_sha'', JStr (ref_object_sha i)),
     (''resolved_ref'', JStr (resolved_ref i)),
     (''resolved_version'', JStr (resolved_version i)),
     (''content_sha256'', JStr (content_sha256 i)),
     (''asset_name'', JStr (asset_name i)),
     (''expected_size'', opt_int (expected_size i)),
     (''source_archive_format'', JStr (source_archive_format i)),
     (''expected_package'', JStr (expected_package i)),
     (''expected_architecture'', JStr (expected_architecture i)),
     (''completeness'', JStr (completeness i)),
     (''missing_fields'', JArr (map JStr (missing_fields i)))]"

definition identity_json :: "identity \<Rightarrow> json" where
  "identity_json i = JObj (identity_items i)"

text \<open>\<^verbatim>\<open>canonical_identity_bytes(value, _normalized=True)\<close>\<close>

definition canonical_identity_bytes :: "identity \<Rightarrow> string" where
  "canonical_identity_bytes i = utf8 (dumps (identity_json i))"

section \<open>Normalization\<close>

text \<open>The enumerations and their combinations, lines 124 to 138.\<close>

definition kind_checks :: "string \<Rightarrow> string \<Rightarrow> string \<Rightarrow> (bool \<times> exn) list" where
  "kind_checks tr st pk = [
     (tr \<notin> set TRACKING \<or> st \<notin> set SOURCE_TYPES \<or> pk \<notin> set PAYLOAD_KINDS, id_root_err),
     (tr = ''latest_release'' \<and> st \<notin> {''release_asset'', ''github_source_archive''}, id_err ''source_type''),
     (tr \<in> {''tag'', ''manual''} \<and> st \<noteq> ''git_ref'', id_err ''source_type''),
     (st = ''release_asset'' \<and> pk \<notin> {''deb'', ''archive'', ''raw_file''}, id_err ''payload_kind''),
     (st = ''github_source_archive'' \<and> pk \<noteq> ''source_archive'', id_err ''payload_kind''),
     (st = ''git_ref'' \<and> pk \<noteq> ''source_archive'', id_err ''payload_kind'')]"

text \<open>The cross-field guards on the normalized dictionary, lines 160 to 197.\<close>

definition shape_checks :: "identity \<Rightarrow> (bool \<times> exn) list" where
  "shape_checks i = [
     (release_id i \<noteq> [] \<and> \<not> list_all is_py_digit (release_id i), id_err ''release_id''),
     (asset_id i \<noteq> [] \<and> \<not> list_all is_py_digit (asset_id i), id_err ''asset_id''),
     (source_archive_format i \<noteq> [] \<and> source_archive_format i \<notin> {''tar.gz'', ''zip''},
        id_err ''source_archive_format''),
     (expected_architecture i \<noteq> [] \<and>
        expected_architecture i \<notin> {''all'', ''amd64'', ''arm64'', ''armhf''}, id_err ''expected_architecture''),
     (source_type i = ''release_asset'' \<and>
        (requested_ref i \<noteq> [] \<or> commit_sha i \<noteq> [] \<or> ref_object_sha i \<noteq> [] \<or> source_archive_format i \<noteq> []),
        id_root_err),
     (source_type i = ''github_source_archive'' \<and>
        (requested_ref i \<noteq> [] \<or> asset_id i \<noteq> [] \<or> asset_name i \<noteq> [] \<or> expected_size i \<noteq> None
         \<or> expected_package i \<noteq> [] \<or> expected_architecture i \<noteq> []), id_root_err),
     (source_type i = ''git_ref'' \<and>
        (release_id i \<noteq> [] \<or> asset_id i \<noteq> [] \<or> asset_name i \<noteq> [] \<or> expected_size i \<noteq> None
         \<or> expected_package i \<noteq> [] \<or> expected_architecture i \<noteq> [] \<or> content_sha256 i \<noteq> []), id_root_err),
     (source_type i = ''git_ref'' \<and> tracking i = ''manual'' \<and> ref_object_sha i \<noteq> [], id_err ''ref_object_sha''),
     (source_type i = ''release_asset'' \<and> payload_kind i \<noteq> ''deb'' \<and>
        (expected_package i \<noteq> [] \<or> expected_architecture i \<noteq> []), id_root_err),
     (asset_name i \<noteq> [] \<and>
        (asset_name i \<in> {''.'', ''..''} \<or> has_sub ''/'' (asset_name i) \<or> has_sub [CHR 0x5C] (asset_name i)),
        id_err ''asset_name'')]"

text \<open>The declared completeness and the size bound, lines 198 to 216.\<close>

definition declared_checks :: "(string \<times> json) list \<Rightarrow> identity \<Rightarrow> (bool \<times> exn) list" where
  "declared_checks kvs i = [
     ((case map_of kvs ''completeness'' of None \<Rightarrow> False
       | Some v \<Rightarrow> \<not> py_eq v (JStr (completeness i))),
        Exn UpstreamIdentityError ''upstream_identity_completeness_mismatch'' ''$.completeness''),
     ((case map_of kvs ''missing_fields'' of None \<Rightarrow> False
       | Some v \<Rightarrow> v \<noteq> JArr (map JStr (missing_fields i))),
        Exn UpstreamIdentityError ''upstream_identity_completeness_mismatch'' ''$.missing_fields''),
     (length (canonical_identity_bytes i) > MAX_IDENTITY_BYTES,
        Exn UpstreamIdentityError ''upstream_identity_too_large'' ''$'')]"

definition schema_version_check :: "(string \<times> json) list \<Rightarrow> exn + unit" where
  "schema_version_check kvs =
     (let version = (case map_of kvs ''schema_version'' of None \<Rightarrow> JInt 1 | Some v \<Rightarrow> v) in
      if \<not> py_eq version (JInt 1) \<or> (\<exists>b \<in> {True, False}. version = JBool b)
      then Inl (Exn UpstreamIdentityError
        (case version of JInt n \<Rightarrow> if n > 1 then ''future_upstream_identity_version''
           else ''invalid_upstream_identity_version''
         | _ \<Rightarrow> ''invalid_upstream_identity_version'') ''$.schema_version'')
      else Inr ())"

text \<open>From the provider to the dictionary \<^verbatim>\<open>normalized\<close>, lines 118 to 159.\<close>

definition read_identity :: "(string \<times> json) list \<Rightarrow> identity result" where
  "read_identity kvs =
     bind_r (id_text ''provider'' True 32 (jget kvs ''provider'')) (\<lambda>provider.
     if lower provider \<noteq> ''github'' then Inl (id_err ''provider'') else
     bind_r (id_text ''repository'' True MAX_TEXT (jget kvs ''repository'')) (\<lambda>repo.
     if \<not> repo_ok (lower repo) then Inl (id_err ''repository'') else
     bind_r (id_text ''tracking'' True 32 (jget kvs ''tracking'')) (\<lambda>tr.
     bind_r (id_text ''source_type'' True 32 (jget kvs ''source_type'')) (\<lambda>st.
     bind_r (id_text ''payload_kind'' True 32 (jget kvs ''payload_kind'')) (\<lambda>pk.
     bind_r (raise_first (kind_checks tr st pk)) (\<lambda>_.
     bind_r (id_github_ref ''requested_ref'' (jget kvs ''requested_ref'')) (\<lambda>requested.
     bind_r (id_text ''release_id'' False 40 (jget kvs ''release_id'')) (\<lambda>release.
     bind_r (id_text ''asset_id'' False 40 (jget kvs ''asset_id'')) (\<lambda>asset.
     bind_r (id_sha ''commit_sha'' [40, 64] (jget kvs ''commit_sha'')) (\<lambda>commit.
     bind_r (id_sha ''ref_object_sha'' [40, 64] (jget kvs ''ref_object_sha'')) (\<lambda>ref_object.
     bind_r (id_github_ref ''resolved_ref'' (jget kvs ''resolved_ref'')) (\<lambda>resolved.
     bind_r (id_version (jget kvs ''resolved_version'')) (\<lambda>version.
     bind_r (id_sha ''content_sha256'' [64] (jget kvs ''content_sha256'')) (\<lambda>content.
     bind_r (id_text ''asset_name'' False MAX_TEXT (jget kvs ''asset_name'')) (\<lambda>name.
     bind_r (id_size (jget kvs ''expected_size'')) (\<lambda>bytes.
     bind_r (id_text ''source_archive_format'' False 16 (jget kvs ''source_archive_format'')) (\<lambda>format.
     bind_r (id_text ''expected_package'' False MAX_TEXT (jget kvs ''expected_package'')) (\<lambda>package.
     bind_r (id_text ''expected_architecture'' False 16 (jget kvs ''expected_architecture'')) (\<lambda>arch.
     Inr \<lparr>repository = lower repo, tracking = tr, source_type = st, payload_kind = pk,
       requested_ref = requested, release_id = release, asset_id = asset, commit_sha = commit,
       ref_object_sha = ref_object, resolved_ref = resolved, resolved_version = version,
       content_sha256 = content, asset_name = name, expected_size = bytes,
       source_archive_format = format, expected_package = package,
       expected_architecture = arch\<rparr>)))))))))))))))))))"

definition normalize_upstream_identity :: "json \<Rightarrow> identity result" where
  "normalize_upstream_identity doc =
     (case doc of
        JObj kvs \<Rightarrow>
          (case first_unknown IDENTITY_FIELDS (jkeys kvs) of
             Some k \<Rightarrow> Inl (Exn UpstreamIdentityError ''unsafe_upstream_identity_field'' (''$.'' @ k))
           | None \<Rightarrow>
               bind_r (schema_version_check kvs) (\<lambda>_.
               bind_r (read_identity kvs) (\<lambda>normalized.
               bind_r (raise_first (shape_checks normalized)) (\<lambda>_.
               bind_r (raise_first (declared_checks kvs normalized)) (\<lambda>_.
               Inr normalized)))))
      | _ \<Rightarrow> Inl id_root_err)"

definition identity_is_complete :: "json \<Rightarrow> bool result" where
  "identity_is_complete doc = bind_r (normalize_upstream_identity doc) (\<lambda>i. Inr (identity_complete i))"

section \<open>Execution-time checks\<close>

text \<open>\<^verbatim>\<open>verify_expected_upstream_identity(expected, actual)\<close>; the result \<^verbatim>\<open>{}\<close> of the
  unpinned branch is \<^verbatim>\<open>None\<close>.\<close>

definition verify_expected_upstream_identity :: "json option \<Rightarrow> json \<Rightarrow> identity option result" where
  "verify_expected_upstream_identity expected actual =
     (case expected of
        None \<Rightarrow> if truthy actual then bind_r (normalize_upstream_identity actual) (\<lambda>i. Inr (Some i))
                else Inr None
      | Some want \<Rightarrow>
          (case normalize_upstream_identity actual of
             Inl e \<Rightarrow>
               if exn_code e = ''upstream_identity_completeness_mismatch''
               then Inl (Exn UpstreamIdentityError ''upstream_identity_changed'' ''$.upstream_identity'')
               else Inl e
           | Inr normalized \<Rightarrow>
               bind_r (normalize_upstream_identity want) (\<lambda>wanted.
                 if \<not> identity_complete wanted \<or> \<not> identity_complete normalized
                 then Inl (Exn UpstreamIdentityError ''incomplete_upstream_identity'' ''$.upstream_identity'')
                 else if canonical_identity_bytes wanted \<noteq> canonical_identity_bytes normalized
                 then Inl (Exn UpstreamIdentityError ''upstream_identity_changed'' ''$.upstream_identity'')
                 else Inr (Some normalized))))"

definition verify_acquired_payload :: "json \<Rightarrow> int \<Rightarrow> string \<Rightarrow> unit result" where
  "verify_acquired_payload identity_doc payload_size sha256 =
     bind_r (normalize_upstream_identity identity_doc) (\<lambda>i.
       if source_type i \<noteq> ''release_asset'' then Inr ()
       else if expected_size i \<noteq> None \<and> expected_size i \<noteq> Some payload_size
         then Inl (Exn UpstreamIdentityError ''upstream_payload_size_mismatch'' ''$.expected_size'')
       else if content_sha256 i \<noteq> [] \<and> lower sha256 \<noteq> content_sha256 i
         then Inl (Exn UpstreamIdentityError ''upstream_payload_checksum_mismatch'' ''$.content_sha256'')
       else Inr ())"

section \<open>Attempt keys\<close>

definition valid_recipe_id :: "string \<Rightarrow> bool" where
  "valid_recipe_id s = matches is_name_char 1 128 s"

definition attempt_payload :: "string \<Rightarrow> identity \<Rightarrow> string \<Rightarrow> json" where
  "attempt_payload recipe_id i recipe_sha256 = JObj [
     (''schema_version'', JInt 1),
     (''recipe_id'', JStr recipe_id),
     (''recipe_sha256'', JStr (lower recipe_sha256)),
     (''upstream_identity'', identity_json i)]"

definition automation_attempt_key :: "py_env \<Rightarrow> string \<Rightarrow> json \<Rightarrow> string \<Rightarrow> string result" where
  "automation_attempt_key env recipe_id identity_doc recipe_sha256 =
     (if \<not> valid_recipe_id recipe_id
      then Inl (Exn UpstreamIdentityError ''invalid_attempt_recipe'' ''$.recipe_id'')
      else if \<not> matches is_hex_any 64 64 recipe_sha256
      then Inl (Exn UpstreamIdentityError ''invalid_attempt_recipe_sha256'' ''$.recipe_sha256'')
      else bind_r (normalize_upstream_identity identity_doc) (\<lambda>normalized.
        if \<not> identity_complete normalized
        then Inl (Exn UpstreamIdentityError ''incomplete_upstream_identity'' ''$.upstream_identity'')
        else Inr (''automation-v1-'' @
          sha256_hex env (utf8 (dumps (attempt_payload recipe_id normalized recipe_sha256))))))"

section \<open>Identities of the two source kinds\<close>

text \<open>What the constructors read of a validated Recipe.\<close>

record recipe_source =
  source_repository :: string
  source_tracking :: string
  source_ref :: json
  package_name :: string
  artifact_architecture :: string

text \<open>\<^verbatim>\<open>a or b\<close>\<close>

definition py_or :: "json \<Rightarrow> json \<Rightarrow> json" where
  "py_or a b = (if truthy a then a else b)"

text \<open>\<^verbatim>\<open>_github_digest\<close>: only a string can match \<^verbatim>\<open>sha256:[0-9a-fA-F]{64}\<close>.\<close>

definition github_digest :: "json \<Rightarrow> string" where
  "github_digest v =
     (case v of
        JStr s \<Rightarrow> if starts_with ''sha256:'' s \<and> matches is_hex_any 64 64 (drop 7 s) then lower (drop 7 s) else []
      | _ \<Rightarrow> [])"

definition release_asset_identity ::
  "recipe_source \<Rightarrow> (string \<times> json) list \<Rightarrow> (string \<times> json) list \<Rightarrow> string \<Rightarrow> identity result" where
  "release_asset_identity recipe release asset kind_name =
     (let deb = (kind_name = ''deb'') in
      normalize_upstream_identity (JObj [
        (''schema_version'', JInt 1),
        (''provider'', JStr ''github''),
        (''repository'', py_or (jget release ''repository'') (JStr (source_repository recipe))),
        (''tracking'', JStr ''latest_release''),
        (''source_type'', JStr ''release_asset''),
        (''payload_kind'', JStr kind_name),
        (''release_id'', jget release ''release_id''),
        (''asset_id'', jget asset ''asset_id''),
        (''asset_name'', jget asset ''name''),
        (''expected_size'', if is_plain_int (jget asset ''size'') then jget asset ''size'' else JNull),
        (''resolved_ref'', py_or (jget release ''tag'') (jget release ''ref'')),
        (''resolved_version'', jget release ''upstream_version''),
        (''content_sha256'', JStr (github_digest (jget asset ''digest''))),
        (''expected_package'', JStr (if deb then package_name recipe else [])),
        (''expected_architecture'', JStr (if deb then artifact_architecture recipe else []))]))"

definition source_archive_identity ::
  "recipe_source \<Rightarrow> (string \<times> json) list \<Rightarrow> bool \<Rightarrow> string \<Rightarrow> identity result" where
  "source_archive_identity recipe resolved generated_release archive_format =
     normalize_upstream_identity (JObj ([
        (''schema_version'', JInt 1),
        (''provider'', JStr ''github''),
        (''repository'', py_or (jget resolved ''repository'') (JStr (source_repository recipe))),
        (''tracking'', JStr (source_tracking recipe)),
        (''payload_kind'', JStr ''source_archive''),
        (''commit_sha'', jget resolved ''commit''),
        (''ref_object_sha'', if generated_release \<or> source_tracking recipe = ''tag''
           then jget resolved ''ref_object_sha'' else JStr []),
        (''resolved_ref'', py_or (jget resolved ''tag'') (jget resolved ''ref'')),
        (''resolved_version'', jget resolved ''upstream_version''),
        (''source_archive_format'', JStr archive_format)] @
      (if generated_release
       then [(''source_type'', JStr ''github_source_archive''), (''release_id'', jget resolved ''release_id'')]
       else [(''source_type'', JStr ''git_ref''), (''requested_ref'', source_ref recipe)])))"

section \<open>Lemmas\<close>

definition text_ok :: "nat \<Rightarrow> string \<Rightarrow> bool" where
  "text_ok maximum s = (strip s = s \<and> length s \<le> maximum \<and> \<not> list_ex is_ctl s)"

definition sha_ok :: "nat list \<Rightarrow> string \<Rightarrow> bool" where
  "sha_ok lengths s = (s = [] \<or> text_ok (Max (set lengths)) s \<and> length s \<in> set lengths \<and> list_all is_hex s)"

definition size_ok :: "int option \<Rightarrow> bool" where
  "size_ok v = (case v of None \<Rightarrow> True | Some n \<Rightarrow> 0 \<le> n \<and> n \<le> MAX_SIZE)"

text \<open>What the readers guarantee of the record, then what the guards add.\<close>

definition fields_wf :: "identity \<Rightarrow> bool" where
  "fields_wf i =
     (text_ok MAX_TEXT (repository i) \<and> lower (repository i) = repository i \<and> repo_ok (repository i) \<and>
      raise_first (kind_checks (tracking i) (source_type i) (payload_kind i)) = Inr () \<and>
      text_ok MAX_TEXT (requested_ref i) \<and> (requested_ref i \<noteq> [] \<longrightarrow> ref_ok (requested_ref i)) \<and>
      text_ok 40 (release_id i) \<and> text_ok 40 (asset_id i) \<and>
      sha_ok [40, 64] (commit_sha i) \<and> sha_ok [40, 64] (ref_object_sha i) \<and>
      text_ok MAX_TEXT (resolved_ref i) \<and> (resolved_ref i \<noteq> [] \<longrightarrow> ref_ok (resolved_ref i)) \<and>
      text_ok MAX_TEXT (resolved_version i) \<and> (resolved_version i \<noteq> [] \<longrightarrow> version_ok (resolved_version i)) \<and>
      sha_ok [64] (content_sha256 i) \<and> text_ok MAX_TEXT (asset_name i) \<and> size_ok (expected_size i) \<and>
      text_ok 16 (source_archive_format i) \<and> text_ok MAX_TEXT (expected_package i) \<and>
      text_ok 16 (expected_architecture i))"

definition identity_wf :: "identity \<Rightarrow> bool" where
  "identity_wf i =
     (fields_wf i \<and> raise_first (shape_checks i) = Inr () \<and>
      length (canonical_identity_bytes i) \<le> MAX_IDENTITY_BYTES)"

lemma id_text_ok: "id_text f r m v = Inr s \<Longrightarrow> text_ok m s \<and> (r \<longrightarrow> s \<noteq> [])"
  by (auto simp: id_text_def text_ok_def Let_def split: if_splits option.splits json.splits)

lemma id_text_JStr: "text_ok m s \<Longrightarrow> (r \<longrightarrow> s \<noteq> []) \<Longrightarrow> id_text f r m (JStr s) = Inr s"
  by (auto simp: id_text_def text_ok_def Let_def)

lemma text_ok_lower: "text_ok m s \<Longrightarrow> text_ok m (lower s)"
  by (auto simp: text_ok_def strip_lower) (auto simp: lower_def list_ex_iff)

lemma id_sha_ok: "id_sha f ls v = Inr s \<Longrightarrow> sha_ok ls s"
  by (auto simp: id_sha_def sha_ok_def Let_def bind_r_Inr_iff dest!: id_text_ok
      intro: text_ok_lower split: if_splits)

lemma id_sha_JStr: "sha_ok ls s \<Longrightarrow> id_sha f ls (JStr s) = Inr s"
  by (auto simp: id_sha_def sha_ok_def Let_def id_text_JStr)
    (auto simp: id_text_def strip_def lower_def)

lemma id_github_ref_ok:
  "id_github_ref f v = Inr s \<Longrightarrow> text_ok MAX_TEXT s \<and> (s \<noteq> [] \<longrightarrow> ref_ok s)"
  by (auto simp: id_github_ref_def bind_r_Inr_iff dest!: id_text_ok split: if_splits)

lemma id_github_ref_JStr:
  "text_ok MAX_TEXT s \<Longrightarrow> (s \<noteq> [] \<longrightarrow> ref_ok s) \<Longrightarrow> id_github_ref f (JStr s) = Inr s"
  by (auto simp: id_github_ref_def id_text_JStr)

lemma id_version_ok: "id_version v = Inr s \<Longrightarrow> text_ok MAX_TEXT s \<and> (s \<noteq> [] \<longrightarrow> version_ok s)"
  by (auto simp: id_version_def bind_r_Inr_iff dest!: id_text_ok split: if_splits)

lemma id_version_JStr:
  "text_ok MAX_TEXT s \<Longrightarrow> (s \<noteq> [] \<longrightarrow> version_ok s) \<Longrightarrow> id_version (JStr s) = Inr s"
  by (auto simp: id_version_def id_text_JStr)

lemma id_size_ok: "id_size v = Inr n \<Longrightarrow> size_ok n"
  by (auto simp: id_size_def size_ok_def split: if_splits json.splits)

lemma id_size_opt_int: "size_ok n \<Longrightarrow> id_size (opt_int n) = Inr n"
  by (cases n) (auto simp: id_size_def size_ok_def)

lemmas reader_ok = id_text_ok id_sha_ok id_github_ref_ok id_version_ok id_size_ok
lemmas reader_fixed = id_text_JStr id_sha_JStr id_github_ref_JStr id_version_JStr id_size_opt_int

lemma read_identity_wf:
  assumes "read_identity kvs = Inr i"
  shows "fields_wf i"
  using assms unfolding read_identity_def
  apply (elim result_elims)
  apply (drule id_text_ok id_sha_ok id_github_ref_ok id_version_ok id_size_ok)+
  apply (drule Inr_inject)
  apply hypsubst
  apply (simp add: fields_wf_def text_ok_lower)
  done

lemma normalize_upstream_identity_wf:
  assumes "normalize_upstream_identity doc = Inr i"
  shows "identity_wf i"
proof -
  obtain kvs where doc: "doc = JObj kvs"
    using assms by (cases doc) (auto simp: normalize_upstream_identity_def)
  have "first_unknown IDENTITY_FIELDS (jkeys kvs) = None"
    using assms by (auto simp: doc normalize_upstream_identity_def split: option.splits)
  with assms have "read_identity kvs = Inr i" "raise_first (shape_checks i) = Inr ()"
    "raise_first (declared_checks kvs i) = Inr ()"
    unfolding doc normalize_upstream_identity_def by (auto elim!: result_elims)
  then show ?thesis
    by (auto simp: identity_wf_def declared_checks_def split: if_splits dest: read_identity_wf)
qed

lemma kind_text:
  assumes "s \<in> set (TRACKING @ SOURCE_TYPES @ PAYLOAD_KINDS)"
  shows "text_ok 32 s" "s \<noteq> []"
  using assms unfolding TRACKING_def SOURCE_TYPES_def PAYLOAD_KINDS_def
  by (auto simp: text_ok_def strip_fixed is_space_def is_ctl_def in_range_def cord_def)

lemma kind_checks_text:
  assumes "raise_first (kind_checks tr st pk) = Inr ()"
  shows "text_ok 32 tr" "tr \<noteq> []" "text_ok 32 st" "st \<noteq> []" "text_ok 32 pk" "pk \<noteq> []"
proof -
  from assms have mem: "tr \<in> set TRACKING" "st \<in> set SOURCE_TYPES" "pk \<in> set PAYLOAD_KINDS"
    by (auto simp: kind_checks_def split: if_splits)
  then show "text_ok 32 tr" "tr \<noteq> []" "text_ok 32 st" "st \<noteq> []" "text_ok 32 pk" "pk \<noteq> []"
    using kind_text by auto
qed

lemma jkeys_identity_items: "set (jkeys (identity_items i)) = set IDENTITY_FIELDS"
  by (auto simp: identity_items_def IDENTITY_FIELDS_def)

lemma identity_items_get [simp]:
  "jget (identity_items i) ''provider'' = JStr ''github''"
  "jget (identity_items i) ''repository'' = JStr (repository i)"
  "jget (identity_items i) ''tracking'' = JStr (tracking i)"
  "jget (identity_items i) ''source_type'' = JStr (source_type i)"
  "jget (identity_items i) ''payload_kind'' = JStr (payload_kind i)"
  "jget (identity_items i) ''requested_ref'' = JStr (requested_ref i)"
  "jget (identity_items i) ''release_id'' = JStr (release_id i)"
  "jget (identity_items i) ''asset_id'' = JStr (asset_id i)"
  "jget (identity_items i) ''commit_sha'' = JStr (commit_sha i)"
  "jget (identity_items i) ''ref_object_sha'' = JStr (ref_object_sha i)"
  "jget (identity_items i) ''resolved_ref'' = JStr (resolved_ref i)"
  "jget (identity_items i) ''resolved_version'' = JStr (resolved_version i)"
  "jget (identity_items i) ''content_sha256'' = JStr (content_sha256 i)"
  "jget (identity_items i) ''asset_name'' = JStr (asset_name i)"
  "jget (identity_items i) ''expected_size'' = opt_int (expected_size i)"
  "jget (identity_items i) ''source_archive_format'' = JStr (source_archive_format i)"
  "jget (identity_items i) ''expected_package'' = JStr (expected_package i)"
  "jget (identity_items i) ''expected_architecture'' = JStr (expected_architecture i)"
  by (simp_all add: identity_items_def)

lemma provider_text: "id_text ''provider'' True 32 (JStr ''github'') = Inr ''github''"
  by (rule id_text_JStr)
    (auto simp: text_ok_def strip_fixed is_space_def is_ctl_def in_range_def cord_def)

lemma lower_github: "lower ''github'' = ''github''"
  by (simp add: lower_def lower_char_def is_upper_def in_range_def cord_def)

lemma read_identity_items:
  assumes "fields_wf i"
  shows "read_identity (identity_items i) = Inr i"
proof -
  have kinds: "raise_first (kind_checks (tracking i) (source_type i) (payload_kind i)) = Inr ()"
    using assms by (simp add: fields_wf_def)
  have repo: "repository i \<noteq> []"
    using assms by (auto simp: fields_wf_def repo_ok_def)
  show ?thesis
    using assms kind_checks_text [OF kinds] repo unfolding read_identity_def fields_wf_def
    by (simp add: provider_text lower_github reader_fixed kinds)
qed

lemma normalize_identity_json:
  assumes "identity_wf i"
  shows "normalize_upstream_identity (identity_json i) = Inr i"
proof -
  let ?kvs = "identity_items i"
  have unknown: "first_unknown IDENTITY_FIELDS (jkeys ?kvs) = None"
    by (simp add: first_unknown_None_iff jkeys_identity_items)
  have declared: "raise_first (declared_checks ?kvs i) = Inr ()"
    using assms by (simp add: declared_checks_def identity_wf_def identity_items_def)
  have version: "schema_version_check ?kvs = Inr ()"
    by (simp add: schema_version_check_def identity_items_def Let_def)
  show ?thesis
    using assms read_identity_items [of i] unfolding identity_json_def normalize_upstream_identity_def
    by (simp add: unknown version declared identity_wf_def)
qed

interpretation identity_doc: canonical_document normalize_upstream_identity identity_json identity_wf
  by unfold_locales (rule normalize_identity_json normalize_upstream_identity_wf, assumption)+

section \<open>The canonical bytes determine the identity\<close>

lemma identity_json_no_float: "no_float (identity_json i)"
  by (cases "expected_size i") (auto simp: identity_json_def identity_items_def)

lemma identity_items_distinct: "distinct (jkeys (identity_items i))"
  by (simp add: identity_items_def)

lemma canon_opt_int [simp]: "canon (opt_int n) = opt_int n"
  by (cases n) auto

lemma identity_canon_inject:
  assumes "canon (identity_json i) = canon (identity_json j)"
  shows "i = j"
proof -
  have get: "map_option canon (map_of (identity_items i) k) = map_option canon (map_of (identity_items j) k)" for k
    using assms unfolding identity_json_def
    by (rule canon_obj_get) (rule identity_items_distinct)+
  have "repository i = repository j" using get [of "''repository''"] by (simp add: identity_items_def)
  moreover have "tracking i = tracking j" using get [of "''tracking''"] by (simp add: identity_items_def)
  moreover have "source_type i = source_type j" using get [of "''source_type''"] by (simp add: identity_items_def)
  moreover have "payload_kind i = payload_kind j" using get [of "''payload_kind''"] by (simp add: identity_items_def)
  moreover have "requested_ref i = requested_ref j" using get [of "''requested_ref''"] by (simp add: identity_items_def)
  moreover have "release_id i = release_id j" using get [of "''release_id''"] by (simp add: identity_items_def)
  moreover have "asset_id i = asset_id j" using get [of "''asset_id''"] by (simp add: identity_items_def)
  moreover have "commit_sha i = commit_sha j" using get [of "''commit_sha''"] by (simp add: identity_items_def)
  moreover have "ref_object_sha i = ref_object_sha j" using get [of "''ref_object_sha''"] by (simp add: identity_items_def)
  moreover have "resolved_ref i = resolved_ref j" using get [of "''resolved_ref''"] by (simp add: identity_items_def)
  moreover have "resolved_version i = resolved_version j" using get [of "''resolved_version''"] by (simp add: identity_items_def)
  moreover have "content_sha256 i = content_sha256 j" using get [of "''content_sha256''"] by (simp add: identity_items_def)
  moreover have "asset_name i = asset_name j" using get [of "''asset_name''"] by (simp add: identity_items_def)
  moreover have "expected_size i = expected_size j" using get [of "''expected_size''"] by (simp add: identity_items_def)
  moreover have "source_archive_format i = source_archive_format j"
    using get [of "''source_archive_format''"] by (simp add: identity_items_def)
  moreover have "expected_package i = expected_package j" using get [of "''expected_package''"] by (simp add: identity_items_def)
  moreover have "expected_architecture i = expected_architecture j"
    using get [of "''expected_architecture''"] by (simp add: identity_items_def)
  ultimately show ?thesis by (intro identity.equality) auto
qed

lemma canonical_identity_bytes_inject:
  "canonical_identity_bytes i = canonical_identity_bytes j \<Longrightarrow> i = j"
  unfolding canonical_identity_bytes_def
  by (rule identity_canon_inject, rule dumps_inject, erule utf8_inject) (rule identity_json_no_float)+

lemma attempt_payload_inject:
  assumes "dumps (attempt_payload r i s) = dumps (attempt_payload r' i' s')"
  shows "r = r' \<and> lower s = lower s' \<and> i = i'"
proof -
  have nf: "no_float (attempt_payload r i s)" for r i s
    using identity_json_no_float by (simp add: attempt_payload_def)
  have get: "map_option canon (map_of [(''schema_version'', JInt 1), (''recipe_id'', JStr r),
       (''recipe_sha256'', JStr (lower s)), (''upstream_identity'', identity_json i)] k) =
     map_option canon (map_of [(''schema_version'', JInt 1), (''recipe_id'', JStr r'),
       (''recipe_sha256'', JStr (lower s')), (''upstream_identity'', identity_json i')] k)" for k
    using assms nf [of r i s] nf [of r' i' s'] unfolding attempt_payload_def
    by (rule dumps_obj_get) simp_all
  have "canon (identity_json i) = canon (identity_json i')"
    using get [of "''upstream_identity''"] by simp
  then have "i = i'" by (rule identity_canon_inject)
  with get [of "''recipe_id''"] get [of "''recipe_sha256''"] show ?thesis by simp
qed

lemma missing_fields_Nil_iff: "missing_fields i = [] \<longleftrightarrow> (\<forall>nv \<in> set (required_fields i). snd nv \<noteq> [])"
  by (auto simp: missing_fields_def filter_empty_conv)

lemma sha_ok_hex: "sha_ok ls s \<Longrightarrow> s \<noteq> [] \<Longrightarrow> length s \<in> set ls \<and> list_all is_hex s"
  by (auto simp: sha_ok_def)

lemma identity_wf_source_type:
  "identity_wf i \<Longrightarrow> source_type i \<in> {''release_asset'', ''github_source_archive'', ''git_ref''}"
  by (auto simp: identity_wf_def fields_wf_def kind_checks_def SOURCE_TYPES_def result_simps)

lemma shape_checks_ids:
  assumes "raise_first (shape_checks i) = Inr ()"
  shows "(release_id i = [] \<or> list_all is_py_digit (release_id i)) \<and>
    (asset_id i = [] \<or> list_all is_py_digit (asset_id i)) \<and>
    (source_archive_format i = [] \<or> source_archive_format i \<in> {''tar.gz'', ''zip''})"
proof -
  from assms have "\<forall>c \<in> set (take 3 (shape_checks i)). \<not> fst c"
    unfolding raise_first_ok by (meson in_set_takeD)
  then show ?thesis by (auto simp: shape_checks_def)
qed

lemma attempt_key_ok:
  assumes "automation_attempt_key env recipe_id doc sha = Inr key"
  obtains i where "normalize_upstream_identity doc = Inr i" "missing_fields i = []"
    "key = ''automation-v1-'' @ sha256_hex env (utf8 (dumps (attempt_payload recipe_id i sha)))"
proof -
  note parts = assms [unfolded automation_attempt_key_def identity_complete_def]
  from parts obtain i where "normalize_upstream_identity doc = Inr i" "missing_fields i = []"
    "Inr key = (Inr (''automation-v1-'' @ sha256_hex env (utf8 (dumps (attempt_payload recipe_id i sha)))) :: string result)"
    by (elim result_elims) auto
  then show ?thesis by (intro that) (auto simp only: sum.inject)
qed

section \<open>A concrete asset\<close>

text \<open>A digest of 64 hexadecimal digits for the examples, far from collision free: the sum of the
  bytes modulo 16, repeated.\<close>

definition byte_sum :: "string \<Rightarrow> string" where
  "byte_sum s = replicate 64 (''0123456789abcdef'' ! (sum_list (map of_char s) mod 16 :: nat))"

definition sum_env :: py_env where
  "sum_env = \<lparr>fromisoformat = (\<lambda>_. None), sha256_hex = byte_sum, py_repr = dumps\<rparr>"

definition sample_asset :: "(string \<times> json) list" where
  "sample_asset = [
     (''provider'', JStr '' GitHub ''), (''repository'', JStr ''Owner/App''), (''tracking'', JStr ''latest_release''),
     (''source_type'', JStr ''release_asset''), (''payload_kind'', JStr ''deb''), (''release_id'', JInt 71),
     (''asset_id'', JInt 905), (''asset_name'', JStr ''app_1.2_amd64.deb''), (''expected_size'', JInt 1048576),
     (''resolved_ref'', JStr ''v1.2''), (''resolved_version'', JStr ''1.2''),
     (''expected_package'', JStr ''app''), (''expected_architecture'', JStr ''amd64'')]"

definition sample_identity :: identity where
  "sample_identity = \<lparr>repository = ''owner/app'', tracking = ''latest_release'', source_type = ''release_asset'',
     payload_kind = ''deb'', requested_ref = [], release_id = ''71'', asset_id = ''905'', commit_sha = [],
     ref_object_sha = [], resolved_ref = ''v1.2'', resolved_version = ''1.2'', content_sha256 = [],
     asset_name = ''app_1.2_amd64.deb'', expected_size = Some 1048576, source_archive_format = [],
     expected_package = ''app'', expected_architecture = ''amd64''\<rparr>"

lemma sample_read: "read_identity sample_asset = Inr sample_identity"
  by (simp add: read_identity_def sample_asset_def sample_identity_def id_text_def id_sha_def
      id_github_ref_def id_version_def id_size_def MAX_TEXT_def Let_def strip_def str_int_def
      digits_of.simps char_defs lower_def kind_checks_def TRACKING_def SOURCE_TYPES_def
      PAYLOAD_KINDS_def repo_ok_def ref_ok_def version_ok_def starts_with_def ends_with_def MAX_SIZE_def)

lemma sample_complete: "missing_fields sample_identity = []"
  by (simp add: missing_fields_def required_fields_def sample_identity_def)

lemma sample_bounded: "length (canonical_identity_bytes sample_identity) \<le> MAX_IDENTITY_BYTES"
  by (simp add: canonical_identity_bytes_def identity_json_def identity_items_def completeness_def
      identity_complete_def sample_complete utf8_def MAX_IDENTITY_BYTES_def)
    (simp add: sample_identity_def utf8_char_def quote_def cord_def esc_char_def str_int_def digits_of.simps)

lemma sample_normalized: "normalize_upstream_identity (JObj sample_asset) = Inr sample_identity"
proof -
  have "first_unknown IDENTITY_FIELDS (jkeys sample_asset) = None"
    by (auto simp: first_unknown_None_iff sample_asset_def IDENTITY_FIELDS_def)
  moreover have "schema_version_check sample_asset = Inr ()"
    by (simp add: schema_version_check_def sample_asset_def)
  moreover have "raise_first (shape_checks sample_identity) = Inr ()"
    by (simp add: shape_checks_def sample_identity_def char_defs)
  moreover have "raise_first (declared_checks sample_asset sample_identity) = Inr ()"
    using sample_bounded by (simp add: declared_checks_def sample_asset_def)
  ultimately show ?thesis
    by (simp add: normalize_upstream_identity_def sample_read)
qed

section \<open>Properties\<close>

text \<open>The canonical dictionary of an accepted identity is bounded by
  4096 bytes, is accepted again and is its own canonical form, whatever spelling the first
  document used; declared completeness and missing fields therefore always agree with the
  derived ones on a second pass.\<close>

theorem upstream_identity_canonical:
  assumes "normalize_upstream_identity doc = Inr i"
  shows "normalize_upstream_identity (identity_json i) = Inr i \<and>
    length (utf8 (dumps (identity_json i))) \<le> 4096"
  using identity_doc.validate_idempotent [OF assms] normalize_upstream_identity_wf [OF assms]
  by (simp add: identity_wf_def canonical_identity_bytes_def MAX_IDENTITY_BYTES_def)

theorem upstream_identity_canonical_witness:
  "normalize_upstream_identity (identity_json sample_identity) = Inr sample_identity \<and>
   length (utf8 (dumps (identity_json sample_identity))) \<le> 4096"
  by (rule upstream_identity_canonical [OF sample_normalized])

text \<open>Pinned execution accepts exactly when the admitted and the newly
  resolved document normalize to one and the same complete identity, and it returns that
  identity; the comparison of canonical bytes loses no field.\<close>

theorem pinned_execution_exact:
  "verify_expected_upstream_identity (Some want) actual = Inr r \<longleftrightarrow>
   (\<exists>i. r = Some i \<and> normalize_upstream_identity want = Inr i \<and>
        normalize_upstream_identity actual = Inr i \<and> missing_fields i = [])"
  unfolding verify_expected_upstream_identity_def identity_complete_def
  by (cases "normalize_upstream_identity actual"; cases "normalize_upstream_identity want")
    (auto simp: dest: canonical_identity_bytes_inject split: if_splits)

text \<open>An attempt key exists only for an identity fixed by immutable
  identifiers: a resolved ref, and for an asset its numeric release and asset ids, for a
  source archive a full-length hexadecimal commit and archive format.  The display version
  plays no part.\<close>

theorem attempt_key_needs_immutable_ids:
  assumes "automation_attempt_key env recipe_id doc sha = Inr key"
  shows "\<exists>i. normalize_upstream_identity doc = Inr i \<and> resolved_ref i \<noteq> [] \<and>
    (if source_type i = ''release_asset''
     then release_id i \<noteq> [] \<and> list_all is_py_digit (release_id i) \<and>
          asset_id i \<noteq> [] \<and> list_all is_py_digit (asset_id i) \<and> asset_name i \<noteq> []
     else length (commit_sha i) \<in> {40, 64} \<and> list_all is_hex (commit_sha i) \<and>
          source_archive_format i \<in> {''tar.gz'', ''zip''})"
proof -
  obtain i where norm: "normalize_upstream_identity doc = Inr i" and full: "missing_fields i = []"
    using assms by (rule attempt_key_ok)
  have wf: "identity_wf i" using norm by (rule normalize_upstream_identity_wf)
  then have shape: "raise_first (shape_checks i) = Inr ()" and commit: "sha_ok [40, 64] (commit_sha i)"
    by (auto simp: identity_wf_def fields_wf_def)
  have ref: "resolved_ref i \<noteq> []"
    using full by (simp add: missing_fields_Nil_iff required_fields_def)
  have asset: "release_id i \<noteq> [] \<and> asset_id i \<noteq> [] \<and> asset_name i \<noteq> []" if "source_type i = ''release_asset''"
    using full that by (simp add: missing_fields_Nil_iff required_fields_def)
  have archive: "commit_sha i \<noteq> [] \<and> source_archive_format i \<noteq> []" if "source_type i \<noteq> ''release_asset''"
    using full that by (auto simp: missing_fields_Nil_iff required_fields_def split: if_splits)
  show ?thesis
  proof (cases "source_type i = ''release_asset''")
    case True
    show ?thesis
      using norm ref True asset [OF True] shape_checks_ids [OF shape] by (intro exI [of _ i]) simp
  next
    case False
    show ?thesis
      using norm ref False archive [OF False] shape_checks_ids [OF shape] sha_ok_hex [OF commit]
      by (intro exI [of _ i]) simp
  qed
qed

theorem attempt_key_needs_immutable_ids_witness:
  "\<exists>i. normalize_upstream_identity (JObj sample_asset) = Inr i \<and> source_type i = ''release_asset'' \<and>
     list_all is_py_digit (asset_id i)"
proof -
  have "\<exists>key. automation_attempt_key sum_env ''app'' (JObj sample_asset) (replicate 64 CHR ''a'') = Inr key"
    by (simp add: automation_attempt_key_def sample_normalized sample_complete identity_complete_def
        valid_recipe_id_def matches_def is_hex_any_def list_all_iff char_defs)
  then obtain key where "automation_attempt_key sum_env ''app'' (JObj sample_asset) (replicate 64 CHR ''a'') = Inr key" ..
  from attempt_key_needs_immutable_ids [OF this] sample_normalized show ?thesis
    by (auto simp: sample_identity_def)
qed

text \<open>The bytes an attempt key digests.\<close>

definition key_bytes :: "string \<Rightarrow> identity \<Rightarrow> string \<Rightarrow> string" where
  "key_bytes recipe_id i sha = utf8 (dumps (attempt_payload recipe_id i sha))"

text \<open>C39: an attempt key binds its inputs.  An accepted key is the SHA-256 digest of the bytes of its
  own inputs: the Recipe id, the Recipe digest and the canonical upstream identity.  The bytes of two
  accepted computations are the same exactly when the Recipe ids are, the Recipe digests up to case
  and the canonical identities are.  So equal keys of different inputs are a SHA-256 collision
  of these two byte strings.\<close>

theorem attempt_key_binding:
  assumes "automation_attempt_key env r1 d1 s1 = Inr key1"
    and "automation_attempt_key env r2 d2 s2 = Inr key2"
  shows "\<exists>i j. normalize_upstream_identity d1 = Inr i \<and> normalize_upstream_identity d2 = Inr j \<and>
    key1 = ''automation-v1-'' @ sha256_hex env (key_bytes r1 i s1) \<and>
    key2 = ''automation-v1-'' @ sha256_hex env (key_bytes r2 j s2) \<and>
    (key_bytes r1 i s1 = key_bytes r2 j s2 \<longleftrightarrow> r1 = r2 \<and> lower s1 = lower s2 \<and> i = j)"
proof -
  obtain i where i: "normalize_upstream_identity d1 = Inr i"
    "key1 = ''automation-v1-'' @ sha256_hex env (key_bytes r1 i s1)"
    using assms(1) unfolding key_bytes_def by (rule attempt_key_ok)
  obtain j where j: "normalize_upstream_identity d2 = Inr j"
    "key2 = ''automation-v1-'' @ sha256_hex env (key_bytes r2 j s2)"
    using assms(2) unfolding key_bytes_def by (rule attempt_key_ok)
  have "key_bytes r1 i s1 = key_bytes r2 j s2 \<longleftrightarrow> r1 = r2 \<and> lower s1 = lower s2 \<and> i = j"
  proof
    assume "key_bytes r1 i s1 = key_bytes r2 j s2"
    then show "r1 = r2 \<and> lower s1 = lower s2 \<and> i = j"
      unfolding key_bytes_def by (rule attempt_payload_inject [OF utf8_inject])
  qed (simp add: key_bytes_def attempt_payload_def)
  with i j show ?thesis by blast
qed

theorem attempt_key_binding_witness:
  "\<exists>key key'. automation_attempt_key sum_env ''app'' (JObj sample_asset) (replicate 64 CHR ''A'') = Inr key \<and>
     automation_attempt_key sum_env ''app'' (identity_json sample_identity) (replicate 64 CHR ''a'') = Inr key \<and>
     automation_attempt_key sum_env ''other'' (JObj sample_asset) (replicate 64 CHR ''a'') = Inr key' \<and>
     key_bytes ''app'' sample_identity (replicate 64 CHR ''a'') \<noteq> key_bytes ''other'' sample_identity (replicate 64 CHR ''a'')"
proof -
  let ?A = "replicate 64 CHR ''A''" and ?a = "replicate 64 CHR ''a''"
  have norm: "normalize_upstream_identity (identity_json sample_identity) = Inr sample_identity"
    by (rule identity_doc.validate_idempotent [OF sample_normalized])
  have low: "lower ?A = ?a" "lower ?a = ?a" by (simp_all add: lower_def char_defs)
  have ids: "valid_recipe_id ''app''" "valid_recipe_id ''other''"
    by (simp_all add: valid_recipe_id_def matches_def char_defs)
  have hex: "matches is_hex_any 64 64 ?A" "matches is_hex_any 64 64 ?a"
    by (simp_all add: matches_def is_hex_any_def list_all_iff char_defs)
  have accepted: "\<exists>key. automation_attempt_key sum_env r d sha = Inr key"
    if "valid_recipe_id r" "normalize_upstream_identity d = Inr sample_identity" "matches is_hex_any 64 64 sha" for r d sha
    using that sample_complete by (simp add: automation_attempt_key_def identity_complete_def)
  obtain k1 k2 k3 where keys: "automation_attempt_key sum_env ''app'' (JObj sample_asset) ?A = Inr k1"
    "automation_attempt_key sum_env ''app'' (identity_json sample_identity) ?a = Inr k2"
    "automation_attempt_key sum_env ''other'' (JObj sample_asset) ?a = Inr k3"
    using accepted [OF ids(1) sample_normalized hex(1)] accepted [OF ids(1) norm hex(2)]
      accepted [OF ids(2) sample_normalized hex(2)] by blast
  have "k1 = k2"
    using attempt_key_binding [OF keys(1,2)] by (simp add: sample_normalized norm low)
  moreover have "key_bytes ''app'' sample_identity ?a \<noteq> key_bytes ''other'' sample_identity ?a"
    using attempt_key_binding [OF keys(2,3)] by (simp add: sample_normalized norm)
  ultimately show ?thesis using keys by blast
qed

end
