(* ===== verification/Run_Document.thy ===== *)
theory Run_Document
  imports Resource_Limits Upstream_Identity
begin

text \<open>
  \<^verbatim>\<open>src/debbuilder/build_models.py\<close>: the Build Run document, its immutable admission
  metadata (origin, automation, manual provenance) and the digest that seals it.  A Run is an
  open dictionary, so it stays a list of items; the admission metadata, whose shape is fixed,
  are records.
\<close>

type_synonym doc = "(string \<times> json) list"

section \<open>Admission metadata\<close>

record run_origin =
  kind_of_origin :: string
  trigger :: string
  reason :: "string option"

record automation =
  attempt_key :: string
  generation :: int
  policy :: string
  expected_upstream_identity :: identity

definition STEP_NAMES :: "string list" where
  "STEP_NAMES = [''source'', ''detection'', ''dependencies'', ''source_changes'', ''build'',
     ''staging'', ''debian_metadata'', ''systemd'', ''package'', ''artifact'']"

definition STEP_STATUSES :: "string list" where
  "STEP_STATUSES = [''pending'', ''running'', ''success'', ''failed'', ''skipped'', ''cancelled'']"

definition RUN_STATUSES :: "string list" where
  "RUN_STATUSES = [''pending'', ''queued'', ''running'', ''cancelling'',
     ''prepared'', ''success'', ''failed'', ''cancelled'']"

definition RUN_ORIGINS :: "string list" where
  "RUN_ORIGINS = [''manual'', ''automation'', ''automation_check_now'']"

definition RUN_TRIGGERS :: "string list" where
  "RUN_TRIGGERS = [''manual'', ''upstream_change'', ''operator_check_now'']"

definition RUN_REASONS :: "string list" where
  "RUN_REASONS = [''new_release'', ''release_asset_changed'', ''ref_advanced'',
     ''recipe_revision_changed'', ''operator_check_now'']"

definition AUTOMATION_POLICIES :: "string list" where
  "AUTOMATION_POLICIES = [''manual'', ''detect'', ''test'', ''build'', ''build_validate'', ''full'']"

abbreviation val_err :: exn where "val_err \<equiv> Exn ValueError [] []"
abbreviation type_err :: exn where "type_err \<equiv> Exn TypeError [] []"

definition origin_json :: "run_origin \<Rightarrow> json" where
  "origin_json o' = JObj [(''kind'', JStr (kind_of_origin o')), (''trigger'', JStr (trigger o')),
     (''reason'', opt_str (reason o'))]"

definition automation_json :: "automation \<Rightarrow> json" where
  "automation_json a = JObj [(''attempt_key'', JStr (attempt_key a)), (''generation'', JInt (generation a)),
     (''policy'', JStr (policy a)), (''expected_upstream_identity'', identity_json (expected_upstream_identity a))]"

fun opt_json :: "('a \<Rightarrow> json) \<Rightarrow> 'a option \<Rightarrow> json" where
  "opt_json f None = JNull"
| "opt_json f (Some x) = f x"

text \<open>\<^verbatim>\<open>_bounded_optional_text\<close>\<close>

definition bounded_optional_text :: "nat \<Rightarrow> json \<Rightarrow> string option result" where
  "bounded_optional_text maximum v =
     (case v of
        JNull \<Rightarrow> Inr None
      | JStr s \<Rightarrow> if s = [] \<or> length s > maximum \<or> list_ex is_ctl s then Inl val_err else Inr (Some s)
      | _ \<Rightarrow> Inl val_err)"

text \<open>The guards on kind, trigger and reason, lines 120 to 135.\<close>

definition origin_checks :: "string \<Rightarrow> string option \<Rightarrow> string option \<Rightarrow> (bool \<times> exn) list" where
  "origin_checks kind trig why = [
     (trig \<notin> Some ` set RUN_TRIGGERS, val_err),
     (why \<noteq> None \<and> why \<notin> Some ` set RUN_REASONS, val_err),
     (kind = ''manual'' \<and> trig \<noteq> Some ''manual'', val_err),
     (kind = ''manual'' \<and> why \<noteq> None, val_err),
     (kind = ''automation'' \<and> trig \<noteq> Some ''upstream_change'', val_err),
     (kind = ''automation'' \<and> why = Some ''operator_check_now'', val_err),
     (kind = ''automation_check_now'' \<and> trig \<noteq> Some ''operator_check_now'', val_err),
     (kind = ''automation_check_now'' \<and> why \<notin> {None, Some ''operator_check_now''}, val_err)]"

text \<open>\<^verbatim>\<open>re.fullmatch(r"automation-v1-[0-9a-f]{64}", s)\<close>\<close>

definition is_attempt_key :: "string \<Rightarrow> bool" where
  "is_attempt_key s = (starts_with ''automation-v1-'' s \<and> matches is_hex 64 64 (drop 14 s))"

text \<open>The automation half of \<^verbatim>\<open>normalize_run_origin\<close>, lines 141 to 160.\<close>

definition normalize_automation :: "json \<Rightarrow> automation result" where
  "normalize_automation doc =
     (case doc of
        JObj kvs \<Rightarrow>
          if \<not> same_keys kvs [''attempt_key'', ''generation'', ''policy'', ''expected_upstream_identity'']
          then Inl val_err
          else
            (case jget kvs ''attempt_key'' of
               JStr key \<Rightarrow>
                 if \<not> is_attempt_key key then Inl val_err
                 else
                   (case jget kvs ''generation'' of
                      JInt n \<Rightarrow>
                        if \<not> (0 \<le> n \<and> n < 8) then Inl val_err
                        else
                          (case jget kvs ''policy'' of
                             JStr p \<Rightarrow>
                               if p \<notin> set AUTOMATION_POLICIES \<or> p \<in> {''manual'', ''detect''} then Inl val_err
                               else
                                 bind_r (normalize_upstream_identity (jget kvs ''expected_upstream_identity'')) (\<lambda>i.
                                 if \<not> identity_complete i then Inl val_err
                                 else Inr \<lparr>attempt_key = key, generation = n, policy = p,
                                   expected_upstream_identity = i\<rparr>)
                           | v \<Rightarrow> if hashable v then Inl val_err else Inl type_err)
                    | _ \<Rightarrow> Inl val_err)
             | _ \<Rightarrow> Inl val_err)
      | _ \<Rightarrow> Inl val_err)"

text \<open>The rest of \<^verbatim>\<open>normalize_run_origin\<close> once the origin is a dictionary, lines 113
  to 140.\<close>

definition normalize_origin_items :: "doc \<Rightarrow> json \<Rightarrow> (run_origin \<times> automation option) result" where
  "normalize_origin_items kvs automation_doc =
     (if \<not> same_keys kvs [''kind'', ''trigger'', ''reason''] then Inl val_err
      else
        bind_r (str_in (jget kvs ''kind'') RUN_ORIGINS) (\<lambda>known.
        if \<not> known then Inl val_err else
        bind_r (bounded_optional_text 80 (jget kvs ''trigger'')) (\<lambda>trig.
        bind_r (bounded_optional_text 240 (jget kvs ''reason'')) (\<lambda>why.
        let kind = (case jget kvs ''kind'' of JStr s \<Rightarrow> s | _ \<Rightarrow> []) in
        bind_r (raise_first (origin_checks kind trig why)) (\<lambda>_.
        let o' = \<lparr>kind_of_origin = kind, trigger = the trig, reason = why\<rparr> in
        if kind = ''manual''
        then (if automation_doc \<noteq> JNull then Inl val_err else Inr (o', None))
        else bind_r (normalize_automation automation_doc) (\<lambda>a. Inr (o', Some a)))))))"

definition normalize_run_origin :: "json \<Rightarrow> json \<Rightarrow> (run_origin \<times> automation option) result" where
  "normalize_run_origin origin_doc automation_doc =
     (case (if origin_doc = JNull
            then JObj [(''kind'', JStr ''manual''), (''trigger'', JStr ''manual''), (''reason'', JNull)]
            else origin_doc) of
        JObj kvs \<Rightarrow> normalize_origin_items kvs automation_doc
      | _ \<Rightarrow> Inl val_err)"

definition require_automation_mode :: "string \<Rightarrow> string \<Rightarrow> unit result" where
  "require_automation_mode p mode =
     (if mode \<noteq> (if p = ''test'' then ''dry_run'' else ''build'') then Inl val_err else Inr ())"

text \<open>\<^verbatim>\<open>_normalize_manual_source_provenance\<close>\<close>

definition normalize_manual_source_provenance :: "json \<Rightarrow> automation option \<Rightarrow> identity option result" where
  "normalize_manual_source_provenance v a =
     (if a \<noteq> None then (if v \<noteq> JNull then Inl val_err else Inr None)
      else if v = JNull then Inr None
      else bind_r (normalize_upstream_identity v) (\<lambda>i.
        if \<not> identity_complete i then Inl val_err else Inr (Some i)))"

definition admission_payload ::
  "string \<Rightarrow> string \<Rightarrow> string \<Rightarrow> run_origin \<Rightarrow> automation option \<Rightarrow> identity option \<Rightarrow> json" where
  "admission_payload recipe_id recipe_sha256 mode o' a m = JObj [
     (''schema_version'', JInt 1), (''recipe_id'', JStr recipe_id), (''recipe_sha256'', JStr recipe_sha256),
     (''mode'', JStr mode), (''origin'', origin_json o'), (''automation'', opt_json automation_json a),
     (''manual_source_provenance'', opt_json identity_json m)]"

definition admission_metadata_sha256 ::
  "py_env \<Rightarrow> string \<Rightarrow> string \<Rightarrow> string \<Rightarrow> run_origin \<Rightarrow> automation option \<Rightarrow> identity option \<Rightarrow> string" where
  "admission_metadata_sha256 env recipe_id recipe_sha256 mode o' a m =
     sha256_hex env (utf8 (dumps (admission_payload recipe_id recipe_sha256 mode o' a m)))"

text \<open>The guard on the attempt key and the mode that \<^verbatim>\<open>new_run\<close> and
  \<^verbatim>\<open>validate_run\<close> share.\<close>

definition require_bound_automation ::
  "py_env \<Rightarrow> string \<Rightarrow> string \<Rightarrow> string \<Rightarrow> automation option \<Rightarrow> unit result" where
  "require_bound_automation env recipe_id recipe_sha256 mode a =
     (case a of
        None \<Rightarrow> Inr ()
      | Some a \<Rightarrow>
          bind_r (automation_attempt_key env recipe_id (identity_json (expected_upstream_identity a)) recipe_sha256)
            (\<lambda>key. if key \<noteq> attempt_key a then Inl val_err else require_automation_mode (policy a) mode))"

section \<open>Documents\<close>

text \<open>\<^verbatim>\<open>new_step(name)\<close> for a name of \<^verbatim>\<open>STEP_NAMES\<close>, the only callers.\<close>

definition new_step :: "string \<Rightarrow> json result" where
  "new_step name =
     (if name \<notin> set STEP_NAMES then Inl val_err
      else Inr (JObj [(''name'', JStr name), (''status'', JStr ''pending''), (''started_at'', JNull),
        (''finished_at'', JNull), (''duration'', JNull), (''summary'', JStr []), (''error'', JNull),
        (''details'', JObj [])]))"

text \<open>\<^verbatim>\<open>now\<close> is \<^verbatim>\<open>utc_now()\<close>, \<^verbatim>\<open>epoch\<close> is \<^verbatim>\<open>time.time()\<close>;
  \<^verbatim>\<open>None\<close> arguments are \<^verbatim>\<open>JNull\<close>.\<close>

definition new_run ::
  "py_env \<Rightarrow> string \<Rightarrow> rat \<Rightarrow> string \<Rightarrow> string \<Rightarrow> string \<Rightarrow> string \<Rightarrow> string \<Rightarrow> json \<Rightarrow> json \<Rightarrow> json \<Rightarrow> json \<Rightarrow> doc result" where
  "new_run env now epoch run_id recipe_id mode workspace recipe_sha256
       resource_contract origin_doc automation_doc provenance_doc =
     (if mode \<notin> {''dry_run'', ''build''} then Inl val_err
      else
        bind_r (normalize_run_origin origin_doc automation_doc) (\<lambda>(o', a).
        bind_r (normalize_manual_source_provenance provenance_doc a) (\<lambda>m.
        bind_r (require_bound_automation env recipe_id recipe_sha256 mode a) (\<lambda>_.
        bind_r (map_r new_step STEP_NAMES) (\<lambda>steps.
        bind_r (if truthy resource_contract then Inr resource_contract else default_contract) (\<lambda>contract.
        bind_r (validate_contract ''$.resource_limits'' contract) (\<lambda>limits.
        Inr [
          (''schema_version'', JInt 4), (''id'', JStr run_id), (''recipe_id'', JStr recipe_id),
          (''recipe_sha256'', JStr recipe_sha256), (''mode'', JStr mode), (''status'', JStr ''pending''),
          (''created_at'', JStr now), (''created_at_epoch'', JFloat epoch), (''started_at'', JNull),
          (''finished_at'', JNull), (''duration'', JNull), (''workspace'', JStr workspace),
          (''version'', JObj [(''upstream'', JStr []), (''debian'', JStr [])]),
          (''steps'', JArr steps), (''artifact'', JNull), (''toolchain'', JNull), (''error'', JNull),
          (''events'', JArr []), (''resource_limits'', limits), (''origin'', origin_json o'),
          (''automation'', opt_json automation_json a),
          (''manual_source_provenance'', opt_json identity_json m),
          (''admission_sha256'', JStr (admission_metadata_sha256 env recipe_id recipe_sha256 mode o' a m))])))))))"

text \<open>\<^verbatim>\<open>_current_run_document\<close>\<close>

definition current_run_document :: "json \<Rightarrow> doc result" where
  "current_run_document document =
     (case document of
        JObj kvs \<Rightarrow>
          (case jget kvs ''schema_version'' of
             JInt version \<Rightarrow>
               if version < 1 then Inl (Exn RunDocumentError ''invalid_run_schema_version'' [])
               else if version > 4 then Inl (Exn RunDocumentError ''future_run_schema_version'' [])
               else if version \<noteq> 4 then Inl (Exn RunDocumentError ''unsupported_run_schema_version'' [])
               else Inr kvs
           | _ \<Rightarrow> Inl (Exn RunDocumentError ''invalid_run_schema_version'' []))
      | _ \<Rightarrow> Inl (Exn RunDocumentError ''invalid_run'' []))"

text \<open>The step sequence: \<^verbatim>\<open>step.get\<close> on a step that is not a dictionary raises
  \<^verbatim>\<open>AttributeError\<close>.\<close>

fun step_name :: "json \<Rightarrow> json result" where
  "step_name (JObj kvs) = Inr (jget kvs ''name'')"
| "step_name _ = Inl (Exn AttributeError [] [])"

fun step_status :: "json \<Rightarrow> json" where
  "step_status (JObj kvs) = jget kvs ''status''"
| "step_status _ = JNull"

fun check_step_statuses :: "json list \<Rightarrow> unit result" where
  "check_step_statuses [] = Inr ()"
| "check_step_statuses (step # steps) =
     bind_r (str_in (step_status step) STEP_STATUSES) (\<lambda>ok.
       if \<not> ok then Inl val_err else check_step_statuses steps)"

definition check_steps :: "json \<Rightarrow> unit result" where
  "check_steps steps =
     (case steps of
        JArr xs \<Rightarrow>
          bind_r (map_r step_name xs) (\<lambda>names.
            if names \<noteq> map JStr STEP_NAMES then Inl val_err else check_step_statuses xs)
      | _ \<Rightarrow> Inl val_err)"

text \<open>Lifecycle state that must not be persisted and members that must be, lines 230 to 240.\<close>

definition shape_of_run :: "doc \<Rightarrow> (bool \<times> exn) list" where
  "shape_of_run kvs = [
     (has_key kvs ''validations'', val_err),
     ((case jget kvs ''artifact'' of JObj a \<Rightarrow> has_key a ''validations'' | _ \<Rightarrow> False), val_err),
     ((case jget kvs ''artifact'' of JObj a \<Rightarrow> has_key a ''publications'' | _ \<Rightarrow> False), val_err),
     (\<not> has_key kvs ''origin'' \<or> \<not> has_key kvs ''automation'' \<or>
      \<not> has_key kvs ''manual_source_provenance'' \<or> \<not> has_key kvs ''admission_sha256'', val_err)]"

text \<open>The seal and the lifecycle members, lines 258 to 278, on the canonical document.\<close>

definition check_sealed ::
  "py_env \<Rightarrow> run_origin \<Rightarrow> automation option \<Rightarrow> identity option \<Rightarrow> doc \<Rightarrow> unit result" where
  "check_sealed env o' a m kvs =
     (let recipe_id = str_or env (jget kvs ''recipe_id'') [];
          sha = str_or env (jget kvs ''recipe_sha256'') [];
          mode = str_or env (jget kvs ''mode'') [] in
      bind_r (require_bound_automation env recipe_id sha mode a) (\<lambda>_.
      if \<not> py_eq (jget kvs ''admission_sha256'') (JStr (admission_metadata_sha256 env recipe_id sha mode o' a m))
      then Inl val_err
      else
        bind_r (str_in (jget kvs ''status'') RUN_STATUSES) (\<lambda>known.
        if \<not> known then Inl val_err else check_steps (jget kvs ''steps''))))"

definition validate_run :: "py_env \<Rightarrow> json \<Rightarrow> doc result" where
  "validate_run env run =
     bind_r (current_run_document run) (\<lambda>current.
     bind_r (raise_first (shape_of_run current)) (\<lambda>_.
     bind_r (validate_contract ''$.resource_limits'' (jget current ''resource_limits'')) (\<lambda>_.
     bind_r (normalize_run_origin (jget current ''origin'') (jget current ''automation'')) (\<lambda>(o', a).
     bind_r (normalize_manual_source_provenance (jget current ''manual_source_provenance'') a) (\<lambda>m.
     if \<not> py_eq (jget current ''origin'') (origin_json o') \<or>
        \<not> py_eq (jget current ''automation'') (opt_json automation_json a) \<or>
        \<not> py_eq (jget current ''manual_source_provenance'') (opt_json identity_json m)
     then Inl val_err
     else
       let canonical = jset (jset (jset current ''origin'' (origin_json o'))
             ''automation'' (opt_json automation_json a))
             ''manual_source_provenance'' (opt_json identity_json m) in
       bind_r (check_sealed env o' a m canonical) (\<lambda>_. Inr canonical))))))"

section \<open>Canonical admission metadata\<close>

definition automation_wf :: "automation \<Rightarrow> bool" where
  "automation_wf a =
     (is_attempt_key (attempt_key a) \<and> 0 \<le> generation a \<and> generation a < 8 \<and>
      policy a \<in> set AUTOMATION_POLICIES \<and> policy a \<noteq> ''manual'' \<and> policy a \<noteq> ''detect'' \<and>
      identity_wf (expected_upstream_identity a) \<and> identity_complete (expected_upstream_identity a))"

lemma normalize_automation_json: "automation_wf a \<Longrightarrow> normalize_automation (automation_json a) = Inr a"
  by (simp add: automation_wf_def normalize_automation_def automation_json_def same_keys_def normalize_identity_json)

lemma normalize_automation_wf: "normalize_automation doc = Inr a \<Longrightarrow> automation_wf a"
  unfolding normalize_automation_def automation_wf_def
  by (auto split: json.splits if_splits simp: bind_r_Inr_iff dest: normalize_upstream_identity_wf)

interpretation automation_doc: canonical_document normalize_automation automation_json automation_wf
  by unfold_locales (rule normalize_automation_json normalize_automation_wf, assumption)+

definition text_bounded :: "nat \<Rightarrow> string option \<Rightarrow> bool" where
  "text_bounded maximum t =
     (case t of None \<Rightarrow> True | Some s \<Rightarrow> s \<noteq> [] \<and> length s \<le> maximum \<and> \<not> list_ex is_ctl s)"

lemma bounded_optional_text_ok: "bounded_optional_text m v = Inr t \<Longrightarrow> text_bounded m t"
  by (auto simp: bounded_optional_text_def text_bounded_def split: json.splits if_splits)

lemma bounded_optional_text_opt_str: "text_bounded m t \<Longrightarrow> bounded_optional_text m (opt_str t) = Inr t"
  by (cases t) (auto simp: bounded_optional_text_def text_bounded_def)

definition origin_wf :: "run_origin \<Rightarrow> automation option \<Rightarrow> bool" where
  "origin_wf o' a =
     (kind_of_origin o' \<in> set RUN_ORIGINS \<and> text_bounded 80 (Some (trigger o')) \<and> text_bounded 240 (reason o') \<and>
      raise_first (origin_checks (kind_of_origin o') (Some (trigger o')) (reason o')) = Inr () \<and>
      (a = None) = (kind_of_origin o' = ''manual'') \<and> (\<forall>x \<in> set_option a. automation_wf x))"

lemma normalize_run_origin_wf:
  assumes "normalize_run_origin od ad = Inr (o', a)"
  shows "origin_wf o' a"
proof -
  obtain kvs where items: "normalize_origin_items kvs ad = Inr (o', a)"
    using assms by (auto simp: normalize_run_origin_def split: json.splits if_splits)
  then have "str_in (jget kvs ''kind'') RUN_ORIGINS = Inr True"
    by (auto simp: normalize_origin_items_def elim!: result_elims)
  then obtain kind where k: "jget kvs ''kind'' = JStr kind" "kind \<in> set RUN_ORIGINS"
    by (auto simp: str_in_True_iff)
  note rest = items [unfolded normalize_origin_items_def k(1) json.case Let_def]
  from rest obtain trig why where t: "bounded_optional_text 80 (jget kvs ''trigger'') = Inr trig"
    and w: "bounded_optional_text 240 (jget kvs ''reason'') = Inr why"
    and chk: "raise_first (origin_checks kind trig why) = Inr ()"
    and res: "(if kind = ''manual''
            then (if ad \<noteq> JNull then Inl val_err else Inr (\<lparr>kind_of_origin = kind, trigger = the trig, reason = why\<rparr>, None))
            else bind_r (normalize_automation ad)
              (\<lambda>a. Inr (\<lparr>kind_of_origin = kind, trigger = the trig, reason = why\<rparr>, Some a))) = Inr (o', a)"
    by (elim bind_r_InrE if_Inl_InrE) simp
  have "trig \<in> Some ` set RUN_TRIGGERS"
    using chk by (simp add: origin_checks_def split: if_splits)
  then have trig: "Some (the trig) = trig" by auto
  show ?thesis
  proof (cases "kind = ''manual''")
    case True
    with res have "o' = \<lparr>kind_of_origin = kind, trigger = the trig, reason = why\<rparr>" "a = None"
      by (simp_all split: if_splits)
    with True k t w chk show ?thesis
      by (simp add: origin_wf_def bounded_optional_text_ok trig)
  next
    case False
    with res obtain x where "normalize_automation ad = Inr x" "a = Some x"
      "o' = \<lparr>kind_of_origin = kind, trigger = the trig, reason = why\<rparr>"
      by (auto elim!: bind_r_InrE)
    with False k t w chk show ?thesis
      by (simp add: origin_wf_def bounded_optional_text_ok trig normalize_automation_wf)
  qed
qed

lemma normalize_run_origin_json:
  assumes "origin_wf o' a"
  shows "normalize_run_origin (origin_json o') (opt_json automation_json a) = Inr (o', a)"
proof -
  have t: "bounded_optional_text 80 (JStr (trigger o')) = Inr (Some (trigger o'))"
    and w: "bounded_optional_text 240 (opt_str (reason o')) = Inr (reason o')"
    using assms bounded_optional_text_opt_str [of 80 "Some (trigger o')"]
      bounded_optional_text_opt_str [of 240 "reason o'"] by (simp_all add: origin_wf_def)
  have a: "opt_json automation_json a = JNull" if "kind_of_origin o' = ''manual''"
    using assms that by (simp add: origin_wf_def)
  have b: "normalize_automation (opt_json automation_json a) = Inr x" if "a = Some x" for x
    using assms that by (simp add: origin_wf_def normalize_automation_json)
  show ?thesis
    using assms t w a b
    by (cases a) (auto simp: normalize_run_origin_def normalize_origin_items_def origin_json_def same_keys_def
        origin_wf_def Let_def)
qed

lemma provenance_wf:
  "normalize_manual_source_provenance v a = Inr m \<Longrightarrow>
     (m \<noteq> None \<longrightarrow> a = None) \<and> (\<forall>i \<in> set_option m. identity_wf i \<and> identity_complete i)"
  by (auto simp: normalize_manual_source_provenance_def bind_r_Inr_iff
      dest: normalize_upstream_identity_wf split: if_splits)

lemma provenance_json:
  assumes "normalize_manual_source_provenance v a = Inr m"
  shows "normalize_manual_source_provenance (opt_json identity_json m) a = Inr m"
proof (cases m)
  case None
  then show ?thesis by (simp add: normalize_manual_source_provenance_def)
next
  case (Some i)
  have "identity_json i \<noteq> JNull" by (simp add: identity_json_def)
  with Some provenance_wf [OF assms] show ?thesis
    by (simp add: normalize_manual_source_provenance_def normalize_identity_json)
qed

section \<open>Accepted documents\<close>

lemma check_sealed_cong:
  assumes "jget kvs ''recipe_id'' = jget kvs' ''recipe_id''" "jget kvs ''recipe_sha256'' = jget kvs' ''recipe_sha256''"
    "jget kvs ''mode'' = jget kvs' ''mode''" "jget kvs ''admission_sha256'' = jget kvs' ''admission_sha256''"
    "jget kvs ''status'' = jget kvs' ''status''" "jget kvs ''steps'' = jget kvs' ''steps''"
  shows "check_sealed env o' a m kvs = check_sealed env o' a m kvs'"
  unfolding check_sealed_def assms ..

text \<open>The canonical document of an accepted Run.\<close>

lemma validate_run_ok:
  assumes "validate_run env run = Inr kvs"
  obtains current o' a m where
    "run = JObj current" "jget current ''schema_version'' = JInt 4"
    "raise_first (shape_of_run current) = Inr ()"
    "validate_contract ''$.resource_limits'' (jget current ''resource_limits'') = Inr (jget current ''resource_limits'')"
    "normalize_run_origin (jget current ''origin'') (jget current ''automation'') = Inr (o', a)"
    "normalize_manual_source_provenance (jget current ''manual_source_provenance'') a = Inr m"
    "kvs = jset (jset (jset current ''origin'' (origin_json o')) ''automation'' (opt_json automation_json a))
             ''manual_source_provenance'' (opt_json identity_json m)"
    "check_sealed env o' a m kvs = Inr ()"
proof -
  from assms obtain current where cur: "current_run_document run = Inr current"
    by (auto simp: validate_run_def elim!: bind_r_InrE)
  then have run: "run = JObj current" and version: "jget current ''schema_version'' = JInt 4"
    by (auto simp: current_run_document_def split: json.splits if_splits)
  note rest = assms [unfolded validate_run_def cur bind_r.simps]
  from rest obtain w o' a m where parts: "raise_first (shape_of_run current) = Inr ()"
    "validate_contract ''$.resource_limits'' (jget current ''resource_limits'') = Inr w"
    "normalize_run_origin (jget current ''origin'') (jget current ''automation'') = Inr (o', a)"
    "normalize_manual_source_provenance (jget current ''manual_source_provenance'') a = Inr m"
    and res: "bind_r (check_sealed env o' a m
         (jset (jset (jset current ''origin'' (origin_json o')) ''automation'' (opt_json automation_json a))
             ''manual_source_provenance'' (opt_json identity_json m)))
       (\<lambda>_. Inr (jset (jset (jset current ''origin'' (origin_json o')) ''automation'' (opt_json automation_json a))
             ''manual_source_provenance'' (opt_json identity_json m))) = Inr kvs"
    by (elim bind_r_InrE) (auto simp: Let_def split: if_splits elim!: bind_r_InrE)
  have "w = jget current ''resource_limits''"
    using parts(2) by (cases "jget current ''resource_limits''")
      (simp_all add: validate_contract_JObj, simp_all add: validate_contract_def)
  with run version parts res show ?thesis
    by (intro that) (auto elim!: bind_r_InrE)
qed

definition run_wf :: "py_env \<Rightarrow> doc \<Rightarrow> bool" where
  "run_wf env kvs =
     (jget kvs ''schema_version'' = JInt 4 \<and> raise_first (shape_of_run kvs) = Inr () \<and>
      (\<exists>w. validate_contract ''$.resource_limits'' (jget kvs ''resource_limits'') = Inr w) \<and>
      (\<exists>o' a m. origin_wf o' a \<and> jget kvs ''origin'' = origin_json o' \<and>
         jget kvs ''automation'' = opt_json automation_json a \<and>
         jget kvs ''manual_source_provenance'' = opt_json identity_json m \<and>
         normalize_manual_source_provenance (opt_json identity_json m) a = Inr m \<and>
         check_sealed env o' a m kvs = Inr ()))"

lemma json_wf_opt [simp]: "json_wf (opt_str s)" "json_wf (opt_int n)"
  by (cases s; simp) (cases n; simp)

lemma json_wf_identity: "json_wf (identity_json i)"
  by (auto simp: identity_json_def identity_items_def)

lemma json_wf_admission:
  "json_wf (origin_json o')" "json_wf (opt_json automation_json a)" "json_wf (opt_json identity_json m)"
  by (simp add: origin_json_def, cases a, simp, simp add: automation_json_def json_wf_identity)
    (cases m, simp, simp add: json_wf_identity)

lemma shape_of_run_cong:
  assumes "has_key kvs ''validations'' = has_key kvs' ''validations''" "jget kvs ''artifact'' = jget kvs' ''artifact''"
    "has_key kvs ''origin'' = has_key kvs' ''origin''" "has_key kvs ''automation'' = has_key kvs' ''automation''"
    "has_key kvs ''manual_source_provenance'' = has_key kvs' ''manual_source_provenance''"
    "has_key kvs ''admission_sha256'' = has_key kvs' ''admission_sha256''"
  shows "shape_of_run kvs = shape_of_run kvs'"
  unfolding shape_of_run_def assms ..

lemma shape_of_run_keys:
  assumes "raise_first (shape_of_run kvs) = Inr ()"
  shows "has_key kvs ''origin''" "has_key kvs ''automation''" "has_key kvs ''manual_source_provenance''"
    "has_key kvs ''admission_sha256''"
  using assms unfolding raise_first_ok shape_of_run_def by simp_all

lemma validate_run_wf:
  assumes "validate_run env run = Inr kvs"
  shows "run_wf env kvs"
proof -
  obtain current o' a m where parts: "jget current ''schema_version'' = JInt 4"
    "raise_first (shape_of_run current) = Inr ()"
    "validate_contract ''$.resource_limits'' (jget current ''resource_limits'') = Inr (jget current ''resource_limits'')"
    "normalize_run_origin (jget current ''origin'') (jget current ''automation'') = Inr (o', a)"
    "normalize_manual_source_provenance (jget current ''manual_source_provenance'') a = Inr m"
    and kvs: "kvs = jset (jset (jset current ''origin'' (origin_json o')) ''automation'' (opt_json automation_json a))
             ''manual_source_provenance'' (opt_json identity_json m)"
    and seal: "check_sealed env o' a m kvs = Inr ()"
    using assms by (rule validate_run_ok)
  have "shape_of_run kvs = shape_of_run current"
    unfolding kvs using shape_of_run_keys [OF parts(2)] by (intro shape_of_run_cong) simp_all
  then show ?thesis
    unfolding run_wf_def
    using parts(1-3) normalize_run_origin_wf [OF parts(4)] provenance_json [OF parts(5)] seal
    by (intro conjI exI [of _ o'] exI [of _ a] exI [of _ m]) (simp_all add: kvs)
qed

lemma validate_run_fixed:
  assumes "run_wf env kvs"
  shows "validate_run env (JObj kvs) = Inr kvs"
proof -
  obtain o' a m w where wf: "jget kvs ''schema_version'' = JInt 4" "raise_first (shape_of_run kvs) = Inr ()"
    "validate_contract ''$.resource_limits'' (jget kvs ''resource_limits'') = Inr w"
    "origin_wf o' a" "jget kvs ''origin'' = origin_json o'"
    "jget kvs ''automation'' = opt_json automation_json a"
    "jget kvs ''manual_source_provenance'' = opt_json identity_json m"
    "normalize_manual_source_provenance (opt_json identity_json m) a = Inr m"
    "check_sealed env o' a m kvs = Inr ()"
    using assms unfolding run_wf_def by blast
  have same: "jset (jset (jset kvs ''origin'' (origin_json o')) ''automation'' (opt_json automation_json a))
      ''manual_source_provenance'' (opt_json identity_json m) = kvs"
    using shape_of_run_keys [OF wf(2)] jset_jget [of kvs "''origin''"] jset_jget [of kvs "''automation''"]
      jset_jget [of kvs "''manual_source_provenance''"] wf(5-7) by simp
  have "py_eq (origin_json o') (origin_json o')" "py_eq (opt_json automation_json a) (opt_json automation_json a)"
    "py_eq (opt_json identity_json m) (opt_json identity_json m)"
    by (intro py_eq_refl json_wf_admission)+
  then show ?thesis
    using wf same normalize_run_origin_json [OF wf(4)]
    by (simp add: validate_run_def current_run_document_def)
qed

interpretation run_doc: canonical_document "validate_run env" JObj "run_wf env" for env
  by unfold_locales (rule validate_run_fixed validate_run_wf, assumption)+

section \<open>The seal\<close>

lemma no_float_admission:
  "no_float (origin_json o')" "no_float (opt_json automation_json a)" "no_float (opt_json identity_json m)"
  by (cases "reason o'"; simp add: origin_json_def)
    (cases a, simp, simp add: automation_json_def identity_json_no_float,
     cases m, simp, simp add: identity_json_no_float)

lemma canon_opt_str [simp]: "canon (opt_str s) = opt_str s"
  by (cases s) auto

lemma origin_canon_inject:
  assumes "canon (origin_json x) = canon (origin_json y)"
  shows "x = y"
proof -
  have get: "map_option canon (map_of [(''kind'', JStr (kind_of_origin x)), (''trigger'', JStr (trigger x)),
       (''reason'', opt_str (reason x))] k) =
     map_option canon (map_of [(''kind'', JStr (kind_of_origin y)), (''trigger'', JStr (trigger y)),
       (''reason'', opt_str (reason y))] k)" for k
    using assms unfolding origin_json_def by (rule canon_obj_get) simp_all
  from get [of "''kind''"] get [of "''trigger''"] get [of "''reason''"] show ?thesis
    by (intro run_origin.equality) simp_all
qed

lemma automation_canon_inject:
  assumes "canon (automation_json x) = canon (automation_json y)"
  shows "x = y"
proof -
  have get: "map_option canon (map_of [(''attempt_key'', JStr (attempt_key x)), (''generation'', JInt (generation x)),
       (''policy'', JStr (policy x)), (''expected_upstream_identity'', identity_json (expected_upstream_identity x))] k) =
     map_option canon (map_of [(''attempt_key'', JStr (attempt_key y)), (''generation'', JInt (generation y)),
       (''policy'', JStr (policy y)), (''expected_upstream_identity'', identity_json (expected_upstream_identity y))] k)" for k
    using assms unfolding automation_json_def by (rule canon_obj_get) simp_all
  have "expected_upstream_identity x = expected_upstream_identity y"
    using get [of "''expected_upstream_identity''"] by (intro identity_canon_inject) simp
  with get [of "''attempt_key''"] get [of "''generation''"] get [of "''policy''"] show ?thesis
    by (intro automation.equality) simp_all
qed

lemma opt_canon_inject:
  assumes "canon (opt_json f x) = canon (opt_json f y)"
    and "\<And>a b. canon (f a) = canon (f b) \<Longrightarrow> a = b" and "\<And>a. canon (f a) \<noteq> JNull"
  shows "x = y"
  using assms by (cases x; cases y) (auto dest: sym)

lemma admission_payload_inject:
  assumes "dumps (admission_payload r s mo o1 a m) = dumps (admission_payload r' s' mo' o2 a' m')"
  shows "r = r' \<and> s = s' \<and> mo = mo' \<and> o1 = o2 \<and> a = a' \<and> m = m'"
proof -
  let ?items = "\<lambda>r s mo o1 a m. [(''schema_version'', JInt 1), (''recipe_id'', JStr r), (''recipe_sha256'', JStr s),
     (''mode'', JStr mo), (''origin'', origin_json o1), (''automation'', opt_json automation_json a),
     (''manual_source_provenance'', opt_json identity_json m)]"
  have nf: "no_float (JObj (?items r s mo o1 a m))" for r s mo o1 a m
    using no_float_admission by simp
  have get: "map_option canon (map_of (?items r s mo o1 a m) k) = map_option canon (map_of (?items r' s' mo' o2 a' m') k)" for k
    using assms nf [of r s mo o1 a m] nf [of r' s' mo' o2 a' m'] unfolding admission_payload_def
    by (rule dumps_obj_get) simp_all
  have "o1 = o2"
    using get [of "''origin''"] by (intro origin_canon_inject) simp
  moreover have "canon (opt_json automation_json a) = canon (opt_json automation_json a')"
    "canon (opt_json identity_json m) = canon (opt_json identity_json m')"
    using get [of "''automation''"] get [of "''manual_source_provenance''"] by simp_all
  then have "a = a'" "m = m'"
    by (auto elim!: opt_canon_inject dest: automation_canon_inject identity_canon_inject
        simp: automation_json_def identity_json_def)
  ultimately show ?thesis
    using get [of "''recipe_id''"] get [of "''recipe_sha256''"] get [of "''mode''"] by simp
qed

definition sealed_payload :: "py_env \<Rightarrow> doc \<Rightarrow> run_origin \<Rightarrow> automation option \<Rightarrow> identity option \<Rightarrow> json" where
  "sealed_payload env c o' a m =
     admission_payload (str_or env (jget c ''recipe_id'') []) (str_or env (jget c ''recipe_sha256'') [])
       (str_or env (jget c ''mode'') []) o' a m"

lemma run_sealed:
  assumes "validate_run env run = Inr c"
  obtains o' a m where "jget c ''origin'' = origin_json o'" "jget c ''automation'' = opt_json automation_json a"
    "jget c ''manual_source_provenance'' = opt_json identity_json m"
    "jget c ''admission_sha256'' = JStr (sha256_hex env (utf8 (dumps (sealed_payload env c o' a m))))"
proof -
  from validate_run_wf [OF assms] obtain o' a m where parts: "jget c ''origin'' = origin_json o'"
    "jget c ''automation'' = opt_json automation_json a" "jget c ''manual_source_provenance'' = opt_json identity_json m"
    and seal: "check_sealed env o' a m c = Inr ()"
    unfolding run_wf_def by blast
  from seal have "jget c ''admission_sha256'' = JStr (sha256_hex env (utf8 (dumps (sealed_payload env c o' a m))))"
    unfolding check_sealed_def Let_def
    by (elim result_elims) (simp add: admission_metadata_sha256_def sealed_payload_def)
  with parts show ?thesis by (rule that)
qed

lemma new_steps: "map_r new_step STEP_NAMES = Inr steps \<Longrightarrow> check_steps (JArr steps) = Inr ()"
  by (auto simp: STEP_NAMES_def new_step_def check_steps_def STEP_STATUSES_def)

lemma new_run_wf:
  assumes "new_run env now epoch run_id recipe_id mode workspace sha contract od ad pd = Inr kvs"
  shows "run_wf env kvs \<and> jget kvs ''status'' = JStr ''pending'' \<and> jget kvs ''id'' = JStr run_id"
proof -
  from assms obtain o' a m steps con limits where parts:
    "normalize_run_origin od ad = Inr (o', a)" "normalize_manual_source_provenance pd a = Inr m"
    "require_bound_automation env recipe_id sha mode a = Inr ()"
    "map_r new_step STEP_NAMES = Inr steps" "validate_contract ''$.resource_limits'' con = Inr limits"
    and kvs: "kvs = [
          (''schema_version'', JInt 4), (''id'', JStr run_id), (''recipe_id'', JStr recipe_id),
          (''recipe_sha256'', JStr sha), (''mode'', JStr mode), (''status'', JStr ''pending''),
          (''created_at'', JStr now), (''created_at_epoch'', JFloat epoch), (''started_at'', JNull),
          (''finished_at'', JNull), (''duration'', JNull), (''workspace'', JStr workspace),
          (''version'', JObj [(''upstream'', JStr []), (''debian'', JStr [])]),
          (''steps'', JArr steps), (''artifact'', JNull), (''toolchain'', JNull), (''error'', JNull),
          (''events'', JArr []), (''resource_limits'', limits), (''origin'', origin_json o'),
          (''automation'', opt_json automation_json a),
          (''manual_source_provenance'', opt_json identity_json m),
          (''admission_sha256'', JStr (admission_metadata_sha256 env recipe_id sha mode o' a m))]"
    unfolding new_run_def by (elim if_Inl_InrE) (auto elim!: bind_r_InrE)
  have "limits = con"
    using parts(5) by (cases con) (simp_all add: validate_contract_JObj, simp_all add: validate_contract_def)
  moreover have "str_or env (JStr x) [] = x" for x by simp
  ultimately have "check_sealed env o' a m kvs = Inr ()"
    using parts(3) new_steps [OF parts(4)] unfolding kvs check_sealed_def
    by (simp add: RUN_STATUSES_def)
  moreover have "raise_first (shape_of_run kvs) = Inr ()"
    by (simp add: kvs shape_of_run_def has_key_def)
  ultimately show ?thesis
    using parts(5) \<open>limits = con\<close> normalize_run_origin_wf [OF parts(1)] provenance_json [OF parts(2)]
    unfolding run_wf_def
    by (intro conjI exI [of _ o'] exI [of _ a] exI [of _ m]) (simp_all add: kvs)
qed

text \<open>Lifecycle updates keep a Run well formed: a known status, and any member that is neither
  sealed nor checked.\<close>

definition CHECKED_FIELDS :: "string list" where
  "CHECKED_FIELDS = [''schema_version'', ''validations'', ''artifact'', ''origin'', ''automation'',
     ''manual_source_provenance'', ''admission_sha256'', ''resource_limits'', ''recipe_id'',
     ''recipe_sha256'', ''mode'', ''status'', ''steps'']"

lemma run_wf_status:
  assumes "run_wf env kvs" "s \<in> set RUN_STATUSES"
  shows "run_wf env (jset kvs ''status'' (JStr s))"
proof -
  have seal: "check_sealed env o' a m kvs = Inr () \<Longrightarrow> check_sealed env o' a m (jset kvs ''status'' (JStr s)) = Inr ()" for o' a m
    using assms(2) unfolding check_sealed_def Let_def by (auto elim!: result_elims)
  have "shape_of_run (jset kvs ''status'' (JStr s)) = shape_of_run kvs"
    by (intro shape_of_run_cong) simp_all
  with assms(1) seal show ?thesis
    unfolding run_wf_def by (simp, blast)
qed

lemma run_wf_unchecked:
  assumes "run_wf env kvs" "k \<notin> set CHECKED_FIELDS"
  shows "run_wf env (jset kvs k v)"
proof -
  have seal: "check_sealed env o' a m (jset kvs k v) = check_sealed env o' a m kvs" for o' a m
    using assms(2) by (intro check_sealed_cong) (auto simp: CHECKED_FIELDS_def)
  have "shape_of_run (jset kvs k v) = shape_of_run kvs"
    using assms(2) by (intro shape_of_run_cong) (auto simp: CHECKED_FIELDS_def)
  with assms show ?thesis
    unfolding run_wf_def seal by (auto simp: CHECKED_FIELDS_def)
qed

section \<open>A concrete Run\<close>

definition sample_env :: py_env where
  "sample_env = \<lparr>fromisoformat = (\<lambda>_. None), sha256_hex = byte_sum, py_repr = dumps\<rparr>"

lemma sample_run:
  "\<exists>kvs. new_run sample_env ''2026-01-01T00:00:00+00:00'' 0 ''run-1'' recipe_id ''build'' ''/w/run-1''
     (replicate 64 CHR ''a'') JNull JNull JNull JNull = Inr kvs"
proof -
  obtain c where c: "default_contract = Inr c" "validate_contract ''$.resource_limits'' c = Inr c"
    using default_contract_accepted [of "''$.resource_limits''"] by blast
  obtain steps where steps: "map_r new_step STEP_NAMES = Inr steps"
    by (simp add: STEP_NAMES_def new_step_def)
  have origin: "normalize_run_origin JNull JNull = Inr (\<lparr>kind_of_origin = ''manual'', trigger = ''manual'', reason = None\<rparr>, None)"
    by (simp add: normalize_run_origin_def normalize_origin_items_def same_keys_def RUN_ORIGINS_def
        bounded_optional_text_def origin_checks_def RUN_TRIGGERS_def char_defs Let_def)
  show ?thesis
    by (simp add: new_run_def normalize_manual_source_provenance_def require_bound_automation_def origin steps c)
qed

section \<open>Properties\<close>

text \<open>A Run that \<^verbatim>\<open>new_run\<close> creates is pending and is accepted
  unchanged by \<^verbatim>\<open>validate_run\<close>: every later load of the saved document succeeds and
  returns what was created.\<close>

theorem new_run_validates:
  assumes "new_run env now epoch run_id recipe_id mode workspace sha contract od ad pd = Inr kvs"
  shows "validate_run env (JObj kvs) = Inr kvs \<and> jget kvs ''status'' = JStr ''pending'' \<and>
    jget kvs ''id'' = JStr run_id"
  using new_run_wf [OF assms] by (blast intro: run_doc.validate_render)

theorem new_run_validates_witness:
  "\<exists>kvs. validate_run sample_env (JObj kvs) = Inr kvs \<and> jget kvs ''id'' = JStr ''run-1''"
proof -
  from sample_run obtain kvs where made: "new_run sample_env ''2026-01-01T00:00:00+00:00'' 0 ''run-1'' ''app'' ''build'' ''/w/run-1''
     (replicate 64 CHR ''a'') JNull JNull JNull JNull = Inr kvs" ..
  from new_run_validates [OF made] show ?thesis by (intro exI [of _ kvs]) simp
qed

lemma new_run_recipe_id:
  assumes "new_run env now epoch run_id recipe_id mode workspace sha contract od ad pd = Inr kvs"
  shows "jget kvs ''recipe_id'' = JStr recipe_id"
  using assms unfolding new_run_def by (elim if_Inl_InrE) (auto elim!: bind_r_InrE)

text \<open>The bytes a stored Run seals, read off its own members.\<close>

definition sealed_bytes :: "py_env \<Rightarrow> doc \<Rightarrow> string" where
  "sealed_bytes env c = utf8 (dumps (JObj [
     (''schema_version'', JInt 1), (''recipe_id'', JStr (str_or env (jget c ''recipe_id'') [])),
     (''recipe_sha256'', JStr (str_or env (jget c ''recipe_sha256'') [])),
     (''mode'', JStr (str_or env (jget c ''mode'') [])), (''origin'', jget c ''origin''),
     (''automation'', jget c ''automation''),
     (''manual_source_provenance'', jget c ''manual_source_provenance'')]))"

lemma sealed_bytes_payload:
  assumes "jget c ''origin'' = origin_json o'" "jget c ''automation'' = opt_json automation_json a"
    "jget c ''manual_source_provenance'' = opt_json identity_json m"
  shows "sealed_bytes env c = utf8 (dumps (sealed_payload env c o' a m))"
  by (simp add: sealed_bytes_def sealed_payload_def admission_payload_def assms)

text \<open>C38: the admission seal binds.  The \<^verbatim>\<open>admission_sha256\<close> of an accepted Run is the SHA-256
  digest of the Run's own sealed bytes, and the sealed bytes of two accepted Runs are the same exactly
  when the Runs have the same Recipe id and digest, mode, origin, automation metadata and manual
  provenance.  So two accepted Runs with one seal that differ in any of these have different
  sealed bytes with one digest: these two strings are a SHA-256 collision.\<close>

theorem run_seal_binding:
  assumes "validate_run env run1 = Inr c1" and "validate_run env run2 = Inr c2"
  shows "jget c1 ''admission_sha256'' = JStr (sha256_hex env (sealed_bytes env c1)) \<and>
    jget c2 ''admission_sha256'' = JStr (sha256_hex env (sealed_bytes env c2)) \<and>
    (sealed_bytes env c1 = sealed_bytes env c2 \<longleftrightarrow>
      (\<forall>k \<in> {''recipe_id'', ''recipe_sha256'', ''mode''}. str_or env (jget c1 k) [] = str_or env (jget c2 k) []) \<and>
      (\<forall>k \<in> {''origin'', ''automation'', ''manual_source_provenance''}. jget c1 k = jget c2 k))"
proof -
  obtain o1 a1 m1 where one: "jget c1 ''origin'' = origin_json o1" "jget c1 ''automation'' = opt_json automation_json a1"
    "jget c1 ''manual_source_provenance'' = opt_json identity_json m1"
    "jget c1 ''admission_sha256'' = JStr (sha256_hex env (utf8 (dumps (sealed_payload env c1 o1 a1 m1))))"
    using assms(1) by (rule run_sealed)
  obtain o2 a2 m2 where two: "jget c2 ''origin'' = origin_json o2" "jget c2 ''automation'' = opt_json automation_json a2"
    "jget c2 ''manual_source_provenance'' = opt_json identity_json m2"
    "jget c2 ''admission_sha256'' = JStr (sha256_hex env (utf8 (dumps (sealed_payload env c2 o2 a2 m2))))"
    using assms(2) by (rule run_sealed)
  note payload = sealed_bytes_payload [OF one(1-3)] sealed_bytes_payload [OF two(1-3)]
  have "(\<forall>k \<in> {''recipe_id'', ''recipe_sha256'', ''mode''}. str_or env (jget c1 k) [] = str_or env (jget c2 k) []) \<and>
      (\<forall>k \<in> {''origin'', ''automation'', ''manual_source_provenance''}. jget c1 k = jget c2 k)"
    if same: "sealed_bytes env c1 = sealed_bytes env c2"
    using admission_payload_inject [OF utf8_inject [OF same [unfolded payload], unfolded sealed_payload_def]] one two
    by simp
  moreover have "sealed_bytes env c1 = sealed_bytes env c2"
    if "\<forall>k \<in> {''recipe_id'', ''recipe_sha256'', ''mode''}. str_or env (jget c1 k) [] = str_or env (jget c2 k) []"
      "\<forall>k \<in> {''origin'', ''automation'', ''manual_source_provenance''}. jget c1 k = jget c2 k"
    using that by (simp add: sealed_bytes_def)
  ultimately show ?thesis
    using one(4) two(4) unfolding payload [symmetric] by blast
qed

theorem run_seal_binding_witness:
  "\<exists>c1 c2 c3. validate_run sample_env (JObj c1) = Inr c1 \<and> validate_run sample_env (JObj c2) = Inr c2 \<and>
     validate_run sample_env (JObj c3) = Inr c3 \<and> jget c2 ''status'' = JStr ''queued'' \<and>
     jget c2 ''admission_sha256'' = jget c1 ''admission_sha256'' \<and>
     jget c3 ''recipe_id'' = JStr ''other'' \<and> sealed_bytes sample_env c3 \<noteq> sealed_bytes sample_env c1"
proof -
  obtain c1 where made: "new_run sample_env ''2026-01-01T00:00:00+00:00'' 0 ''run-1'' ''app'' ''build'' ''/w/run-1''
     (replicate 64 CHR ''a'') JNull JNull JNull JNull = Inr c1" using sample_run by blast
  obtain c3 where other: "new_run sample_env ''2026-01-01T00:00:00+00:00'' 0 ''run-1'' ''other'' ''build'' ''/w/run-1''
     (replicate 64 CHR ''a'') JNull JNull JNull JNull = Inr c3" using sample_run by blast
  have wf: "run_wf sample_env c1" using new_run_wf [OF made] by simp
  let ?c2 = "jset c1 ''status'' (JStr ''queued'')"
  have "run_wf sample_env ?c2"
    using wf by (rule run_wf_status) (simp add: RUN_STATUSES_def)
  then have ok: "validate_run sample_env (JObj c1) = Inr c1" "validate_run sample_env (JObj ?c2) = Inr ?c2"
    "validate_run sample_env (JObj c3) = Inr c3"
    using wf new_run_wf [OF other] by (blast intro: run_doc.validate_render)+
  have ids: "jget c1 ''recipe_id'' = JStr ''app''" "jget c3 ''recipe_id'' = JStr ''other''"
    using new_run_recipe_id [OF made] new_run_recipe_id [OF other] .
  have "jget ?c2 ''admission_sha256'' = jget c1 ''admission_sha256''"
    using run_seal_binding [OF ok(2,1)] by simp
  moreover have "sealed_bytes sample_env c3 \<noteq> sealed_bytes sample_env c1"
    using run_seal_binding [OF ok(3,1)] ids by simp
  ultimately show ?thesis using ok ids(2) by (intro exI [of _ c1] exI [of _ ?c2] exI [of _ c3]) simp
qed

end
