(* ===== verification/Run_Store.thy ===== *)
theory Run_Store
  imports Run_Document
begin

text \<open>
  \<^verbatim>\<open>src/debbuilder/build_store.py\<close> with the atomic write of \<^verbatim>\<open>storage.py\<close>: Run
  workspaces on disk, loading, saving, the compare-and-set of a status, creation and the
  removal of an incomplete creation.

  The filesystem may fail.  \<^verbatim>\<open>io\<close> says how one operation fares: whether the workspace
  lock is taken, whether \<^verbatim>\<open>run.json\<close> can be read, and whether a write is done, fails before
  the rename, or fails after it (the directory \<^verbatim>\<open>fsync\<close> or the \<^verbatim>\<open>chmod\<close>), when the new
  content is on disk although the call raised.
\<close>

section \<open>Workspaces\<close>

datatype run_file = NoFile | Unreadable | Parsed json

record workspace =
  plain_dir :: bool
  run_file :: run_file

type_synonym disk = "string \<Rightarrow> workspace option"

datatype write_outcome = Written | FailedBefore | FailedAfter

record io =
  lock_ok :: bool
  read_ok :: bool
  write_outcome :: write_outcome

definition io_fine :: io where
  "io_fine = \<lparr>lock_ok = True, read_ok = True, write_outcome = Written\<rparr>"

abbreviation os_err :: exn where "os_err \<equiv> Exn OSError [] []"

text \<open>\<^verbatim>\<open>require_safe_name(run_id, "build run id")\<close>, the guard of \<^verbatim>\<open>run_dir\<close>.\<close>

definition safe_name :: "string \<Rightarrow> bool" where
  "safe_name s = (s \<noteq> [] \<and> list_all is_name_char s)"

definition run_dir :: "string \<Rightarrow> unit result" where
  "run_dir run_id = (if \<not> safe_name run_id then Inl val_err else Inr ())"

text \<open>\<^verbatim>\<open>locked_run\<close> through \<^verbatim>\<open>locked_workspace\<close>: the workspace must be a real
  directory.\<close>

definition locked_run :: "io \<Rightarrow> string \<Rightarrow> disk \<Rightarrow> unit result" where
  "locked_run io run_id disk =
     bind_r (run_dir run_id) (\<lambda>_.
     if run_id \<in> {''.'', ''..''} then Inl val_err
     else case disk run_id of
       None \<Rightarrow> Inl (Exn FileNotFoundError [] [])
     | Some w \<Rightarrow> if \<not> plain_dir w \<or> \<not> lock_ok io then Inl os_err else Inr ())"

section \<open>Loading and saving\<close>

definition load :: "py_env \<Rightarrow> io \<Rightarrow> string \<Rightarrow> disk \<Rightarrow> doc option result" where
  "load env io run_id disk =
     bind_r (run_dir run_id) (\<lambda>_.
     case disk run_id of
       None \<Rightarrow> Inr None
     | Some w \<Rightarrow>
         (case run_file w of
            Parsed (JObj kvs) \<Rightarrow>
              if \<not> read_ok io then Inr None
              else bind_r (validate_run env (JObj kvs)) (\<lambda>run. Inr (Some run))
          | _ \<Rightarrow> Inr None))"

text \<open>\<^verbatim>\<open>storage.save_json(path, value)\<close> followed by \<^verbatim>\<open>path.chmod\<close>.\<close>

definition write_run :: "io \<Rightarrow> string \<Rightarrow> doc \<Rightarrow> disk \<Rightarrow> disk \<times> unit result" where
  "write_run io run_id kvs disk =
     (let w = (case disk run_id of None \<Rightarrow> \<lparr>plain_dir = True, run_file = NoFile\<rparr> | Some w \<Rightarrow> w);
          disk' = disk(run_id \<mapsto> w\<lparr>run_file := Parsed (JObj kvs)\<rparr>) in
      case write_outcome io of
        Written \<Rightarrow> (disk', Inr ())
      | FailedBefore \<Rightarrow> (disk, Inl os_err)
      | FailedAfter \<Rightarrow> (disk', Inl os_err))"

definition save :: "py_env \<Rightarrow> io \<Rightarrow> doc \<Rightarrow> disk \<Rightarrow> disk \<times> unit result" where
  "save env io run disk =
     (case validate_run env (JObj run) of
        Inl e \<Rightarrow> (disk, Inl e)
      | Inr normalized \<Rightarrow>
          if \<not> has_key normalized ''id'' then (disk, Inl (Exn KeyError [] []))
          else
            let run_id = py_str env (jget normalized ''id'') in
            (case run_dir run_id of Inl e \<Rightarrow> (disk, Inl e) | Inr _ \<Rightarrow> write_run io run_id normalized disk))"

text \<open>A result beside the disk it leaves.\<close>

fun with_disk :: "disk \<times> unit result \<Rightarrow> 'a \<Rightarrow> disk \<times> 'a result" where
  "with_disk (disk, Inl e) x = (disk, Inl e)"
| "with_disk (disk, Inr _) x = (disk, Inr x)"

definition transition_status ::
  "py_env \<Rightarrow> io \<Rightarrow> string \<Rightarrow> string \<Rightarrow> string \<Rightarrow> disk \<Rightarrow> disk \<times> doc result" where
  "transition_status env io run_id expected status disk =
     (case bind_r (locked_run io run_id disk) (\<lambda>_. load env io run_id disk) of
        Inl e \<Rightarrow> (disk, Inl e)
      | Inr None \<Rightarrow> (disk, Inl (Exn FileNotFoundError [] []))
      | Inr (Some run) \<Rightarrow>
          if run = [] then (disk, Inl (Exn FileNotFoundError [] []))
          else if str_or env (jget run ''status'') [] \<noteq> expected
          then (disk, Inl (Exn RunStatusTransitionError (str_or env (jget run ''status'') []) []))
          else
            let updated = jset run ''status'' (JStr status) in
            with_disk (save env io updated disk) updated)"

section \<open>Creation\<close>

text \<open>The canonical Recipe as creation reads it: the result of \<^verbatim>\<open>recipe_for_storage\<close> and
  the text of its snapshot.\<close>

record recipe_view =
  rv_name :: string
  rv_active :: bool
  rv_enabled :: bool
  rv_policy :: string
  rv_snapshot :: string

text \<open>The agreement of automation metadata with the Recipe snapshot, lines 95 to 107.\<close>

definition check_snapshot_policy :: "recipe_view \<Rightarrow> json \<Rightarrow> string \<Rightarrow> unit result" where
  "check_snapshot_policy recipe automation_doc mode =
     (if automation_doc = JNull then Inr ()
      else case automation_doc of
        JObj kvs \<Rightarrow>
          if \<not> rv_active recipe \<or> \<not> rv_enabled recipe \<or> rv_policy recipe = ''manual'' then Inl val_err
          else if rv_policy recipe = ''detect'' then Inl val_err
          else if jget kvs ''policy'' \<noteq> JStr (rv_policy recipe) then Inl val_err
          else if mode \<noteq> (if rv_policy recipe = ''test'' then ''dry_run'' else ''build'') then Inl val_err
          else Inr ()
      | _ \<Rightarrow> Inl val_err)"

text \<open>\<^verbatim>\<open>create(...)\<close>: \<^verbatim>\<open>fresh\<close> is \<^verbatim>\<open>make_run_id()\<close>, \<^verbatim>\<open>path\<close> the resolved
  workspace path of an identifier, \<^verbatim>\<open>dirs_ok\<close> whether making the directories and the
  snapshot succeeds once the workspace exists.\<close>

definition create ::
  "py_env \<Rightarrow> io \<Rightarrow> bool \<Rightarrow> string \<Rightarrow> rat \<Rightarrow> string \<Rightarrow> (string \<Rightarrow> string) \<Rightarrow> recipe_view \<Rightarrow> string \<Rightarrow> string \<Rightarrow>
   string option \<Rightarrow> json \<Rightarrow> json \<Rightarrow> json \<Rightarrow> json \<Rightarrow> disk \<Rightarrow> disk \<times> doc result" where
  "create env io dirs_ok now epoch fresh path recipe recipe_id mode run_id contract origin_doc automation_doc provenance disk =
     (let identifier = (case run_id of None \<Rightarrow> fresh | Some [] \<Rightarrow> fresh | Some r \<Rightarrow> r) in
      case bind_r (check_snapshot_policy recipe automation_doc mode) (\<lambda>_.
           bind_r (run_dir identifier) (\<lambda>_.
           new_run env now epoch identifier (if recipe_id = [] then rv_name recipe else recipe_id) mode (path identifier)
             (sha256_hex env (utf8 (rv_snapshot recipe))) contract origin_doc automation_doc provenance)) of
        Inl e \<Rightarrow> (disk, Inl e)
      | Inr run \<Rightarrow>
          if disk identifier \<noteq> None then (disk, Inl os_err)
          else
            let made = disk(identifier \<mapsto> \<lparr>plain_dir = True, run_file = NoFile\<rparr>) in
            if \<not> dirs_ok then (made, Inl os_err)
            else with_disk (save env io run made) run)"

text \<open>\<^verbatim>\<open>discard_incomplete_creation\<close>\<close>

definition discard_incomplete_creation :: "io \<Rightarrow> string \<Rightarrow> disk \<Rightarrow> disk \<times> bool result" where
  "discard_incomplete_creation io run_id disk =
     (case run_dir run_id of
        Inl e \<Rightarrow> (disk, Inl e)
      | Inr _ \<Rightarrow>
          (case disk run_id of
             None \<Rightarrow> (disk, Inr True)
           | Some w \<Rightarrow>
               if \<not> plain_dir w \<or> run_file w \<noteq> NoFile then (disk, Inr False)
               else (case write_outcome io of
                  Written \<Rightarrow> (disk(run_id := None), Inr True)
                | FailedBefore \<Rightarrow> (disk, Inl os_err)
                | FailedAfter \<Rightarrow> (disk(run_id := None), Inl os_err))))"

text \<open>\<^verbatim>\<open>log_slice\<close>: \<^verbatim>\<open>content\<close> is the byte content of \<^verbatim>\<open>pipeline.log\<close> when it
  exists; the result is the bytes read, the next offset and the size.\<close>

definition log_slice :: "string option \<Rightarrow> int \<Rightarrow> string \<times> int \<times> int" where
  "log_slice content offset =
     (case content of
        None \<Rightarrow> ([], 0, 0)
      | Some bytes \<Rightarrow>
          let file_size = int (length bytes); start = max 0 (min offset file_size) in
          (drop (nat start) bytes, file_size, file_size))"

section \<open>Lemmas\<close>

text \<open>The status of the Run a load returns, when the file can be read.\<close>

definition stored_run :: "py_env \<Rightarrow> disk \<Rightarrow> string \<Rightarrow> doc option" where
  "stored_run env disk run_id =
     (case disk run_id of
        Some w \<Rightarrow>
          (case run_file w of
             Parsed (JObj kvs) \<Rightarrow> (case validate_run env (JObj kvs) of Inl _ \<Rightarrow> None | Inr run \<Rightarrow> Some run)
           | _ \<Rightarrow> None)
      | None \<Rightarrow> None)"

definition stored_status :: "py_env \<Rightarrow> disk \<Rightarrow> string \<Rightarrow> json option" where
  "stored_status env disk run_id = map_option (\<lambda>run. jget run ''status'') (stored_run env disk run_id)"

lemma load_stored: "load env io run_id disk = Inr (Some run) \<Longrightarrow> stored_run env disk run_id = Some run"
  by (auto simp: load_def stored_run_def elim!: bind_r_InrE
      split: option.splits run_file.splits json.splits if_splits)

lemma stored_load:
  "stored_run env disk run_id = Some run \<Longrightarrow> safe_name run_id \<Longrightarrow> read_ok io \<Longrightarrow>
     load env io run_id disk = Inr (Some run)"
  by (auto simp: load_def stored_run_def run_dir_def
      split: option.splits run_file.splits json.splits sum.splits)

lemma stored_wf: "stored_run env disk run_id = Some run \<Longrightarrow> run_wf env run"
  by (auto simp: stored_run_def dest: validate_run_wf
      split: option.splits run_file.splits json.splits sum.splits)

lemma run_wf_status_known: "run_wf env run \<Longrightarrow> \<exists>s \<in> set RUN_STATUSES. jget run ''status'' = JStr s"
  unfolding run_wf_def check_sealed_def Let_def by (auto elim!: result_elims simp: str_in_True_iff)

lemma jget_has_key: "jget kvs k = JStr s \<Longrightarrow> has_key kvs k"
  by (auto simp: has_key_def jget_def split: option.splits)

lemma write_run_other: "r \<noteq> run_id \<Longrightarrow> fst (write_run io run_id kvs disk) r = disk r"
  by (simp add: write_run_def Let_def split: write_outcome.split)

text \<open>A save that reaches the disk stores exactly the canonical document.\<close>

lemma save_stored:
  assumes "run_wf env run" "jget run ''id'' = JStr run_id" "safe_name run_id"
  shows "fst (save env io run disk) = (if write_outcome io = FailedBefore then disk else
      fst (save env io_fine run disk))"
    and "stored_run env (fst (save env io_fine run disk)) run_id = Some run"
    and "r \<noteq> run_id \<Longrightarrow> fst (save env io run disk) r = disk r"
    and "snd (save env io run disk) = (if write_outcome io = Written then Inr () else Inl os_err)"
proof -
  have key: "has_key run ''id''"
    using assms(2) by (rule jget_has_key)
  have valid: "validate_run env (JObj run) = Inr run"
    using assms(1) by (rule run_doc.validate_render)
  have save: "save env io run disk = write_run io run_id run disk" for io
    using assms(2,3) key by (simp add: save_def valid run_dir_def)
  show "fst (save env io run disk) = (if write_outcome io = FailedBefore then disk else fst (save env io_fine run disk))"
    by (simp add: save write_run_def io_fine_def Let_def split: write_outcome.split)
  show "stored_run env (fst (save env io_fine run disk)) run_id = Some run"
    by (simp add: save write_run_def io_fine_def Let_def stored_run_def valid)
  show "r \<noteq> run_id \<Longrightarrow> fst (save env io run disk) r = disk r"
    by (simp add: save write_run_other)
  show "snd (save env io run disk) = (if write_outcome io = Written then Inr () else Inl os_err)"
    by (simp add: save write_run_def Let_def split: write_outcome.split)
qed

lemma with_disk_eq: "with_disk p x = (fst p, case snd p of Inl e \<Rightarrow> Inl e | Inr _ \<Rightarrow> Inr x)"
  by (cases p; cases "snd p") auto

text \<open>Every stored Run lies in the directory its \<^verbatim>\<open>id\<close> names.\<close>

definition disk_wf :: "py_env \<Rightarrow> disk \<Rightarrow> bool" where
  "disk_wf env disk = (\<forall>r run. stored_run env disk r = Some run \<longrightarrow> jget run ''id'' = JStr r \<and> safe_name r)"

lemma stored_cong: "disk r = disk' r \<Longrightarrow> stored_run env disk r = stored_run env disk' r"
  by (simp add: stored_run_def)

text \<open>The effect of every read-modify-write of a Run: nothing, or the updated document.\<close>

lemma save_update:
  assumes "disk_wf env disk" "stored_run env disk run_id = Some run" "run_wf env run'"
    and "jget run' ''id'' = jget run ''id''"
  shows "fst (save env io run' disk) = disk \<and> write_outcome io = FailedBefore \<or>
      stored_run env (fst (save env io run' disk)) run_id = Some run' \<and> write_outcome io \<noteq> FailedBefore"
    and "r \<noteq> run_id \<Longrightarrow> stored_run env (fst (save env io run' disk)) r = stored_run env disk r"
    and "disk_wf env (fst (save env io run' disk))"
    and "snd (save env io run' disk) = (if write_outcome io = Written then Inr () else Inl os_err)"
proof -
  have id: "jget run' ''id'' = JStr run_id" "safe_name run_id"
    using assms by (auto simp: disk_wf_def)
  note eff = save_stored [OF assms(3) id]
  show one: "fst (save env io run' disk) = disk \<and> write_outcome io = FailedBefore \<or>
      stored_run env (fst (save env io run' disk)) run_id = Some run' \<and> write_outcome io \<noteq> FailedBefore"
    using eff(1,2) by (cases "write_outcome io = FailedBefore") simp_all
  show other: "stored_run env (fst (save env io run' disk)) r = stored_run env disk r" if "r \<noteq> run_id" for r
    using eff(3) [OF that] by (rule stored_cong)
  show "disk_wf env (fst (save env io run' disk))"
    unfolding disk_wf_def
  proof (intro allI impI)
    fix r x assume "stored_run env (fst (save env io run' disk)) r = Some x"
    then show "jget x ''id'' = JStr r \<and> safe_name r"
      using one other [of r] assms(1) id by (cases "r = run_id") (auto simp: disk_wf_def)
  qed
  show "snd (save env io run' disk) = (if write_outcome io = Written then Inr () else Inl os_err)"
    by (rule eff(4))
qed

text \<open>What \<^verbatim>\<open>transition_status\<close> does: nothing before the save, and the save updates the
  status of a Run that had the expected one.\<close>

lemma transition_status_cases:
  assumes "disk_wf env disk" "status \<in> set RUN_STATUSES"
  obtains (unchanged) e where "transition_status env io run_id expected status disk = (disk, Inl e)"
  | (saved) run disk' where "stored_run env disk run_id = Some run" "jget run ''status'' = JStr expected"
      "stored_run env disk' run_id = Some (jset run ''status'' (JStr status))"
      "\<And>r. r \<noteq> run_id \<Longrightarrow> stored_run env disk' r = stored_run env disk r" "disk_wf env disk'"
      "transition_status env io run_id expected status disk =
         (disk', if write_outcome io = Written then Inr (jset run ''status'' (JStr status)) else Inl os_err)"
proof (cases "bind_r (locked_run io run_id disk) (\<lambda>_. load env io run_id disk)")
  case (Inl e)
  then show ?thesis by (intro unchanged) (simp add: transition_status_def)
next
  case (Inr loaded)
  show ?thesis
  proof (cases loaded)
    case None
    with Inr show ?thesis by (intro unchanged) (simp add: transition_status_def)
  next
    case (Some run)
    with Inr have stored: "stored_run env disk run_id = Some run"
      by (auto elim!: bind_r_InrE dest: load_stored)
    then have wf: "run_wf env run" by (rule stored_wf)
    then have ne: "run \<noteq> []"
      by (auto simp: run_wf_def)
    obtain s where s: "s \<in> set RUN_STATUSES" "jget run ''status'' = JStr s"
      using run_wf_status_known [OF wf] by blast
    then have str: "str_or env (jget run ''status'') [] = s"
      by (auto simp: RUN_STATUSES_def)
    show ?thesis
    proof (cases "s = expected")
      case False
      with Inr Some ne str show ?thesis by (intro unchanged) (simp add: transition_status_def)
    next
      case True
      let ?run' = "jset run ''status'' (JStr status)"
      note upd = save_update [OF assms(1) stored run_wf_status [OF wf assms(2)]]
      have same: "jget ?run' ''id'' = jget run ''id''" by simp
      have res: "transition_status env io run_id expected status disk =
          (fst (save env io ?run' disk), if write_outcome io = Written then Inr ?run' else Inl os_err)"
        using Inr Some ne str True upd(4) [OF same]
        by (simp add: transition_status_def Let_def with_disk_eq)
      show ?thesis
      proof (cases "write_outcome io = FailedBefore")
        case True
        with upd(1) [OF same, where io = io] have "fst (save env io ?run' disk) = disk" by simp
        with res True show ?thesis by (intro unchanged) simp
      next
        case False
        with upd(1) [OF same, where io = io] have "stored_run env (fst (save env io ?run' disk)) run_id = Some ?run'" by simp
        then show ?thesis
          using saved [OF stored _ _ upd(2) [OF same] upd(3) [OF same] res] s True by simp
      qed
    qed
  qed
qed

lemma transition_refused:
  assumes "disk_wf env disk" "status \<in> set RUN_STATUSES" "stored_status env disk run_id \<noteq> Some (JStr expected)"
  shows "\<exists>e. transition_status env io run_id expected status disk = (disk, Inl e)"
  using assms(1,2)
proof (cases rule: transition_status_cases [where io = io and run_id = run_id and expected = expected])
  case (saved run disk')
  with assms(3) show ?thesis by (simp add: stored_status_def)
qed blast

text \<open>A disk with one pending Run.\<close>

lemma sample_disk:
  obtains disk d run where "disk_wf sample_env disk" "stored_status sample_env disk ''run-1'' = Some (JStr ''pending'')"
    "transition_status sample_env io_fine ''run-1'' ''pending'' ''queued'' disk = (d, Inr run)"
    "locked_run io_fine ''run-1'' d = Inr ()"
proof -
  from sample_run obtain c where made: "new_run sample_env ''2026-01-01T00:00:00+00:00'' 0 ''run-1'' ''app'' ''build'' ''/w/run-1''
     (replicate 64 CHR ''a'') JNull JNull JNull JNull = Inr c" ..
  note wf = new_run_wf [OF made]
  have safe: "safe_name ''run-1''" by (simp add: safe_name_def char_defs)
  let ?disk = "[''run-1'' \<mapsto> \<lparr>plain_dir = True, run_file = Parsed (JObj c)\<rparr>]"
  have valid: "validate_run sample_env (JObj c) = Inr c" using wf by (blast intro: run_doc.validate_render)
  have dwf: "disk_wf sample_env ?disk"
    using wf safe by (auto simp: disk_wf_def stored_run_def valid split: if_splits)
  have st: "stored_status sample_env ?disk ''run-1'' = Some (JStr ''pending'')"
    using wf by (simp add: stored_status_def stored_run_def valid)
  have ne: "c \<noteq> []" using wf by auto
  have wf': "run_wf sample_env (jset c ''status'' (JStr ''queued''))"
    using wf by (intro run_wf_status) (simp_all add: RUN_STATUSES_def)
  have key: "jget (jset c ''status'' (JStr ''queued'')) ''id'' = JStr ''run-1''" using wf by simp
  let ?run = "jset c ''status'' (JStr ''queued'')"
  have "save sample_env io_fine ?run ?disk = write_run io_fine ''run-1'' ?run ?disk"
    using key safe run_doc.validate_render [OF wf'] jget_has_key [OF key] by (simp add: save_def run_dir_def Let_def)
  then have "transition_status sample_env io_fine ''run-1'' ''pending'' ''queued'' ?disk =
      (fst (write_run io_fine ''run-1'' ?run ?disk), Inr ?run)"
    using wf safe ne
    by (simp add: transition_status_def locked_run_def load_def run_dir_def valid with_disk_eq io_fine_def Let_def write_run_def)
  moreover have "locked_run io_fine ''run-1'' (fst (write_run io_fine ''run-1'' ?run ?disk)) = Inr ()"
    using safe by (simp add: locked_run_def run_dir_def write_run_def io_fine_def Let_def)
  ultimately show ?thesis using that [OF dwf st] by blast
qed

section \<open>Properties\<close>

text \<open>C37: \<^verbatim>\<open>transition_status\<close> is a compare-and-set.  When it
  succeeds, the stored Run had the expected status, differs afterwards in nothing but the
  status, and no other Run changed; a second transition from the same expected status then
  fails and leaves the disk alone, however the filesystem behaves.\<close>

theorem transition_status_compare_and_set:
  assumes "disk_wf env disk" "status \<in> set RUN_STATUSES" "status \<noteq> expected"
    and "transition_status env io run_id expected status disk = (disk', Inr run)"
  shows "(\<exists>old. stored_run env disk run_id = Some old \<and> jget old ''status'' = JStr expected \<and>
            run = jset old ''status'' (JStr status)) \<and>
    stored_run env disk' run_id = Some run \<and> disk_wf env disk' \<and>
    (\<forall>r. r \<noteq> run_id \<longrightarrow> stored_run env disk' r = stored_run env disk r) \<and>
    (\<forall>io'. \<exists>e. transition_status env io' run_id expected status disk' = (disk', Inl e))"
  using assms(1,2)
proof (cases rule: transition_status_cases [where io = io and run_id = run_id and expected = expected])
  case (unchanged e)
  with assms(4) show ?thesis by simp
next
  case (saved old d)
  then have d: "disk' = d" "run = jset old ''status'' (JStr status)"
    using assms(4) by (simp_all split: if_splits)
  have "stored_status env disk' run_id \<noteq> Some (JStr expected)"
    using saved(3) assms(3) by (simp add: d stored_status_def)
  then have "\<exists>e. transition_status env io' run_id expected status disk' = (disk', Inl e)" for io'
    using saved(5) assms(2) by (intro transition_refused) (simp_all add: d)
  with saved d show ?thesis by blast
qed

theorem transition_status_compare_and_set_witness:
  "\<exists>disk disk' run. transition_status sample_env io_fine ''run-1'' ''pending'' ''queued'' disk = (disk', Inr run) \<and>
     jget run ''status'' = JStr ''queued'' \<and>
     (\<exists>e. transition_status sample_env io_fine ''run-1'' ''pending'' ''queued'' disk' = (disk', Inl e))"
proof -
  obtain disk d run where dwf: "disk_wf sample_env disk"
    and step: "transition_status sample_env io_fine ''run-1'' ''pending'' ''queued'' disk = (d, Inr run)"
    by (rule sample_disk)
  have "''queued'' \<in> set RUN_STATUSES" "''queued'' \<noteq> ''pending''" by (simp_all add: RUN_STATUSES_def)
  from transition_status_compare_and_set [OF dwf this step] have
    "jget run ''status'' = JStr ''queued''"
    "\<exists>e. transition_status sample_env io_fine ''run-1'' ''pending'' ''queued'' d = (d, Inl e)" by auto
  with step show ?thesis by blast
qed

end
