(* ===== verification/Lifecycle.thy ===== *)
theory Lifecycle
  imports Prelude
begin

text \<open>
  \<^verbatim>\<open>src/debbuilder/execution_cancellation.py\<close> and the mutation gate of
  \<^verbatim>\<open>src/debbuilder/lifecycle.py\<close>: the two small lock-protected objects that decide who
  may end an execution and whether a durable HTTP mutation may start.  Every method body is
  one critical section, so a concurrent history is a sequence of calls in lock order.
\<close>

section \<open>Cancellation ownership\<close>

datatype owner = Open | CancellationOwned | TerminalOwned

text \<open>The dictionary \<^verbatim>\<open>_request\<close>; its \<^verbatim>\<open>code\<close> is the constant
  \<^verbatim>\<open>execution_cancelled\<close>.\<close>

record cancel_request =
  request_reason :: string
  requested_at :: string

record control =
  event_set :: bool
  ctl_owner :: owner
  ctl_request :: "cancel_request option"

definition new_control :: control where
  "new_control = \<lparr>event_set = False, ctl_owner = Open, ctl_request = None\<rparr>"

text \<open>The answer of \<^verbatim>\<open>request_cancel\<close>.\<close>

record cancel_answer =
  accepted :: bool
  first_request :: bool
  answer_owner :: owner
  answer_cancellation :: "cancel_request option"

text \<open>\<^verbatim>\<open>now\<close> is the value of \<^verbatim>\<open>utc_now()\<close>.\<close>

definition request_cancel :: "string \<Rightarrow> string \<Rightarrow> control \<Rightarrow> (control \<times> cancel_answer) result" where
  "request_cancel reason now c =
     (if reason = [] then Inl (Exn ValueError [] [])
      else if ctl_owner c = TerminalOwned
      then Inr (c, \<lparr>accepted = False, first_request = False, answer_owner = ctl_owner c,
                     answer_cancellation = None\<rparr>)
      else
        let first = (ctl_owner c = Open);
            c' = (if first
                  then c\<lparr>ctl_owner := CancellationOwned,
                         ctl_request := Some \<lparr>request_reason = reason, requested_at = now\<rparr>,
                         event_set := True\<rparr>
                  else c)
        in Inr (c', \<lparr>accepted = True, first_request = first, answer_owner = ctl_owner c',
                     answer_cancellation = ctl_request c'\<rparr>))"

definition claim_terminal :: "control \<Rightarrow> control \<times> bool" where
  "claim_terminal c =
     (if ctl_owner c \<noteq> Open then (c, False) else (c\<lparr>ctl_owner := TerminalOwned\<rparr>, True))"

text \<open>\<^verbatim>\<open>raise_for_cancelled_result(result)\<close>: \<^verbatim>\<open>None\<close> when it returns, else
  the metadata of the raised \<^verbatim>\<open>ExecutionCancelled\<close>, whose defaults the reported
  cancellation overrides (a \<^verbatim>\<open>TypeError\<close> when that is not a mapping).\<close>

definition merged :: "(string \<times> json) list \<Rightarrow> (string \<times> json) list \<Rightarrow> (string \<times> json) list" where
  "merged base over =
     map (\<lambda>kv. (fst kv, case map_of over (fst kv) of None \<Rightarrow> snd kv | Some v \<Rightarrow> v)) base @
     filter (\<lambda>kv. fst kv \<notin> set (jkeys base)) over"

definition cancelled_metadata :: "json \<Rightarrow> (string \<times> json) list result" where
  "cancelled_metadata cancellation =
     (let defaults = [(''code'', JStr ''execution_cancelled''), (''reason'', JStr ''user_requested'')] in
      if \<not> truthy cancellation then Inr defaults
      else case cancellation of JObj kvs \<Rightarrow> Inr (merged defaults kvs) | _ \<Rightarrow> Inl (Exn TypeError [] []))"

definition raise_for_cancelled_result :: "(string \<times> json) list \<Rightarrow> (string \<times> json) list result option" where
  "raise_for_cancelled_result result =
     (if truthy (jget result ''cancellation_requested'') \<or> jget result ''status'' = JStr ''cancelled''
      then Some (cancelled_metadata (jget result ''cancellation''))
      else None)"

text \<open>A history: the calls in the order they take the lock, each with whether it settled the
  execution.\<close>

datatype ctl_call = RequestCancel string string | ClaimTerminal

fun ctl_step :: "ctl_call \<Rightarrow> control \<Rightarrow> control \<times> bool" where
  "ctl_step (RequestCancel reason now) c =
     (case request_cancel reason now c of Inl _ \<Rightarrow> (c, False) | Inr (c', a) \<Rightarrow> (c', first_request a))"
| "ctl_step ClaimTerminal c = claim_terminal c"

fun ctl_run :: "ctl_call list \<Rightarrow> control \<Rightarrow> control \<times> bool list" where
  "ctl_run [] c = (c, [])"
| "ctl_run (call # calls) c =
     (let (c', won) = ctl_step call c; (c'', wons) = ctl_run calls c' in (c'', won # wons))"

fun effective :: "ctl_call \<Rightarrow> bool" where
  "effective (RequestCancel reason _) = (reason \<noteq> [])"
| "effective ClaimTerminal = True"

definition ctl_wf :: "control \<Rightarrow> bool" where
  "ctl_wf c =
     (event_set c = (ctl_owner c = CancellationOwned) \<and>
      (ctl_request c \<noteq> None) = (ctl_owner c = CancellationOwned))"

lemma ctl_step_settled: "ctl_owner c \<noteq> Open \<Longrightarrow> ctl_step call c = (c, False)"
  by (cases call) (auto simp: request_cancel_def claim_terminal_def Let_def)

lemma ctl_step_open:
  "ctl_owner c = Open \<Longrightarrow> snd (ctl_step call c) = effective call \<and>
     (ctl_owner (fst (ctl_step call c)) = Open \<longleftrightarrow> \<not> effective call) \<and>
     (\<not> effective call \<longrightarrow> fst (ctl_step call c) = c)"
  by (cases call) (auto simp: request_cancel_def claim_terminal_def Let_def)

lemma ctl_step_wf: "ctl_wf c \<Longrightarrow> ctl_wf (fst (ctl_step call c))"
  by (cases call) (auto simp: request_cancel_def claim_terminal_def Let_def ctl_wf_def)

lemma ctl_run_settled:
  "ctl_owner c \<noteq> Open \<Longrightarrow> ctl_run calls c = (c, replicate (length calls) False)"
  by (induction calls) (auto simp: ctl_step_settled)

lemma ctl_run_wf: "ctl_wf c \<Longrightarrow> ctl_wf (fst (ctl_run calls c))"
  by (induction calls arbitrary: c) (simp_all add: case_prod_beta Let_def ctl_step_wf)

text \<open>The first effective call wins, every other call loses.\<close>

lemma ctl_run_winner:
  "ctl_owner c = Open \<Longrightarrow>
     snd (ctl_run calls c) =
       map (\<lambda>_. False) (takeWhile (\<lambda>x. \<not> effective x) calls) @
       (case dropWhile (\<lambda>x. \<not> effective x) calls of
          [] \<Rightarrow> [] | _ # rest \<Rightarrow> True # replicate (length rest) False)"
proof (induction calls arbitrary: c)
  case Nil
  then show ?case by simp
next
  case (Cons call calls)
  then show ?case
    using ctl_step_open [OF Cons.prems, of call]
    by (cases "effective call") (simp_all add: case_prod_beta Let_def ctl_run_settled)
qed

section \<open>The mutation gate\<close>

record gate =
  gate_accepting :: bool
  gate_active :: int

definition new_gate :: gate where
  "new_gate = \<lparr>gate_accepting = True, gate_active = 0\<rparr>"

definition gate_begin_shutdown :: "gate \<Rightarrow> gate" where
  "gate_begin_shutdown g = g\<lparr>gate_accepting := False\<rparr>"

text \<open>The two critical sections of \<^verbatim>\<open>lease\<close>: before the \<^verbatim>\<open>yield\<close> and in the
  \<^verbatim>\<open>finally\<close>.\<close>

definition lease_enter :: "gate \<Rightarrow> gate result" where
  "lease_enter g =
     (if \<not> gate_accepting g then Inl (Exn MutationGateClosed ''application_shutting_down'' [])
      else Inr (g\<lparr>gate_active := gate_active g + 1\<rparr>))"

definition lease_exit :: "gate \<Rightarrow> gate" where
  "lease_exit g = g\<lparr>gate_active := gate_active g - 1\<rparr>"

record quiescence =
  q_complete :: bool
  q_admission_closed :: bool
  q_active_mutations :: int
  q_timed_out :: bool

text \<open>The loop of \<^verbatim>\<open>wait_for_quiescence\<close> over what it sees each time it holds the lock:
  the gate and \<^verbatim>\<open>time.monotonic()\<close>.  \<^verbatim>\<open>None\<close>: still waiting when the
  observations end.\<close>

definition quiescence_result :: "rat option \<Rightarrow> gate \<Rightarrow> quiescence" where
  "quiescence_result deadline g =
     \<lparr>q_complete = (gate_active g = 0), q_admission_closed = (\<not> gate_accepting g),
      q_active_mutations = gate_active g, q_timed_out = (gate_active g \<noteq> 0 \<and> deadline \<noteq> None)\<rparr>"

fun quiescence_loop :: "rat option \<Rightarrow> (gate \<times> rat) list \<Rightarrow> quiescence option" where
  "quiescence_loop deadline [] = None"
| "quiescence_loop deadline ((g, now) # obs) =
     (if gate_active g = 0 \<or> (\<exists>d \<in> set_option deadline. max 0 (d - now) = 0)
      then Some (quiescence_result deadline g)
      else quiescence_loop deadline obs)"

definition wait_for_quiescence :: "json \<Rightarrow> rat \<Rightarrow> (gate \<times> rat) list \<Rightarrow> quiescence option result" where
  "wait_for_quiescence timeout start obs =
     (if timeout = JNull then Inr (quiescence_loop None obs)
      else case timeout of
        JInt n \<Rightarrow> if n < 0 then Inl (Exn ValueError [] []) else Inr (quiescence_loop (Some (start + of_int n)) obs)
      | JFloat r \<Rightarrow> if r < 0 then Inl (Exn ValueError [] []) else Inr (quiescence_loop (Some (start + r)) obs)
      | _ \<Rightarrow> Inl (Exn ValueError [] []))"

text \<open>The gate with the threads inside \<^verbatim>\<open>with gate.lease()\<close>.\<close>

record gate_system =
  sys_gate :: gate
  holders :: "nat list"

inductive gate_step :: "gate_system \<Rightarrow> gate_system \<Rightarrow> bool" where
  enter: "t \<notin> set (holders s) \<Longrightarrow> lease_enter (sys_gate s) = Inr g \<Longrightarrow>
    gate_step s \<lparr>sys_gate = g, holders = t # holders s\<rparr>"
| exit: "t \<in> set (holders s) \<Longrightarrow>
    gate_step s \<lparr>sys_gate = lease_exit (sys_gate s), holders = remove1 t (holders s)\<rparr>"
| shutdown: "gate_step s (s\<lparr>sys_gate := gate_begin_shutdown (sys_gate s)\<rparr>)"

inductive_cases gate_stepE: "gate_step s t"

definition gate_init :: "gate_system \<Rightarrow> bool" where
  "gate_init s = (s = \<lparr>sys_gate = new_gate, holders = []\<rparr>)"

definition gate_inv :: "gate_system \<Rightarrow> bool" where
  "gate_inv s = (distinct (holders s) \<and> gate_active (sys_gate s) = int (length (holders s)))"

interpretation gate: invariant_system gate_init gate_step gate_inv
proof
  fix s t assume "gate_inv s" "gate_step s t"
  from \<open>gate_step s t\<close> show "gate_inv t"
  proof (cases rule: gate_step.cases)
    case (exit u)
    then have "0 < length (holders s)" by (auto intro: length_pos_if_in_set)
    with exit \<open>gate_inv s\<close> show ?thesis
      by (simp add: gate_inv_def lease_exit_def length_remove1 of_nat_diff Suc_leI)
  qed (use \<open>gate_inv s\<close> in \<open>auto simp: gate_inv_def lease_enter_def gate_begin_shutdown_def split: if_splits\<close>)
qed (simp add: gate_init_def gate_inv_def new_gate_def)

text \<open>Shutdown has begun and at most \<^verbatim>\<open>n\<close> mutations are active.\<close>

definition gate_closed :: "int \<Rightarrow> gate_system \<Rightarrow> bool" where
  "gate_closed n s = (\<not> gate_accepting (sys_gate s) \<and> gate_active (sys_gate s) \<le> n)"

lemma gate_closed_step: "gate_closed n s \<Longrightarrow> gate_step s t \<Longrightarrow> gate_closed n t"
  by (elim gate_stepE) (auto simp: gate_closed_def lease_enter_def lease_exit_def gate_begin_shutdown_def)

lemma count_replicate_False [simp]: "count_list (replicate n False) True = 0"
  by (induction n) auto

lemma count_map_False [simp]: "count_list (map (\<lambda>_. False) xs) True = 0"
  by (induction xs) auto

lemma ctl_run_owner:
  "ctl_owner c = Open \<Longrightarrow> ctl_owner (fst (ctl_run calls c)) = Open \<longleftrightarrow> \<not> list_ex effective calls"
proof (induction calls arbitrary: c)
  case (Cons call calls)
  then show ?case
    using ctl_step_open [OF Cons.prems, of call]
    by (cases "effective call") (simp_all add: case_prod_beta Let_def ctl_run_settled)
qed simp

lemma quiescence_loop_snoc:
  assumes "quiescence_loop deadline obs = None" "quiescence_loop deadline (obs @ [(g, now)]) = Some r"
  shows "r = quiescence_result deadline g"
  using assms by (induction obs) (auto split: if_splits)

section \<open>Properties\<close>

text \<open>However requests and terminal claims interleave, exactly one
  effective call settles the execution (a request with an empty reason raises and has no
  effect).  Every other call loses, so a cancelled execution is never also terminalized and
  the other way round; the event is set and a request is recorded exactly when cancellation
  won.\<close>

theorem cancellation_settled_once:
  fixes calls :: "ctl_call list"
  defines "c \<equiv> fst (ctl_run calls new_control)" and "won \<equiv> snd (ctl_run calls new_control)"
  shows "count_list won True = (if list_ex effective calls then 1 else 0) \<and>
    (ctl_owner c = Open \<longleftrightarrow> \<not> list_ex effective calls) \<and>
    event_set c = (ctl_owner c = CancellationOwned) \<and>
    (ctl_request c \<noteq> None) = (ctl_owner c = CancellationOwned)"
proof -
  have start: "ctl_owner new_control = Open" "ctl_wf new_control"
    by (simp_all add: new_control_def ctl_wf_def)
  have "count_list won True = (if list_ex effective calls then 1 else 0)"
  proof (cases "dropWhile (\<lambda>x. \<not> effective x) calls")
    case Nil
    then have "\<not> list_ex effective calls" by (auto simp: dropWhile_eq_Nil_conv list_ex_iff)
    then show ?thesis unfolding won_def ctl_run_winner [OF start(1)] Nil by simp
  next
    case (Cons x rest)
    then have "list_ex effective calls"
      by (metis (no_types, lifting) dropWhile_eq_Nil_conv list.distinct(1) list_ex_iff)
    with Cons show ?thesis unfolding won_def by (simp add: ctl_run_winner start(1))
  qed
  moreover have "ctl_wf c"
    unfolding c_def using start(2) by (rule ctl_run_wf)
  ultimately show ?thesis
    using ctl_run_owner [OF start(1), of calls] unfolding c_def ctl_wf_def by simp
qed

text \<open>C40: once shutdown has begun and a wait reports the gate complete, no
  durable mutation is ever active again, whatever threads try.\<close>

theorem gate_quiescence_is_final:
  assumes "reachable gate_init gate_step s"
    and "quiescence_loop deadline seen = None"
    and "quiescence_loop deadline (seen @ [(sys_gate s, now)]) = Some r"
    and "q_complete r" "q_admission_closed r"
    and "gate_step\<^sup>*\<^sup>* s t"
  shows "holders t = [] \<and> gate_active (sys_gate t) = 0"
proof -
  have "r = quiescence_result deadline (sys_gate s)"
    using assms(2,3) by (rule quiescence_loop_snoc)
  then have "gate_closed 0 s"
    using assms(4,5) by (simp add: quiescence_result_def gate_closed_def)
  with assms(1) have "gate_closed 0 t"
    using assms(6) by (rule gate.stable_steps [rotated]) (rule gate_closed_step)
  moreover have "gate_inv t"
    using assms(1,6) by (blast intro: gate.inv_reachable reachable_steps)
  ultimately show ?thesis by (simp add: gate_inv_def gate_closed_def)
qed

theorem gate_quiescence_is_final_witness:
  "\<exists>(s :: gate_system) r. quiescence_loop (Some 5) [(\<lparr>gate_accepting = False, gate_active = 1\<rparr>, 2), (sys_gate s, 3)] = Some r \<and>
     q_complete r \<and> q_admission_closed r \<and> gate_active (sys_gate s) = 0"
proof -
  let ?s = "\<lparr>sys_gate = \<lparr>gate_accepting = False, gate_active = 0\<rparr>, holders = []\<rparr>"
  have "gate_step \<lparr>sys_gate = new_gate, holders = []\<rparr> ?s"
    using gate_step.shutdown [of "\<lparr>sys_gate = new_gate, holders = []\<rparr>"]
    by (simp add: gate_begin_shutdown_def new_gate_def)
  then have reach: "reachable gate_init gate_step ?s"
    by (meson gate_init_def reachable.intros)
  let ?r = "quiescence_result (Some 5) (sys_gate ?s)"
  let ?busy = "(\<lparr>gate_accepting = False, gate_active = 1\<rparr>, 2)"
  have "gate_active (sys_gate ?s) = 0"
    using gate_quiescence_is_final [OF reach, of "Some 5" "[?busy]" 3 ?r ?s]
    by (simp add: quiescence_result_def)
  moreover have "quiescence_loop (Some 5) [?busy, (sys_gate ?s, 3)] = Some ?r" "q_complete ?r" "q_admission_closed ?r"
    by (simp_all add: quiescence_result_def)
  ultimately show ?thesis by blast
qed

end
