(* ===== verification/Execution_Manager.thy ===== *)
theory Execution_Manager
  imports Run_Store Lifecycle
begin

text \<open>
  \<^verbatim>\<open>src/debbuilder/execution_manager.py\<close>: the bounded FIFO that owns Build Runs between
  admission and durable completion.  Every \<^verbatim>\<open>with self._condition\<close> block is one function on
  the manager's state; the parts of a method outside the lock work on the disk.  The step
  relation at the end interleaves the blocks of any number of request threads, the worker and
  the shutdown thread.  Operator messages inside failure dictionaries are left out.
\<close>

section \<open>State\<close>

datatype worker_thread = NoWorker | WorkerAlive | WorkerDead

record manager =
  queue_capacity :: nat
  queue :: "string list"
  reservations :: "nat set"
  admission_leases :: "nat set"
  reservation_run_ids :: "nat \<Rightarrow> string option"
  submitting_run_ids :: "string set"
  worker :: worker_thread
  active_run_id :: "string option"
  active_cancellation_control :: "control option"
  accepting :: bool
  stopping :: bool
  admission_blocker :: "doc option"
  shutdown_started :: bool
  shutdown_pending :: "string list"
  shutdown_run_ids :: "string list"
  shutdown_cancelled_run_ids :: "string list"
  shutdown_failures :: "string \<Rightarrow> doc option"
  unresolved_admission_runs :: "(string \<times> doc) list"
  unresolved_active_runs :: "(string \<times> doc) list"
  worker_fatal_error :: "doc option"
  shutdown_active_run_id :: "string option"
  shutdown_active_cancellation :: "cancel_answer option"
  shutdown_active_requested :: bool

definition new_manager :: "nat \<Rightarrow> manager result" where
  "new_manager capacity =
     (if capacity < 1 then Inl val_err
      else Inr \<lparr>queue_capacity = capacity, queue = [], reservations = {}, admission_leases = {},
        reservation_run_ids = Map.empty, submitting_run_ids = {}, worker = NoWorker, active_run_id = None,
        active_cancellation_control = None, accepting = False, stopping = False, admission_blocker = None,
        shutdown_started = False, shutdown_pending = [], shutdown_run_ids = [],
        shutdown_cancelled_run_ids = [], shutdown_failures = Map.empty, unresolved_admission_runs = [],
        unresolved_active_runs = [], worker_fatal_error = None, shutdown_active_run_id = None,
        shutdown_active_cancellation = None, shutdown_active_requested = False\<rparr>)"

abbreviation mgr_err :: "string \<Rightarrow> exn" where "mgr_err code \<equiv> Exn ExecutionManagerError code []"

text \<open>\<^verbatim>\<open>dict.setdefault(k, v)\<close>\<close>

definition set_default :: "(string \<Rightarrow> doc option) \<Rightarrow> string \<Rightarrow> doc \<Rightarrow> string \<Rightarrow> doc option" where
  "set_default f k v = (if f k = None then f(k \<mapsto> v) else f)"

definition list_default :: "(string \<times> doc) list \<Rightarrow> string \<Rightarrow> doc \<Rightarrow> (string \<times> doc) list" where
  "list_default kvs k v = (if map_of kvs k = None then kvs @ [(k, v)] else kvs)"

section \<open>Admission\<close>

definition start :: "doc option \<Rightarrow> manager \<Rightarrow> manager result" where
  "start blocker m =
     (if shutdown_started m then Inl (mgr_err ''execution_manager_stopped'')
      else case worker m of
        WorkerAlive \<Rightarrow> Inr m
      | WorkerDead \<Rightarrow> Inl (mgr_err ''execution_manager_stopped'')
      | NoWorker \<Rightarrow>
          let blocker' = (case blocker of Some [] \<Rightarrow> None | b \<Rightarrow> b) in
          Inr (m\<lparr>admission_blocker := blocker', accepting := (blocker' = None), stopping := False,
                 worker := WorkerAlive\<rparr>))"

definition require_accepting :: "py_env \<Rightarrow> manager \<Rightarrow> unit result" where
  "require_accepting env m =
     (if accepting m then Inr ()
      else case admission_blocker m of
        Some (kv # kvs) \<Rightarrow> Inl (mgr_err (str_or env (jget (kv # kvs) ''code'') ''execution_recovery_blocked''))
      | _ \<Rightarrow> Inl (mgr_err ''execution_manager_not_accepting''))"

definition require_capacity :: "manager \<Rightarrow> unit result" where
  "require_capacity m =
     (if length (queue m) + card (reservations m) + card (submitting_run_ids m) \<ge> queue_capacity m
      then Inl (mgr_err ''execution_queue_full'') else Inr ())"

definition require_not_submitted :: "string \<Rightarrow> manager \<Rightarrow> unit result" where
  "require_not_submitted run_id m =
     (if active_run_id m = Some run_id \<or> run_id \<in> set (queue m) \<or> run_id \<in> submitting_run_ids m
      then Inl (mgr_err ''build_run_already_submitted'') else Inr ())"

text \<open>The entry of \<^verbatim>\<open>reserve\<close>; \<^verbatim>\<open>token\<close> is the new \<^verbatim>\<open>object()\<close>.\<close>

definition reserve_enter :: "py_env \<Rightarrow> nat \<Rightarrow> manager \<Rightarrow> manager result" where
  "reserve_enter env token m =
     bind_r (require_accepting env m) (\<lambda>_.
     bind_r (require_capacity m) (\<lambda>_.
     Inr (m\<lparr>reservations := insert token (reservations m),
            admission_leases := insert token (admission_leases m)\<rparr>)))"

definition submit_enter :: "py_env \<Rightarrow> string \<Rightarrow> manager \<Rightarrow> manager result" where
  "submit_enter env run_id m =
     bind_r (require_accepting env m) (\<lambda>_.
     bind_r (require_not_submitted run_id m) (\<lambda>_.
     bind_r (require_capacity m) (\<lambda>_.
     Inr (m\<lparr>submitting_run_ids := insert run_id (submitting_run_ids m)\<rparr>))))"

definition submit_reserved_enter :: "nat \<Rightarrow> string \<Rightarrow> manager \<Rightarrow> manager result" where
  "submit_reserved_enter token run_id m =
     (if token \<notin> reservations m then Inl (mgr_err ''execution_reservation_inactive'')
      else if reservation_run_ids m token \<noteq> Some run_id then Inl (mgr_err ''execution_reservation_run_mismatch'')
      else
        bind_r (require_not_submitted run_id m) (\<lambda>_.
        Inr (m\<lparr>reservations := reservations m - {token},
               submitting_run_ids := insert run_id (submitting_run_ids m)\<rparr>)))"

definition capture_shutdown_run :: "string \<Rightarrow> manager \<Rightarrow> manager" where
  "capture_shutdown_run run_id m =
     (let m1 = (if run_id \<in> set (shutdown_run_ids m) then m
                else m\<lparr>shutdown_run_ids := shutdown_run_ids m @ [run_id]\<rparr>) in
      if run_id \<in> set (shutdown_pending m1) then m1
      else m1\<lparr>shutdown_pending := shutdown_pending m1 @ [run_id]\<rparr>)"

definition settle_reservation :: "nat \<Rightarrow> manager \<Rightarrow> manager \<times> bool" where
  "settle_reservation token m =
     (m\<lparr>reservations := reservations m - {token}, admission_leases := admission_leases m - {token},
        reservation_run_ids := (reservation_run_ids m)(token := None)\<rparr>,
      token \<in> reservations m \<or> token \<in> admission_leases m)"

text \<open>The locked block of \<^verbatim>\<open>_persist_and_enqueue\<close> after a failed queue transition.\<close>

definition enqueue_failed :: "string \<Rightarrow> bool \<Rightarrow> string \<Rightarrow> manager \<Rightarrow> manager" where
  "enqueue_failed run_id unresolved exception_type m =
     (let m1 = (if unresolved
        then m\<lparr>unresolved_admission_runs := list_default (unresolved_admission_runs m) run_id
                 [(''code'', JStr ''execution_enqueue_persistence_unresolved''), (''run_id'', JStr run_id),
                  (''exception_type'', JStr exception_type)],
               shutdown_failures := set_default (shutdown_failures m) run_id
                 [(''code'', JStr ''execution_shutdown_persistence_failed''), (''run_id'', JStr run_id),
                  (''ownership'', JStr ''admission''), (''exception_type'', JStr exception_type)]\<rparr>
        else m) in
      m1\<lparr>submitting_run_ids := submitting_run_ids m1 - {run_id}\<rparr>)"

text \<open>The locked block of \<^verbatim>\<open>_persist_and_enqueue\<close> after a successful one.\<close>

definition enqueue :: "string \<Rightarrow> nat option \<Rightarrow> manager \<Rightarrow> manager result" where
  "enqueue run_id token m =
     (if run_id \<notin> submitting_run_ids m then Inl (Exn KeyError [] [])
      else
        let m1 = m\<lparr>submitting_run_ids := submitting_run_ids m - {run_id}\<rparr>;
            m2 = (if shutdown_started m1 then capture_shutdown_run run_id m1
                  else m1\<lparr>queue := queue m1 @ [run_id]\<rparr>)
        in Inr (case token of None \<Rightarrow> m2 | Some tok \<Rightarrow> fst (settle_reservation tok m2)))"

definition track_reservation :: "nat \<Rightarrow> string \<Rightarrow> manager \<Rightarrow> manager result" where
  "track_reservation token run_id m =
     bind_r (run_dir run_id) (\<lambda>_.
     if token \<notin> admission_leases m then Inl (mgr_err ''execution_reservation_inactive'')
     else if reservation_run_ids m token \<noteq> None \<and> reservation_run_ids m token \<noteq> Some run_id
     then Inl (mgr_err ''execution_reservation_run_mismatch'')
     else Inr (m\<lparr>reservation_run_ids := (reservation_run_ids m)(token \<mapsto> run_id)\<rparr>))"

section \<open>Durable state\<close>

definition TERMINAL_RUN_STATUSES :: "string list" where
  "TERMINAL_RUN_STATUSES = [''prepared'', ''success'', ''failed'', ''cancelled'']"

text \<open>\<^verbatim>\<open>is_terminal_run\<close> on a validated Run, whose status is a string.\<close>

definition is_terminal_run :: "doc option \<Rightarrow> bool" where
  "is_terminal_run run =
     (case run of None \<Rightarrow> False | Some kvs \<Rightarrow> jget kvs ''status'' \<in> JStr ` set TERMINAL_RUN_STATUSES)"

definition durably_terminal :: "py_env \<Rightarrow> io \<Rightarrow> string \<Rightarrow> disk \<Rightarrow> bool" where
  "durably_terminal env io run_id disk =
     (case load env io run_id disk of Inl _ \<Rightarrow> False | Inr run \<Rightarrow> is_terminal_run run)"

text \<open>\<^verbatim>\<open>_mark_queued\<close>\<close>

definition mark_queued :: "py_env \<Rightarrow> io \<Rightarrow> string \<Rightarrow> disk \<Rightarrow> disk \<times> doc result" where
  "mark_queued env io run_id disk =
     (case transition_status env io run_id ''pending'' ''queued'' disk of
        (d, Inr run) \<Rightarrow> (d, Inr run)
      | (d, Inl e) \<Rightarrow>
          (d, Inl (if exn_class e = FileNotFoundError then mgr_err ''build_run_not_found''
                   else if exn_class e = RunStatusTransitionError then mgr_err ''build_run_not_pending''
                   else e)))"

text \<open>Whether a failed direct submission leaves a Run whose ownership is open, lines 220 to
  225.\<close>

definition submission_unresolved :: "py_env \<Rightarrow> io \<Rightarrow> nat option \<Rightarrow> string \<Rightarrow> disk \<Rightarrow> bool" where
  "submission_unresolved env io token run_id disk =
     (token = None \<and>
      (case run_dir run_id of
         Inl _ \<Rightarrow> True
       | Inr _ \<Rightarrow> disk run_id \<noteq> None \<and> \<not> durably_terminal env io run_id disk))"

section \<open>Reservations\<close>

text \<open>The block that \<^verbatim>\<open>_confirm_reservation_terminal\<close> and
  \<^verbatim>\<open>_confirm_reservation_absent\<close> share.\<close>

definition confirm_reservation :: "nat \<Rightarrow> string \<Rightarrow> manager \<Rightarrow> manager \<times> bool" where
  "confirm_reservation token run_id m =
     (if reservation_run_ids m token \<noteq> Some run_id then (m, token \<notin> admission_leases m)
      else (fst (settle_reservation token m), True))"

definition confirm_reservation_terminal ::
  "py_env \<Rightarrow> io \<Rightarrow> disk \<Rightarrow> nat \<Rightarrow> string \<Rightarrow> manager \<Rightarrow> manager \<times> bool" where
  "confirm_reservation_terminal env io disk token run_id m =
     (if \<not> durably_terminal env io run_id disk then (m, False) else confirm_reservation token run_id m)"

definition confirm_reservation_absent :: "disk \<Rightarrow> nat \<Rightarrow> string \<Rightarrow> manager \<Rightarrow> manager \<times> bool" where
  "confirm_reservation_absent disk token run_id m =
     (if \<not> safe_name run_id \<or> disk run_id \<noteq> None then (m, False) else confirm_reservation token run_id m)"

definition transfer_reservation_unresolved ::
  "py_env \<Rightarrow> nat \<Rightarrow> string \<Rightarrow> doc \<Rightarrow> manager \<Rightarrow> manager result" where
  "transfer_reservation_unresolved env token run_id failure m =
     (if token \<notin> admission_leases m then Inr m
      else if reservation_run_ids m token \<noteq> Some run_id then Inl (mgr_err ''execution_reservation_run_mismatch'')
      else
        let kind = str_or env (jget failure ''terminalization_exception_type'')
                     (str_or env (jget failure ''exception_type'') ''DurableStateUnresolved'') in
        Inr (fst (settle_reservation token
          (m\<lparr>unresolved_admission_runs := list_default (unresolved_admission_runs m) run_id failure,
             shutdown_failures := set_default (shutdown_failures m) run_id
               [(''code'', JStr ''execution_shutdown_persistence_failed''), (''run_id'', JStr run_id),
                (''ownership'', JStr ''admission''), (''exception_type'', JStr kind)]\<rparr>))))"

text \<open>The locked block of \<^verbatim>\<open>_release_reservation\<close>; \<^verbatim>\<open>Some run_id\<close> when the release has
  to look at the durable Run.\<close>

definition release_locked :: "nat \<Rightarrow> manager \<Rightarrow> manager \<times> string option" where
  "release_locked token m =
     (if token \<notin> admission_leases m then (m, None)
      else case reservation_run_ids m token of
        None \<Rightarrow> (fst (settle_reservation token m), None)
      | Some run_id \<Rightarrow>
          if active_run_id m = Some run_id \<or> run_id \<in> set (queue m) \<or> run_id \<in> submitting_run_ids m
             \<or> run_id \<in> set (shutdown_pending m)
          then (fst (settle_reservation token m), None)
          else (m, Some run_id))"

definition release_reservation :: "py_env \<Rightarrow> io \<Rightarrow> disk \<Rightarrow> nat \<Rightarrow> manager \<Rightarrow> manager result" where
  "release_reservation env io disk token m =
     (case release_locked token m of
        (m1, None) \<Rightarrow> Inr m1
      | (m1, Some run_id) \<Rightarrow>
          (case confirm_reservation_terminal env io disk token run_id m1 of
             (m2, True) \<Rightarrow> Inr m2
           | (m2, False) \<Rightarrow> transfer_reservation_unresolved env token run_id
               [(''code'', JStr ''execution_enqueue_persistence_unresolved''), (''run_id'', JStr run_id),
                (''exception_type'', JStr ''UnknownAdmissionFailure'')] m2))"

section \<open>Cancellation\<close>

definition cancellation_doc :: "string \<Rightarrow> string \<Rightarrow> string \<Rightarrow> doc" where
  "cancellation_doc why requested completed = [
     (''code'', JStr ''execution_cancelled''), (''reason'', JStr why), (''phase'', JStr ''queue''),
     (''stage'', JStr ''queue''), (''requested_at'', JStr requested), (''completed_at'', JStr completed)]"

definition cancelled_run :: "doc \<Rightarrow> string \<Rightarrow> doc \<Rightarrow> doc" where
  "cancelled_run run completed cancellation =
     jupdate run [(''status'', JStr ''cancelled''), (''started_at'', JNull), (''finished_at'', JStr completed),
       (''duration'', JFloat 0), (''error'', JNull), (''cancellation'', JObj cancellation)]"

text \<open>\<^verbatim>\<open>run.get("cancellation") or {}\<close>; a value that is no dictionary has no
  \<^verbatim>\<open>get\<close>.\<close>

definition cancellation_of :: "doc \<Rightarrow> doc result" where
  "cancellation_of run =
     (if \<not> truthy (jget run ''cancellation'') then Inr []
      else case jget run ''cancellation'' of JObj kvs \<Rightarrow> Inr kvs | _ \<Rightarrow> Inl (Exn AttributeError [] []))"

text \<open>\<^verbatim>\<open>_persist_queued_cancellation\<close>; \<^verbatim>\<open>requested\<close> and \<^verbatim>\<open>completed\<close> are
  the two calls of \<^verbatim>\<open>utc_now()\<close>.\<close>

definition persist_queued_cancellation ::
  "py_env \<Rightarrow> io \<Rightarrow> string \<Rightarrow> string \<Rightarrow> string \<Rightarrow> string \<Rightarrow> disk \<Rightarrow> disk \<times> doc result" where
  "persist_queued_cancellation env io requested completed run_id why disk =
     (case bind_r (locked_run io run_id disk) (\<lambda>_. load env io run_id disk) of
        Inl e \<Rightarrow> (disk, Inl e)
      | Inr None \<Rightarrow> (disk, Inl (mgr_err ''build_run_not_found''))
      | Inr (Some run) \<Rightarrow>
          if run = [] then (disk, Inl (mgr_err ''build_run_not_found''))
          else if jget run ''status'' = JStr ''cancelled'' then
            (case cancellation_of run of
               Inl e \<Rightarrow> (disk, Inl e)
             | Inr existing \<Rightarrow>
                 if jget existing ''code'' = JStr ''execution_cancelled'' \<and> jget existing ''reason'' = JStr why \<and>
                    jget existing ''phase'' = JStr ''queue''
                 then (disk, Inr existing)
                 else (disk, Inl (mgr_err ''build_run_not_queued'')))
          else if jget run ''status'' \<noteq> JStr ''queued'' then (disk, Inl (mgr_err ''build_run_not_queued''))
          else
            let cancellation = cancellation_doc why requested completed in
            with_disk (save env io (cancelled_run run completed cancellation) disk) cancellation)"

datatype cancel_result =
    QueuedCancelled doc
  | ActiveCancelRequested bool "cancel_request option"
  | AlreadyCancelled doc
  | TerminalNotCancellable string
  | CancelNotFound

text \<open>\<^verbatim>\<open>_cancel_queued_locked\<close>: persistence is the commit point.\<close>

definition cancel_queued_locked ::
  "py_env \<Rightarrow> io \<Rightarrow> string \<Rightarrow> string \<Rightarrow> string \<Rightarrow> disk \<Rightarrow> manager \<Rightarrow> disk \<times> manager \<times> cancel_result result" where
  "cancel_queued_locked env io requested completed run_id disk m =
     (case persist_queued_cancellation env io requested completed run_id ''user_requested'' disk of
        (d, Inl e) \<Rightarrow> (d, m, Inl e)
      | (d, Inr cancellation) \<Rightarrow> (d, m\<lparr>queue := remove1 run_id (queue m)\<rparr>, Inr (QueuedCancelled cancellation)))"

text \<open>A request to the control of the active Run, lines 419 to 435 and 458 to 468.\<close>

definition request_active :: "string \<Rightarrow> manager \<Rightarrow> (manager \<times> cancel_answer) result" where
  "request_active now m =
     (case active_cancellation_control m of
        None \<Rightarrow> Inl (Exn RuntimeError [] [])
      | Some control \<Rightarrow>
          bind_r (request_cancel ''user_requested'' now control) (\<lambda>(control', answer).
          Inr (m\<lparr>active_cancellation_control := Some control'\<rparr>, answer)))"

text \<open>The first locked block of \<^verbatim>\<open>cancel\<close>: \<^verbatim>\<open>None\<close> when the Run is neither queued nor
  active.\<close>

definition cancel_locked ::
  "py_env \<Rightarrow> io \<Rightarrow> string \<Rightarrow> string \<Rightarrow> string \<Rightarrow> disk \<Rightarrow> manager \<Rightarrow> disk \<times> manager \<times> cancel_result option result" where
  "cancel_locked env io requested completed run_id disk m =
     (if run_id \<in> set (queue m) then
        (case cancel_queued_locked env io requested completed run_id disk m of
           (d, m', r) \<Rightarrow> (d, m', bind_r r (\<lambda>x. Inr (Some x))))
      else if active_run_id m = Some run_id then
        (case request_active requested m of
           Inl e \<Rightarrow> (disk, m, Inl e)
         | Inr (m', answer) \<Rightarrow>
             (disk, m', Inr (Some (if \<not> accepted answer then TerminalNotCancellable ''active''
                else ActiveCancelRequested (first_request answer) (answer_cancellation answer)))))
      else (disk, m, Inr None))"

text \<open>The rest of \<^verbatim>\<open>cancel\<close> for a Run the first block found active, lines 437 to 451.\<close>

definition cancel_active_result :: "py_env \<Rightarrow> io \<Rightarrow> string \<Rightarrow> disk \<Rightarrow> cancel_result \<Rightarrow> cancel_result result" where
  "cancel_active_result env io run_id disk answer =
     (case answer of
        ActiveCancelRequested True _ \<Rightarrow> Inr answer
      | _ \<Rightarrow>
          bind_r (load env io run_id disk) (\<lambda>run.
          case run of
            Some kvs \<Rightarrow>
              if kvs \<noteq> [] \<and> jget kvs ''status'' = JStr ''cancelled''
              then bind_r (cancellation_of kvs) (\<lambda>c. Inr (AlreadyCancelled c))
              else Inr answer
          | None \<Rightarrow> Inr answer))"

text \<open>The second locked block of \<^verbatim>\<open>cancel\<close>, after the Run was loaded.\<close>

definition cancel_second ::
  "py_env \<Rightarrow> string \<Rightarrow> string \<Rightarrow> doc option \<Rightarrow> manager \<Rightarrow> manager \<times> cancel_result result" where
  "cancel_second env now run_id run m =
     (let settle = (case run of
            None \<Rightarrow> Inr CancelNotFound
          | Some kvs \<Rightarrow>
              if jget kvs ''status'' = JStr ''cancelled''
              then bind_r (cancellation_of kvs) (\<lambda>c. Inr (AlreadyCancelled c))
              else Inr (TerminalNotCancellable (str_or env (jget kvs ''status'') []))) in
      if active_run_id m = Some run_id \<and> \<not> is_terminal_run run then
        (case request_active now m of
           Inl e \<Rightarrow> (m, Inl e)
         | Inr (m', answer) \<Rightarrow>
             if accepted answer
             then (m', Inr (ActiveCancelRequested (first_request answer) (answer_cancellation answer)))
             else (m', settle))
      else (m, settle))"

text \<open>\<^verbatim>\<open>cancel\<close> when no other thread runs between its blocks.\<close>

definition cancel ::
  "py_env \<Rightarrow> io \<Rightarrow> string \<Rightarrow> string \<Rightarrow> string \<Rightarrow> disk \<Rightarrow> manager \<Rightarrow> disk \<times> manager \<times> cancel_result result" where
  "cancel env io requested completed run_id disk m =
     (case run_dir run_id of
        Inl e \<Rightarrow> (disk, m, Inl e)
      | Inr _ \<Rightarrow>
          (case cancel_locked env io requested completed run_id disk m of
             (d, m', Inl e) \<Rightarrow> (d, m', Inl e)
           | (d, m', Inr (Some (QueuedCancelled c))) \<Rightarrow> (d, m', Inr (QueuedCancelled c))
           | (d, m', Inr (Some answer)) \<Rightarrow> (d, m', cancel_active_result env io run_id d answer)
           | (d, m', Inr None) \<Rightarrow>
               (case load env io run_id d of
                  Inl e \<Rightarrow> (d, m', Inl e)
                | Inr run \<Rightarrow> (case cancel_second env requested run_id run m' of (m'', r) \<Rightarrow> (d, m'', r)))))"

section \<open>Shutdown\<close>

text \<open>The locked block of \<^verbatim>\<open>stop\<close>.\<close>

definition stop_locked :: "manager \<Rightarrow> manager" where
  "stop_locked m =
     (let unused = {token \<in> admission_leases m. reservation_run_ids m token = None} in
      m\<lparr>accepting := False, stopping := True, reservations := reservations m - unused,
        admission_leases := admission_leases m - unused\<rparr>)"

text \<open>\<^verbatim>\<open>_begin_shutdown_locked\<close>\<close>

definition begin_shutdown_locked :: "string \<Rightarrow> bool \<Rightarrow> manager \<Rightarrow> manager" where
  "begin_shutdown_locked now request_active_too m =
     (let m1 = (if shutdown_started m then m
        else (fold capture_shutdown_run (queue m)
               (m\<lparr>shutdown_started := True, accepting := False, stopping := True, queue := []\<rparr>))
             \<lparr>shutdown_active_run_id := active_run_id m\<rparr>) in
      if request_active_too \<and> \<not> shutdown_active_requested m1 then
        (let m2 = m1\<lparr>shutdown_active_requested := True\<rparr> in
         case active_cancellation_control m2 of
           None \<Rightarrow> m2
         | Some control \<Rightarrow>
             (case request_cancel ''server_shutdown'' now control of
                Inl _ \<Rightarrow> m2
              | Inr (control', answer) \<Rightarrow>
                  m2\<lparr>active_cancellation_control := Some control', shutdown_active_cancellation := Some answer\<rparr>))
      else m1)"

text \<open>\<^verbatim>\<open>_admission_failure_error\<close>\<close>

definition admission_failure_error :: "py_env \<Rightarrow> doc \<Rightarrow> doc" where
  "admission_failure_error env failure = [
     (''stage'', JStr ''queue''), (''code'', JStr ''execution_enqueue_failed''),
     (''details'', JObj ([(''run_id'', JStr (str_or env (jget failure ''run_id'') [])),
        (''exception_type'', JStr (str_or env (jget failure ''exception_type'') ''UnknownAdmissionFailure''))] @
        (if truthy (jget failure ''manager_code'')
         then [(''manager_code'', JStr (py_str env (jget failure ''manager_code'')))] else [])))]"

text \<open>\<^verbatim>\<open>_terminalize_unresolved_admission\<close>: every exception is settled by looking at the
  durable Run again (\<^verbatim>\<open>io'\<close> is that second look).\<close>

definition terminalize_unresolved_admission ::
  "py_env \<Rightarrow> io \<Rightarrow> io \<Rightarrow> string \<Rightarrow> string \<Rightarrow> doc \<Rightarrow> disk \<Rightarrow> disk \<times> bool" where
  "terminalize_unresolved_admission env io io' now run_id failure disk =
     (case bind_r (locked_run io run_id disk) (\<lambda>_. load env io run_id disk) of
        Inl _ \<Rightarrow> (disk, durably_terminal env io' run_id disk)
      | Inr run \<Rightarrow>
          if is_terminal_run run then (disk, True)
          else case run of
            Some (kv # kvs) \<Rightarrow>
              if jget (kv # kvs) ''status'' \<notin> {JStr ''pending'', JStr ''queued''} then (disk, False)
              else
                (case save env io (jupdate (kv # kvs) [(''status'', JStr ''failed''), (''finished_at'', JStr now),
                        (''duration'', JFloat 0), (''error'', JObj (admission_failure_error env failure))]) disk of
                   (d, Inl _) \<Rightarrow> (d, durably_terminal env io' run_id d)
                 | (d, Inr _) \<Rightarrow> (d, True))
          | _ \<Rightarrow>
              if jget failure ''ownership_phase'' \<noteq> JStr ''creation'' then (disk, False)
              else
                (case discard_incomplete_creation io run_id disk of
                   (d, Inl _) \<Rightarrow> (d, durably_terminal env io' run_id d)
                 | (d, Inr done) \<Rightarrow> (d, done)))"

text \<open>\<^verbatim>\<open>_resolve_failed_creation\<close> when no other thread runs in between.\<close>

definition resolve_failed_creation ::
  "py_env \<Rightarrow> io \<Rightarrow> io \<Rightarrow> string \<Rightarrow> nat \<Rightarrow> string \<Rightarrow> doc \<Rightarrow> disk \<Rightarrow> manager \<Rightarrow> disk \<times> manager \<times> bool" where
  "resolve_failed_creation env io io' now token run_id failure disk m =
     (case terminalize_unresolved_admission env io io' now run_id failure disk of
        (d, False) \<Rightarrow> (d, m, False)
      | (d, True) \<Rightarrow>
          (case confirm_reservation_terminal env io' d token run_id m of
             (m1, True) \<Rightarrow> (d, m1, True)
           | (m1, False) \<Rightarrow> (case confirm_reservation_absent d token run_id m1 of (m2, b) \<Rightarrow> (d, m2, b))))"

datatype task_kind = QueuedTask | AdmissionTask | ActiveTask

text \<open>\<^verbatim>\<open>_shutdown_task_locked\<close>: the first task that was not attempted yet.\<close>

definition shutdown_task :: "(task_kind \<times> string) set \<Rightarrow> task_kind set \<Rightarrow> manager \<Rightarrow> (task_kind \<times> string) option" where
  "shutdown_task attempted kinds m =
     (let rows = (if QueuedTask \<in> kinds then map (Pair QueuedTask) (shutdown_pending m) else []) @
        (if AdmissionTask \<in> kinds then map (\<lambda>kv. (AdmissionTask, fst kv)) (unresolved_admission_runs m) else []) @
        (if ActiveTask \<in> kinds then map (\<lambda>kv. (ActiveTask, fst kv)) (unresolved_active_runs m) else []) in
      List.find (\<lambda>key. key \<notin> attempted) rows)"

fun task_label :: "task_kind \<Rightarrow> string" where
  "task_label QueuedTask = ''queued''"
| "task_label AdmissionTask = ''admission''"
| "task_label ActiveTask = ''active''"

text \<open>\<^verbatim>\<open>_record_shutdown_task_result\<close>\<close>

definition record_shutdown_task_result ::
  "task_kind \<Rightarrow> string \<Rightarrow> bool \<Rightarrow> string option \<Rightarrow> manager \<Rightarrow> manager" where
  "record_shutdown_task_result kind run_id resolved exception_type m =
     (if resolved then
        (let m1 = (case kind of
             QueuedTask \<Rightarrow>
               m\<lparr>shutdown_pending := remove1 run_id (shutdown_pending m),
                 shutdown_cancelled_run_ids :=
                   (if run_id \<in> set (shutdown_cancelled_run_ids m) then shutdown_cancelled_run_ids m
                    else shutdown_cancelled_run_ids m @ [run_id])\<rparr>
           | AdmissionTask \<Rightarrow>
               m\<lparr>unresolved_admission_runs := filter (\<lambda>kv. fst kv \<noteq> run_id) (unresolved_admission_runs m)\<rparr>
           | ActiveTask \<Rightarrow>
               m\<lparr>unresolved_active_runs := filter (\<lambda>kv. fst kv \<noteq> run_id) (unresolved_active_runs m)\<rparr>) in
         m1\<lparr>shutdown_failures := (shutdown_failures m1)(run_id := None)\<rparr>)
      else
        m\<lparr>shutdown_failures := (shutdown_failures m)(run_id \<mapsto>
            [(''code'', JStr ''execution_shutdown_persistence_failed''), (''run_id'', JStr run_id),
             (''ownership'', JStr (task_label kind)),
             (''exception_type'', JStr (case exception_type of None \<Rightarrow> ''DurableStateUnresolved'' | Some t \<Rightarrow> t))])\<rparr>)"

text \<open>\<^verbatim>\<open>_shutdown_deadline\<close> and \<^verbatim>\<open>_remaining\<close>; \<^verbatim>\<open>now\<close> is
  \<^verbatim>\<open>time.monotonic()\<close>.\<close>

definition shutdown_deadline :: "json \<Rightarrow> rat \<Rightarrow> rat option result" where
  "shutdown_deadline timeout now =
     (case timeout of
        JNull \<Rightarrow> Inr None
      | JInt n \<Rightarrow> if n < 0 then Inl val_err else Inr (Some (now + of_int n))
      | JFloat r \<Rightarrow> if r < 0 then Inl val_err else Inr (Some (now + r))
      | _ \<Rightarrow> Inl val_err)"

definition remaining_time :: "rat option \<Rightarrow> rat \<Rightarrow> rat option" where
  "remaining_time deadline now = map_option (\<lambda>d. max 0 (d - now)) deadline"

datatype drain_decision = DrainWait | DrainRetry | DrainReturn | DrainTask task_kind string

text \<open>One iteration of \<^verbatim>\<open>_drain_shutdown_persistence\<close> up to the work: \<^verbatim>\<open>DrainWait\<close>
  and \<^verbatim>\<open>DrainRetry\<close> go round again, the latter with \<^verbatim>\<open>attempted\<close> cleared.\<close>

definition drain_poll ::
  "(task_kind \<times> string) set \<Rightarrow> task_kind set \<Rightarrow> rat option \<Rightarrow> rat \<Rightarrow> rat \<Rightarrow> manager \<Rightarrow> drain_decision" where
  "drain_poll attempted kinds deadline now now' m =
     (let task = shutdown_task attempted kinds m;
          admitted = (admission_leases m \<noteq> {} \<or> submitting_run_ids m \<noteq> {});
          unresolved = (QueuedTask \<in> kinds \<and> shutdown_pending m \<noteq> [] \<or>
            AdmissionTask \<in> kinds \<and> unresolved_admission_runs m \<noteq> [] \<or>
            ActiveTask \<in> kinds \<and> unresolved_active_runs m \<noteq> []) in
      if task = None \<and> admitted \<and> (case remaining_time deadline now of None \<Rightarrow> True | Some r \<Rightarrow> r > 0) then DrainWait
      else if task = None \<and> unresolved \<and> deadline = None then DrainRetry
      else case task of
        None \<Rightarrow> DrainReturn
      | Some (kind, run_id) \<Rightarrow>
          if remaining_time deadline now' = Some 0 then DrainReturn else DrainTask kind run_id)"

record shutdown_report =
  report_status :: string
  report_complete :: bool
  report_admission_closed :: bool
  report_queued_run_ids :: "string list"
  report_cancelled_run_ids :: "string list"
  report_unresolved_run_ids :: "string list"
  report_active_run_id :: "string option"
  report_active_context_run_id :: "string option"
  report_active_cancellation :: "cancel_answer option"
  report_worker_joined :: bool
  report_timed_out :: bool
  report_outstanding_reservations :: nat
  report_errors :: "doc list"

text \<open>\<^verbatim>\<open>list(dict.fromkeys(xs))\<close>\<close>

fun from_keys :: "string list \<Rightarrow> string list" where
  "from_keys [] = []"
| "from_keys (x # xs) = x # filter (\<lambda>y. y \<noteq> x) (from_keys xs)"

definition shutdown_result :: "bool \<Rightarrow> bool \<Rightarrow> manager \<Rightarrow> shutdown_report" where
  "shutdown_result worker_joined timed_out m =
     (let unresolved = from_keys (shutdown_pending m @ map fst (unresolved_admission_runs m) @
            map fst (unresolved_active_runs m));
          errors = map (\<lambda>r. the (shutdown_failures m r)) (filter (\<lambda>r. shutdown_failures m r \<noteq> None) unresolved) @
            (case worker_fatal_error m of None \<Rightarrow> [] | Some e \<Rightarrow> [e]) @
            (if worker_joined then [] else [[(''code'', JStr ''execution_shutdown_timeout'')]]);
          complete = (shutdown_started m \<and> worker_joined \<and> unresolved = [] \<and> active_run_id m = None \<and>
            admission_leases m = {} \<and> submitting_run_ids m = {} \<and> worker_fatal_error m = None) in
      \<lparr>report_status = (if complete \<and> timed_out then ''complete_after_deadline''
         else if complete then ''complete'' else ''incomplete''),
       report_complete = complete, report_admission_closed = (\<not> accepting m),
       report_queued_run_ids = shutdown_run_ids m, report_cancelled_run_ids = shutdown_cancelled_run_ids m,
       report_unresolved_run_ids = unresolved, report_active_run_id = shutdown_active_run_id m,
       report_active_context_run_id = active_run_id m,
       report_active_cancellation = shutdown_active_cancellation m, report_worker_joined = worker_joined,
       report_timed_out = timed_out, report_outstanding_reservations = card (admission_leases m),
       report_errors = errors\<rparr>)"

section \<open>The worker\<close>

datatype worker_action = WorkerWait | WorkerReturn | WorkerRun string

text \<open>The locked block of \<^verbatim>\<open>_worker_main\<close>: dequeue and active ownership are one step.\<close>

definition worker_poll :: "manager \<Rightarrow> manager \<times> worker_action" where
  "worker_poll m =
     (let drained = (admission_leases m = {} \<and> submitting_run_ids m = {}) in
      if \<not> (queue m \<noteq> [] \<or> stopping m \<and> drained) then (m, WorkerWait)
      else if shutdown_started m then (m, if drained then WorkerReturn else WorkerWait)
      else case queue m of
        [] \<Rightarrow> (m, if stopping m \<and> drained then WorkerReturn else WorkerWait)
      | run_id # rest \<Rightarrow>
          (m\<lparr>queue := rest, active_run_id := Some run_id, active_cancellation_control := Some new_control\<rparr>,
           WorkerRun run_id))"

text \<open>\<^verbatim>\<open>_worker_failure\<close>\<close>

definition worker_failure :: "string \<Rightarrow> doc" where
  "worker_failure exception_type = [
     (''stage'', JStr ''worker''), (''code'', JStr ''execution_worker_error''),
     (''details'', JObj [(''exception_type'', JStr exception_type)])]"

text \<open>\<^verbatim>\<open>_elapsed\<close>, in seconds: both instants must parse and agree on having a
  timezone.\<close>

definition elapsed :: "py_env \<Rightarrow> json \<Rightarrow> string \<Rightarrow> rat" where
  "elapsed env started finished =
     (case (fromisoformat env finished, fromisoformat env (py_str env started)) of
        (Some (aware, t), Some (aware', t')) \<Rightarrow> if aware = aware' then max 0 (of_int (t - t') / 1000000) else 0
      | _ \<Rightarrow> 0)"

text \<open>The first running step gets the failure; the step and the Run share one failure
  dictionary, so both carry the stage.\<close>

definition is_running_step :: "json \<Rightarrow> bool" where
  "is_running_step step = (step_status step = JStr ''running'')"

fun fail_step :: "py_env \<Rightarrow> string \<Rightarrow> doc \<Rightarrow> json list \<Rightarrow> json list" where
  "fail_step env now failure [] = []"
| "fail_step env now failure (step # steps) =
     (case step of
        JObj kvs \<Rightarrow>
          if is_running_step step
          then JObj (jupdate kvs [(''status'', JStr ''failed''), (''finished_at'', JStr now),
                 (''duration'', JFloat (elapsed env (jget kvs ''started_at'') now)), (''error'', JObj failure)]) # steps
          else step # fail_step env now failure steps
      | _ \<Rightarrow> step # fail_step env now failure steps)"

definition staged_failure :: "doc \<Rightarrow> json list \<Rightarrow> doc" where
  "staged_failure failure steps =
     (case List.find is_running_step steps of
        Some (JObj kvs) \<Rightarrow> jset failure ''stage'' (jget kvs ''name'')
      | _ \<Rightarrow> failure)"

definition failed_run :: "py_env \<Rightarrow> string \<Rightarrow> doc \<Rightarrow> doc \<Rightarrow> doc" where
  "failed_run env now failure run =
     (let steps = (case jget run ''steps'' of JArr xs \<Rightarrow> xs | _ \<Rightarrow> []);
          failure' = staged_failure failure steps in
      jupdate (jset run ''steps'' (JArr (fail_step env now failure' steps)))
        [(''status'', JStr ''failed''), (''finished_at'', JStr now),
         (''duration'', JFloat (elapsed env (jget run ''started_at'') now)), (''error'', JObj failure')])"

text \<open>\<^verbatim>\<open>_finalize_worker_error\<close>; \<^verbatim>\<open>io'\<close> is the look at the durable Run after an
  exception.\<close>

definition finalize_worker_error ::
  "py_env \<Rightarrow> io \<Rightarrow> io \<Rightarrow> string \<Rightarrow> string \<Rightarrow> doc \<Rightarrow> disk \<Rightarrow> disk \<times> bool" where
  "finalize_worker_error env io io' now run_id failure disk =
     (case bind_r (locked_run io run_id disk) (\<lambda>_. load env io run_id disk) of
        Inl _ \<Rightarrow> (disk, durably_terminal env io' run_id disk)
      | Inr None \<Rightarrow> (disk, False)
      | Inr (Some run) \<Rightarrow>
          if is_terminal_run (Some run) then (disk, True)
          else if run = [] \<or> jget run ''status'' \<notin> {JStr ''queued'', JStr ''running'', JStr ''cancelling''}
          then (disk, False)
          else
            (case save env io (failed_run env now failure run) disk of
               (d, Inl _) \<Rightarrow> (d, durably_terminal env io' run_id d)
             | (d, Inr _) \<Rightarrow> (d, True)))"

text \<open>How the execution callback ended: \<^verbatim>\<open>Raised t fatal\<close> carries the type of the exception
  and whether it is outside \<^verbatim>\<open>Exception\<close>.\<close>

datatype exec_outcome = Returned | Raised string bool

text \<open>The finalizing block of \<^verbatim>\<open>_worker_main\<close>, lines 876 to 905.\<close>

definition worker_settle :: "string \<Rightarrow> bool \<Rightarrow> doc \<Rightarrow> string option \<Rightarrow> manager \<Rightarrow> manager" where
  "worker_settle run_id resolved failure fatal m =
     (let kind = (case jget failure ''details'' of
            JObj d \<Rightarrow> (case jget d ''exception_type'' of JStr t \<Rightarrow> t | _ \<Rightarrow> ''DurableStateUnresolved'')
          | _ \<Rightarrow> ''DurableStateUnresolved'');
          m1 = (if resolved then m
            else m\<lparr>unresolved_active_runs := list_default (unresolved_active_runs m) run_id failure,
                   shutdown_failures := set_default (shutdown_failures m) run_id
                     [(''code'', JStr ''execution_shutdown_persistence_failed''), (''run_id'', JStr run_id),
                      (''ownership'', JStr ''active''), (''exception_type'', JStr kind)],
                   accepting := False, stopping := True\<rparr>);
          m2 = (case fatal of
            None \<Rightarrow> m1
          | Some t \<Rightarrow> m1\<lparr>worker_fatal_error := Some [(''code'', JStr ''execution_worker_fatal_error''),
                        (''run_id'', JStr run_id), (''exception_type'', JStr t)],
                      accepting := False, stopping := True\<rparr>)
      in m2\<lparr>active_run_id := None, active_cancellation_control := None\<rparr>)"

text \<open>From the end of the callback to the end of the iteration; the third component says
  whether the loop goes on.  \<^verbatim>\<open>look\<close>, \<^verbatim>\<open>io\<close>, \<^verbatim>\<open>again\<close> and \<^verbatim>\<open>final\<close> are
  the successive accesses to the disk.\<close>

definition worker_finish ::
  "py_env \<Rightarrow> io \<Rightarrow> io \<Rightarrow> io \<Rightarrow> io \<Rightarrow> string \<Rightarrow> string \<Rightarrow> exec_outcome \<Rightarrow> disk \<Rightarrow> manager \<Rightarrow> disk \<times> manager \<times> bool" where
  "worker_finish env look io again final now run_id outcome disk m =
     (let failure = (case outcome of
            Raised t _ \<Rightarrow> Some (worker_failure t)
          | Returned \<Rightarrow> if durably_terminal env look run_id disk then None else Some (worker_failure ''RuntimeError''));
          fatal = (case outcome of Raised t True \<Rightarrow> Some t | _ \<Rightarrow> None);
          d = (case failure of None \<Rightarrow> disk | Some f \<Rightarrow> fst (finalize_worker_error env io again now run_id f disk));
          resolved = durably_terminal env final run_id d;
          ownership = (case failure of None \<Rightarrow> worker_failure ''RuntimeError'' | Some f \<Rightarrow> f)
      in (d, worker_settle run_id resolved ownership fatal m, fatal = None \<and> resolved))"

section \<open>The manager's own invariant\<close>

definition mgr_inv :: "manager \<Rightarrow> bool" where
  "mgr_inv m =
     (finite (reservations m) \<and> finite (submitting_run_ids m) \<and> reservations m \<subseteq> admission_leases m \<and>
      length (queue m) + card (reservations m) + card (submitting_run_ids m) \<le> queue_capacity m \<and>
      distinct (queue m) \<and> set (queue m) \<inter> submitting_run_ids m = {} \<and>
      (\<forall>r. active_run_id m = Some r \<longrightarrow> r \<notin> set (queue m) \<and> r \<notin> submitting_run_ids m) \<and>
      (active_run_id m = None) = (active_cancellation_control m = None) \<and>
      (shutdown_started m \<longrightarrow> queue m = [] \<and> \<not> accepting m \<and> stopping m) \<and>
      (\<not> shutdown_started m \<longrightarrow> shutdown_run_ids m = [] \<and> shutdown_pending m = []) \<and>
      set (shutdown_run_ids m) = set (shutdown_pending m) \<union> set (shutdown_cancelled_run_ids m) \<and>
      distinct (shutdown_pending m))"

lemma new_manager_inv: "new_manager n = Inr m \<Longrightarrow> mgr_inv m"
  by (auto simp: new_manager_def mgr_inv_def split: if_splits)

lemma start_inv: "mgr_inv m \<Longrightarrow> start b m = Inr m' \<Longrightarrow> mgr_inv m'"
  by (auto simp: start_def mgr_inv_def Let_def split: if_splits worker_thread.splits)

lemma reserve_enter_inv: "mgr_inv m \<Longrightarrow> reserve_enter env token m = Inr m' \<Longrightarrow> mgr_inv m'"
  by (auto simp: reserve_enter_def require_capacity_def mgr_inv_def card_insert_if
      elim!: bind_r_InrE split: if_splits)

lemma submit_enter_inv: "mgr_inv m \<Longrightarrow> submit_enter env run_id m = Inr m' \<Longrightarrow> mgr_inv m'"
  by (auto simp: submit_enter_def require_capacity_def require_not_submitted_def mgr_inv_def card_insert_if
      elim!: bind_r_InrE split: if_splits)

lemma submit_reserved_enter_inv: "mgr_inv m \<Longrightarrow> submit_reserved_enter token run_id m = Inr m' \<Longrightarrow> mgr_inv m'"
proof -
  assume inv: "mgr_inv m" and res: "submit_reserved_enter token run_id m = Inr m'"
  then have tok: "token \<in> reservations m" and free: "require_not_submitted run_id m = Inr ()"
    and m': "m' = m\<lparr>reservations := reservations m - {token},
               submitting_run_ids := insert run_id (submitting_run_ids m)\<rparr>"
    by (auto simp: submit_reserved_enter_def elim!: bind_r_InrE split: if_splits)
  have "card (reservations m) = Suc (card (reservations m - {token}))"
    using inv tok by (intro card.remove) (simp_all add: mgr_inv_def)
  with inv free show ?thesis
    by (auto simp: m' mgr_inv_def require_not_submitted_def card_insert_if split: if_splits)
qed

lemma capture_shutdown_run_simps [simp]:
  "set (shutdown_run_ids (capture_shutdown_run r m)) = insert r (set (shutdown_run_ids m))"
  "set (shutdown_pending (capture_shutdown_run r m)) = insert r (set (shutdown_pending m))"
  "distinct (shutdown_pending (capture_shutdown_run r m)) = distinct (shutdown_pending m)"
  "reservations (capture_shutdown_run r m) = reservations m"
  "admission_leases (capture_shutdown_run r m) = admission_leases m"
  "reservation_run_ids (capture_shutdown_run r m) = reservation_run_ids m"
  "submitting_run_ids (capture_shutdown_run r m) = submitting_run_ids m"
  "queue (capture_shutdown_run r m) = queue m"
  "queue_capacity (capture_shutdown_run r m) = queue_capacity m"
  "active_run_id (capture_shutdown_run r m) = active_run_id m"
  "active_cancellation_control (capture_shutdown_run r m) = active_cancellation_control m"
  "accepting (capture_shutdown_run r m) = accepting m"
  "stopping (capture_shutdown_run r m) = stopping m"
  "shutdown_started (capture_shutdown_run r m) = shutdown_started m"
  "shutdown_cancelled_run_ids (capture_shutdown_run r m) = shutdown_cancelled_run_ids m"
  "shutdown_active_requested (capture_shutdown_run r m) = shutdown_active_requested m"
  "worker (capture_shutdown_run r m) = worker m"
  by (auto simp: capture_shutdown_run_def Let_def)

lemma fold_capture_simps [simp]:
  "set (shutdown_run_ids (fold capture_shutdown_run rs m)) = set rs \<union> set (shutdown_run_ids m)"
  "set (shutdown_pending (fold capture_shutdown_run rs m)) = set rs \<union> set (shutdown_pending m)"
  "distinct (shutdown_pending (fold capture_shutdown_run rs m)) = distinct (shutdown_pending m)"
  "reservations (fold capture_shutdown_run rs m) = reservations m"
  "admission_leases (fold capture_shutdown_run rs m) = admission_leases m"
  "submitting_run_ids (fold capture_shutdown_run rs m) = submitting_run_ids m"
  "queue (fold capture_shutdown_run rs m) = queue m"
  "queue_capacity (fold capture_shutdown_run rs m) = queue_capacity m"
  "active_run_id (fold capture_shutdown_run rs m) = active_run_id m"
  "active_cancellation_control (fold capture_shutdown_run rs m) = active_cancellation_control m"
  "accepting (fold capture_shutdown_run rs m) = accepting m"
  "stopping (fold capture_shutdown_run rs m) = stopping m"
  "shutdown_started (fold capture_shutdown_run rs m) = shutdown_started m"
  "shutdown_cancelled_run_ids (fold capture_shutdown_run rs m) = shutdown_cancelled_run_ids m"
  "shutdown_active_requested (fold capture_shutdown_run rs m) = shutdown_active_requested m"
  "worker (fold capture_shutdown_run rs m) = worker m"
  by (induction rs arbitrary: m) auto

lemma settle_reservation_inv: "mgr_inv m \<Longrightarrow> mgr_inv (fst (settle_reservation token m))"
  using card_Diff1_le [of "reservations m" token]
  by (auto simp: settle_reservation_def mgr_inv_def)

lemma enqueue_inv:
  assumes "mgr_inv m" "enqueue run_id token m = Inr m'"
  shows "mgr_inv m'"
proof -
  let ?m1 = "m\<lparr>submitting_run_ids := submitting_run_ids m - {run_id}\<rparr>"
  let ?m2 = "if shutdown_started ?m1 then capture_shutdown_run run_id ?m1 else ?m1\<lparr>queue := queue ?m1 @ [run_id]\<rparr>"
  have r: "run_id \<in> submitting_run_ids m" and m': "m' = (case token of None \<Rightarrow> ?m2 | Some tok \<Rightarrow> fst (settle_reservation tok ?m2))"
    using assms(2) by (simp_all add: enqueue_def Let_def split: if_splits)
  have card: "card (submitting_run_ids m - {run_id}) < card (submitting_run_ids m)"
    using assms(1) r by (intro card_Diff1_less) (simp_all add: mgr_inv_def)
  have "mgr_inv ?m2"
  proof (cases "shutdown_started m")
    case True
    with assms(1) r card show ?thesis
      unfolding mgr_inv_def by (simp del: card_Diff_insert card_Diff_singleton)
  next
    case False
    with assms(1) r card show ?thesis
      unfolding mgr_inv_def by (simp del: card_Diff_insert card_Diff_singleton) auto
  qed
  then show ?thesis
    by (cases token) (simp_all only: m' option.case settle_reservation_inv)
qed

lemma enqueue_failed_inv: "mgr_inv m \<Longrightarrow> mgr_inv (enqueue_failed run_id u e m)"
  using card_Diff1_le [of "submitting_run_ids m" run_id]
  by (auto simp: enqueue_failed_def mgr_inv_def Let_def)

lemma track_reservation_inv: "mgr_inv m \<Longrightarrow> track_reservation token run_id m = Inr m' \<Longrightarrow> mgr_inv m'"
  by (auto simp: track_reservation_def mgr_inv_def elim!: bind_r_InrE split: if_splits)

lemma confirm_reservation_inv: "mgr_inv m \<Longrightarrow> mgr_inv (fst (confirm_reservation token run_id m))"
  by (simp add: confirm_reservation_def settle_reservation_inv)

lemma transfer_inv: "mgr_inv m \<Longrightarrow> transfer_reservation_unresolved env token run_id f m = Inr m' \<Longrightarrow> mgr_inv m'"
proof -
  assume inv: "mgr_inv m" and res: "transfer_reservation_unresolved env token run_id f m = Inr m'"
  have "mgr_inv (m\<lparr>unresolved_admission_runs := a, shutdown_failures := b\<rparr>)" for a b
    using inv by (simp add: mgr_inv_def)
  then show ?thesis
    using inv res
    by (auto simp: transfer_reservation_unresolved_def Let_def intro: settle_reservation_inv split: if_splits)
qed

lemma release_locked_inv: "mgr_inv m \<Longrightarrow> mgr_inv (fst (release_locked token m))"
  by (simp add: release_locked_def settle_reservation_inv split: option.split)

lemma request_active_inv: "mgr_inv m \<Longrightarrow> request_active now m = Inr (m', a) \<Longrightarrow> mgr_inv m'"
  by (auto simp: request_active_def mgr_inv_def elim!: bind_r_InrE split: option.splits)

lemma remove_queued_inv: "mgr_inv m \<Longrightarrow> mgr_inv (m\<lparr>queue := remove1 run_id (queue m)\<rparr>)"
  by (auto simp: mgr_inv_def length_remove1 dest: in_set_remove1)

lemma cancel_locked_inv: "mgr_inv m \<Longrightarrow> mgr_inv (fst (snd (cancel_locked env io rq co run_id disk m)))"
  by (auto simp: cancel_locked_def cancel_queued_locked_def intro: remove_queued_inv request_active_inv
      split: prod.splits sum.splits)

lemma cancel_second_inv: "mgr_inv m \<Longrightarrow> mgr_inv (fst (cancel_second env now run_id run m))"
  by (auto simp: cancel_second_def Let_def intro: request_active_inv split: sum.splits)

lemma stop_locked_inv: "mgr_inv m \<Longrightarrow> mgr_inv (stop_locked m)"
  using card_mono [of "reservations m" "reservations m - {token \<in> admission_leases m. reservation_run_ids m token = None}"]
  by (auto simp: stop_locked_def mgr_inv_def Let_def)

lemma begin_shutdown_inv: "mgr_inv m \<Longrightarrow> mgr_inv (begin_shutdown_locked now req m)"
  by (auto simp: begin_shutdown_locked_def mgr_inv_def Let_def split: option.splits sum.splits)

lemma record_result_inv:
  "mgr_inv m \<Longrightarrow> (kind = QueuedTask \<longrightarrow> run_id \<in> set (shutdown_pending m)) \<Longrightarrow>
     mgr_inv (record_shutdown_task_result kind run_id ok e m)"
  by (cases kind) (auto simp: record_shutdown_task_result_def mgr_inv_def Let_def)

lemma worker_poll_inv: "mgr_inv m \<Longrightarrow> active_run_id m = None \<Longrightarrow> mgr_inv (fst (worker_poll m))"
  by (auto simp: worker_poll_def mgr_inv_def Let_def split: list.splits)

lemma worker_settle_inv: "mgr_inv m \<Longrightarrow> mgr_inv (worker_settle run_id ok f fatal m)"
  by (cases fatal) (auto simp: worker_settle_def mgr_inv_def Let_def)

section \<open>What the manager writes\<close>

text \<open>Durable progress: a well-formed disk stays one, and no Run becomes pending again.\<close>

definition disk_le :: "py_env \<Rightarrow> disk \<Rightarrow> disk \<Rightarrow> bool" where
  "disk_le env d d' =
     (disk_wf env d' \<and>
      (\<forall>r. stored_status env d' r = Some (JStr ''pending'') \<longrightarrow> stored_status env d r = Some (JStr ''pending'')))"

lemma disk_le_refl: "disk_wf env d \<Longrightarrow> disk_le env d d"
  by (simp add: disk_le_def)

lemma disk_le_save:
  assumes "disk_wf env disk" "stored_run env disk run_id = Some run" "run_wf env run'"
    and "jget run' ''id'' = jget run ''id''" "jget run' ''status'' \<noteq> JStr ''pending''"
  shows "disk_le env disk (fst (save env io run' disk))"
proof -
  note upd = save_update [OF assms(1-4)]
  have "stored_status env disk r = Some (JStr ''pending'')"
    if "stored_status env (fst (save env io run' disk)) r = Some (JStr ''pending'')" for r
    using that assms(5) upd(1) [where io = io] upd(2) [where io = io and r = r]
    by (cases "r = run_id") (auto simp: stored_status_def)
  then show ?thesis using upd(3) by (simp add: disk_le_def)
qed

lemma mark_queued_le: "disk_wf env disk \<Longrightarrow> disk_le env disk (fst (mark_queued env io run_id disk))"
proof -
  assume wf: "disk_wf env disk"
  have "''queued'' \<in> set RUN_STATUSES" by (simp add: RUN_STATUSES_def)
  with wf show ?thesis
  proof (cases rule: transition_status_cases [where io = io and run_id = run_id and expected = "''pending''"])
    case (unchanged e)
    with wf show ?thesis by (simp add: mark_queued_def disk_le_refl)
  next
    case (saved run d)
    have "stored_status env disk r = Some (JStr ''pending'')" if "stored_status env d r = Some (JStr ''pending'')" for r
      using that saved(3) saved(4) [of r] by (cases "r = run_id") (auto simp: stored_status_def)
    then have "disk_le env disk d" using saved(5) by (simp add: disk_le_def)
    moreover have "fst (mark_queued env io run_id disk) = d"
      using saved(6) by (simp add: mark_queued_def)
    ultimately show ?thesis by simp
  qed
qed

text \<open>A successful mark found the Run pending and leaves it queued.\<close>

lemma mark_queued_ok:
  assumes "disk_wf env disk" "mark_queued env io run_id disk = (d, Inr run)"
  shows "stored_status env disk run_id = Some (JStr ''pending'')" "stored_status env d run_id = Some (JStr ''queued'')"
proof -
  have "''queued'' \<in> set RUN_STATUSES" by (simp add: RUN_STATUSES_def)
  with assms(1) have "stored_status env disk run_id = Some (JStr ''pending'') \<and> stored_status env d run_id = Some (JStr ''queued'')"
  proof (cases rule: transition_status_cases [where io = io and run_id = run_id and expected = "''pending''"])
    case (unchanged e)
    with assms(2) show ?thesis by (simp add: mark_queued_def)
  next
    case (saved run' d')
    with assms(2) have "d = d'" by (auto simp: mark_queued_def split: if_splits)
    with saved show ?thesis by (simp add: stored_status_def)
  qed
  then show "stored_status env disk run_id = Some (JStr ''pending'')" "stored_status env d run_id = Some (JStr ''queued'')"
    by blast+
qed

lemma cancelled_run_wf: "run_wf env run \<Longrightarrow> run_wf env (cancelled_run run co c)"
  unfolding cancelled_run_def jupdate_simps
  by (intro run_wf_unchecked run_wf_status) (simp_all add: CHECKED_FIELDS_def RUN_STATUSES_def)

lemma loaded_stored:
  "bind_r (locked_run io run_id disk) (\<lambda>_. load env io run_id disk) = Inr (Some run) \<Longrightarrow> stored_run env disk run_id = Some run"
  by (auto elim!: bind_r_InrE dest: load_stored)

lemma persist_queued_cancellation_le:
  assumes "disk_wf env disk"
  shows "disk_le env disk (fst (persist_queued_cancellation env io rq co run_id why disk))"
proof (cases "bind_r (locked_run io run_id disk) (\<lambda>_. load env io run_id disk)")
  case (Inl e)
  then show ?thesis using assms by (simp add: persist_queued_cancellation_def disk_le_refl)
next
  case (Inr loaded)
  show ?thesis
  proof (cases loaded)
    case None
    with Inr show ?thesis using assms by (simp add: persist_queued_cancellation_def disk_le_refl)
  next
    case (Some run)
    with Inr have stored: "stored_run env disk run_id = Some run" by (auto dest: loaded_stored)
    let ?c = "cancellation_doc why rq co"
    have "disk_le env disk (fst (save env io (cancelled_run run co ?c) disk))"
      by (rule disk_le_save [OF assms stored]) (simp_all add: cancelled_run_wf stored_wf [OF stored], simp_all add: cancelled_run_def)
    with Inr Some show ?thesis
      using assms by (simp add: persist_queued_cancellation_def disk_le_refl with_disk_eq Let_def split: sum.split)
  qed
qed

text \<open>A queued cancellation that succeeds is durable.\<close>

lemma persist_queued_cancellation_ok:
  assumes "disk_wf env disk" "persist_queued_cancellation env io rq co run_id why disk = (d, Inr c)"
  shows "stored_status env d run_id = Some (JStr ''cancelled'')"
proof (cases "bind_r (locked_run io run_id disk) (\<lambda>_. load env io run_id disk)")
  case (Inl e)
  then show ?thesis using assms by (simp add: persist_queued_cancellation_def)
next
  case (Inr loaded)
  then obtain run where some: "loaded = Some run"
    using assms(2) by (cases loaded) (simp_all add: persist_queued_cancellation_def)
  with Inr have stored: "stored_run env disk run_id = Some run" by (auto dest: loaded_stored)
  let ?run' = "cancelled_run run co (cancellation_doc why rq co)"
  have wf: "run_wf env ?run'" and id: "jget ?run' ''id'' = jget run ''id''" and st: "jget ?run' ''status'' = JStr ''cancelled''"
    using stored_wf [OF stored] by (simp_all add: cancelled_run_wf) (simp_all add: cancelled_run_def)
  note upd = save_update [OF assms(1) stored wf id]
  show ?thesis
  proof (cases "jget run ''status'' = JStr ''cancelled''")
    case True
    with assms(2) Inr some have "d = disk"
      by (auto simp: persist_queued_cancellation_def split: if_splits sum.splits)
    with True stored show ?thesis by (simp add: stored_status_def)
  next
    case False
    with assms(2) Inr some have saved: "with_disk (save env io ?run' disk) (cancellation_doc why rq co) = (d, Inr c)"
      by (simp add: persist_queued_cancellation_def Let_def split: if_splits)
    then have "d = fst (save env io ?run' disk)" "snd (save env io ?run' disk) = Inr ()"
      by (auto simp: with_disk_eq split: sum.splits)
    with upd(1,4) [where io = io] show ?thesis
      by (auto simp: stored_status_def st split: if_splits)
  qed
qed

lemma discard_le: "disk_wf env disk \<Longrightarrow> disk_le env disk (fst (discard_incomplete_creation io run_id disk))"
proof -
  assume wf: "disk_wf env disk"
  have "disk_le env disk (disk(run_id := None))"
    using wf by (auto simp: disk_le_def disk_wf_def stored_status_def stored_run_def split: if_splits)
  with wf show ?thesis
    by (simp add: discard_incomplete_creation_def disk_le_refl split: sum.split option.split write_outcome.split)
qed

lemma run_wf_steps:
  assumes "run_wf env kvs" "check_steps (JArr steps) = Inr ()"
  shows "run_wf env (jset kvs ''steps'' (JArr steps))"
proof -
  have seal: "check_sealed env o' a m kvs = Inr () \<Longrightarrow> check_sealed env o' a m (jset kvs ''steps'' (JArr steps)) = Inr ()" for o' a m
    using assms(2) unfolding check_sealed_def Let_def by (auto elim!: result_elims)
  have "shape_of_run (jset kvs ''steps'' (JArr steps)) = shape_of_run kvs"
    by (intro shape_of_run_cong) simp_all
  with assms(1) seal show ?thesis
    unfolding run_wf_def by (simp, blast)
qed

lemma run_wf_has_steps:
  "run_wf env kvs \<Longrightarrow> \<exists>steps. jget kvs ''steps'' = JArr steps \<and> check_steps (JArr steps) = Inr ()"
  unfolding run_wf_def check_sealed_def Let_def
  by (cases "jget kvs ''steps''") (auto elim!: result_elims simp: check_steps_def)

lemma fail_step_names: "map_r step_name (fail_step env now f steps) = map_r step_name steps"
proof (induction steps)
  case (Cons step steps)
  then show ?case by (cases step) simp_all
qed simp

lemma fail_step_statuses: "check_step_statuses steps = Inr () \<Longrightarrow> check_step_statuses (fail_step env now f steps) = Inr ()"
proof (induction steps)
  case (Cons step steps)
  then show ?case
    by (cases step) (auto simp: STEP_STATUSES_def elim!: result_elims)
qed simp

lemma fail_step_ok: "check_steps (JArr steps) = Inr () \<Longrightarrow> check_steps (JArr (fail_step env now f steps)) = Inr ()"
  by (auto simp: check_steps_def fail_step_names elim!: result_elims intro: fail_step_statuses)

lemma failed_run_wf: "run_wf env run \<Longrightarrow> run_wf env (failed_run env now failure run)"
  using run_wf_has_steps [of env run] unfolding failed_run_def Let_def jupdate_simps
  by (auto intro!: run_wf_unchecked run_wf_status run_wf_steps fail_step_ok simp: CHECKED_FIELDS_def RUN_STATUSES_def)

lemma finalize_worker_error_le:
  assumes "disk_wf env disk"
  shows "disk_le env disk (fst (finalize_worker_error env io io' now run_id failure disk))"
proof (cases "bind_r (locked_run io run_id disk) (\<lambda>_. load env io run_id disk)")
  case (Inl e)
  then show ?thesis using assms by (simp add: finalize_worker_error_def disk_le_refl)
next
  case (Inr loaded)
  show ?thesis
  proof (cases loaded)
    case None
    with Inr show ?thesis using assms by (simp add: finalize_worker_error_def disk_le_refl)
  next
    case (Some run)
    with Inr have stored: "stored_run env disk run_id = Some run" by (auto dest: loaded_stored)
    have "disk_le env disk (fst (save env io (failed_run env now failure run) disk))"
      by (rule disk_le_save [OF assms stored])
        (simp_all add: failed_run_wf stored_wf [OF stored], simp_all add: failed_run_def Let_def)
    with Inr Some show ?thesis
      using assms by (simp add: finalize_worker_error_def disk_le_refl split: prod.split sum.split) force
  qed
qed

lemma terminalize_le:
  assumes "disk_wf env disk"
  shows "disk_le env disk (fst (terminalize_unresolved_admission env io io' now run_id failure disk))"
proof (cases "bind_r (locked_run io run_id disk) (\<lambda>_. load env io run_id disk)")
  case (Inl e)
  then show ?thesis using assms by (simp add: terminalize_unresolved_admission_def disk_le_refl)
next
  case (Inr loaded)
  note discard = discard_le [OF assms, of io run_id]
  show ?thesis
  proof (cases "loaded = None \<or> loaded = Some []")
    case True
    with Inr show ?thesis
      using assms discard
      by (auto simp: terminalize_unresolved_admission_def disk_le_refl split: prod.split sum.split)
  next
    case False
    then obtain kv kvs where Some: "loaded = Some (kv # kvs)" by (cases loaded) (auto simp: neq_Nil_conv)
    with Inr have stored: "stored_run env disk run_id = Some (kv # kvs)" by (auto dest: loaded_stored)
    let ?run' = "jupdate (kv # kvs) [(''status'', JStr ''failed''), (''finished_at'', JStr now),
       (''duration'', JFloat 0), (''error'', JObj (admission_failure_error env failure))]"
    have "run_wf env ?run'"
      using stored_wf [OF stored] unfolding jupdate_simps
      by (intro run_wf_unchecked run_wf_status) (simp_all add: CHECKED_FIELDS_def RUN_STATUSES_def)
    then have "disk_le env disk (fst (save env io ?run' disk))"
      by (rule disk_le_save [OF assms stored]) (simp_all only: jupdate_simps jget_jset, simp_all)
    with Inr Some show ?thesis
      using assms
      by (simp add: terminalize_unresolved_admission_def disk_le_refl del: jupdate_simps split: prod.split sum.split) force
  qed
qed

text \<open>A queued Run that can be locked and written is cancelled.\<close>

lemma persist_queued_cancellation_succeeds:
  assumes "disk_wf env disk" "stored_run env disk run_id = Some run" "jget run ''status'' = JStr ''queued''"
    and "locked_run io run_id disk = Inr ()" "read_ok io" "write_outcome io = Written"
  shows "\<exists>d c. persist_queued_cancellation env io rq co run_id why disk = (d, Inr c)"
proof -
  have wf: "run_wf env run" using assms(2) by (rule stored_wf)
  have safe: "safe_name run_id" using assms(1,2) by (simp add: disk_wf_def)
  have load: "load env io run_id disk = Inr (Some run)"
    using assms(2) safe assms(5) by (rule stored_load)
  have ne: "run \<noteq> []" using assms(3) by auto
  let ?c = "cancellation_doc why rq co"
  have "jget (cancelled_run run co ?c) ''id'' = jget run ''id''" by (simp add: cancelled_run_def)
  from save_update(4) [OF assms(1,2) cancelled_run_wf [OF wf] this, where io = io] assms(3,4,6) load ne show ?thesis
    by (simp add: persist_queued_cancellation_def with_disk_eq Let_def)
qed

end
