(* ===== verification/Execution_System.thy ===== *)
theory Execution_System
  imports Execution_Manager
begin

text \<open>
  The execution manager with its threads: any number of request threads, the worker thread,
  one shutdown drain (serialized by \<^verbatim>\<open>_shutdown_lock\<close>) and an environment that changes
  Runs on disk.  A step is one locked block or one access to the disk.  The ghost members
  record history: which Runs were marked queued, admitted, executed, or cancelled in the queue.
\<close>

section \<open>Threads\<close>

text \<open>Where a request thread stands in \<^verbatim>\<open>submit\<close> or \<^verbatim>\<open>_submit_reserved\<close>: before the
  durable transition, after it succeeded, after it failed.\<close>

datatype pc =
    Idle
  | Submitting string "nat option"
  | Marked string "nat option"
  | MarkFailed string "nat option" string

fun pc_run :: "pc \<Rightarrow> string option" where
  "pc_run Idle = None"
| "pc_run (Submitting r _) = Some r"
| "pc_run (Marked r _) = Some r"
| "pc_run (MarkFailed r _ _) = Some r"

record system =
  mgr :: manager
  store :: disk
  pcs :: "nat \<Rightarrow> pc"
  worker_run :: "string option"
  drain :: "(task_kind \<times> string) option"
  marked :: "string list"
  admitted :: "string list"
  executed :: "string list"
  user_cancelled :: "string list"

text \<open>The work of one drain iteration: persistence by the kind of the task.\<close>

definition drain_work ::
  "py_env \<Rightarrow> io \<Rightarrow> io \<Rightarrow> string \<Rightarrow> string \<Rightarrow> task_kind \<Rightarrow> string \<Rightarrow> doc \<Rightarrow> disk \<Rightarrow> disk \<times> bool" where
  "drain_work env io io' requested completed kind run_id failure disk =
     (case kind of
        QueuedTask \<Rightarrow>
          (case persist_queued_cancellation env io requested completed run_id ''server_shutdown'' disk of
             (d, r) \<Rightarrow> (d, is_ok r))
      | AdmissionTask \<Rightarrow> terminalize_unresolved_admission env io io' completed run_id failure disk
      | ActiveTask \<Rightarrow> finalize_worker_error env io io' completed run_id failure disk)"

section \<open>Steps\<close>

text \<open>The environment (creation of Runs, execution itself, other processes) may change the disk
  in any way that keeps it well formed and never makes a Run pending again that the manager
  queued: statuses only move forward and identifiers are not reused.\<close>

inductive sys_step :: "py_env \<Rightarrow> system \<Rightarrow> system \<Rightarrow> bool" for env :: py_env where
  step_start:
    "start blocker (mgr s) = Inr m \<Longrightarrow> sys_step env s (s\<lparr>mgr := m\<rparr>)"
| step_reserve:
    "token \<notin> admission_leases (mgr s) \<Longrightarrow> token \<notin> reservations (mgr s) \<Longrightarrow>
     reserve_enter env token (mgr s) = Inr m \<Longrightarrow> sys_step env s (s\<lparr>mgr := m\<rparr>)"
| step_track:
    "track_reservation token r (mgr s) = Inr m \<Longrightarrow> sys_step env s (s\<lparr>mgr := m\<rparr>)"
| step_submit:
    "pcs s t = Idle \<Longrightarrow> submit_enter env r (mgr s) = Inr m \<Longrightarrow>
     sys_step env s (s\<lparr>mgr := m, pcs := (pcs s)(t := Submitting r None)\<rparr>)"
| step_submit_reserved:
    "pcs s t = Idle \<Longrightarrow> submit_reserved_enter token r (mgr s) = Inr m \<Longrightarrow>
     sys_step env s (s\<lparr>mgr := m, pcs := (pcs s)(t := Submitting r (Some token))\<rparr>)"
| step_mark:
    "pcs s t = Submitting r token \<Longrightarrow> mark_queued env io r (store s) = (d, Inr run) \<Longrightarrow>
     sys_step env s (s\<lparr>store := d, pcs := (pcs s)(t := Marked r token), marked := r # marked s\<rparr>)"
| step_mark_failed:
    "pcs s t = Submitting r token \<Longrightarrow> mark_queued env io r (store s) = (d, Inl err) \<Longrightarrow>
     sys_step env s (s\<lparr>store := d, pcs := (pcs s)(t := MarkFailed r token exception_type)\<rparr>)"
| step_enqueue:
    "pcs s t = Marked r token \<Longrightarrow> enqueue r token (mgr s) = Inr m \<Longrightarrow>
     sys_step env s (s\<lparr>mgr := m, pcs := (pcs s)(t := Idle), admitted := r # admitted s\<rparr>)"
| step_enqueue_failed:
    "pcs s t = MarkFailed r token e \<Longrightarrow>
     sys_step env s (s\<lparr>mgr := enqueue_failed r (submission_unresolved env io token r (store s)) e (mgr s),
       pcs := (pcs s)(t := Idle)\<rparr>)"
| step_release:
    "sys_step env s (s\<lparr>mgr := fst (release_locked token (mgr s))\<rparr>)"
| step_confirm:
    "sys_step env s (s\<lparr>mgr := fst (confirm_reservation token r (mgr s))\<rparr>)"
| step_transfer:
    "transfer_reservation_unresolved env token r failure (mgr s) = Inr m \<Longrightarrow> sys_step env s (s\<lparr>mgr := m\<rparr>)"
| step_cancel:
    "cancel_locked env io requested completed r (store s) (mgr s) = (d, m, answer) \<Longrightarrow>
     sys_step env s (s\<lparr>mgr := m, store := d,
       user_cancelled := (case answer of Inr (Some (QueuedCancelled _)) \<Rightarrow> r # user_cancelled s | _ \<Rightarrow> user_cancelled s)\<rparr>)"
| step_cancel_second:
    "sys_step env s (s\<lparr>mgr := fst (cancel_second env now r run (mgr s))\<rparr>)"
| step_stop:
    "sys_step env s (s\<lparr>mgr := stop_locked (mgr s)\<rparr>)"
| step_begin_shutdown:
    "sys_step env s (s\<lparr>mgr := begin_shutdown_locked now request (mgr s)\<rparr>)"
| step_drain_take:
    "drain s = None \<Longrightarrow> shutdown_started (mgr s) \<Longrightarrow>
     drain_poll attempted kinds deadline now now' (mgr s) = DrainTask kind r \<Longrightarrow>
     sys_step env s (s\<lparr>drain := Some (kind, r)\<rparr>)"
| step_drain_done:
    "drain s = Some (kind, r) \<Longrightarrow>
     drain_work env io io' requested completed kind r failure (store s) = (d, resolved) \<Longrightarrow>
     sys_step env s (s\<lparr>store := d, mgr := record_shutdown_task_result kind r resolved exception_type (mgr s),
       drain := None\<rparr>)"
| step_worker_idle:
    "worker (mgr s) = WorkerAlive \<Longrightarrow> worker_run s = None \<Longrightarrow> worker_poll (mgr s) = (m, WorkerReturn) \<Longrightarrow>
     sys_step env s (s\<lparr>mgr := m\<lparr>worker := WorkerDead\<rparr>\<rparr>)"
| step_worker_run:
    "worker (mgr s) = WorkerAlive \<Longrightarrow> worker_run s = None \<Longrightarrow> worker_poll (mgr s) = (m, WorkerRun r) \<Longrightarrow>
     sys_step env s (s\<lparr>mgr := m, worker_run := Some r, executed := r # executed s\<rparr>)"
| step_worker_finish:
    "worker_run s = Some r \<Longrightarrow>
     worker_finish env look io again final now r outcome (store s) (mgr s) = (d, m, continues) \<Longrightarrow>
     sys_step env s (s\<lparr>store := d, mgr := (if continues then m else m\<lparr>worker := WorkerDead\<rparr>), worker_run := None\<rparr>)"
| step_environment:
    "disk_wf env d \<Longrightarrow> (\<forall>r \<in> set (marked s). stored_status env d r \<noteq> Some (JStr ''pending'')) \<Longrightarrow>
     sys_step env s (s\<lparr>store := d\<rparr>)"

inductive_cases sys_stepE: "sys_step env s t"

definition sys_init :: "py_env \<Rightarrow> system \<Rightarrow> bool" where
  "sys_init env s =
     (\<exists>capacity d m. new_manager capacity = Inr m \<and> disk_wf env d \<and>
        s = \<lparr>mgr = m, store = d, pcs = (\<lambda>_. Idle), worker_run = None, drain = None, marked = [],
             admitted = [], executed = [], user_cancelled = []\<rparr>)"

section \<open>The invariant\<close>

definition pcs_inv :: "system \<Rightarrow> bool" where
  "pcs_inv s =
     ((\<forall>t r. pc_run (pcs s t) = Some r \<longrightarrow> r \<in> submitting_run_ids (mgr s)) \<and>
      (\<forall>t t' r. pc_run (pcs s t) = Some r \<and> pc_run (pcs s t') = Some r \<longrightarrow> t = t'))"

text \<open>The admitted Runs, by what became of them: waiting, executed, taken over by shutdown,
  or cancelled by a user while waiting.\<close>

definition partition_of :: "'a set \<Rightarrow> 'a set \<Rightarrow> 'a set \<Rightarrow> 'a set \<Rightarrow> 'a set \<Rightarrow> bool" where
  "partition_of a q e c u =
     (q \<union> e \<union> c \<union> u = a \<and> e \<inter> q = {} \<and> e \<inter> c = {} \<and> u \<inter> q = {} \<and> u \<inter> e = {} \<and> u \<inter> c = {})"

definition history_inv :: "py_env \<Rightarrow> system \<Rightarrow> bool" where
  "history_inv env s =
     (disk_wf env (store s) \<and>
      (\<forall>r \<in> set (marked s). stored_status env (store s) r \<noteq> Some (JStr ''pending'')) \<and>
      (\<forall>t r token. pcs s t = Marked r token \<longrightarrow> r \<in> set (marked s) \<and> r \<notin> set (admitted s)) \<and>
      set (admitted s) \<subseteq> set (marked s) \<and>
      partition_of (set (admitted s)) (set (queue (mgr s))) (set (executed s))
        (set (shutdown_run_ids (mgr s))) (set (user_cancelled s)) \<and>
      distinct (executed s) \<and>
      (worker_run s = active_run_id (mgr s)) \<and>
      (\<forall>r. active_run_id (mgr s) = Some r \<longrightarrow> r \<in> set (executed s)) \<and>
      (\<forall>r. drain s = Some (QueuedTask, r) \<longrightarrow> r \<in> set (shutdown_pending (mgr s))))"

definition sys_inv :: "py_env \<Rightarrow> system \<Rightarrow> bool" where
  "sys_inv env s = (mgr_inv (mgr s) \<and> pcs_inv s \<and> history_inv env s)"

text \<open>Steps that leave the queue, the submissions, the active Run and the shutdown lists
  alone.\<close>

definition same_work :: "manager \<Rightarrow> manager \<Rightarrow> bool" where
  "same_work m m' =
     (queue m' = queue m \<and> submitting_run_ids m' = submitting_run_ids m \<and> active_run_id m' = active_run_id m \<and>
      shutdown_run_ids m' = shutdown_run_ids m \<and> shutdown_pending m' = shutdown_pending m)"

lemma same_work_inv: "sys_inv env s \<Longrightarrow> same_work (mgr s) m \<Longrightarrow> mgr_inv m \<Longrightarrow> sys_inv env (s\<lparr>mgr := m\<rparr>)"
  by (simp add: sys_inv_def pcs_inv_def history_inv_def same_work_def)

lemma settle_same_work: "same_work m (fst (settle_reservation token m))"
  by (simp add: same_work_def settle_reservation_def)

lemma start_same_work: "start b m = Inr m' \<Longrightarrow> same_work m m'"
  by (auto simp: start_def same_work_def Let_def split: if_splits worker_thread.splits)

lemma reserve_same_work: "reserve_enter env token m = Inr m' \<Longrightarrow> same_work m m'"
  by (auto simp: reserve_enter_def same_work_def elim!: bind_r_InrE)

lemma track_same_work: "track_reservation token r m = Inr m' \<Longrightarrow> same_work m m'"
  by (auto simp: track_reservation_def same_work_def elim!: bind_r_InrE split: if_splits)

lemma release_same_work: "same_work m (fst (release_locked token m))"
  by (simp add: release_locked_def settle_same_work split: option.split) (simp add: same_work_def)

lemma confirm_same_work: "same_work m (fst (confirm_reservation token r m))"
  by (simp add: confirm_reservation_def settle_same_work) (simp add: same_work_def)

lemma transfer_same_work: "transfer_reservation_unresolved env token r f m = Inr m' \<Longrightarrow> same_work m m'"
  by (auto simp: transfer_reservation_unresolved_def same_work_def settle_reservation_def Let_def split: if_splits)

lemma request_active_same_work: "request_active now m = Inr (m', a) \<Longrightarrow> same_work m m'"
  by (auto simp: request_active_def same_work_def elim!: bind_r_InrE split: option.splits)

lemma cancel_second_same_work: "same_work m (fst (cancel_second env now r run m))"
  by (auto simp: cancel_second_def Let_def dest: request_active_same_work split: sum.split)
    (simp_all add: same_work_def)

lemma stop_same_work: "same_work m (stop_locked m)"
  by (simp add: same_work_def stop_locked_def Let_def)

lemma partition_admit:
  assumes "partition_of a q e c u" "r \<notin> a" "q' \<union> c' = insert r (q \<union> c)" "q' \<subseteq> insert r q" "c' \<subseteq> insert r c"
  shows "partition_of (insert r a) q' e c' u"
proof -
  have out: "r \<notin> q" "r \<notin> e" "r \<notin> c" "r \<notin> u" and all: "q \<union> e \<union> c \<union> u = a"
    using assms(1,2) by (auto simp: partition_of_def)
  have "q' \<union> e \<union> c' \<union> u = (q' \<union> c') \<union> e \<union> u" by auto
  also have "\<dots> = insert r a" unfolding assms(3) all [symmetric] by auto
  finally have "q' \<union> e \<union> c' \<union> u = insert r a" .
  moreover have "e \<inter> q' = {}" "u \<inter> q' = {}"
    using assms(1) out assms(4) by (auto simp: partition_of_def disjoint_iff)
  moreover have "e \<inter> c' = {}" "u \<inter> c' = {}"
    using assms(1) out assms(5) by (auto simp: partition_of_def disjoint_iff)
  moreover have "u \<inter> e = {}" using assms(1) by (simp add: partition_of_def)
  ultimately show ?thesis by (simp add: partition_of_def)
qed

lemma partition_execute: "partition_of a (insert r q) e c u \<Longrightarrow> r \<notin> q \<Longrightarrow> r \<notin> c \<Longrightarrow> partition_of a q (insert r e) c u"
  unfolding partition_of_def by blast

lemma partition_cancel: "partition_of a q e c u \<Longrightarrow> r \<in> q \<Longrightarrow> r \<notin> c \<Longrightarrow> partition_of a (q - {r}) e c (insert r u)"
  unfolding partition_of_def by blast

lemma partition_capture: "partition_of a q e c u \<Longrightarrow> partition_of a {} e (q \<union> c) u"
  unfolding partition_of_def by blast

lemma history_invI:
  assumes "disk_wf env (store s)"
    and "\<And>r. r \<in> set (marked s) \<Longrightarrow> stored_status env (store s) r \<noteq> Some (JStr ''pending'')"
    and "\<And>t r token. pcs s t = Marked r token \<Longrightarrow> r \<in> set (marked s) \<and> r \<notin> set (admitted s)"
    and "set (admitted s) \<subseteq> set (marked s)"
    and "partition_of (set (admitted s)) (set (queue (mgr s))) (set (executed s))
        (set (shutdown_run_ids (mgr s))) (set (user_cancelled s))"
    and "distinct (executed s)" "worker_run s = active_run_id (mgr s)"
    and "\<And>r. active_run_id (mgr s) = Some r \<Longrightarrow> r \<in> set (executed s)"
    and "\<And>r. drain s = Some (QueuedTask, r) \<Longrightarrow> r \<in> set (shutdown_pending (mgr s))"
  shows "history_inv env s"
  using assms unfolding history_inv_def by blast

lemma history_invD:
  assumes "history_inv env s"
  shows "disk_wf env (store s)"
    and "r \<in> set (marked s) \<Longrightarrow> stored_status env (store s) r \<noteq> Some (JStr ''pending'')"
    and "pcs s t = Marked r token \<Longrightarrow> r \<in> set (marked s) \<and> r \<notin> set (admitted s)"
    and "set (admitted s) \<subseteq> set (marked s)"
    and "partition_of (set (admitted s)) (set (queue (mgr s))) (set (executed s))
        (set (shutdown_run_ids (mgr s))) (set (user_cancelled s))"
    and "distinct (executed s)" "worker_run s = active_run_id (mgr s)"
    and "active_run_id (mgr s) = Some r \<Longrightarrow> r \<in> set (executed s)"
    and "drain s = Some (QueuedTask, r) \<Longrightarrow> r \<in> set (shutdown_pending (mgr s))"
  using assms unfolding history_inv_def by blast+

lemma sys_invD:
  assumes "sys_inv env s"
  shows "mgr_inv (mgr s)" "pcs_inv s" "history_inv env s"
  using assms by (simp_all add: sys_inv_def)

lemma pcs_inv_move:
  assumes "pcs_inv s" "pc_run p = pc_run (pcs s t)" "mgr s' = mgr s" "pcs s' = (pcs s)(t := p)"
  shows "pcs_inv s'"
proof -
  have "pc_run (pcs s' u) = pc_run (pcs s u)" for u using assms(2,4) by simp
  with assms(1,3) show ?thesis by (simp add: pcs_inv_def)
qed

lemma pcs_inv_done:
  assumes "pcs_inv s" "pc_run (pcs s t) = Some r" "pcs s' = (pcs s)(t := Idle)"
    and "submitting_run_ids (mgr s') = submitting_run_ids (mgr s) - {r}"
  shows "pcs_inv s'"
proof -
  have "pc_run (pcs s u) \<noteq> Some r" if "u \<noteq> t" for u
    using assms(1,2) that by (auto simp: pcs_inv_def)
  with assms show ?thesis by (auto simp: pcs_inv_def)
qed

lemma submit_inv:
  assumes "sys_inv env s" "pcs s t = Idle" "mgr_inv m" "r \<notin> submitting_run_ids (mgr s)"
    and "queue m = queue (mgr s)" "submitting_run_ids m = insert r (submitting_run_ids (mgr s))"
    "active_run_id m = active_run_id (mgr s)" "shutdown_run_ids m = shutdown_run_ids (mgr s)"
    "shutdown_pending m = shutdown_pending (mgr s)"
  shows "sys_inv env (s\<lparr>mgr := m, pcs := (pcs s)(t := Submitting r token)\<rparr>)"
  using assms by (auto simp: sys_inv_def pcs_inv_def history_inv_def)

lemma submit_enter_work:
  assumes "submit_enter env r m = Inr m'"
  shows "r \<notin> submitting_run_ids m" "queue m' = queue m" "submitting_run_ids m' = insert r (submitting_run_ids m)"
    "active_run_id m' = active_run_id m" "shutdown_run_ids m' = shutdown_run_ids m" "shutdown_pending m' = shutdown_pending m"
  using assms by (auto simp: submit_enter_def require_not_submitted_def elim!: bind_r_InrE split: if_splits)

lemma submit_reserved_enter_work:
  assumes "submit_reserved_enter token r m = Inr m'"
  shows "r \<notin> submitting_run_ids m" "queue m' = queue m" "submitting_run_ids m' = insert r (submitting_run_ids m)"
    "active_run_id m' = active_run_id m" "shutdown_run_ids m' = shutdown_run_ids m" "shutdown_pending m' = shutdown_pending m"
  using assms by (auto simp: submit_reserved_enter_def require_not_submitted_def elim!: bind_r_InrE split: if_splits)

text \<open>Durable progress keeps what is known of marked Runs.\<close>

lemma disk_le_inv: "sys_inv env s \<Longrightarrow> disk_le env (store s) d \<Longrightarrow> sys_inv env (s\<lparr>store := d\<rparr>)"
  by (auto simp: sys_inv_def pcs_inv_def history_inv_def disk_le_def)

lemma mark_inv:
  assumes inv: "sys_inv env s" and pc: "pcs s t = Submitting r token"
    and mark: "mark_queued env io r (store s) = (d, Inr run)"
  shows "sys_inv env (s\<lparr>store := d, pcs := (pcs s)(t := Marked r token), marked := r # marked s\<rparr>)"
    (is "sys_inv env ?s'")
proof -
  note h = history_invD [OF sys_invD(3) [OF inv]]
  note ok = mark_queued_ok [OF h(1) mark]
  have le: "disk_le env (store s) d" using mark_queued_le [OF h(1), of io r] mark by simp
  have fresh: "r \<notin> set (marked s)" using h(2) ok(1) by blast
  have "history_inv env ?s'"
  proof (rule history_invI)
    show "stored_status env (store ?s') x \<noteq> Some (JStr ''pending'')" if "x \<in> set (marked ?s')" for x
      using that ok(2) le h(2) [of x] by (auto simp: disk_le_def)
    show "x \<in> set (marked ?s') \<and> x \<notin> set (admitted ?s')" if "pcs ?s' u = Marked x tok" for u x tok
      using that fresh h(4) h(3) [of u x tok] by (auto split: if_splits)
  qed (use le h in \<open>auto simp: disk_le_def\<close>)
  moreover have "pcs_inv ?s'"
    using sys_invD(2) [OF inv] by (rule pcs_inv_move) (simp_all add: pc)
  ultimately show ?thesis using sys_invD(1) [OF inv] by (simp add: sys_inv_def)
qed

lemma enqueue_work:
  assumes "enqueue r token m = Inr m'"
  shows "submitting_run_ids m' = submitting_run_ids m - {r}" "active_run_id m' = active_run_id m"
    "set (queue m') \<union> set (shutdown_run_ids m') = insert r (set (queue m) \<union> set (shutdown_run_ids m))"
    "set (queue m') \<subseteq> insert r (set (queue m))" "set (shutdown_run_ids m') \<subseteq> insert r (set (shutdown_run_ids m))"
    "set (shutdown_pending m) \<subseteq> set (shutdown_pending m')"
  using assms by (auto simp: enqueue_def Let_def settle_reservation_def split: if_splits option.splits)

lemma enqueue_sys_inv:
  assumes inv: "sys_inv env s" and pc: "pcs s t = Marked r token" and res: "enqueue r token (mgr s) = Inr m"
  shows "sys_inv env (s\<lparr>mgr := m, pcs := (pcs s)(t := Idle), admitted := r # admitted s\<rparr>)" (is "sys_inv env ?s'")
proof -
  note w = enqueue_work [OF res]
  have m: "mgr_inv m" using inv res by (auto simp: sys_inv_def intro: enqueue_inv)
  have "pcs_inv (s\<lparr>mgr := m, pcs := (pcs s)(t := Idle), admitted := r # admitted s\<rparr>)"
    using sys_invD(2) [OF inv] by (rule pcs_inv_done) (simp_all add: pc w(1))
  moreover have "history_inv env ?s'"
  proof (rule history_invI)
    note h = history_invD [OF sys_invD(3) [OF inv]]
    have r: "r \<in> set (marked s)" "r \<notin> set (admitted s)" using h(3) [OF pc] by simp_all
    show "partition_of (set (admitted ?s')) (set (queue (mgr ?s'))) (set (executed ?s'))
        (set (shutdown_run_ids (mgr ?s'))) (set (user_cancelled ?s'))"
      using partition_admit [OF h(5) r(2) w(3-5)] by simp
    show "x \<in> set (marked ?s') \<and> x \<notin> set (admitted ?s')" if "pcs ?s' u = Marked x tok" for u x tok
    proof -
      from that have u: "pcs s u = Marked x tok" "u \<noteq> t" by (auto split: if_splits)
      then have "x \<noteq> r"
        using sys_invD(2) [OF inv] pc unfolding pcs_inv_def by (metis pc_run.simps(3))
      with h(3) [OF u(1)] show ?thesis by simp
    qed
    show "x \<in> set (shutdown_pending (mgr ?s'))" if "drain ?s' = Some (QueuedTask, x)" for x
      using that h(9) [of x] w(6) by auto
    show "x \<in> set (executed ?s')" if "active_run_id (mgr ?s') = Some x" for x
      using that h(8) [of x] w(2) by simp
  qed (use history_invD [OF sys_invD(3) [OF inv]] pc w(2) in auto)
  ultimately show ?thesis using m by (simp add: sys_inv_def)
qed

lemma mark_failed_inv:
  assumes inv: "sys_inv env s" and pc: "pcs s t = Submitting r token"
    and mark: "mark_queued env io r (store s) = (d, Inl err)"
  shows "sys_inv env (s\<lparr>store := d, pcs := (pcs s)(t := MarkFailed r token e)\<rparr>)" (is "sys_inv env ?s'")
proof -
  note h = history_invD [OF sys_invD(3) [OF inv]]
  have le: "disk_le env (store s) d" using mark_queued_le [OF h(1), of io r] mark by simp
  have "history_inv env ?s'"
  proof (rule history_invI)
    show "x \<in> set (marked ?s') \<and> x \<notin> set (admitted ?s')" if "pcs ?s' u = Marked x tok" for u x tok
      using that h(3) [of u x tok] by (auto split: if_splits)
  qed (use le h in \<open>auto simp: disk_le_def\<close>)
  moreover have "pcs_inv ?s'"
    using sys_invD(2) [OF inv] by (rule pcs_inv_move) (simp_all add: pc)
  ultimately show ?thesis using sys_invD(1) [OF inv] by (simp add: sys_inv_def)
qed

lemma enqueue_failed_work [simp]:
  "submitting_run_ids (enqueue_failed r u e m) = submitting_run_ids m - {r}"
  "queue (enqueue_failed r u e m) = queue m" "active_run_id (enqueue_failed r u e m) = active_run_id m"
  "shutdown_run_ids (enqueue_failed r u e m) = shutdown_run_ids m"
  "shutdown_pending (enqueue_failed r u e m) = shutdown_pending m"
  by (simp_all add: enqueue_failed_def Let_def)

lemma enqueue_failed_sys_inv:
  assumes inv: "sys_inv env s" and pc: "pcs s t = MarkFailed r token e"
  shows "sys_inv env (s\<lparr>mgr := enqueue_failed r u e (mgr s), pcs := (pcs s)(t := Idle)\<rparr>)" (is "sys_inv env ?s'")
proof -
  note h = history_invD [OF sys_invD(3) [OF inv]]
  have "history_inv env ?s'"
  proof (rule history_invI)
    show "x \<in> set (marked ?s') \<and> x \<notin> set (admitted ?s')" if "pcs ?s' u = Marked x tok" for u x tok
      using that h(3) [of u x tok] by (auto split: if_splits)
  qed (use h in auto)
  moreover have "pcs_inv ?s'"
    using sys_invD(2) [OF inv] by (rule pcs_inv_done) (simp_all add: pc)
  ultimately show ?thesis using enqueue_failed_inv [OF sys_invD(1) [OF inv]] by (simp add: sys_inv_def)
qed

text \<open>Every outcome of the first locked block of \<^verbatim>\<open>cancel\<close>.\<close>

lemma cancel_locked_cases:
  assumes "cancel_locked env io rq co r d0 m0 = (d, m, answer)" "disk_wf env d0"
  obtains (queued) c where "r \<in> set (queue m0)" "m = m0\<lparr>queue := remove1 r (queue m0)\<rparr>"
      "answer = Inr (Some (QueuedCancelled c))" "disk_le env d0 d"
  | (other) "same_work m0 m" "disk_le env d0 d" "\<And>c. answer \<noteq> Inr (Some (QueuedCancelled c))"
proof (cases "r \<in> set (queue m0)")
  case True
  note le = persist_queued_cancellation_le [OF assms(2), of io rq co r "''user_requested''"]
  obtain d1 res where p: "persist_queued_cancellation env io rq co r ''user_requested'' d0 = (d1, res)"
    by (cases "persist_queued_cancellation env io rq co r ''user_requested'' d0")
  show ?thesis
  proof (cases res)
    case (Inl e)
    with True p assms(1) le show ?thesis
      by (intro other) (auto simp: cancel_locked_def cancel_queued_locked_def same_work_def)
  next
    case (Inr c)
    with True p assms(1) le show ?thesis
      by (intro queued) (auto simp: cancel_locked_def cancel_queued_locked_def)
  qed
next
  case False
  show ?thesis
  proof (rule other)
    show "same_work m0 m"
      using assms(1) False
      by (auto simp: cancel_locked_def dest: request_active_same_work split: if_splits sum.splits)
        (simp_all add: same_work_def)
    show "disk_le env d0 d"
      using assms False by (auto simp: cancel_locked_def disk_le_refl split: if_splits sum.splits)
    show "answer \<noteq> Inr (Some (QueuedCancelled c))" for c
      using assms(1) False by (auto simp: cancel_locked_def split: if_splits sum.splits)
  qed
qed

lemma cancel_sys_inv:
  assumes inv: "sys_inv env s" and res: "cancel_locked env io rq co r (store s) (mgr s) = (d, m, answer)"
  shows "sys_inv env (s\<lparr>mgr := m, store := d,
       user_cancelled := (case answer of Inr (Some (QueuedCancelled _)) \<Rightarrow> r # user_cancelled s | _ \<Rightarrow> user_cancelled s)\<rparr>)"
    (is "sys_inv env ?s'")
proof -
  note h = history_invD [OF sys_invD(3) [OF inv]]
  have m: "mgr_inv m" using cancel_locked_inv [OF sys_invD(1) [OF inv], of env io rq co r "store s"] res by simp
  from res h(1) show ?thesis
  proof (cases rule: cancel_locked_cases)
    case (queued c)
    have started: "\<not> shutdown_started (mgr s)" and dist: "distinct (queue (mgr s))"
      using sys_invD(1) [OF inv] queued(1) by (auto simp: mgr_inv_def)
    then have "shutdown_run_ids (mgr s) = []"
      using sys_invD(1) [OF inv] by (simp add: mgr_inv_def)
    then have "partition_of (set (admitted s)) (set (queue (mgr s)) - {r}) (set (executed s))
        (set (shutdown_run_ids (mgr s))) (insert r (set (user_cancelled s)))"
      using h(5) queued(1) by (intro partition_cancel) simp_all
    then have "history_inv env ?s'"
      using h queued dist by (intro history_invI) (auto simp: disk_le_def)
    moreover have "pcs_inv ?s'" using sys_invD(2) [OF inv] queued(2) by (simp add: pcs_inv_def)
    ultimately show ?thesis using m by (simp add: sys_inv_def)
  next
    case other
    have "(case answer of Inr (Some (QueuedCancelled _)) \<Rightarrow> r # user_cancelled s | _ \<Rightarrow> user_cancelled s) = user_cancelled s"
      using other(3) by (auto split: sum.splits option.splits cancel_result.splits)
    moreover have "sys_inv env ((s\<lparr>mgr := m\<rparr>)\<lparr>store := d\<rparr>)"
      using same_work_inv [OF inv other(1) m] other(2) by (intro disk_le_inv) simp_all
    ultimately show ?thesis by simp
  qed
qed

lemma begin_shutdown_work:
  assumes "mgr_inv m"
  shows "queue (begin_shutdown_locked now req m) = []"
    "submitting_run_ids (begin_shutdown_locked now req m) = submitting_run_ids m"
    "active_run_id (begin_shutdown_locked now req m) = active_run_id m"
    "set (shutdown_run_ids (begin_shutdown_locked now req m)) = set (queue m) \<union> set (shutdown_run_ids m)"
    "set (shutdown_pending m) \<subseteq> set (shutdown_pending (begin_shutdown_locked now req m))"
  using assms
  by (auto simp: begin_shutdown_locked_def mgr_inv_def Let_def split: option.splits sum.splits)

lemma begin_shutdown_sys_inv:
  assumes inv: "sys_inv env s"
  shows "sys_inv env (s\<lparr>mgr := begin_shutdown_locked now req (mgr s)\<rparr>)" (is "sys_inv env ?s'")
proof -
  note h = history_invD [OF sys_invD(3) [OF inv]]
  note w = begin_shutdown_work [OF sys_invD(1) [OF inv], of now req]
  have "history_inv env ?s'"
  proof (rule history_invI)
    show "partition_of (set (admitted ?s')) (set (queue (mgr ?s'))) (set (executed ?s'))
        (set (shutdown_run_ids (mgr ?s'))) (set (user_cancelled ?s'))"
      using partition_capture [OF h(5)] w(1,4) by simp
    show "x \<in> set (shutdown_pending (mgr ?s'))" if "drain ?s' = Some (QueuedTask, x)" for x
      using that h(9) [of x] w(5) by auto
  qed (use h w(3) in auto)
  moreover have "pcs_inv ?s'" using sys_invD(2) [OF inv] w(2) by (simp add: pcs_inv_def)
  ultimately show ?thesis using begin_shutdown_inv [OF sys_invD(1) [OF inv]] by (simp add: sys_inv_def)
qed

lemma find_member: "List.find P xs = Some x \<Longrightarrow> x \<in> set xs"
  by (auto simp: find_Some_iff)

lemma shutdown_task_queued:
  "shutdown_task attempted kinds m = Some (QueuedTask, r) \<Longrightarrow> r \<in> set (shutdown_pending m)"
  unfolding shutdown_task_def Let_def by (drule find_member) (auto split: if_splits)

lemma drain_take_task:
  "drain_poll attempted kinds deadline now now' m = DrainTask kind r \<Longrightarrow> shutdown_task attempted kinds m = Some (kind, r)"
  unfolding drain_poll_def Let_def by (auto split: if_splits option.splits)

lemma drain_work_le:
  "disk_wf env disk \<Longrightarrow> disk_le env disk (fst (drain_work env io io' rq co kind r f disk))"
  using persist_queued_cancellation_le [of env disk io rq co r "''server_shutdown''"]
  by (cases kind) (simp_all add: drain_work_def terminalize_le finalize_worker_error_le case_prod_beta)

lemma record_result_work [simp]:
  "queue (record_shutdown_task_result kind r ok e m) = queue m"
  "submitting_run_ids (record_shutdown_task_result kind r ok e m) = submitting_run_ids m"
  "active_run_id (record_shutdown_task_result kind r ok e m) = active_run_id m"
  "shutdown_run_ids (record_shutdown_task_result kind r ok e m) = shutdown_run_ids m"
  by (cases kind; simp add: record_shutdown_task_result_def Let_def)+

lemma drain_done_inv:
  assumes inv: "sys_inv env s" and d: "drain s = Some (kind, r)"
    and work: "drain_work env io io' rq co kind r f (store s) = (d, ok)"
  shows "sys_inv env (s\<lparr>store := d, mgr := record_shutdown_task_result kind r ok e (mgr s), drain := None\<rparr>)"
    (is "sys_inv env ?s'")
proof -
  note h = history_invD [OF sys_invD(3) [OF inv]]
  have le: "disk_le env (store s) d" using drain_work_le [OF h(1), of io io' rq co kind r f] work by simp
  have "history_inv env ?s'"
    using h le by (intro history_invI) (auto simp: disk_le_def)
  moreover have "pcs_inv ?s'" using sys_invD(2) [OF inv] by (simp add: pcs_inv_def)
  moreover have "mgr_inv (mgr ?s')"
    using record_result_inv [OF sys_invD(1) [OF inv], of kind r] d h(9) by simp
  ultimately show ?thesis by (simp add: sys_inv_def)
qed

lemma worker_poll_run:
  assumes "worker_poll m = (m', WorkerRun r)"
  shows "\<not> shutdown_started m" "queue m = r # queue m'" "active_run_id m' = Some r"
    "submitting_run_ids m' = submitting_run_ids m" "shutdown_run_ids m' = shutdown_run_ids m"
    "shutdown_pending m' = shutdown_pending m"
  using assms by (auto simp: worker_poll_def Let_def split: if_splits list.splits)

lemma worker_run_inv:
  assumes inv: "sys_inv env s" and idle: "worker_run s = None" and poll: "worker_poll (mgr s) = (m, WorkerRun r)"
  shows "sys_inv env (s\<lparr>mgr := m, worker_run := Some r, executed := r # executed s\<rparr>)" (is "sys_inv env ?s'")
proof -
  note h = history_invD [OF sys_invD(3) [OF inv]]
  note w = worker_poll_run [OF poll]
  have dist: "r \<notin> set (queue m)" "shutdown_run_ids (mgr s) = []"
    using sys_invD(1) [OF inv] w(1,2) by (auto simp: mgr_inv_def)
  have "partition_of (set (admitted s)) (insert r (set (queue m))) (set (executed s))
      (set (shutdown_run_ids (mgr s))) (set (user_cancelled s))"
    using h(5) w(2) by simp
  moreover from this have "r \<notin> set (executed s)"
    by (auto simp: partition_of_def)
  ultimately have "history_inv env ?s'"
    using h w dist partition_execute [of "set (admitted s)" r "set (queue m)" "set (executed s)" "{}" "set (user_cancelled s)"]
    by (intro history_invI) auto
  moreover have "pcs_inv ?s'" using sys_invD(2) [OF inv] w(4) by (simp add: pcs_inv_def)
  moreover have "mgr_inv m"
    using worker_poll_inv [OF sys_invD(1) [OF inv]] poll idle h(7) by simp
  ultimately show ?thesis by (simp add: sys_inv_def)
qed

lemma worker_settle_work [simp]:
  "queue (worker_settle r ok f fatal m) = queue m"
  "submitting_run_ids (worker_settle r ok f fatal m) = submitting_run_ids m"
  "active_run_id (worker_settle r ok f fatal m) = None"
  "shutdown_run_ids (worker_settle r ok f fatal m) = shutdown_run_ids m"
  "shutdown_pending (worker_settle r ok f fatal m) = shutdown_pending m"
  by (cases fatal; simp add: worker_settle_def Let_def)+

lemma worker_finish_work:
  assumes "worker_finish env look io again final now r outcome disk m = (d, m', cont)" "disk_wf env disk" "mgr_inv m"
  shows "mgr_inv m'" "disk_le env disk d" "queue m' = queue m" "submitting_run_ids m' = submitting_run_ids m"
    "active_run_id m' = None" "shutdown_run_ids m' = shutdown_run_ids m" "shutdown_pending m' = shutdown_pending m"
  using assms finalize_worker_error_le [OF assms(2)] disk_le_refl [OF assms(2)] worker_settle_inv [OF assms(3)]
  by (auto simp: worker_finish_def Let_def split: option.splits)

lemma worker_finish_inv:
  assumes inv: "sys_inv env s"
    and fin: "worker_finish env look io again final now r outcome (store s) (mgr s) = (d, m, cont)"
  shows "sys_inv env (s\<lparr>store := d, mgr := (if cont then m else m\<lparr>worker := WorkerDead\<rparr>), worker_run := None\<rparr>)"
    (is "sys_inv env ?s'")
proof -
  note h = history_invD [OF sys_invD(3) [OF inv]]
  note w = worker_finish_work [OF fin h(1) sys_invD(1) [OF inv]]
  have m: "queue (mgr ?s') = queue (mgr s)" "active_run_id (mgr ?s') = None"
    "shutdown_run_ids (mgr ?s') = shutdown_run_ids (mgr s)" "shutdown_pending (mgr ?s') = shutdown_pending (mgr s)"
    using w by simp_all
  have "history_inv env ?s'"
    using h w(2) by (intro history_invI; (unfold m)?) (auto simp: disk_le_def)
  moreover have "pcs_inv ?s'" using sys_invD(2) [OF inv] w(4) by (simp add: pcs_inv_def)
  moreover have "mgr_inv (mgr ?s')" using w(1) by (simp add: mgr_inv_def)
  ultimately show ?thesis by (simp add: sys_inv_def)
qed

lemma worker_poll_return: "worker_poll m = (m', WorkerReturn) \<Longrightarrow> m' = m"
  by (auto simp: worker_poll_def Let_def split: if_splits list.splits)

lemma worker_return_inv:
  assumes inv: "sys_inv env s" and poll: "worker_poll (mgr s) = (m, WorkerReturn)"
  shows "sys_inv env (s\<lparr>mgr := m\<lparr>worker := WorkerDead\<rparr>\<rparr>)"
proof -
  have m: "m = mgr s" using poll by (rule worker_poll_return)
  have "mgr_inv (m\<lparr>worker := WorkerDead\<rparr>)"
    using sys_invD(1) [OF inv] by (simp add: m mgr_inv_def)
  with inv show ?thesis by (intro same_work_inv) (simp_all add: m same_work_def)
qed

lemma environment_inv:
  "sys_inv env s \<Longrightarrow> disk_wf env d \<Longrightarrow> \<forall>r \<in> set (marked s). stored_status env d r \<noteq> Some (JStr ''pending'') \<Longrightarrow>
     sys_inv env (s\<lparr>store := d\<rparr>)"
  by (simp add: sys_inv_def pcs_inv_def history_inv_def)

lemma drain_take_inv:
  "sys_inv env s \<Longrightarrow> drain_poll attempted kinds deadline now now' (mgr s) = DrainTask kind r \<Longrightarrow>
     sys_inv env (s\<lparr>drain := Some (kind, r)\<rparr>)"
  by (auto simp: sys_inv_def pcs_inv_def history_inv_def dest: drain_take_task shutdown_task_queued)

lemma sys_inv_init: "sys_init env s \<Longrightarrow> sys_inv env s"
  by (auto simp: sys_init_def sys_inv_def new_manager_inv pcs_inv_def history_inv_def partition_of_def)
    (auto simp: new_manager_def split: if_splits)

lemma sys_inv_step:
  assumes "sys_inv env s" "sys_step env s t"
  shows "sys_inv env t"
proof -
  note m = sys_invD(1) [OF assms(1)]
  from assms(2) show ?thesis
  proof cases
    case (step_submit t r m)
    with assms(1) show ?thesis
      using submit_enter_work submit_enter_inv by (auto intro!: submit_inv dest: sys_invD(1))
  next
    case (step_submit_reserved t token r m)
    with assms(1) show ?thesis
      using submit_reserved_enter_work submit_reserved_enter_inv by (auto intro!: submit_inv dest: sys_invD(1))
  next
    case step_release
    with same_work_inv [OF assms(1) release_same_work release_locked_inv [OF m]] show ?thesis by simp
  next
    case step_confirm
    with same_work_inv [OF assms(1) confirm_same_work confirm_reservation_inv [OF m]] show ?thesis by simp
  next
    case step_cancel_second
    with same_work_inv [OF assms(1) cancel_second_same_work cancel_second_inv [OF m]] show ?thesis by simp
  next
    case step_stop
    with same_work_inv [OF assms(1) stop_same_work stop_locked_inv [OF m]] show ?thesis by simp
  next
    case step_worker_finish
    with worker_finish_inv [OF assms(1)] show ?thesis by simp
  qed (use assms(1) in \<open>auto intro: same_work_inv start_same_work start_inv reserve_same_work reserve_enter_inv
      track_same_work track_reservation_inv transfer_same_work transfer_inv mark_inv mark_failed_inv
      enqueue_sys_inv enqueue_failed_sys_inv cancel_sys_inv begin_shutdown_sys_inv drain_take_inv
      drain_done_inv worker_return_inv worker_run_inv environment_inv dest: sys_invD(1)\<close>)
qed

interpretation exec: invariant_system "sys_init env" "sys_step env" "sys_inv env" for env
  by unfold_locales (rule sys_inv_init sys_inv_step, assumption+)+

section \<open>Shutdown is final\<close>

definition frozen :: "string list \<Rightarrow> system \<Rightarrow> bool" where
  "frozen xs s = (shutdown_started (mgr s) \<and> executed s = xs)"

lemma shutdown_started_kept [simp]:
  "shutdown_started (fst (settle_reservation token m)) = shutdown_started m"
  "shutdown_started (enqueue_failed r u e m) = shutdown_started m"
  "shutdown_started (fst (release_locked token m)) = shutdown_started m"
  "shutdown_started (fst (confirm_reservation token r m)) = shutdown_started m"
  "shutdown_started (stop_locked m) = shutdown_started m"
  "shutdown_started (record_shutdown_task_result kind r ok ex m) = shutdown_started m"
  "shutdown_started (worker_settle r ok f fatal m) = shutdown_started m"
  by (simp_all add: settle_reservation_def enqueue_failed_def release_locked_def confirm_reservation_def
      stop_locked_def record_shutdown_task_result_def worker_settle_def Let_def
      split: option.split task_kind.split)

lemma shutdown_started_results:
  "reserve_enter env token m = Inr m' \<Longrightarrow> shutdown_started m' = shutdown_started m"
  "track_reservation token r m = Inr m' \<Longrightarrow> shutdown_started m' = shutdown_started m"
  "submit_enter env r m = Inr m' \<Longrightarrow> shutdown_started m' = shutdown_started m"
  "submit_reserved_enter token r m = Inr m' \<Longrightarrow> shutdown_started m' = shutdown_started m"
  "enqueue r tok m = Inr m' \<Longrightarrow> shutdown_started m' = shutdown_started m"
  "transfer_reservation_unresolved env token r f m = Inr m' \<Longrightarrow> shutdown_started m' = shutdown_started m"
  "request_active now m = Inr (m', a) \<Longrightarrow> shutdown_started m' = shutdown_started m"
  by (auto simp: reserve_enter_def track_reservation_def submit_enter_def submit_reserved_enter_def enqueue_def
      transfer_reservation_unresolved_def request_active_def Let_def elim!: bind_r_InrE split: if_splits option.splits)

lemma cancel_shutdown_started:
  "cancel_locked env io rq co r d0 m0 = (d, m, answer) \<Longrightarrow> shutdown_started m = shutdown_started m0"
  "shutdown_started (fst (cancel_second env now r run m0)) = shutdown_started m0"
  by (auto simp: cancel_locked_def cancel_queued_locked_def cancel_second_def Let_def
      dest: shutdown_started_results split: if_splits sum.splits prod.splits)

lemma begin_shutdown_started [simp]: "shutdown_started (begin_shutdown_locked now req m)"
  by (simp add: begin_shutdown_locked_def Let_def split: option.split sum.split)

lemma worker_finish_started:
  "worker_finish env look io again final now r outcome disk m = (d, m', cont) \<Longrightarrow> shutdown_started m' = shutdown_started m"
  by (auto simp: worker_finish_def Let_def)

lemma frozen_step: "frozen xs s \<Longrightarrow> sys_step env s t \<Longrightarrow> frozen xs t"
  by (elim sys_stepE)
    (auto simp: frozen_def start_def shutdown_started_results cancel_shutdown_started
      dest: shutdown_started_results cancel_shutdown_started(1) worker_poll_run worker_poll_return
        worker_finish_started)

lemma user_cancelled_step: "sys_step env s t \<Longrightarrow> r \<in> set (user_cancelled s) \<Longrightarrow> r \<in> set (user_cancelled t)"
  by (elim sys_stepE) (auto split: sum.split option.split cancel_result.split)

lemma cancel_locked_durable:
  assumes "cancel_locked env io rq co r d0 m0 = (d, m, Inr (Some (QueuedCancelled c)))" "disk_wf env d0"
  shows "stored_status env d r = Some (JStr ''cancelled'')"
proof -
  have "r \<in> set (queue m0)"
    using assms by (cases rule: cancel_locked_cases) auto
  then obtain c' where "persist_queued_cancellation env io rq co r ''user_requested'' d0 = (d, Inr c')"
    using assms(1) by (auto simp: cancel_locked_def cancel_queued_locked_def split: prod.splits sum.splits)
  with assms(2) show ?thesis by (rule persist_queued_cancellation_ok)
qed








section \<open>A concrete history\<close>

text \<open>One Run is created, submitted, marked queued and waits for the worker.\<close>

lemma sample_waiting:
  obtains s where "reachable (sys_init sample_env) (sys_step sample_env) s" "queue (mgr s) = [''run-1'']"
    "admitted s = [''run-1'']" "executed s = []" "worker (mgr s) = WorkerAlive" "worker_run s = None"
    "\<not> shutdown_started (mgr s)" "submitting_run_ids (mgr s) = {}" "reservations (mgr s) = {}"
    "admission_leases (mgr s) = {}" "queue_capacity (mgr s) = 2" "user_cancelled s = []"
    "unresolved_admission_runs (mgr s) = []" "unresolved_active_runs (mgr s) = []" "worker_fatal_error (mgr s) = None"
    "drain s = None" "active_run_id (mgr s) = None"
    "\<And>why. \<exists>d c. persist_queued_cancellation sample_env io_fine ''t'' ''t'' ''run-1'' why (store s) = (d, Inr c)"
proof -
  obtain disk d run where dwf: "disk_wf sample_env disk"
    and trans: "transition_status sample_env io_fine ''run-1'' ''pending'' ''queued'' disk = (d, Inr run)"
    and lock: "locked_run io_fine ''run-1'' d = Inr ()"
    by (rule sample_disk)
  have "''queued'' \<in> set RUN_STATUSES" by (simp add: RUN_STATUSES_def)
  with dwf have after: "disk_wf sample_env d \<and> stored_run sample_env d ''run-1'' = Some run \<and> jget run ''status'' = JStr ''queued''"
    by (cases rule: transition_status_cases [where io = io_fine and run_id = "''run-1''" and expected = "''pending''"])
      (use trans in \<open>auto split: if_splits\<close>)
  then have persist: "\<exists>d' c. persist_queued_cancellation sample_env io_fine ''t'' ''t'' ''run-1'' why d = (d', Inr c)" for why
    using lock by (intro persist_queued_cancellation_succeeds) (auto simp: io_fine_def)
  define m0 where "m0 = projr (new_manager 2)"
  have new: "new_manager 2 = Inr m0" by (simp add: m0_def new_manager_def)
  note m0 = m0_def [unfolded new_manager_def, simplified]
  let ?s0 = "\<lparr>mgr = m0, store = disk, pcs = (\<lambda>_. Idle), worker_run = None, drain = None, marked = [],
     admitted = [], executed = [], user_cancelled = []\<rparr>"
  let ?m1 = "m0\<lparr>accepting := True, worker := WorkerAlive\<rparr>"
  let ?m2 = "?m1\<lparr>submitting_run_ids := {''run-1''}\<rparr>"
  let ?m3 = "?m1\<lparr>queue := [''run-1'']\<rparr>"
  have "reachable (sys_init sample_env) (sys_step sample_env) ?s0"
    using new dwf by (intro reachable_init) (auto simp: sys_init_def)
  moreover have "sys_step sample_env ?s0 (?s0\<lparr>mgr := ?m1\<rparr>)"
    by (rule step_start [of None]) (simp add: start_def m0)
  moreover have "sys_step sample_env (?s0\<lparr>mgr := ?m1\<rparr>)
      (?s0\<lparr>mgr := ?m2, pcs := (\<lambda>_. Idle)(0 := Submitting ''run-1'' None)\<rparr>)"
    using step_submit [of "?s0\<lparr>mgr := ?m1\<rparr>" 0 sample_env "''run-1''" ?m2]
    by (simp add: submit_enter_def require_accepting_def require_not_submitted_def require_capacity_def m0)
  moreover have "sys_step sample_env (?s0\<lparr>mgr := ?m2, pcs := (\<lambda>_. Idle)(0 := Submitting ''run-1'' None)\<rparr>)
      (?s0\<lparr>mgr := ?m2, store := d, pcs := (\<lambda>_. Idle)(0 := Marked ''run-1'' None), marked := [''run-1'']\<rparr>)"
    using step_mark [of "?s0\<lparr>mgr := ?m2, pcs := (\<lambda>_. Idle)(0 := Submitting ''run-1'' None)\<rparr>" 0 "''run-1''" None sample_env io_fine d run] trans
    by (simp add: mark_queued_def)
  moreover have "sys_step sample_env
      (?s0\<lparr>mgr := ?m2, store := d, pcs := (\<lambda>_. Idle)(0 := Marked ''run-1'' None), marked := [''run-1'']\<rparr>)
      (?s0\<lparr>mgr := ?m3, store := d, pcs := (\<lambda>_. Idle), marked := [''run-1''], admitted := [''run-1'']\<rparr>)"
    using step_enqueue [of "?s0\<lparr>mgr := ?m2, store := d, pcs := (\<lambda>_. Idle)(0 := Marked ''run-1'' None), marked := [''run-1'']\<rparr>"
        0 "''run-1''" None ?m3 sample_env]
    by (simp add: enqueue_def Let_def m0 fun_upd_idem)
  ultimately have "reachable (sys_init sample_env) (sys_step sample_env)
      (?s0\<lparr>mgr := ?m3, store := d, pcs := (\<lambda>_. Idle), marked := [''run-1''], admitted := [''run-1'']\<rparr>)"
    by (blast intro: reachable_step)
  then show ?thesis by (rule that) (simp_all add: m0 persist)
qed

text \<open>The worker takes it.\<close>

lemma sample_executed:
  obtains s where "reachable (sys_init sample_env) (sys_step sample_env) s" "executed s = [''run-1'']"
    "queue (mgr s) = []" "active_run_id (mgr s) = Some ''run-1''"
proof -
  obtain s where s: "reachable (sys_init sample_env) (sys_step sample_env) s" "queue (mgr s) = [''run-1'']"
    "executed s = []" "worker (mgr s) = WorkerAlive" "worker_run s = None" "\<not> shutdown_started (mgr s)"
    by (rule sample_waiting) blast
  let ?m = "(mgr s)\<lparr>queue := [], active_run_id := Some ''run-1'', active_cancellation_control := Some new_control\<rparr>"
  have "sys_step sample_env s (s\<lparr>mgr := ?m, worker_run := Some ''run-1'', executed := [''run-1'']\<rparr>)"
    using step_worker_run [of s ?m "''run-1''" sample_env] s by (simp add: worker_poll_def)
  with s(1) have "reachable (sys_init sample_env) (sys_step sample_env)
      (s\<lparr>mgr := ?m, worker_run := Some ''run-1'', executed := [''run-1'']\<rparr>)"
    by (rule reachable_step)
  then show ?thesis by (rule that) simp_all
qed

section \<open>Properties\<close>

text \<open>C3: in every reachable state waiting, reserved and submitting places
  together stay within the queue capacity, and a Run has one owner: the waiting Runs are
  distinct, and no Run is at once waiting, submitting or active.\<close>

theorem bounded_single_ownership:
  assumes "reachable (sys_init env) (sys_step env) s"
  shows "length (queue (mgr s)) + card (reservations (mgr s)) + card (submitting_run_ids (mgr s)) \<le> queue_capacity (mgr s) \<and>
    distinct (queue (mgr s)) \<and> set (queue (mgr s)) \<inter> submitting_run_ids (mgr s) = {} \<and>
    (\<forall>r. active_run_id (mgr s) = Some r \<longrightarrow> r \<notin> set (queue (mgr s)) \<union> submitting_run_ids (mgr s))"
  using exec.inv_reachable [OF assms] by (simp add: sys_inv_def mgr_inv_def)

theorem bounded_single_ownership_witness:
  "\<exists>s. reachable (sys_init sample_env) (sys_step sample_env) s \<and> queue (mgr s) = [''run-1''] \<and>
     distinct (queue (mgr s))"
proof -
  obtain s where "reachable (sys_init sample_env) (sys_step sample_env) s" "queue (mgr s) = [''run-1'']"
    by (rule sample_waiting) blast
  with bounded_single_ownership [of sample_env s] show ?thesis by blast
qed

text \<open>C1: no Run is executed twice, however submissions, cancellations,
  failures and the worker interleave, and every admitted Run is accounted for exactly once: it
  waits, or was executed, or was taken over by shutdown, or was cancelled in the queue, and no two
  of these four hold of the same Run; none of the four holds of a Run that was never admitted.\<close>

theorem run_executed_at_most_once:
  assumes "reachable (sys_init env) (sys_step env) s"
  shows "distinct (executed s) \<and>
    set (queue (mgr s)) \<union> set (executed s) \<union> set (shutdown_run_ids (mgr s)) \<union> set (user_cancelled s) = set (admitted s) \<and>
    set (executed s) \<inter> set (queue (mgr s)) = {} \<and> set (executed s) \<inter> set (shutdown_run_ids (mgr s)) = {} \<and>
    set (queue (mgr s)) \<inter> set (shutdown_run_ids (mgr s)) = {} \<and>
    set (user_cancelled s) \<inter> (set (queue (mgr s)) \<union> set (executed s) \<union> set (shutdown_run_ids (mgr s))) = {}"
proof -
  note inv = exec.inv_reachable [OF assms]
  note h = history_invD [OF sys_invD(3) [OF inv]]
  have "queue (mgr s) = [] \<or> shutdown_run_ids (mgr s) = []"
    using sys_invD(1) [OF inv] by (auto simp: mgr_inv_def)
  with h(5,6) show ?thesis unfolding partition_of_def by auto
qed

theorem run_executed_at_most_once_witness:
  "\<exists>s. reachable (sys_init sample_env) (sys_step sample_env) s \<and> executed s = [''run-1''] \<and>
     set (user_cancelled s) \<inter> set (executed s) = {}"
proof -
  obtain s where s: "reachable (sys_init sample_env) (sys_step sample_env) s" "executed s = [''run-1'']"
    by (rule sample_executed) blast
  with run_executed_at_most_once [OF s(1)] show ?thesis by blast
qed

text \<open>C4: once shutdown has begun no further Run is ever executed, the queue
  stays empty and admission stays closed.\<close>

theorem shutdown_freezes_execution:
  assumes "reachable (sys_init env) (sys_step env) s" "shutdown_started (mgr s)" "(sys_step env)\<^sup>*\<^sup>* s t"
  shows "executed t = executed s \<and> queue (mgr t) = [] \<and> \<not> accepting (mgr t) \<and> shutdown_started (mgr t)"
proof -
  have "frozen (executed s) s" using assms(2) by (simp add: frozen_def)
  with assms(1) have "frozen (executed s) t"
    using assms(3) by (rule exec.stable_steps [rotated]) (rule frozen_step)
  moreover have "mgr_inv (mgr t)"
    using exec.inv_reachable [OF reachable_steps [OF assms(1,3)]] by (rule sys_invD)
  ultimately show ?thesis by (simp add: frozen_def mgr_inv_def)
qed

theorem shutdown_freezes_execution_witness:
  "\<exists>s. reachable (sys_init sample_env) (sys_step sample_env) s \<and> shutdown_started (mgr s) \<and>
     shutdown_run_ids (mgr s) = [''run-1''] \<and> executed s = [] \<and> queue (mgr s) = []"
proof -
  obtain s where s: "reachable (sys_init sample_env) (sys_step sample_env) s" "queue (mgr s) = [''run-1'']"
    "executed s = []" "\<not> shutdown_started (mgr s)"
    by (rule sample_waiting) blast
  let ?t = "s\<lparr>mgr := begin_shutdown_locked ''now'' False (mgr s)\<rparr>"
  have t: "reachable (sys_init sample_env) (sys_step sample_env) ?t"
    using s(1) step_begin_shutdown by (rule reachable_step)
  have "shutdown_run_ids (mgr s) = []" "shutdown_pending (mgr s) = []"
    using sys_invD(1) [OF exec.inv_reachable [OF s(1)]] s(4) by (simp_all add: mgr_inv_def)
  then have "shutdown_run_ids (mgr ?t) = [''run-1'']"
    using s(2,4) by (simp add: begin_shutdown_locked_def capture_shutdown_run_def)
  with shutdown_freezes_execution [OF t _ rtranclp.rtrancl_refl] t s(3) show ?thesis
    by (intro exI [of _ ?t]) simp
qed

text \<open>C5: a user's cancellation of a waiting Run is durable before it is
  reported and final: the Run is stored as cancelled, leaves the queue, and is never executed
  in any continuation.\<close>

theorem queued_cancellation_is_final:
  assumes "reachable (sys_init env) (sys_step env) s"
    and "cancel_locked env io requested completed r (store s) (mgr s) = (d, m, Inr (Some (QueuedCancelled c)))"
    and "(sys_step env)\<^sup>*\<^sup>* (s\<lparr>mgr := m, store := d, user_cancelled := r # user_cancelled s\<rparr>) t"
  shows "stored_status env d r = Some (JStr ''cancelled'') \<and> r \<notin> set (queue m) \<and> r \<notin> set (executed t)"
proof -
  let ?s = "s\<lparr>mgr := m, store := d, user_cancelled := r # user_cancelled s\<rparr>"
  note inv = exec.inv_reachable [OF assms(1)]
  note h = history_invD [OF sys_invD(3) [OF inv]]
  have reach: "reachable (sys_init env) (sys_step env) ?s"
    using reachable_step [OF assms(1) step_cancel [OF assms(2)]] by simp
  have "r \<notin> set (queue m)"
    using history_invD(5) [OF sys_invD(3) [OF exec.inv_reachable [OF reach]]] by (simp add: partition_of_def)
  moreover have "r \<in> set (user_cancelled t)"
    using reach _ assms(3) by (rule exec.stable_steps [rotated]) (auto elim: user_cancelled_step)
  then have "r \<notin> set (executed t)"
    using history_invD(5) [OF sys_invD(3) [OF exec.inv_reachable [OF reachable_steps [OF reach assms(3)]]]]
    by (auto simp: partition_of_def)
  moreover have "stored_status env d r = Some (JStr ''cancelled'')"
    using cancel_locked_durable [OF assms(2) h(1)] .
  ultimately show ?thesis by blast
qed

theorem queued_cancellation_is_final_witness:
  "\<exists>s d m c. reachable (sys_init sample_env) (sys_step sample_env) s \<and> queue (mgr s) = [''run-1''] \<and>
     cancel_locked sample_env io_fine ''t'' ''t'' ''run-1'' (store s) (mgr s) = (d, m, Inr (Some (QueuedCancelled c))) \<and>
     stored_status sample_env d ''run-1'' = Some (JStr ''cancelled'') \<and> queue m = []"
proof -
  obtain s where s: "reachable (sys_init sample_env) (sys_step sample_env) s" "queue (mgr s) = [''run-1'']"
    and persist: "\<And>why. \<exists>d c. persist_queued_cancellation sample_env io_fine ''t'' ''t'' ''run-1'' why (store s) = (d, Inr c)"
    by (rule sample_waiting) blast
  obtain d c where "persist_queued_cancellation sample_env io_fine ''t'' ''t'' ''run-1'' ''user_requested'' (store s) = (d, Inr c)"
    using persist by blast
  then have step: "cancel_locked sample_env io_fine ''t'' ''t'' ''run-1'' (store s) (mgr s) =
      (d, (mgr s)\<lparr>queue := []\<rparr>, Inr (Some (QueuedCancelled c)))"
    using s(2) by (simp add: cancel_locked_def cancel_queued_locked_def)
  have "stored_status sample_env d ''run-1'' = Some (JStr ''cancelled'')"
    using queued_cancellation_is_final [OF s(1) step rtranclp.rtrancl_refl] by simp
  with s step show ?thesis
    by (intro exI [of _ s] exI [of _ d] exI [of _ "(mgr s)\<lparr>queue := []\<rparr>"] exI [of _ c]) simp
qed



end
