(* ===== verification/Automation_Ledger.thy ===== *)
theory Automation_Ledger
  imports Run_Store
begin

text \<open>
  \<^verbatim>\<open>src/debbuilder/automation_ledger.py\<close>: the durable coordination ledger of automation.
  A ledger maps attempt keys to entries; an entry has a bounded list of generations; a
  generation (a row) records how far one attempt got and which Run, validation and publication
  it owns.  Rows and entries are records; \<^verbatim>\<open>gen_json\<close>, \<^verbatim>\<open>entry_json\<close> and
  \<^verbatim>\<open>ledger_json\<close> are the dictionaries the code keeps.  The clock, the file and the live
  Recipe are arguments.
\<close>

section \<open>Rows\<close>

record gen =
  g_generation :: int
  g_state :: string
  desired_policy :: string
  detected_at :: string
  created_at :: string
  updated_at :: string
  preallocated_run_id :: "string option"
  run_id :: "string option"
  terminal_classification :: "string option"
  retry_class :: string
  retry_count :: int
  not_before :: "string option"
  last_error_code :: "string option"
  diagnostic :: "string option"
  stage :: string
  validation_attempt_id :: "string option"
  publication_attempt_id :: "string option"
  completion_notified :: bool
  run_retry_count :: int
  validation_retry_count :: int
  publication_retry_count :: int

definition STATES :: "string list" where
  "STATES = [''claimed'', ''run_preallocated'', ''admitted'', ''terminal'', ''retry_delayed'', ''blocked'']"

definition TERMINAL_CLASSIFICATIONS :: "string list" where
  "TERMINAL_CLASSIFICATIONS = [''success'', ''terminal_failure'', ''transient_retryable'', ''blocked_manual'',
     ''cancelled'', ''disabled'']"

definition RETRY_CLASSES :: "string list" where
  "RETRY_CLASSES = [''none'', ''transient'', ''operator'']"

definition POLICIES :: "string list" where
  "POLICIES = [''manual'', ''detect'', ''test'', ''build'', ''build_validate'', ''full'']"

definition STAGES :: "string list" where
  "STAGES = [''detection'', ''run_admission'', ''run'', ''validation_admission'', ''validation'',
     ''publication'', ''terminal'']"

definition GENERATION_FIELDS :: "string list" where
  "GENERATION_FIELDS = [
     ''generation'', ''state'', ''desired_policy'', ''detected_at'', ''created_at'', ''updated_at'',
     ''preallocated_run_id'', ''run_id'', ''terminal_classification'', ''retry_class'',
     ''retry_count'', ''not_before'', ''last_error_code'', ''diagnostic'', ''stage'',
     ''validation_attempt_id'', ''publication_attempt_id'', ''completion_notified'',
     ''run_retry_count'', ''validation_retry_count'', ''publication_retry_count'']"

definition MAX_RECIPES :: nat where "MAX_RECIPES = 256"
definition MAX_ATTEMPTS :: nat where "MAX_ATTEMPTS = 2048"
definition MAX_ATTEMPTS_PER_RECIPE :: nat where "MAX_ATTEMPTS_PER_RECIPE = 128"
definition MAX_GENERATIONS :: nat where "MAX_GENERATIONS = 8"
definition MAX_LEDGER_BYTES :: nat where "MAX_LEDGER_BYTES = 16 * 1024 * 1024"

abbreviation led_err :: "string \<Rightarrow> string \<Rightarrow> exn" where
  "led_err code path \<equiv> Exn AutomationLedgerError code path"

abbreviation bad_row :: "string \<Rightarrow> exn" where
  "bad_row path \<equiv> led_err ''automation_ledger_invalid'' path"

definition gen_items :: "gen \<Rightarrow> doc" where
  "gen_items g = [
     (''generation'', JInt (g_generation g)), (''state'', JStr (g_state g)),
     (''desired_policy'', JStr (desired_policy g)), (''detected_at'', JStr (detected_at g)),
     (''created_at'', JStr (created_at g)), (''updated_at'', JStr (updated_at g)),
     (''preallocated_run_id'', opt_str (preallocated_run_id g)), (''run_id'', opt_str (run_id g)),
     (''terminal_classification'', opt_str (terminal_classification g)), (''retry_class'', JStr (retry_class g)),
     (''retry_count'', JInt (retry_count g)), (''not_before'', opt_str (not_before g)),
     (''last_error_code'', opt_str (last_error_code g)), (''diagnostic'', opt_str (diagnostic g)),
     (''stage'', JStr (stage g)), (''validation_attempt_id'', opt_str (validation_attempt_id g)),
     (''publication_attempt_id'', opt_str (publication_attempt_id g)),
     (''completion_notified'', JBool (completion_notified g)), (''run_retry_count'', JInt (run_retry_count g)),
     (''validation_retry_count'', JInt (validation_retry_count g)),
     (''publication_retry_count'', JInt (publication_retry_count g))]"

definition gen_json :: "gen \<Rightarrow> json" where
  "gen_json g = JObj (gen_items g)"

section \<open>Field readers\<close>

text \<open>\<^verbatim>\<open>_timestamp(value, field)\<close> and its optional form.\<close>

definition ledger_timestamp :: "py_env \<Rightarrow> string \<Rightarrow> json \<Rightarrow> string result" where
  "ledger_timestamp env path v =
     (case v of
        JStr s \<Rightarrow>
          if s = [] \<or> length s > 64 then Inl (bad_row path)
          else case fromisoformat env s of
            None \<Rightarrow> Inl (bad_row path)
          | Some (aware, _) \<Rightarrow> if aware then Inr s else Inl (bad_row path)
      | _ \<Rightarrow> Inl (bad_row path))"

definition optional_timestamp :: "py_env \<Rightarrow> string \<Rightarrow> json \<Rightarrow> string option result" where
  "optional_timestamp env path v =
     (if v = JNull then Inr None else bind_r (ledger_timestamp env path v) (\<lambda>s. Inr (Some s)))"

text \<open>\<^verbatim>\<open>_optional_text\<close>\<close>

definition optional_text :: "string \<Rightarrow> nat \<Rightarrow> json \<Rightarrow> string option result" where
  "optional_text path maximum v =
     (case v of
        JNull \<Rightarrow> Inr None
      | JStr s \<Rightarrow> if s = [] \<or> length s > maximum \<or> list_ex is_ctl s then Inl (bad_row path) else Inr (Some s)
      | _ \<Rightarrow> Inl (bad_row path))"

text \<open>\<^verbatim>\<open>_diagnostic\<close>\<close>

definition read_diagnostic :: "json \<Rightarrow> string option result" where
  "read_diagnostic v =
     bind_r (optional_text ''$.diagnostic'' 80 v) (\<lambda>t.
       if (\<exists>s \<in> set_option t. \<not> list_all is_code_char s) then Inl (bad_row ''$.diagnostic'') else Inr t)"

fun count_ok :: "json \<Rightarrow> bool" where
  "count_ok (JInt n) = (0 \<le> n \<and> n \<le> 1000)"
| "count_ok _ = False"

fun int_of :: "json \<Rightarrow> int" where
  "int_of (JInt n) = n"
| "int_of _ = 0"

fun str_of :: "json \<Rightarrow> string" where
  "str_of (JStr s) = s"
| "str_of _ = []"

fun opt_of :: "json \<Rightarrow> string option" where
  "opt_of (JStr s) = Some s"
| "opt_of _ = None"

text \<open>The class \<^verbatim>\<open>[A-Za-z0-9_.:+-]\<close> of attempt identifiers.\<close>

definition is_attempt_char :: "char \<Rightarrow> bool" where
  "is_attempt_char c = (is_name_char c \<or> c = CHR '':'')"

text \<open>\<^verbatim>\<open>a or b or ...\<close>, where a membership test may raise.\<close>

fun or_chain :: "bool result list \<Rightarrow> bool result" where
  "or_chain [] = Inr False"
| "or_chain (r # rs) = bind_r r (\<lambda>b. if b then Inr True else or_chain rs)"

definition not_in :: "json \<Rightarrow> string list \<Rightarrow> bool result" where
  "not_in v xs = bind_r (str_in v xs) (\<lambda>b. Inr (\<not> b))"

section \<open>Validation of a row\<close>

text \<open>Lines 125 to 155: links against state, policy and classification.\<close>

definition link_checks ::
  "string \<Rightarrow> string \<Rightarrow> string \<Rightarrow> string option \<Rightarrow> string \<Rightarrow> string option \<Rightarrow> string option \<Rightarrow> bool \<Rightarrow> (bool \<times> exn) list" where
  "link_checks path state policy_name terminal retry run pre delayed = [
     (\<exists>s \<in> set_option run. \<not> list_all is_name_char s, bad_row (path @ ''.run_id'')),
     (\<exists>s \<in> set_option pre. \<not> list_all is_name_char s, bad_row (path @ ''.preallocated_run_id'')),
     (run \<noteq> None \<and> run \<noteq> pre, bad_row (path @ ''.run_id'')),
     (state \<in> {''run_preallocated'', ''admitted''} \<and> pre = None, bad_row path),
     (policy_name = ''detect'' \<and> (pre \<noteq> None \<or> run \<noteq> None \<or> state \<in> {''run_preallocated'', ''admitted''}), bad_row path),
     (state = ''admitted'' \<and> run = None, bad_row path),
     (state \<in> {''terminal'', ''retry_delayed'', ''blocked''} \<and> terminal = None, bad_row path),
     (state = ''retry_delayed'' \<and> terminal \<noteq> Some ''transient_retryable'', bad_row path),
     (state = ''blocked'' \<and> terminal \<noteq> Some ''blocked_manual'', bad_row path),
     (state = ''blocked'' \<and> retry \<noteq> ''operator'', bad_row path),
     (state = ''terminal'' \<and> terminal \<in> {Some ''transient_retryable'', Some ''blocked_manual''}, bad_row path),
     (state = ''terminal'' \<and> retry \<noteq> ''none'', bad_row path),
     (state \<notin> {''terminal'', ''retry_delayed'', ''blocked''} \<and> terminal \<noteq> None, bad_row path),
     (state \<notin> {''terminal'', ''retry_delayed'', ''blocked''} \<and> retry \<noteq> ''none'', bad_row path),
     (state = ''retry_delayed'' \<and> (retry \<noteq> ''transient'' \<or> \<not> delayed), bad_row path),
     (state \<noteq> ''retry_delayed'' \<and> delayed, bad_row path)]"

text \<open>Lines 159 to 179: stage against state and links.\<close>

definition stage_checks ::
  "string \<Rightarrow> string \<Rightarrow> string \<Rightarrow> string option \<Rightarrow> string option \<Rightarrow> string option \<Rightarrow> string option \<Rightarrow> (bool \<times> exn) list" where
  "stage_checks path state stg run pre validation publication = [
     (state \<in> {''terminal'', ''blocked''} \<and> stg \<noteq> ''terminal'', bad_row path),
     (state \<notin> {''terminal'', ''blocked''} \<and> stg = ''terminal'', bad_row path),
     (\<exists>s \<in> set_option validation. \<not> list_all is_attempt_char s, bad_row (path @ ''.validation_attempt_id'')),
     (\<exists>s \<in> set_option publication. \<not> list_all is_attempt_char s, bad_row (path @ ''.publication_attempt_id'')),
     (publication \<noteq> None \<and> validation = None, bad_row path),
     (stg = ''detection'' \<and> (pre \<noteq> None \<or> run \<noteq> None \<or> validation \<noteq> None \<or> publication \<noteq> None), bad_row path),
     (stg = ''run_admission'' \<and> (pre = None \<or> run \<noteq> None \<or> validation \<noteq> None \<or> publication \<noteq> None), bad_row path),
     (stg = ''run'' \<and> (run = None \<or> validation \<noteq> None \<or> publication \<noteq> None), bad_row path),
     (stg = ''validation_admission'' \<and> (run = None \<or> publication \<noteq> None), bad_row path),
     (stg = ''validation'' \<and> (run = None \<or> validation = None \<or> publication \<noteq> None), bad_row path),
     (stg = ''publication'' \<and> (run = None \<or> validation = None), bad_row path)]"

text \<open>Line 112: the enumerations.\<close>

definition enum_faults :: "doc \<Rightarrow> bool result list" where
  "enum_faults kvs = [
     not_in (jget kvs ''state'') STATES,
     not_in (jget kvs ''desired_policy'') POLICIES,
     Inr (jget kvs ''desired_policy'' = JStr ''manual''),
     (if jget kvs ''terminal_classification'' = JNull then Inr False
      else not_in (jget kvs ''terminal_classification'') TERMINAL_CLASSIFICATIONS),
     not_in (jget kvs ''retry_class'') RETRY_CLASSES]"

text \<open>Lines 105 to 120: the number, the enumerations and the counters.\<close>

definition enum_checks :: "string \<Rightarrow> int \<Rightarrow> doc \<Rightarrow> unit result" where
  "enum_checks path expected kvs =
     bind_r (raise_first [((\<exists>b \<in> {True, False}. jget kvs ''generation'' = JBool b) \<or>
         \<not> py_eq (jget kvs ''generation'') (JInt expected), bad_row (path @ ''.generation''))]) (\<lambda>_.
     bind_r (or_chain (enum_faults kvs)) (\<lambda>bad.
     if bad then Inl (bad_row path)
     else raise_first [
       (\<not> count_ok (jget kvs ''retry_count''), bad_row (path @ ''.retry_count'')),
       (\<not> count_ok (jget kvs ''run_retry_count''), bad_row (path @ ''.run_retry_count'')),
       (\<not> count_ok (jget kvs ''validation_retry_count''), bad_row (path @ ''.validation_retry_count'')),
       (\<not> count_ok (jget kvs ''publication_retry_count''), bad_row (path @ ''.publication_retry_count''))]))"

record links =
  l_run :: "string option"
  l_pre :: "string option"
  l_validation :: "string option"
  l_publication :: "string option"

text \<open>Lines 121 to 179: the four links with every check on them.\<close>

definition read_links :: "string \<Rightarrow> doc \<Rightarrow> links result" where
  "read_links path kvs =
     (let state = str_of (jget kvs ''state'') in
      bind_r (optional_text (path @ ''.run_id'') 128 (jget kvs ''run_id'')) (\<lambda>run.
      bind_r (optional_text (path @ ''.preallocated_run_id'') 128 (jget kvs ''preallocated_run_id'')) (\<lambda>pre.
      bind_r (optional_text (path @ ''.validation_attempt_id'') 128 (jget kvs ''validation_attempt_id'')) (\<lambda>val.
      bind_r (optional_text (path @ ''.publication_attempt_id'') 128 (jget kvs ''publication_attempt_id'')) (\<lambda>pub.
      bind_r (raise_first (link_checks path state (str_of (jget kvs ''desired_policy''))
        (opt_of (jget kvs ''terminal_classification'')) (str_of (jget kvs ''retry_class'')) run pre
        (jget kvs ''not_before'' \<noteq> JNull))) (\<lambda>_.
      bind_r (not_in (jget kvs ''stage'') STAGES) (\<lambda>bad.
      if bad then Inl (bad_row (path @ ''.stage'')) else
      bind_r (raise_first (stage_checks path state (str_of (jget kvs ''stage'')) run pre val pub)) (\<lambda>_.
      Inr \<lparr>l_run = run, l_pre = pre, l_validation = val, l_publication = pub\<rparr>))))))))"

text \<open>Lines 180 to 209: notification, error code, timestamps and the result.\<close>

definition read_rest :: "py_env \<Rightarrow> string \<Rightarrow> int \<Rightarrow> doc \<Rightarrow> links \<Rightarrow> gen result" where
  "read_rest env path expected kvs l =
     (case jget kvs ''completion_notified'' of
        JBool notified \<Rightarrow>
          if notified \<and> str_of (jget kvs ''state'') \<notin> {''terminal'', ''blocked''} then Inl (bad_row path)
          else
            bind_r (optional_text (path @ ''.last_error_code'') 80 (jget kvs ''last_error_code'')) (\<lambda>code.
            if (\<exists>s \<in> set_option code. \<not> list_all is_code_char s) then Inl (bad_row (path @ ''.last_error_code'')) else
            bind_r (ledger_timestamp env (path @ ''.detected_at'') (jget kvs ''detected_at'')) (\<lambda>detected.
            bind_r (ledger_timestamp env (path @ ''.created_at'') (jget kvs ''created_at'')) (\<lambda>created.
            bind_r (ledger_timestamp env (path @ ''.updated_at'') (jget kvs ''updated_at'')) (\<lambda>updated.
            bind_r (optional_timestamp env (path @ ''.not_before'') (jget kvs ''not_before'')) (\<lambda>before.
            bind_r (read_diagnostic (jget kvs ''diagnostic'')) (\<lambda>diag.
            Inr \<lparr>g_generation = expected, g_state = str_of (jget kvs ''state''),
              desired_policy = str_of (jget kvs ''desired_policy''), detected_at = detected,
              created_at = created, updated_at = updated, preallocated_run_id = l_pre l, run_id = l_run l,
              terminal_classification = opt_of (jget kvs ''terminal_classification''),
              retry_class = str_of (jget kvs ''retry_class''), retry_count = int_of (jget kvs ''retry_count''),
              not_before = before, last_error_code = code, diagnostic = diag, stage = str_of (jget kvs ''stage''),
              validation_attempt_id = l_validation l, publication_attempt_id = l_publication l,
              completion_notified = notified, run_retry_count = int_of (jget kvs ''run_retry_count''),
              validation_retry_count = int_of (jget kvs ''validation_retry_count''),
              publication_retry_count = int_of (jget kvs ''publication_retry_count'')\<rparr>))))))
      | _ \<Rightarrow> Inl (bad_row path))"

text \<open>\<^verbatim>\<open>_validate_generation(value, expected=...)\<close>; a number equal to \<^verbatim>\<open>expected\<close> is
  read as that integer.\<close>

definition row_path :: "int \<Rightarrow> string" where
  "row_path expected = ''$.generations['' @ str_int expected @ '']''"

definition validate_generation :: "py_env \<Rightarrow> int \<Rightarrow> json \<Rightarrow> gen result" where
  "validate_generation env expected v =
     (case v of
        JObj kvs \<Rightarrow>
          if \<not> same_keys kvs GENERATION_FIELDS then Inl (bad_row (row_path expected))
          else
            bind_r (enum_checks (row_path expected) expected kvs) (\<lambda>_.
            bind_r (read_links (row_path expected) kvs) (\<lambda>l.
            read_rest env (row_path expected) expected kvs l))
      | _ \<Rightarrow> Inl (bad_row (row_path expected)))"

section \<open>The ledger document\<close>

record entry =
  e_recipe_id :: string
  e_recipe_sha256 :: string
  e_identity :: identity
  e_generations :: "gen list"

type_synonym ledger = "(string \<times> entry) list"

definition ENTRY_FIELDS :: "string list" where
  "ENTRY_FIELDS = [''key'', ''recipe_id'', ''recipe_sha256'', ''upstream_identity'', ''generations'']"

definition entry_json :: "string \<Rightarrow> entry \<Rightarrow> json" where
  "entry_json key e = JObj [
     (''key'', JStr key), (''recipe_id'', JStr (e_recipe_id e)), (''recipe_sha256'', JStr (e_recipe_sha256 e)),
     (''upstream_identity'', identity_json (e_identity e)),
     (''generations'', JArr (map gen_json (e_generations e)))]"

definition ledger_json :: "ledger \<Rightarrow> json" where
  "ledger_json L = JObj [(''schema_version'', JInt 1),
     (''attempts'', JObj (map (\<lambda>ke. (fst ke, entry_json (fst ke) (snd ke))) L))]"

text \<open>The two bounds of an \<^verbatim>\<open>AutomationLedger\<close> object, clamped by its constructor.\<close>

record ledger_config =
  max_attempts :: nat
  max_attempts_per_recipe :: nat

definition ledger_config :: "int \<Rightarrow> int \<Rightarrow> ledger_config" where
  "ledger_config attempts per_recipe =
     \<lparr>max_attempts = min (nat (max 1 attempts)) MAX_ATTEMPTS,
      max_attempts_per_recipe = min (nat (max 1 per_recipe)) MAX_ATTEMPTS_PER_RECIPE\<rparr>"

text \<open>The generations of an entry with their positions, line 274.\<close>

fun validate_rows :: "py_env \<Rightarrow> nat \<Rightarrow> json list \<Rightarrow> gen list result" where
  "validate_rows env i [] = Inr []"
| "validate_rows env i (v # vs) =
     bind_r (validate_generation env (int i) v) (\<lambda>g. bind_r (validate_rows env (Suc i) vs) (\<lambda>gs. Inr (g # gs)))"

text \<open>One turn of the loop of \<^verbatim>\<open>_validate\<close>; \<^verbatim>\<open>seen\<close> is how often the Recipe occurred
  before.\<close>

definition validate_entry :: "py_env \<Rightarrow> ledger_config \<Rightarrow> (string \<Rightarrow> nat) \<Rightarrow> string \<Rightarrow> json \<Rightarrow> entry result" where
  "validate_entry env cfg seen key v =
     (let path = ''$.attempts.'' @ key in
      if \<not> is_attempt_key key then Inl (bad_row path)
      else case v of
        JObj kvs \<Rightarrow>
          if \<not> same_keys kvs ENTRY_FIELDS \<or> jget kvs ''key'' \<noteq> JStr key then Inl (bad_row path)
          else
            (case jget kvs ''recipe_id'' of
               JStr rid \<Rightarrow>
                 if \<not> valid_recipe_id rid then Inl (bad_row (path @ ''.recipe_id''))
                 else
                   (case jget kvs ''recipe_sha256'' of
                      JStr sha \<Rightarrow>
                        if \<not> is_sha256 sha then Inl (bad_row (path @ ''.recipe_sha256''))
                        else
                          bind_r (normalize_upstream_identity (jget kvs ''upstream_identity'')) (\<lambda>i.
                          bind_r (if \<not> py_eq (jget kvs ''upstream_identity'') (identity_json i) \<or> \<not> identity_complete i
                                  then Inr False
                                  else bind_r (automation_attempt_key env rid (identity_json i) sha) (\<lambda>k. Inr (k = key)))
                            (\<lambda>exact.
                          if \<not> exact then Inl (bad_row path)
                          else case jget kvs ''generations'' of
                            JArr rows \<Rightarrow>
                              if \<not> (1 \<le> length rows \<and> length rows \<le> MAX_GENERATIONS)
                              then Inl (led_err ''automation_ledger_bounds_exceeded'' (path @ ''.generations''))
                              else if seen rid + 1 > max_attempts_per_recipe cfg
                              then Inl (led_err ''automation_ledger_bounds_exceeded'' ''$.attempts'')
                              else bind_r (validate_rows env 0 rows) (\<lambda>gs.
                                Inr \<lparr>e_recipe_id = rid, e_recipe_sha256 = sha, e_identity = i, e_generations = gs\<rparr>)
                          | _ \<Rightarrow> Inl (led_err ''automation_ledger_bounds_exceeded'' (path @ ''.generations''))))
                    | _ \<Rightarrow> Inl (bad_row (path @ ''.recipe_sha256'')))
             | _ \<Rightarrow> Inl (bad_row (path @ ''.recipe_id'')))
      | _ \<Rightarrow> Inl (bad_row path))"

fun validate_attempts :: "py_env \<Rightarrow> ledger_config \<Rightarrow> (string \<Rightarrow> nat) \<Rightarrow> doc \<Rightarrow> ledger result" where
  "validate_attempts env cfg seen [] = Inr []"
| "validate_attempts env cfg seen ((key, v) # rest) =
     bind_r (validate_entry env cfg seen key v) (\<lambda>e.
     bind_r (validate_attempts env cfg (seen(e_recipe_id e := seen (e_recipe_id e) + 1)) rest) (\<lambda>L.
     Inr ((key, e) # L)))"

text \<open>\<^verbatim>\<open>_validate(document)\<close>\<close>

definition validate_ledger :: "py_env \<Rightarrow> ledger_config \<Rightarrow> json \<Rightarrow> ledger result" where
  "validate_ledger env cfg document =
     (case document of
        JObj kvs \<Rightarrow>
          if \<not> same_keys kvs [''schema_version'', ''attempts'']
          then Inl (led_err ''automation_ledger_malformed'' ''$'')
          else if \<not> py_eq (jget kvs ''schema_version'') (JInt 1) \<or> (\<exists>b \<in> {True, False}. jget kvs ''schema_version'' = JBool b)
          then Inl (led_err (case jget kvs ''schema_version'' of
               JInt n \<Rightarrow> if n > 1 then ''automation_ledger_future_version'' else ''automation_ledger_malformed''
             | _ \<Rightarrow> ''automation_ledger_malformed'') ''$.schema_version'')
          else
            (case jget kvs ''attempts'' of
               JObj attempts \<Rightarrow>
                 if length attempts > max_attempts cfg
                 then Inl (led_err ''automation_ledger_bounds_exceeded'' ''$.attempts'')
                 else
                   bind_r (validate_attempts env cfg (\<lambda>_. 0) attempts) (\<lambda>L.
                   if card (e_recipe_id ` snd ` set L) > MAX_RECIPES
                   then Inl (led_err ''automation_ledger_bounds_exceeded'' ''$.attempts'')
                   else Inr L)
             | _ \<Rightarrow> Inl (led_err ''automation_ledger_bounds_exceeded'' ''$.attempts''))
      | _ \<Rightarrow> Inl (led_err ''automation_ledger_malformed'' ''$''))"

section \<open>Canonical rows\<close>

text \<open>What an accepted row satisfies, one conjunct per guard of \<^verbatim>\<open>_validate_generation\<close>.\<close>

definition count_wf :: "int \<Rightarrow> bool" where
  "count_wf n = (0 \<le> n \<and> n \<le> 1000)"

definition time_wf :: "py_env \<Rightarrow> string \<Rightarrow> bool" where
  "time_wf env s = (s \<noteq> [] \<and> length s \<le> 64 \<and> (\<exists>t. fromisoformat env s = Some (True, t)))"

definition code_wf :: "string option \<Rightarrow> bool" where
  "code_wf t = (text_bounded 80 t \<and> (\<forall>s \<in> set_option t. list_all is_code_char s))"

definition enums_wf :: "gen \<Rightarrow> bool" where
  "enums_wf g =
     (g_state g \<in> set STATES \<and> desired_policy g \<in> set POLICIES \<and> desired_policy g \<noteq> ''manual'' \<and>
      (\<forall>t \<in> set_option (terminal_classification g). t \<in> set TERMINAL_CLASSIFICATIONS) \<and>
      retry_class g \<in> set RETRY_CLASSES \<and> count_wf (retry_count g) \<and> count_wf (run_retry_count g) \<and>
      count_wf (validation_retry_count g) \<and> count_wf (publication_retry_count g))"

definition links_wf :: "gen \<Rightarrow> bool" where
  "links_wf g =
     (text_bounded 128 (run_id g) \<and> text_bounded 128 (preallocated_run_id g) \<and>
      text_bounded 128 (validation_attempt_id g) \<and> text_bounded 128 (publication_attempt_id g) \<and>
      raise_first (link_checks [] (g_state g) (desired_policy g) (terminal_classification g) (retry_class g)
        (run_id g) (preallocated_run_id g) (not_before g \<noteq> None)) = Inr () \<and>
      stage g \<in> set STAGES \<and>
      raise_first (stage_checks [] (g_state g) (stage g) (run_id g) (preallocated_run_id g)
        (validation_attempt_id g) (publication_attempt_id g)) = Inr ())"

definition rest_wf :: "py_env \<Rightarrow> gen \<Rightarrow> bool" where
  "rest_wf env g =
     ((completion_notified g \<longrightarrow> g_state g \<in> {''terminal'', ''blocked''}) \<and>
      code_wf (last_error_code g) \<and> time_wf env (detected_at g) \<and> time_wf env (created_at g) \<and>
      time_wf env (updated_at g) \<and> (\<forall>t \<in> set_option (not_before g). time_wf env t) \<and> code_wf (diagnostic g))"

definition gen_wf :: "py_env \<Rightarrow> int \<Rightarrow> gen \<Rightarrow> bool" where
  "gen_wf env i g = (g_generation g = i \<and> enums_wf g \<and> links_wf g \<and> rest_wf env g)"

text \<open>The guards do not depend on the path they report.\<close>

lemma raise_first_cong: "map fst cs = map fst ds \<Longrightarrow> raise_first cs = Inr () \<longleftrightarrow> raise_first ds = Inr ()"
proof -
  assume "map fst cs = map fst ds"
  then have "fst ` set cs = fst ` set ds" by (metis list.set_map)
  then show ?thesis unfolding raise_first_ok by auto
qed

lemma link_checks_path:
  "raise_first (link_checks path st pol t r run pre d) = Inr () \<longleftrightarrow>
     raise_first (link_checks [] st pol t r run pre d) = Inr ()"
  by (rule raise_first_cong) (simp add: link_checks_def)

lemma stage_checks_path:
  "raise_first (stage_checks path st stg run pre v p) = Inr () \<longleftrightarrow>
     raise_first (stage_checks [] st stg run pre v p) = Inr ()"
  by (rule raise_first_cong) (simp add: stage_checks_def)

lemma optional_text_ok: "optional_text path m v = Inr t \<Longrightarrow> text_bounded m t \<and> v = opt_str t"
  by (auto simp: optional_text_def text_bounded_def split: json.splits if_splits)

lemma optional_text_opt_str: "text_bounded m t \<Longrightarrow> optional_text path m (opt_str t) = Inr t"
  by (cases t) (auto simp: optional_text_def text_bounded_def)

lemma ledger_timestamp_ok: "ledger_timestamp env path v = Inr s \<Longrightarrow> time_wf env s \<and> v = JStr s"
  by (auto simp: ledger_timestamp_def time_wf_def split: json.splits if_splits option.splits)

lemma ledger_timestamp_JStr: "time_wf env s \<Longrightarrow> ledger_timestamp env path (JStr s) = Inr s"
  by (auto simp: ledger_timestamp_def time_wf_def)

lemma optional_timestamp_ok:
  "optional_timestamp env path v = Inr t \<Longrightarrow> (\<forall>s \<in> set_option t. time_wf env s) \<and> v = opt_str t"
  by (auto simp: optional_timestamp_def split: if_splits elim!: bind_r_InrE dest: ledger_timestamp_ok)

lemma optional_timestamp_opt_str:
  "\<forall>s \<in> set_option t. time_wf env s \<Longrightarrow> optional_timestamp env path (opt_str t) = Inr t"
  by (cases t) (auto simp: optional_timestamp_def ledger_timestamp_JStr)

lemma read_diagnostic_ok: "read_diagnostic v = Inr t \<Longrightarrow> code_wf t \<and> v = opt_str t"
  by (auto simp: read_diagnostic_def code_wf_def elim!: result_elims dest: optional_text_ok)

lemma read_diagnostic_opt_str: "code_wf t \<Longrightarrow> read_diagnostic (opt_str t) = Inr t"
  by (auto simp: read_diagnostic_def code_wf_def optional_text_opt_str)

lemma or_chain_False: "or_chain rs = Inr False \<longleftrightarrow> (\<forall>r \<in> set rs. r = Inr False)"
  by (induction rs) (auto simp: result_simps)

lemma not_in_False: "not_in v xs = Inr False \<longleftrightarrow> (\<exists>s \<in> set xs. v = JStr s)"
  by (auto simp: not_in_def result_simps)

lemma count_ok_iff: "count_ok v \<longleftrightarrow> v = JInt (int_of v) \<and> count_wf (int_of v)"
  by (cases v) (auto simp: count_wf_def)

lemma opt_of_opt_str [simp]: "opt_of (opt_str t) = t"
  by (cases t) auto

lemma opt_str_JNull_iff [simp]: "opt_str t = JNull \<longleftrightarrow> t = None" "JNull = opt_str t \<longleftrightarrow> t = None"
  by (cases t; simp)+

lemma gen_items_get [simp]:
  "jget (gen_items g) ''generation'' = JInt (g_generation g)"
  "jget (gen_items g) ''state'' = JStr (g_state g)"
  "jget (gen_items g) ''desired_policy'' = JStr (desired_policy g)"
  "jget (gen_items g) ''detected_at'' = JStr (detected_at g)"
  "jget (gen_items g) ''created_at'' = JStr (created_at g)"
  "jget (gen_items g) ''updated_at'' = JStr (updated_at g)"
  "jget (gen_items g) ''preallocated_run_id'' = opt_str (preallocated_run_id g)"
  "jget (gen_items g) ''run_id'' = opt_str (run_id g)"
  "jget (gen_items g) ''terminal_classification'' = opt_str (terminal_classification g)"
  "jget (gen_items g) ''retry_class'' = JStr (retry_class g)"
  "jget (gen_items g) ''retry_count'' = JInt (retry_count g)"
  "jget (gen_items g) ''not_before'' = opt_str (not_before g)"
  "jget (gen_items g) ''last_error_code'' = opt_str (last_error_code g)"
  "jget (gen_items g) ''diagnostic'' = opt_str (diagnostic g)"
  "jget (gen_items g) ''stage'' = JStr (stage g)"
  "jget (gen_items g) ''validation_attempt_id'' = opt_str (validation_attempt_id g)"
  "jget (gen_items g) ''publication_attempt_id'' = opt_str (publication_attempt_id g)"
  "jget (gen_items g) ''completion_notified'' = JBool (completion_notified g)"
  "jget (gen_items g) ''run_retry_count'' = JInt (run_retry_count g)"
  "jget (gen_items g) ''validation_retry_count'' = JInt (validation_retry_count g)"
  "jget (gen_items g) ''publication_retry_count'' = JInt (publication_retry_count g)"
  by (simp_all add: gen_items_def)

lemma enum_checks_fixed:
  assumes "enums_wf g"
  shows "enum_checks path (g_generation g) (gen_items g) = Inr ()"
proof -
  have "or_chain (enum_faults (gen_items g)) = Inr False"
    unfolding or_chain_False enum_faults_def using assms
    by (cases "terminal_classification g") (simp_all add: enums_wf_def not_in_False)
  with assms show ?thesis
    by (simp add: enum_checks_def enums_wf_def count_wf_def)
qed

lemma enum_checks_ok:
  assumes "enum_checks path i kvs = Inr ()"
  shows "(\<exists>s \<in> set STATES. jget kvs ''state'' = JStr s) \<and>
    (\<exists>s \<in> set POLICIES. jget kvs ''desired_policy'' = JStr s) \<and> jget kvs ''desired_policy'' \<noteq> JStr ''manual'' \<and>
    (jget kvs ''terminal_classification'' = JNull \<or>
     (\<exists>s \<in> set TERMINAL_CLASSIFICATIONS. jget kvs ''terminal_classification'' = JStr s)) \<and>
    (\<exists>s \<in> set RETRY_CLASSES. jget kvs ''retry_class'' = JStr s) \<and>
    count_ok (jget kvs ''retry_count'') \<and> count_ok (jget kvs ''run_retry_count'') \<and>
    count_ok (jget kvs ''validation_retry_count'') \<and> count_ok (jget kvs ''publication_retry_count'')"
proof -
  from assms [unfolded enum_checks_def] obtain bad where chain: "or_chain (enum_faults kvs) = Inr bad" "\<not> bad"
    and counts: "raise_first [
       (\<not> count_ok (jget kvs ''retry_count''), bad_row (path @ ''.retry_count'')),
       (\<not> count_ok (jget kvs ''run_retry_count''), bad_row (path @ ''.run_retry_count'')),
       (\<not> count_ok (jget kvs ''validation_retry_count''), bad_row (path @ ''.validation_retry_count'')),
       (\<not> count_ok (jget kvs ''publication_retry_count''), bad_row (path @ ''.publication_retry_count''))] = Inr ()"
    by (elim result_elims)
  from counts have c: "count_ok (jget kvs ''retry_count'')" "count_ok (jget kvs ''run_retry_count'')"
    "count_ok (jget kvs ''validation_retry_count'')" "count_ok (jget kvs ''publication_retry_count'')"
    unfolding raise_first_ok by simp_all
  from chain have "\<forall>r \<in> set (enum_faults kvs). r = Inr False"
    unfolding or_chain_False [symmetric] by simp
  then show ?thesis
    unfolding enum_faults_def using c by (simp add: not_in_False split: if_splits)
qed

lemma read_links_fixed:
  assumes "links_wf g"
  shows "read_links path (gen_items g) =
     Inr \<lparr>l_run = run_id g, l_pre = preallocated_run_id g, l_validation = validation_attempt_id g,
       l_publication = publication_attempt_id g\<rparr>"
proof -
  have "not_in (JStr (stage g)) STAGES = Inr False"
    using assms by (simp add: links_wf_def not_in_False)
  moreover have "raise_first (link_checks path (g_state g) (desired_policy g) (terminal_classification g) (retry_class g)
        (run_id g) (preallocated_run_id g) (not_before g \<noteq> None)) = Inr ()"
    "raise_first (stage_checks path (g_state g) (stage g) (run_id g) (preallocated_run_id g)
        (validation_attempt_id g) (publication_attempt_id g)) = Inr ()"
    using assms by (simp_all only: links_wf_def link_checks_path [of path] stage_checks_path [of path])
  ultimately show ?thesis
    using assms unfolding read_links_def Let_def
    by (simp add: links_wf_def optional_text_opt_str)
qed

lemma read_rest_fixed:
  assumes "rest_wf env g" "g_generation g = i"
  shows "read_rest env path i (gen_items g)
     \<lparr>l_run = run_id g, l_pre = preallocated_run_id g, l_validation = validation_attempt_id g,
       l_publication = publication_attempt_id g\<rparr> = Inr g"
proof -
  have "text_bounded 80 (last_error_code g)" "\<forall>s \<in> set_option (last_error_code g). list_all is_code_char s"
    using assms by (simp_all add: rest_wf_def code_wf_def)
  moreover have "\<not> (completion_notified g \<and> g_state g \<notin> {''terminal'', ''blocked''})"
    using assms by (auto simp: rest_wf_def)
  ultimately show ?thesis
    using assms unfolding read_rest_def
    by (simp add: rest_wf_def optional_text_opt_str ledger_timestamp_JStr optional_timestamp_opt_str read_diagnostic_opt_str)
qed

lemma read_links_ok:
  assumes "read_links path kvs = Inr l"
  shows "jget kvs ''run_id'' = opt_str (l_run l) \<and> jget kvs ''preallocated_run_id'' = opt_str (l_pre l) \<and>
    jget kvs ''validation_attempt_id'' = opt_str (l_validation l) \<and>
    jget kvs ''publication_attempt_id'' = opt_str (l_publication l) \<and>
    text_bounded 128 (l_run l) \<and> text_bounded 128 (l_pre l) \<and>
    text_bounded 128 (l_validation l) \<and> text_bounded 128 (l_publication l) \<and>
    raise_first (link_checks [] (str_of (jget kvs ''state'')) (str_of (jget kvs ''desired_policy''))
        (opt_of (jget kvs ''terminal_classification'')) (str_of (jget kvs ''retry_class'')) (l_run l) (l_pre l)
        (jget kvs ''not_before'' \<noteq> JNull)) = Inr () \<and>
    (\<exists>s \<in> set STAGES. jget kvs ''stage'' = JStr s) \<and>
    raise_first (stage_checks [] (str_of (jget kvs ''state'')) (str_of (jget kvs ''stage'')) (l_run l) (l_pre l)
        (l_validation l) (l_publication l)) = Inr ()"
proof -
  from assms [unfolded read_links_def Let_def] obtain run pre val pub bad where
    texts: "optional_text (path @ ''.run_id'') 128 (jget kvs ''run_id'') = Inr run"
      "optional_text (path @ ''.preallocated_run_id'') 128 (jget kvs ''preallocated_run_id'') = Inr pre"
      "optional_text (path @ ''.validation_attempt_id'') 128 (jget kvs ''validation_attempt_id'') = Inr val"
      "optional_text (path @ ''.publication_attempt_id'') 128 (jget kvs ''publication_attempt_id'') = Inr pub"
    and checks: "raise_first (link_checks path (str_of (jget kvs ''state'')) (str_of (jget kvs ''desired_policy''))
        (opt_of (jget kvs ''terminal_classification'')) (str_of (jget kvs ''retry_class'')) run pre
        (jget kvs ''not_before'' \<noteq> JNull)) = Inr ()"
      "not_in (jget kvs ''stage'') STAGES = Inr bad" "\<not> bad"
      "raise_first (stage_checks path (str_of (jget kvs ''state'')) (str_of (jget kvs ''stage'')) run pre val pub) = Inr ()"
    and l: "Inr \<lparr>l_run = run, l_pre = pre, l_validation = val, l_publication = pub\<rparr> = (Inr l :: links result)"
    by (elim result_elims) simp
  have stg: "\<exists>s \<in> set STAGES. jget kvs ''stage'' = JStr s"
    using checks(2,3) by (simp add: not_in_False)
  have l': "l_run l = run" "l_pre l = pre" "l_validation l = val" "l_publication l = pub"
    using l by auto
  show ?thesis
    unfolding l'
    using checks(1) [unfolded link_checks_path [of path]] checks(4) [unfolded stage_checks_path [of path]]
      texts [THEN optional_text_ok] stg by blast
qed

lemma read_rest_ok:
  assumes "read_rest env path i kvs l = Inr g"
  shows "g_generation g = i \<and> g_state g = str_of (jget kvs ''state'') \<and> desired_policy g = str_of (jget kvs ''desired_policy'') \<and>
    preallocated_run_id g = l_pre l \<and> run_id g = l_run l \<and>
    terminal_classification g = opt_of (jget kvs ''terminal_classification'') \<and>
    retry_class g = str_of (jget kvs ''retry_class'') \<and> retry_count g = int_of (jget kvs ''retry_count'') \<and>
    opt_str (not_before g) = jget kvs ''not_before'' \<and> stage g = str_of (jget kvs ''stage'') \<and>
    validation_attempt_id g = l_validation l \<and> publication_attempt_id g = l_publication l \<and>
    run_retry_count g = int_of (jget kvs ''run_retry_count'') \<and>
    validation_retry_count g = int_of (jget kvs ''validation_retry_count'') \<and>
    publication_retry_count g = int_of (jget kvs ''publication_retry_count'') \<and> rest_wf env g \<and>
    jget kvs ''detected_at'' = JStr (detected_at g) \<and> jget kvs ''created_at'' = JStr (created_at g) \<and>
    jget kvs ''updated_at'' = JStr (updated_at g) \<and> jget kvs ''last_error_code'' = opt_str (last_error_code g) \<and>
    jget kvs ''diagnostic'' = opt_str (diagnostic g) \<and> jget kvs ''completion_notified'' = JBool (completion_notified g)"
proof -
  obtain n where n: "jget kvs ''completion_notified'' = JBool n"
    using assms by (simp add: read_rest_def split: json.splits)
  note rest = assms [unfolded read_rest_def n json.case]
  from rest obtain code detected created updated before diag where
    notified: "\<not> (n \<and> str_of (jget kvs ''state'') \<notin> {''terminal'', ''blocked''})"
    and code: "optional_text (path @ ''.last_error_code'') 80 (jget kvs ''last_error_code'') = Inr code"
      "\<not> (\<exists>s \<in> set_option code. \<not> list_all is_code_char s)"
    and times: "ledger_timestamp env (path @ ''.detected_at'') (jget kvs ''detected_at'') = Inr detected"
      "ledger_timestamp env (path @ ''.created_at'') (jget kvs ''created_at'') = Inr created"
      "ledger_timestamp env (path @ ''.updated_at'') (jget kvs ''updated_at'') = Inr updated"
      "optional_timestamp env (path @ ''.not_before'') (jget kvs ''not_before'') = Inr before"
    and diag: "read_diagnostic (jget kvs ''diagnostic'') = Inr diag"
    and eq: "Inr \<lparr>g_generation = i, g_state = str_of (jget kvs ''state''),
              desired_policy = str_of (jget kvs ''desired_policy''), detected_at = detected,
              created_at = created, updated_at = updated, preallocated_run_id = l_pre l, run_id = l_run l,
              terminal_classification = opt_of (jget kvs ''terminal_classification''),
              retry_class = str_of (jget kvs ''retry_class''), retry_count = int_of (jget kvs ''retry_count''),
              not_before = before, last_error_code = code, diagnostic = diag, stage = str_of (jget kvs ''stage''),
              validation_attempt_id = l_validation l, publication_attempt_id = l_publication l,
              completion_notified = n, run_retry_count = int_of (jget kvs ''run_retry_count''),
              validation_retry_count = int_of (jget kvs ''validation_retry_count''),
              publication_retry_count = int_of (jget kvs ''publication_retry_count'')\<rparr> = (Inr g :: gen result)"
    by (elim result_elims)
  note g = Inr_inject [OF eq, symmetric]
  have "rest_wf env g"
    unfolding rest_wf_def g
    using notified code times(1-3) [THEN ledger_timestamp_ok] optional_timestamp_ok [OF times(4)] read_diagnostic_ok [OF diag]
    by (simp add: code_wf_def optional_text_ok [OF code(1)])
  moreover have "opt_str before = jget kvs ''not_before''"
    using optional_timestamp_ok [OF times(4)] by simp
  ultimately show ?thesis
    using times(1-3) [THEN ledger_timestamp_ok] optional_text_ok [OF code(1)] read_diagnostic_ok [OF diag] n
    by (simp add: g)
qed

lemma validate_generation_wf:
  assumes "validate_generation env i v = Inr g"
  shows "gen_wf env i g"
proof -
  obtain kvs where v: "v = JObj kvs"
    using assms by (simp add: validate_generation_def split: json.splits)
  obtain l where enum: "enum_checks (row_path i) i kvs = Inr ()"
    and links: "read_links (row_path i) kvs = Inr l"
    and rest: "read_rest env (row_path i) i kvs l = Inr g"
    using assms [unfolded validate_generation_def v json.case] by (elim result_elims) simp
  note r = read_rest_ok [OF rest] and l = read_links_ok [OF links] and e = enum_checks_ok [OF enum]
  have "enums_wf g"
    unfolding enums_wf_def using e r by (auto simp: count_ok_iff)
  moreover have "links_wf g"
  proof -
    have "(not_before g \<noteq> None) = (jget kvs ''not_before'' \<noteq> JNull)"
      using r by (metis opt_str_JNull_iff(1))
    with l r show ?thesis unfolding links_wf_def by auto
  qed
  ultimately show ?thesis using r by (simp add: gen_wf_def)
qed

lemma same_keys_gen_items: "same_keys (gen_items g) GENERATION_FIELDS"
  by (simp add: same_keys_def gen_items_def GENERATION_FIELDS_def)

lemma validate_generation_fixed: "gen_wf env i g \<Longrightarrow> validate_generation env i (gen_json g) = Inr g"
  using enum_checks_fixed [of g "row_path i"]
  by (simp add: gen_wf_def validate_generation_def gen_json_def same_keys_gen_items read_links_fixed read_rest_fixed)

interpretation row_doc: canonical_document "validate_generation env i" gen_json "gen_wf env i" for env i
  by unfold_locales (rule validate_generation_fixed validate_generation_wf, assumption)+

section \<open>Canonical ledgers\<close>

definition entry_wf :: "py_env \<Rightarrow> string \<Rightarrow> entry \<Rightarrow> bool" where
  "entry_wf env key e =
     (is_attempt_key key \<and> valid_recipe_id (e_recipe_id e) \<and> is_sha256 (e_recipe_sha256 e) \<and>
      identity_wf (e_identity e) \<and> identity_complete (e_identity e) \<and>
      automation_attempt_key env (e_recipe_id e) (identity_json (e_identity e)) (e_recipe_sha256 e) = Inr key \<and>
      1 \<le> length (e_generations e) \<and> length (e_generations e) \<le> MAX_GENERATIONS \<and>
      (\<forall>i < length (e_generations e). gen_wf env (int i) (e_generations e ! i)))"

definition recipe_count :: "ledger \<Rightarrow> string \<Rightarrow> nat" where
  "recipe_count L rid = length (filter (\<lambda>ke. e_recipe_id (snd ke) = rid) L)"

definition ledger_wf :: "py_env \<Rightarrow> ledger_config \<Rightarrow> ledger \<Rightarrow> bool" where
  "ledger_wf env cfg L =
     (length L \<le> max_attempts cfg \<and> (\<forall>ke \<in> set L. entry_wf env (fst ke) (snd ke)) \<and>
      (\<forall>ke \<in> set L. recipe_count L (e_recipe_id (snd ke)) \<le> max_attempts_per_recipe cfg) \<and>
      card (e_recipe_id ` snd ` set L) \<le> MAX_RECIPES)"

lemma validate_rows_wf:
  "validate_rows env i vs = Inr gs \<Longrightarrow>
     length gs = length vs \<and> (\<forall>j < length gs. gen_wf env (int (i + j)) (gs ! j))"
proof (induction vs arbitrary: i gs)
  case (Cons v vs)
  then obtain g gs' where g: "validate_generation env (int i) v = Inr g"
    and rest: "validate_rows env (Suc i) vs = Inr gs'" and gs: "gs = g # gs'"
    by (auto elim!: bind_r_InrE)
  have "gen_wf env (int (i + j)) (gs ! j)" if "j < length gs" for j
    using Cons.IH [OF rest] row_doc.validate_wf [OF g] that by (cases j) (simp_all add: gs)
  with Cons.IH [OF rest] show ?case by (simp add: gs)
qed simp

lemma validate_rows_fixed:
  "\<forall>j < length gs. gen_wf env (int (i + j)) (gs ! j) \<Longrightarrow> validate_rows env i (map gen_json gs) = Inr gs"
proof (induction gs arbitrary: i)
  case (Cons g gs)
  have "gen_wf env (int i) g" using Cons.prems [rule_format, of 0] by simp
  moreover have "\<forall>j < length gs. gen_wf env (int (Suc i + j)) (gs ! j)"
    using Cons.prems by (auto simp: All_less_Suc2 ac_simps)
  ultimately show ?case using Cons.IH [of "Suc i"] by (simp add: row_doc.validate_render)
qed simp

lemma validate_entry_wf:
  assumes "validate_entry env cfg seen key v = Inr e"
  shows "entry_wf env key e \<and> seen (e_recipe_id e) + 1 \<le> max_attempts_per_recipe cfg"
proof -
  have key: "is_attempt_key key"
    using assms by (simp add: validate_entry_def Let_def split: if_splits)
  obtain kvs where v: "v = JObj kvs"
    using assms by (simp add: validate_entry_def Let_def split: json.splits if_splits)
  note in_obj = assms [unfolded validate_entry_def Let_def v json.case]
  then obtain rid where rid: "jget kvs ''recipe_id'' = JStr rid"
    by (elim result_elims) (simp split: json.splits)
  note in_rid = in_obj [unfolded rid json.case]
  then obtain sha where sha: "jget kvs ''recipe_sha256'' = JStr sha"
    by (elim result_elims) (simp split: json.splits)
  note in_sha = in_rid [unfolded sha json.case]
  then obtain i exact where parts: "\<not> \<not> valid_recipe_id rid" "\<not> \<not> is_sha256 sha"
    and i: "normalize_upstream_identity (jget kvs ''upstream_identity'') = Inr i"
    and exact: "(if \<not> py_eq (jget kvs ''upstream_identity'') (identity_json i) \<or> \<not> identity_complete i
        then Inr False else bind_r (automation_attempt_key env rid (identity_json i) sha) (\<lambda>k. Inr (k = key))) = Inr exact"
      "\<not> \<not> exact"
    and rows: "(case jget kvs ''generations'' of
        JArr rows \<Rightarrow>
          if \<not> (1 \<le> length rows \<and> length rows \<le> MAX_GENERATIONS)
          then Inl (led_err ''automation_ledger_bounds_exceeded'' ((''$.attempts.'' @ key) @ ''.generations''))
          else if seen rid + 1 > max_attempts_per_recipe cfg
          then Inl (led_err ''automation_ledger_bounds_exceeded'' ''$.attempts'')
          else bind_r (validate_rows env 0 rows) (\<lambda>gs.
            Inr \<lparr>e_recipe_id = rid, e_recipe_sha256 = sha, e_identity = i, e_generations = gs\<rparr>)
      | _ \<Rightarrow> Inl (led_err ''automation_ledger_bounds_exceeded'' ((''$.attempts.'' @ key) @ ''.generations''))) = Inr e"
    by (elim result_elims)
  obtain vs where vs: "jget kvs ''generations'' = JArr vs"
    using rows by (simp split: json.splits)
  from rows [unfolded vs json.case] obtain gs where bounds: "\<not> \<not> (1 \<le> length vs \<and> length vs \<le> MAX_GENERATIONS)"
      "\<not> seen rid + 1 > max_attempts_per_recipe cfg"
    and gs: "validate_rows env 0 vs = Inr gs"
    and e: "Inr \<lparr>e_recipe_id = rid, e_recipe_sha256 = sha, e_identity = i, e_generations = gs\<rparr> = (Inr e :: entry result)"
    by (elim result_elims)
  have "identity_complete i" "automation_attempt_key env rid (identity_json i) sha = Inr key"
    using exact by (auto split: if_splits elim!: bind_r_InrE)
  with key parts bounds identity_doc.validate_wf [OF i] validate_rows_wf [OF gs] Inr_inject [OF e, symmetric]
  show ?thesis by (simp add: entry_wf_def)
qed

lemma validate_entry_fixed:
  assumes "entry_wf env key e" "seen (e_recipe_id e) + 1 \<le> max_attempts_per_recipe cfg"
  shows "validate_entry env cfg seen key (entry_json key e) = Inr e"
proof -
  let ?kvs = "[(''key'', JStr key), (''recipe_id'', JStr (e_recipe_id e)), (''recipe_sha256'', JStr (e_recipe_sha256 e)),
     (''upstream_identity'', identity_json (e_identity e)), (''generations'', JArr (map gen_json (e_generations e)))]"
  have same: "same_keys ?kvs ENTRY_FIELDS"
    by (simp add: same_keys_def ENTRY_FIELDS_def)
  have rows: "validate_rows env 0 (map gen_json (e_generations e)) = Inr (e_generations e)"
    using assms(1) by (intro validate_rows_fixed) (simp add: entry_wf_def)
  have self: "py_eq (identity_json (e_identity e)) (identity_json (e_identity e))"
    by (intro py_eq_refl json_wf_identity)
  from assms show ?thesis
    by (simp add: validate_entry_def entry_json_def Let_def same entry_wf_def self rows
        identity_doc.validate_render not_less_eq_eq [symmetric])
qed

lemma recipe_count_Cons:
  "recipe_count ((k, e) # L) rid = (if e_recipe_id e = rid then 1 else 0) + recipe_count L rid"
  by (simp add: recipe_count_def)

lemma validate_attempts_wf:
  "validate_attempts env cfg seen kvs = Inr L \<Longrightarrow>
     length L = length kvs \<and> map fst L = jkeys kvs \<and> (\<forall>ke \<in> set L. entry_wf env (fst ke) (snd ke)) \<and>
     (\<forall>ke \<in> set L. seen (e_recipe_id (snd ke)) + recipe_count L (e_recipe_id (snd ke)) \<le> max_attempts_per_recipe cfg)"
proof (induction env cfg seen kvs arbitrary: L rule: validate_attempts.induct)
  case (2 env cfg seen key v rest)
  from "2.prems" obtain e L' where e: "validate_entry env cfg seen key v = Inr e"
    and L': "validate_attempts env cfg (seen(e_recipe_id e := seen (e_recipe_id e) + 1)) rest = Inr L'"
    and L: "L = (key, e) # L'"
    by (auto elim!: bind_r_InrE)
  note ih = "2.IH" [OF L'] and head = validate_entry_wf [OF e]
  have none: "recipe_count L' (e_recipe_id e) = 0 \<or> (\<exists>ke \<in> set L'. e_recipe_id (snd ke) = e_recipe_id e)"
    by (auto simp: recipe_count_def filter_empty_conv)
  have "seen (e_recipe_id (snd ke)) + recipe_count L (e_recipe_id (snd ke)) \<le> max_attempts_per_recipe cfg"
    if "ke \<in> set L" for ke
  proof (cases "e_recipe_id (snd ke) = e_recipe_id e")
    case True
    from none show ?thesis
    proof
      assume "recipe_count L' (e_recipe_id e) = 0"
      with head True show ?thesis by (simp add: L recipe_count_Cons)
    next
      assume "\<exists>ke \<in> set L'. e_recipe_id (snd ke) = e_recipe_id e"
      with ih have "seen (e_recipe_id e) + 1 + recipe_count L' (e_recipe_id e) \<le> max_attempts_per_recipe cfg" by fastforce
      with True show ?thesis by (simp add: L recipe_count_Cons)
    qed
  next
    case False
    with that have "ke \<in> set L'" by (auto simp: L)
    with ih False show ?thesis by (fastforce simp: L recipe_count_Cons)
  qed
  with ih head show ?case by (simp add: L)
qed simp

lemma validate_attempts_fixed:
  assumes "\<forall>ke \<in> set L. entry_wf env (fst ke) (snd ke)"
    and "\<forall>ke \<in> set L. seen (e_recipe_id (snd ke)) + recipe_count L (e_recipe_id (snd ke)) \<le> max_attempts_per_recipe cfg"
  shows "validate_attempts env cfg seen (map (\<lambda>ke. (fst ke, entry_json (fst ke) (snd ke))) L) = Inr L"
  using assms
proof (induction L arbitrary: seen)
  case (Cons ke L)
  obtain key e where ke: "ke = (key, e)" by (cases ke)
  have "seen (e_recipe_id e) + 1 \<le> max_attempts_per_recipe cfg"
    using Cons.prems(2) by (simp add: ke recipe_count_Cons)
  then have "validate_entry env cfg seen key (entry_json key e) = Inr e"
    using Cons.prems(1) by (intro validate_entry_fixed) (simp_all add: ke)
  moreover have "\<forall>x \<in> set L. (seen(e_recipe_id e := seen (e_recipe_id e) + 1)) (e_recipe_id (snd x)) +
      recipe_count L (e_recipe_id (snd x)) \<le> max_attempts_per_recipe cfg"
    using Cons.prems(2) by (fastforce simp: ke recipe_count_Cons split: if_splits)
  ultimately show ?case
    using Cons.IH Cons.prems(1) by (simp add: ke)
qed simp

lemma validate_ledger_wf:
  assumes "validate_ledger env cfg j = Inr L"
  shows "ledger_wf env cfg L"
proof -
  obtain kvs where j: "j = JObj kvs"
    using assms by (simp add: validate_ledger_def split: json.splits)
  note in_obj = assms [unfolded validate_ledger_def j json.case]
  then obtain attempts where att: "jget kvs ''attempts'' = JObj attempts"
    by (elim result_elims) (simp split: json.splits)
  from in_obj [unfolded att json.case] obtain L' where "\<not> length attempts > max_attempts cfg"
    and L': "validate_attempts env cfg (\<lambda>_. 0) attempts = Inr L'"
    and "\<not> card (e_recipe_id ` snd ` set L') > MAX_RECIPES" "Inr L' = (Inr L :: ledger result)"
    by (elim result_elims)
  with validate_attempts_wf [OF L'] show ?thesis by (simp add: ledger_wf_def)
qed

lemma validate_ledger_fixed: "ledger_wf env cfg L \<Longrightarrow> validate_ledger env cfg (ledger_json L) = Inr L"
  using validate_attempts_fixed [of L env "\<lambda>_. 0" cfg]
  by (simp add: validate_ledger_def ledger_json_def ledger_wf_def same_keys_def)

interpretation ledger_doc: canonical_document "validate_ledger env cfg" ledger_json "ledger_wf env cfg" for env cfg
  by unfold_locales (rule validate_ledger_fixed validate_ledger_wf, assumption)+

text \<open>Validating a rendered ledger gives that ledger back or fails.\<close>

lemma validate_generation_self:
  assumes "validate_generation env i (gen_json g) = Inr g'"
  shows "g' = g"
proof -
  obtain l where enum: "enum_checks (row_path i) i (gen_items g) = Inr ()"
    and links: "read_links (row_path i) (gen_items g) = Inr l"
    and rest: "read_rest env (row_path i) i (gen_items g) l = Inr g'"
    using assms [unfolded validate_generation_def gen_json_def json.case] by (elim result_elims) simp
  have "g_generation g = i"
    using enum by (simp add: enum_checks_def split: if_splits)
  with read_rest_ok [OF rest] read_links_ok [OF links] show ?thesis
    by (intro gen.equality) simp_all
qed

lemma validate_rows_self: "validate_rows env i (map gen_json gs) = Inr gs' \<Longrightarrow> gs' = gs"
  by (induction gs arbitrary: i gs') (auto elim!: bind_r_InrE dest: validate_generation_self)

lemma validate_entry_self:
  assumes "validate_entry env cfg seen key (entry_json key e) = Inr e'" "identity_wf (e_identity e)"
  shows "e' = e"
proof -
  from assms [unfolded validate_entry_def entry_json_def Let_def json.case] obtain gs where
    "validate_rows env 0 (map gen_json (e_generations e)) = Inr gs"
    "e' = \<lparr>e_recipe_id = e_recipe_id e, e_recipe_sha256 = e_recipe_sha256 e, e_identity = e_identity e, e_generations = gs\<rparr>"
    by (simp add: identity_doc.validate_render split: if_splits) (elim bind_r_InrE, simp split: if_splits, elim bind_r_InrE, simp)
  then show ?thesis by (auto dest: validate_rows_self)
qed

lemma validate_attempts_self:
  "validate_attempts env cfg seen (map (\<lambda>ke. (fst ke, entry_json (fst ke) (snd ke))) L) = Inr L' \<Longrightarrow>
     \<forall>ke \<in> set L. identity_wf (e_identity (snd ke)) \<Longrightarrow> L' = L"
  by (induction L arbitrary: seen L') (auto elim!: bind_r_InrE dest: validate_entry_self)

lemma validate_ledger_self:
  assumes "validate_ledger env cfg (ledger_json L) = Inr L'" "\<forall>ke \<in> set L. identity_wf (e_identity (snd ke))"
  shows "L' = L"
proof -
  from assms(1) obtain L'' where
    "validate_attempts env cfg (\<lambda>_. 0) (map (\<lambda>ke. (fst ke, entry_json (fst ke) (snd ke))) L) = Inr L''" "L'' = L'"
    by (auto simp: validate_ledger_def ledger_json_def elim!: bind_r_InrE split: if_splits)
  with validate_attempts_self assms(2) show ?thesis by blast
qed

section \<open>What the links of a row guarantee\<close>

lemma gen_wf_links:
  assumes "gen_wf env i g"
  shows "run_id g \<noteq> None \<Longrightarrow> run_id g = preallocated_run_id g"
    and "desired_policy g = ''detect'' \<Longrightarrow> preallocated_run_id g = None \<and> run_id g = None"
    and "g_state g = ''admitted'' \<Longrightarrow> run_id g \<noteq> None"
    and "g_state g = ''run_preallocated'' \<Longrightarrow> preallocated_run_id g \<noteq> None"
    and "stage g = ''terminal'' \<longleftrightarrow> g_state g \<in> {''terminal'', ''blocked''}"
    and "completion_notified g \<Longrightarrow> g_state g \<in> {''terminal'', ''blocked''}"
    and "publication_attempt_id g \<noteq> None \<Longrightarrow> validation_attempt_id g \<noteq> None"
    and "terminal_classification g = None \<longleftrightarrow> g_state g \<notin> {''terminal'', ''retry_delayed'', ''blocked''}"
    and "not_before g \<noteq> None \<longleftrightarrow> g_state g = ''retry_delayed''"
proof -
  have l: "\<forall>c \<in> set (link_checks [] (g_state g) (desired_policy g) (terminal_classification g) (retry_class g)
        (run_id g) (preallocated_run_id g) (not_before g \<noteq> None)). \<not> fst c"
    and s: "\<forall>c \<in> set (stage_checks [] (g_state g) (stage g) (run_id g) (preallocated_run_id g)
        (validation_attempt_id g) (publication_attempt_id g)). \<not> fst c"
    using assms unfolding gen_wf_def links_wf_def raise_first_ok by auto
  show "run_id g \<noteq> None \<Longrightarrow> run_id g = preallocated_run_id g"
    using l unfolding link_checks_def by simp
  show "desired_policy g = ''detect'' \<Longrightarrow> preallocated_run_id g = None \<and> run_id g = None"
    using l unfolding link_checks_def by simp
  show "g_state g = ''admitted'' \<Longrightarrow> run_id g \<noteq> None"
    using l unfolding link_checks_def by simp
  show "g_state g = ''run_preallocated'' \<Longrightarrow> preallocated_run_id g \<noteq> None"
    using l unfolding link_checks_def by simp
  show "stage g = ''terminal'' \<longleftrightarrow> g_state g \<in> {''terminal'', ''blocked''}"
    using s unfolding stage_checks_def by (cases "stage g = ''terminal''") simp_all
  show "completion_notified g \<Longrightarrow> g_state g \<in> {''terminal'', ''blocked''}"
    using assms by (simp add: gen_wf_def rest_wf_def)
  show "publication_attempt_id g \<noteq> None \<Longrightarrow> validation_attempt_id g \<noteq> None"
    using s unfolding stage_checks_def by (cases "validation_attempt_id g") simp_all
  show "terminal_classification g = None \<longleftrightarrow> g_state g \<notin> {''terminal'', ''retry_delayed'', ''blocked''}"
    using l unfolding link_checks_def by (cases "terminal_classification g") simp_all
  show "not_before g \<noteq> None \<longleftrightarrow> g_state g = ''retry_delayed''"
    using l unfolding link_checks_def by (cases "g_state g = ''retry_delayed''") simp_all
qed

section \<open>A concrete ledger\<close>

definition clock_env :: py_env where
  "clock_env = \<lparr>fromisoformat = (\<lambda>_. Some (True, 0)), sha256_hex = (\<lambda>_. replicate 64 (CHR ''a'')), py_repr = dumps\<rparr>"

definition sample_key :: string where
  "sample_key = ''automation-v1-'' @ replicate 64 (CHR ''a'')"

definition sample_entry :: "gen list \<Rightarrow> entry" where
  "sample_entry gs = \<lparr>e_recipe_id = ''app'', e_recipe_sha256 = replicate 64 (CHR ''a''), e_identity = sample_identity,
     e_generations = gs\<rparr>"

definition sample_row :: gen where
  "sample_row = \<lparr>g_generation = 0, g_state = ''claimed'', desired_policy = ''full'', detected_at = ''t'',
     created_at = ''t'', updated_at = ''t'', preallocated_run_id = None, run_id = None,
     terminal_classification = None, retry_class = ''none'', retry_count = 0, not_before = None,
     last_error_code = None, diagnostic = None, stage = ''detection'', validation_attempt_id = None,
     publication_attempt_id = None, completion_notified = False, run_retry_count = 0,
     validation_retry_count = 0, publication_retry_count = 0\<rparr>"

lemmas row_wf_defs = gen_wf_def enums_wf_def links_wf_def rest_wf_def STATES_def POLICIES_def RETRY_CLASSES_def
  TERMINAL_CLASSIFICATIONS_def STAGES_def count_wf_def text_bounded_def link_checks_def stage_checks_def code_wf_def
  time_wf_def clock_env_def

lemma sample_row_wf: "gen_wf clock_env 0 sample_row"
  by (simp add: sample_row_def row_wf_defs)

lemma sample_attempt_key:
  "automation_attempt_key clock_env ''app'' (identity_json sample_identity) (replicate 64 (CHR ''a'')) = Inr sample_key"
  by (simp add: automation_attempt_key_def identity_doc.validate_idempotent [OF sample_normalized] sample_complete
      identity_complete_def valid_recipe_id_def matches_def is_hex_any_def list_all_iff char_defs clock_env_def sample_key_def)

lemma sample_key_ok: "is_attempt_key sample_key"
  by (simp add: is_attempt_key_def starts_with_def matches_def list_all_iff char_defs sample_key_def)

lemma sample_entry_wf:
  assumes "gs \<noteq> []" "length gs \<le> 8" "\<forall>i < length gs. gen_wf clock_env (int i) (gs ! i)"
  shows "entry_wf clock_env sample_key (sample_entry gs)"
proof -
  have "1 \<le> length gs" using assms(1) by (cases gs) auto
  then show ?thesis
    using assms identity_doc.validate_wf [OF sample_normalized] sample_attempt_key sample_key_ok
    by (simp add: entry_wf_def sample_entry_def matches_def list_all_iff char_defs
        valid_recipe_id_def is_sha256_def identity_complete_def sample_complete MAX_GENERATIONS_def)
qed

lemma sample_ledger_wf:
  assumes "gs \<noteq> []" "length gs \<le> 8" "\<forall>i < length gs. gen_wf clock_env (int i) (gs ! i)"
  shows "ledger_wf clock_env (ledger_config 8 8) [(sample_key, sample_entry gs)]"
  using sample_entry_wf [OF assms]
  by (simp add: ledger_wf_def ledger_config_def recipe_count_def MAX_ATTEMPTS_def MAX_ATTEMPTS_PER_RECIPE_def MAX_RECIPES_def)

section \<open>Properties\<close>

text \<open>C31: the ledger validator is sound and canonical.  An accepted document is bounded
  (attempts, attempts per Recipe, Recipes, generations); every key is the attempt key of
  the Recipe, digest and complete identity stored under it; generations are numbered
  without a gap; a linked Run is the preallocated one, a detect-only row owns no Run and a
  published row has a validation; and writing the accepted ledger and reading it again
  gives the same ledger.\<close>

theorem accepted_ledger_sound:
  assumes "validate_ledger env cfg document = Inr L"
  shows "validate_ledger env cfg (ledger_json L) = Inr L \<and> length L \<le> max_attempts cfg \<and>
    card (e_recipe_id ` snd ` set L) \<le> MAX_RECIPES \<and>
    (\<forall>(key, e) \<in> set L. recipe_count L (e_recipe_id e) \<le> max_attempts_per_recipe cfg \<and>
       automation_attempt_key env (e_recipe_id e) (identity_json (e_identity e)) (e_recipe_sha256 e) = Inr key \<and>
       1 \<le> length (e_generations e) \<and> length (e_generations e) \<le> MAX_GENERATIONS \<and>
       (\<forall>i < length (e_generations e). let g = e_generations e ! i in
          g_generation g = int i \<and> (run_id g \<noteq> None \<longrightarrow> run_id g = preallocated_run_id g) \<and>
          (desired_policy g = ''detect'' \<longrightarrow> preallocated_run_id g = None) \<and>
          (publication_attempt_id g \<noteq> None \<longrightarrow> validation_attempt_id g \<noteq> None)))"
proof -
  have wf: "ledger_wf env cfg L" using assms by (rule ledger_doc.validate_wf)
  have row: "let g = e_generations e ! i in
      g_generation g = int i \<and> (run_id g \<noteq> None \<longrightarrow> run_id g = preallocated_run_id g) \<and>
      (desired_policy g = ''detect'' \<longrightarrow> preallocated_run_id g = None) \<and>
      (publication_attempt_id g \<noteq> None \<longrightarrow> validation_attempt_id g \<noteq> None)"
    if "(key, e) \<in> set L" "i < length (e_generations e)" for key e i
  proof -
    have g: "gen_wf env (int i) (e_generations e ! i)"
      using wf that by (auto simp: ledger_wf_def entry_wf_def)
    then show ?thesis using gen_wf_links(1,2,7) [OF g] by (auto simp: Let_def gen_wf_def)
  qed
  have "recipe_count L (e_recipe_id e) \<le> max_attempts_per_recipe cfg \<and>
       automation_attempt_key env (e_recipe_id e) (identity_json (e_identity e)) (e_recipe_sha256 e) = Inr key \<and>
       1 \<le> length (e_generations e) \<and> length (e_generations e) \<le> MAX_GENERATIONS" if "(key, e) \<in> set L" for key e
    using wf that by (auto simp: ledger_wf_def entry_wf_def)
  with row wf ledger_doc.validate_idempotent [OF assms] show ?thesis by (auto simp: ledger_wf_def)
qed

theorem accepted_ledger_sound_witness:
  "validate_ledger clock_env (ledger_config 8 8) (ledger_json [(sample_key, sample_entry [sample_row])]) =
     Inr [(sample_key, sample_entry [sample_row])] \<and>
   automation_attempt_key clock_env ''app'' (identity_json sample_identity) (replicate 64 (CHR ''a'')) = Inr sample_key"
proof -
  have ok: "validate_ledger clock_env (ledger_config 8 8) (ledger_json [(sample_key, sample_entry [sample_row])]) =
     Inr [(sample_key, sample_entry [sample_row])]"
    by (intro ledger_doc.validate_render sample_ledger_wf) (simp_all add: sample_row_wf)
  from accepted_ledger_sound [OF ok] ok show ?thesis by (simp add: sample_entry_def)
qed

end
