(* ===== verification/Ledger_Operations.thy ===== *)
theory Ledger_Operations
  imports Automation_Ledger "HOL-Library.AList"
begin

text \<open>
  The methods of \<^verbatim>\<open>AutomationLedger\<close> (\<^verbatim>\<open>src/debbuilder/automation_ledger.py\<close>, lines 280 to
  721): loading and saving the ledger file, claiming a detection against the live Recipe,
  the operator's retry, and the updates of one row.

  The file is what a reader finds: nothing, something that cannot be opened, an unsafe or
  oversized file, undecodable content, or a JSON document (its key order is not kept).  A
  write is done, fails before the rename or fails after it (\<^verbatim>\<open>Run_Store\<close>).
\<close>

section \<open>The file\<close>

datatype ledger_file = Absent | Unavailable | Unsafe | Undecodable | Stored json

datatype lock_outcome = LockTaken | LockFailed | LockUnsafe

text \<open>How one call fares: the lock, the write, and the successive results of \<^verbatim>\<open>utc_now\<close>.\<close>

record ledger_io =
  l_lock :: lock_outcome
  l_write :: write_outcome
  l_clock :: "nat \<Rightarrow> string"

definition load_unlocked :: "py_env \<Rightarrow> ledger_config \<Rightarrow> ledger_file \<Rightarrow> ledger result" where
  "load_unlocked env cfg lf =
     (case lf of
        Absent \<Rightarrow> Inr []
      | Unavailable \<Rightarrow> Inl (led_err ''automation_ledger_unavailable'' ''$'')
      | Unsafe \<Rightarrow> Inl (led_err ''automation_ledger_malformed'' ''$'')
      | Undecodable \<Rightarrow> Inl (led_err ''automation_ledger_malformed'' ''$'')
      | Stored document \<Rightarrow> validate_ledger env cfg document)"

definition ledger_locked :: "ledger_io \<Rightarrow> unit result" where
  "ledger_locked io =
     (case l_lock io of
        LockTaken \<Rightarrow> Inr ()
      | LockFailed \<Rightarrow> Inl os_err
      | LockUnsafe \<Rightarrow> Inl (led_err ''automation_ledger_lock_invalid'' ''$''))"

text \<open>\<^verbatim>\<open>_save_unlocked(document)\<close>\<close>

definition encoded_ledger :: "ledger \<Rightarrow> string" where
  "encoded_ledger L = utf8 (dumps_indent 0 (ledger_json L) @ [char_of (10 :: nat)])"

definition save_unlocked :: "py_env \<Rightarrow> ledger_config \<Rightarrow> ledger_io \<Rightarrow> ledger \<Rightarrow> ledger_file \<Rightarrow> ledger_file \<times> unit result" where
  "save_unlocked env cfg io L lf =
     (case validate_ledger env cfg (ledger_json L) of
        Inl e \<Rightarrow> (lf, Inl e)
      | Inr canonical \<Rightarrow>
          if length (encoded_ledger canonical) > MAX_LEDGER_BYTES
          then (lf, Inl (led_err ''automation_ledger_bounds_exceeded'' ''$''))
          else (case l_write io of
             Written \<Rightarrow> (Stored (ledger_json canonical), Inr ())
           | FailedBefore \<Rightarrow> (lf, Inl os_err)
           | FailedAfter \<Rightarrow> (Stored (ledger_json canonical), Inl os_err)))"

text \<open>A critical section: what it decides from the loaded ledger, then a save when it wants
  one.\<close>

datatype 'r outcome = Return 'r | Save ledger 'r

definition commit :: "py_env \<Rightarrow> ledger_config \<Rightarrow> ledger_io \<Rightarrow> ledger_file \<Rightarrow> 'r outcome result \<Rightarrow> ledger_file \<times> 'r result" where
  "commit env cfg io lf decision =
     (case decision of
        Inl e \<Rightarrow> (lf, Inl e)
      | Inr (Return r) \<Rightarrow> (lf, Inr r)
      | Inr (Save L r) \<Rightarrow>
          (case save_unlocked env cfg io L lf of
             (lf', Inl e) \<Rightarrow> (lf', Inl e)
           | (lf', Inr _) \<Rightarrow> (lf', Inr r)))"

section \<open>Rows\<close>

text \<open>\<^verbatim>\<open>_row(document, attempt_key, generation)\<close>, with the entry.\<close>

definition row_of :: "ledger \<Rightarrow> string \<Rightarrow> int \<Rightarrow> (entry \<times> gen) result" where
  "row_of L key n =
     (case map_of L key of
        None \<Rightarrow> Inl (led_err ''automation_attempt_not_found'' ''$'')
      | Some e \<Rightarrow>
          if \<not> (0 \<le> n \<and> n < int (length (e_generations e)))
          then Inl (led_err ''automation_attempt_not_found'' ''$'')
          else Inr (e, e_generations e ! nat n))"

definition put_row :: "ledger \<Rightarrow> string \<Rightarrow> entry \<Rightarrow> int \<Rightarrow> gen \<Rightarrow> ledger" where
  "put_row L key e n g = AList.update key (e\<lparr>e_generations := (e_generations e)[nat n := g]\<rparr>) L"

text \<open>The common frame of the row updates: take the lock, load, find the row, run the body,
  which keeps the row or gives the updated row to save.\<close>

datatype row_step = KeepRow | UpdateRow gen

definition row_decision ::
  "py_env \<Rightarrow> ledger_config \<Rightarrow> string \<Rightarrow> int \<Rightarrow> (entry \<Rightarrow> gen \<Rightarrow> row_step result) \<Rightarrow> ledger_io \<Rightarrow> ledger_file \<Rightarrow>
   gen outcome result" where
  "row_decision env cfg key n body io lf =
     bind_r (ledger_locked io) (\<lambda>_.
     bind_r (load_unlocked env cfg lf) (\<lambda>L.
     bind_r (row_of L key n) (\<lambda>(e, g).
     bind_r (body e g) (\<lambda>step.
     Inr (case step of KeepRow \<Rightarrow> Return g | UpdateRow g' \<Rightarrow> Save (put_row L key e n g') g')))))"

definition with_row ::
  "py_env \<Rightarrow> ledger_config \<Rightarrow> ledger_io \<Rightarrow> string \<Rightarrow> int \<Rightarrow> (entry \<Rightarrow> gen \<Rightarrow> row_step result) \<Rightarrow>
   ledger_file \<Rightarrow> ledger_file \<times> gen result" where
  "with_row env cfg io key n body lf = commit env cfg io lf (row_decision env cfg key n body io lf)"

section \<open>Claims\<close>

text \<open>The Recipe that \<^verbatim>\<open>recipe_store.locked_recipe\<close> yields, with the result of
  \<^verbatim>\<open>canonical_recipe_sha256\<close> on it, or the exception it raises.\<close>

datatype live_recipe = Live doc "string result" | NoRecipe exn

definition recipe_error :: "string \<Rightarrow> exn \<Rightarrow> exn" where
  "recipe_error code e = (if exn_class e = RecipeStoreError then led_err code ''$'' else e)"

fun in_recipe :: "string \<Rightarrow> live_recipe \<Rightarrow> (doc \<Rightarrow> string result \<Rightarrow> 'a result) \<Rightarrow> 'a result" where
  "in_recipe code (NoRecipe e) f = Inl (recipe_error code e)"
| "in_recipe code (Live current digest) f =
     (case f current digest of Inl e \<Rightarrow> Inl (recipe_error code e) | Inr x \<Rightarrow> Inr x)"

definition automation_field :: "doc \<Rightarrow> string \<Rightarrow> json" where
  "automation_field current k = (case jget current ''automation'' of JObj a \<Rightarrow> jget a k | _ \<Rightarrow> JNull)"

definition has_automation :: "doc \<Rightarrow> bool" where
  "has_automation current = (case jget current ''automation'' of JObj _ \<Rightarrow> True | _ \<Rightarrow> False)"

text \<open>\<^verbatim>\<open>_generation\<close> and \<^verbatim>\<open>_new_entry\<close>\<close>

definition new_generation :: "string \<Rightarrow> string \<Rightarrow> string \<Rightarrow> int \<Rightarrow> gen" where
  "new_generation now policy_name detected n = \<lparr>
     g_generation = n, g_state = ''claimed'', desired_policy = policy_name, detected_at = detected,
     created_at = now, updated_at = now, preallocated_run_id = None, run_id = None,
     terminal_classification = None, retry_class = ''none'', retry_count = 0, not_before = None,
     last_error_code = None, diagnostic = None, stage = ''detection'', validation_attempt_id = None,
     publication_attempt_id = None, completion_notified = False, run_retry_count = 0,
     validation_retry_count = 0, publication_retry_count = 0\<rparr>"

definition new_entry :: "string \<Rightarrow> string \<Rightarrow> string \<Rightarrow> identity \<Rightarrow> string \<Rightarrow> string \<Rightarrow> entry" where
  "new_entry now recipe_id recipe_sha256 i policy_name detected = \<lparr>
     e_recipe_id = recipe_id, e_recipe_sha256 = lower recipe_sha256, e_identity = i,
     e_generations = [new_generation now policy_name detected 0]\<rparr>"

record claim_result =
  cr_created :: bool
  cr_key :: string
  cr_generation :: int
  cr_record :: entry

definition last_generation :: "entry \<Rightarrow> gen" where
  "last_generation e = last (e_generations e)"

text \<open>Lines 409 to 435: the claim once the Recipe is known to be unchanged.\<close>

definition claim_decision ::
  "ledger_config \<Rightarrow> (nat \<Rightarrow> string) \<Rightarrow> string \<Rightarrow> string \<Rightarrow> identity \<Rightarrow> string \<Rightarrow> string \<Rightarrow> bool \<Rightarrow> string \<Rightarrow> bool \<Rightarrow>
   ledger \<Rightarrow> claim_result outcome result" where
  "claim_decision cfg now key recipe_id i recipe_sha256 policy_name detect_only detected baseline_on_first L =
     (case map_of L key of
        Some existing \<Rightarrow>
          if desired_policy (last_generation existing) \<noteq> policy_name
          then Inl (led_err ''automation_policy_mismatch'' ''$'')
          else Inr (Return \<lparr>cr_created = False, cr_key = key,
            cr_generation = g_generation (last_generation existing), cr_record = existing\<rparr>)
      | None \<Rightarrow>
          if length L \<ge> max_attempts cfg then Inl (led_err ''automation_ledger_bounds_exceeded'' ''$'')
          else if recipe_count L recipe_id \<ge> max_attempts_per_recipe cfg
          then Inl (led_err ''automation_ledger_bounds_exceeded'' ''$'')
          else
            let entry = new_entry (now 1) recipe_id recipe_sha256 i policy_name detected;
                baseline = (baseline_on_first \<and> \<not> (\<exists>ke \<in> set L. e_recipe_id (snd ke) = recipe_id \<and>
                  e_recipe_sha256 (snd ke) = lower recipe_sha256));
                entry' = (if detect_only \<or> baseline
                  then entry\<lparr>e_generations := [(new_generation (now 1) policy_name detected 0)\<lparr>
                    g_state := ''terminal'', terminal_classification := Some ''success'',
                    diagnostic := Some (if baseline then ''initial_baseline'' else ''detect_only_handled''),
                    updated_at := now 2, stage := ''terminal''\<rparr>]\<rparr>
                  else entry) in
            Inr (Save (AList.update key entry' L)
              \<lparr>cr_created = True, cr_key = key, cr_generation = 0, cr_record = entry'\<rparr>))"

text \<open>The guard of \<^verbatim>\<open>claim_current_recipe\<close> on the live Recipe, lines 396 to 408.\<close>

definition claim_recipe_stale :: "string \<Rightarrow> string \<Rightarrow> string \<Rightarrow> doc \<Rightarrow> string result \<Rightarrow> bool result" where
  "claim_recipe_stale recipe_id recipe_sha256 policy_name current digest =
     or_chain [
       Inr (jget current ''name'' \<noteq> JStr recipe_id),
       bind_r digest (\<lambda>d. Inr (d \<noteq> lower recipe_sha256)),
       Inr (\<not> truthy (jget current ''active'')),
       Inr (\<not> has_automation current),
       Inr (\<not> truthy (automation_field current ''enabled'')),
       Inr (automation_field current ''policy'' \<noteq> JStr policy_name)]"

text \<open>\<^verbatim>\<open>claim_current_recipe\<close>: everything up to the save, then the save.\<close>

definition claim_deciding ::
  "py_env \<Rightarrow> ledger_config \<Rightarrow> live_recipe \<Rightarrow> string \<Rightarrow> json \<Rightarrow> string \<Rightarrow> string \<Rightarrow> bool \<Rightarrow> string option \<Rightarrow> bool \<Rightarrow>
   ledger_io \<Rightarrow> ledger_file \<Rightarrow> claim_result outcome result" where
  "claim_deciding env cfg live recipe_id identity_doc recipe_sha256 policy_name detect_only detected baseline_on_first io lf =
     (if policy_name \<notin> set POLICIES \<or> policy_name = ''manual'' \<or> detect_only \<noteq> (policy_name = ''detect'')
      then Inl (led_err ''automation_policy_ineligible'' ''$'')
      else
        bind_r (normalize_upstream_identity identity_doc) (\<lambda>i.
        bind_r (automation_attempt_key env recipe_id (identity_json i) recipe_sha256) (\<lambda>key.
        bind_r (ledger_timestamp env ''$.detected_at''
          (JStr (case detected of None \<Rightarrow> l_clock io 0 | Some [] \<Rightarrow> l_clock io 0 | Some t \<Rightarrow> t))) (\<lambda>seen_at.
        bind_r (ledger_locked io) (\<lambda>_.
        in_recipe ''recipe_changed_during_detection'' live (\<lambda>current digest.
          bind_r (claim_recipe_stale recipe_id recipe_sha256 policy_name current digest) (\<lambda>stale.
          if stale then Inl (led_err ''recipe_changed_during_detection'' ''$'')
          else
            bind_r (load_unlocked env cfg lf)
              (claim_decision cfg (l_clock io) key recipe_id i recipe_sha256 policy_name detect_only seen_at baseline_on_first))))))))"

definition claim_current_recipe ::
  "py_env \<Rightarrow> ledger_config \<Rightarrow> live_recipe \<Rightarrow> string \<Rightarrow> json \<Rightarrow> string \<Rightarrow> string \<Rightarrow> bool \<Rightarrow> string option \<Rightarrow> bool \<Rightarrow>
   ledger_io \<Rightarrow> ledger_file \<Rightarrow> ledger_file \<times> claim_result result" where
  "claim_current_recipe env cfg live recipe_id identity_doc recipe_sha256 policy_name detect_only detected baseline_on_first io lf =
     commit env cfg io lf
       (claim_deciding env cfg live recipe_id identity_doc recipe_sha256 policy_name detect_only detected baseline_on_first io lf)"

section \<open>The operator's retry\<close>

text \<open>Lines 460 to 473: the newest attempt of a Recipe.\<close>

definition attempt_order :: "string \<times> entry \<Rightarrow> string \<times> string \<times> string" where
  "attempt_order ke = (detected_at (hd (e_generations (snd ke))), created_at (hd (e_generations (snd ke))), fst ke)"

definition newest_key :: "ledger \<Rightarrow> string \<Rightarrow> string" where
  "newest_key L recipe_id = snd (snd (Max (attempt_order ` set (filter (\<lambda>ke. e_recipe_id (snd ke) = recipe_id) L))))"

text \<open>Lines 474 to 490: the checks on the generations; the result says whether the request is a
  duplicate.\<close>

definition retry_duplicate :: "entry \<Rightarrow> json \<Rightarrow> string option \<Rightarrow> bool result" where
  "retry_duplicate e expected_generation expected_updated_at =
     (case expected_generation of
        JInt n \<Rightarrow>
          if n < 0 then Inl (led_err ''automation_retry_stale'' ''$'')
          else
            let latest = last_generation e; duplicate = (g_generation latest = n + 1) in
            if \<not> duplicate \<and> g_generation latest \<noteq> n then Inl (led_err ''automation_retry_stale'' ''$'')
            else
              let observed = (if duplicate then e_generations e ! nat n else latest) in
              if (\<exists>t \<in> set_option expected_updated_at. updated_at observed \<noteq> t)
              then Inl (led_err ''automation_retry_stale'' ''$'')
              else if \<not> duplicate \<and> g_state latest \<notin> {''terminal'', ''retry_delayed'', ''blocked''}
              then Inl (led_err ''automation_retry_not_terminal'' ''$'')
              else if \<not> duplicate \<and> length (e_generations e) \<ge> MAX_GENERATIONS
              then Inl (led_err ''automation_ledger_bounds_exceeded'' ''$'')
              else Inr duplicate
      | _ \<Rightarrow> Inl (led_err ''automation_retry_stale'' ''$''))"

definition retry_recipe_stale :: "entry \<Rightarrow> doc \<Rightarrow> string result \<Rightarrow> bool result" where
  "retry_recipe_stale e current digest =
     or_chain [
       Inr (jget current ''name'' \<noteq> JStr (e_recipe_id e)),
       bind_r digest (\<lambda>d. Inr (d \<noteq> e_recipe_sha256 e)),
       Inr (\<not> truthy (jget current ''active'')),
       Inr (\<not> has_automation current),
       Inr (\<not> truthy (automation_field current ''enabled'')),
       Inr (automation_field current ''policy'' \<noteq> JStr (desired_policy (last_generation e))),
       Inr (automation_field current ''policy'' = JStr ''manual'')]"

definition retry_decision ::
  "(nat \<Rightarrow> string) \<Rightarrow> live_recipe \<Rightarrow> string \<Rightarrow> string \<Rightarrow> json \<Rightarrow> string option \<Rightarrow> ledger \<Rightarrow> claim_result outcome result" where
  "retry_decision now live recipe_id key expected_generation expected_updated_at L =
     (case map_of L key of
        None \<Rightarrow> Inl (led_err ''automation_attempt_not_found'' ''$'')
      | Some e \<Rightarrow>
          if e_recipe_id e \<noteq> recipe_id then Inl (led_err ''automation_attempt_not_found'' ''$'')
          else if newest_key L recipe_id \<noteq> key then Inl (led_err ''automation_retry_stale'' ''$'')
          else
            bind_r (retry_duplicate e expected_generation expected_updated_at) (\<lambda>duplicate.
            in_recipe ''automation_recipe_stale'' live (\<lambda>current digest.
              bind_r (retry_recipe_stale e current digest) (\<lambda>stale.
              if stale then Inl (led_err ''automation_recipe_stale'' ''$'')
              else if duplicate
              then Inr (Return \<lparr>cr_created = False, cr_key = key,
                cr_generation = g_generation (last_generation e), cr_record = e\<rparr>)
              else
                let n = length (e_generations e);
                    e' = e\<lparr>e_generations := e_generations e @
                      [new_generation (now 0) (desired_policy (last_generation e)) (detected_at (last_generation e)) (int n)]\<rparr> in
                Inr (Save (AList.update key e' L)
                  \<lparr>cr_created = True, cr_key = key, cr_generation = int n, cr_record = e'\<rparr>)))))"

definition retry_deciding ::
  "py_env \<Rightarrow> ledger_config \<Rightarrow> live_recipe \<Rightarrow> string \<Rightarrow> string \<Rightarrow> json \<Rightarrow> string option \<Rightarrow>
   ledger_io \<Rightarrow> ledger_file \<Rightarrow> claim_result outcome result" where
  "retry_deciding env cfg live recipe_id key expected_generation expected_updated_at io lf =
     bind_r (ledger_locked io) (\<lambda>_.
     bind_r (load_unlocked env cfg lf)
       (retry_decision (l_clock io) live recipe_id key expected_generation expected_updated_at))"

definition explicit_retry_current_recipe ::
  "py_env \<Rightarrow> ledger_config \<Rightarrow> live_recipe \<Rightarrow> string \<Rightarrow> string \<Rightarrow> json \<Rightarrow> string option \<Rightarrow>
   ledger_io \<Rightarrow> ledger_file \<Rightarrow> ledger_file \<times> claim_result result" where
  "explicit_retry_current_recipe env cfg live recipe_id key expected_generation expected_updated_at io lf =
     commit env cfg io lf (retry_deciding env cfg live recipe_id key expected_generation expected_updated_at io lf)"

section \<open>Run ownership\<close>

text \<open>\<^verbatim>\<open>preallocate_run\<close>; \<^verbatim>\<open>candidate\<close> is \<^verbatim>\<open>BuildStore.allocate_run_id()\<close>.\<close>

definition preallocate_body :: "string \<Rightarrow> string \<Rightarrow> entry \<Rightarrow> gen \<Rightarrow> row_step result" where
  "preallocate_body candidate now e g =
     (if preallocated_run_id g \<noteq> None then Inr KeepRow
      else if g_state g \<noteq> ''claimed'' then Inl (led_err ''automation_state_conflict'' ''$'')
      else if desired_policy g = ''detect'' then Inl (led_err ''automation_policy_ineligible'' ''$'')
      else Inr (UpdateRow (g\<lparr>preallocated_run_id := Some candidate, g_state := ''run_preallocated'',
        stage := ''run_admission'', updated_at := now\<rparr>)))"

definition preallocate_run ::
  "py_env \<Rightarrow> ledger_config \<Rightarrow> string \<Rightarrow> string \<Rightarrow> int \<Rightarrow> ledger_io \<Rightarrow> ledger_file \<Rightarrow> ledger_file \<times> gen result" where
  "preallocate_run env cfg candidate key n io lf =
     with_row env cfg io key n (preallocate_body candidate (l_clock io 0)) lf"

text \<open>\<^verbatim>\<open>_verify_run_binding(entry, row, run)\<close>\<close>

definition verify_run_binding :: "string \<Rightarrow> entry \<Rightarrow> gen \<Rightarrow> doc option \<Rightarrow> unit result" where
  "verify_run_binding key e g run =
     (case run of
        None \<Rightarrow> Inl (led_err ''automation_run_not_found'' ''$'')
      | Some [] \<Rightarrow> Inl (led_err ''automation_run_not_found'' ''$'')
      | Some kvs \<Rightarrow>
          if jget kvs ''id'' \<noteq> opt_str (preallocated_run_id g)
            \<or> jget kvs ''recipe_id'' \<noteq> JStr (e_recipe_id e)
            \<or> jget kvs ''recipe_sha256'' \<noteq> JStr (e_recipe_sha256 e)
            \<or> \<not> has_automation kvs
            \<or> automation_field kvs ''attempt_key'' \<noteq> JStr key
            \<or> \<not> py_eq (automation_field kvs ''generation'') (JInt (g_generation g))
            \<or> automation_field kvs ''policy'' \<noteq> JStr (desired_policy g)
            \<or> \<not> py_eq (automation_field kvs ''expected_upstream_identity'') (identity_json (e_identity e))
          then Inl (led_err ''automation_run_binding_invalid'' ''$'')
          else Inr ())"

text \<open>\<^verbatim>\<open>except (OSError, TypeError, ValueError)\<close> around a load, subclasses included.\<close>

definition load_failure :: "exn \<Rightarrow> bool" where
  "load_failure e = (exn_class e \<in> {OSError, FileNotFoundError, TypeError, ValueError, UpstreamIdentityError,
     RunDocumentError, ResourceLimitError, RecipeStoreError})"

definition verified_load :: "doc option result \<Rightarrow> doc option result" where
  "verified_load r =
     (case r of
        Inl e \<Rightarrow> Inl (if load_failure e then led_err ''automation_run_binding_invalid'' ''$'' else e)
      | Inr run \<Rightarrow> Inr run)"

text \<open>The update of a linked row, lines 573 to 583.\<close>

definition linked_row :: "string \<Rightarrow> string \<Rightarrow> gen \<Rightarrow> gen" where
  "linked_row rid now g = g\<lparr>run_id := Some rid, g_state := ''admitted'', stage := ''run'',
     terminal_classification := None, retry_class := ''none'', not_before := None,
     last_error_code := None, diagnostic := None, updated_at := now\<rparr>"

text \<open>\<^verbatim>\<open>link_run\<close>; \<^verbatim>\<open>loaded\<close> is the result of \<^verbatim>\<open>selected_store.load(run_id)\<close>.\<close>

definition link_body :: "string \<Rightarrow> string \<Rightarrow> doc option result \<Rightarrow> string \<Rightarrow> entry \<Rightarrow> gen \<Rightarrow> row_step result" where
  "link_body key rid loaded now e g =
     (if run_id g \<noteq> None
      then (if run_id g \<noteq> Some rid then Inl (led_err ''automation_run_mismatch'' ''$'') else Inr KeepRow)
      else if preallocated_run_id g \<noteq> Some rid then Inl (led_err ''automation_run_mismatch'' ''$'')
      else
        bind_r (verified_load loaded) (\<lambda>run.
        bind_r (verify_run_binding key e g run) (\<lambda>_.
        Inr (UpdateRow (linked_row rid now g)))))"

definition link_run ::
  "py_env \<Rightarrow> ledger_config \<Rightarrow> io \<Rightarrow> disk \<Rightarrow> string \<Rightarrow> int \<Rightarrow> string \<Rightarrow> ledger_io \<Rightarrow> ledger_file \<Rightarrow> ledger_file \<times> gen result" where
  "link_run env cfg rio disk key n rid io lf =
     with_row env cfg io key n (link_body key rid (load env rio rid disk) (l_clock io 0)) lf"

record reconciliation =
  linked :: bool
  recovered_incomplete :: bool
  rec_record :: gen

text \<open>\<^verbatim>\<open>reconcile_preallocated_run\<close>\<close>

definition reconcile_preallocated_run ::
  "py_env \<Rightarrow> ledger_config \<Rightarrow> io \<Rightarrow> string \<Rightarrow> int \<Rightarrow> ledger_io \<Rightarrow> disk \<times> ledger_file \<Rightarrow>
   (disk \<times> ledger_file) \<times> reconciliation result" where
  "reconcile_preallocated_run env cfg rio key n io st =
     (case st of (disk, lf) \<Rightarrow>
      case bind_r (load_unlocked env cfg lf) (\<lambda>L. row_of L key n) of
        Inl e \<Rightarrow> (st, Inl e)
      | Inr (e, g) \<Rightarrow>
          if run_id g \<noteq> None then (st, Inr \<lparr>linked = True, recovered_incomplete = False, rec_record = g\<rparr>)
          else case preallocated_run_id g of
            None \<Rightarrow> (st, Inr \<lparr>linked = False, recovered_incomplete = False, rec_record = g\<rparr>)
          | Some rid \<Rightarrow>
              (case verified_load (load env rio rid disk) of
                 Inl err \<Rightarrow> (st, Inl err)
               | Inr None \<Rightarrow>
                   if disk rid = None then (st, Inr \<lparr>linked = False, recovered_incomplete = False, rec_record = g\<rparr>)
                   else
                     (case discard_incomplete_creation rio rid disk of
                        (disk', Inl err) \<Rightarrow> ((disk', lf), Inl err)
                      | (disk', Inr removed) \<Rightarrow>
                          ((disk', lf),
                           if \<not> removed then Inl (led_err ''automation_run_binding_invalid'' ''$'')
                           else Inr \<lparr>linked = False, recovered_incomplete = True, rec_record = g\<rparr>))
               | Inr (Some run) \<Rightarrow>
                   (case link_run env cfg rio disk key n rid io lf of
                      (lf', Inl err) \<Rightarrow> ((disk, lf'), Inl err)
                    | (lf', Inr g') \<Rightarrow> ((disk, lf'), Inr \<lparr>linked = True, recovered_incomplete = False, rec_record = g'\<rparr>))))"

section \<open>Lifecycle of a row\<close>

text \<open>\<^verbatim>\<open>finish\<close>: the state of a classification and the retry counter of a stage.\<close>

definition finish_state :: "string \<Rightarrow> string" where
  "finish_state classification =
     (if classification = ''transient_retryable'' then ''retry_delayed''
      else if classification = ''blocked_manual'' then ''blocked'' else ''terminal'')"

definition bump_stage :: "string \<Rightarrow> int \<Rightarrow> gen \<Rightarrow> gen" where
  "bump_stage previous_stage count g =
     (if previous_stage = ''run_admission'' then g\<lparr>run_retry_count := count\<rparr>
      else if previous_stage \<in> {''validation_admission'', ''validation''} then g\<lparr>validation_retry_count := count\<rparr>
      else if previous_stage = ''publication'' then g\<lparr>publication_retry_count := count\<rparr>
      else g)"

definition finish_body ::
  "string \<Rightarrow> string \<Rightarrow> int \<Rightarrow> string option \<Rightarrow> string option \<Rightarrow> string option \<Rightarrow> string \<Rightarrow> entry \<Rightarrow> gen \<Rightarrow> row_step result" where
  "finish_body classification retry count before code diag now e g =
     (let state = finish_state classification;
          g' = g\<lparr>g_state := state, stage := (if state \<in> {''terminal'', ''blocked''} then ''terminal'' else stage g),
            terminal_classification := Some classification, retry_class := retry, retry_count := count,
            not_before := before, last_error_code := code, diagnostic := diag, updated_at := now\<rparr> in
      Inr (UpdateRow (if classification = ''transient_retryable'' then bump_stage (stage g) count g' else g')))"

definition finish ::
  "py_env \<Rightarrow> ledger_config \<Rightarrow> string \<Rightarrow> int \<Rightarrow> string \<Rightarrow> string \<Rightarrow> int \<Rightarrow> string option \<Rightarrow> string option \<Rightarrow> string option \<Rightarrow>
   ledger_io \<Rightarrow> ledger_file \<Rightarrow> ledger_file \<times> gen result" where
  "finish env cfg key n classification retry count before code diag io lf =
     (if classification \<notin> set TERMINAL_CLASSIFICATIONS \<or> retry \<notin> set RETRY_CLASSES
      then (lf, Inl (led_err ''automation_classification_invalid'' ''$''))
      else with_row env cfg io key n (finish_body classification retry count before code diag (l_clock io 0)) lf)"

text \<open>\<^verbatim>\<open>advance_lifecycle\<close>\<close>

definition advance_body ::
  "string \<Rightarrow> string option \<Rightarrow> string option \<Rightarrow> string \<Rightarrow> entry \<Rightarrow> gen \<Rightarrow> row_step result" where
  "advance_body stg val pub now e g =
     (if g_state g \<in> {''terminal'', ''blocked''} then Inr KeepRow
      else if run_id g = None then Inl (led_err ''automation_run_not_linked'' ''$'')
      else if val \<noteq> None \<and> validation_attempt_id g \<noteq> None \<and> validation_attempt_id g \<noteq> val \<and>
          stg \<notin> {''validation_admission'', ''validation''}
      then Inl (led_err ''automation_validation_mismatch'' ''$'')
      else Inr (UpdateRow (g\<lparr>
        validation_attempt_id := (if val = None then validation_attempt_id g else val),
        publication_attempt_id := (if pub = None then publication_attempt_id g else pub),
        g_state := ''admitted'', stage := stg, terminal_classification := None, retry_class := ''none'',
        not_before := None, last_error_code := None, diagnostic := None, updated_at := now\<rparr>)))"

definition advance_lifecycle ::
  "py_env \<Rightarrow> ledger_config \<Rightarrow> string \<Rightarrow> int \<Rightarrow> string \<Rightarrow> string option \<Rightarrow> string option \<Rightarrow>
   ledger_io \<Rightarrow> ledger_file \<Rightarrow> ledger_file \<times> gen result" where
  "advance_lifecycle env cfg key n stg val pub io lf =
     (if stg \<notin> set STAGES \<or> stg \<in> {''detection'', ''terminal''}
      then (lf, Inl (led_err ''automation_stage_invalid'' ''$''))
      else with_row env cfg io key n (advance_body stg val pub (l_clock io 0)) lf)"

text \<open>\<^verbatim>\<open>mark_completion_notified\<close>\<close>

definition notified_body :: "string \<Rightarrow> entry \<Rightarrow> gen \<Rightarrow> row_step result" where
  "notified_body now e g =
     (if g_state g \<notin> {''terminal'', ''blocked''} then Inl (led_err ''automation_not_terminal'' ''$'')
      else if completion_notified g then Inr KeepRow
      else Inr (UpdateRow (g\<lparr>completion_notified := True, updated_at := now\<rparr>)))"

definition mark_completion_notified ::
  "py_env \<Rightarrow> ledger_config \<Rightarrow> string \<Rightarrow> int \<Rightarrow> ledger_io \<Rightarrow> ledger_file \<Rightarrow> ledger_file \<times> gen result" where
  "mark_completion_notified env cfg key n io lf =
     with_row env cfg io key n (notified_body (l_clock io 0)) lf"

text \<open>\<^verbatim>\<open>may_create_run\<close>\<close>

definition may_create_run :: "py_env \<Rightarrow> ledger_config \<Rightarrow> disk \<Rightarrow> string \<Rightarrow> int \<Rightarrow> ledger_file \<Rightarrow> bool result" where
  "may_create_run env cfg disk key n lf =
     bind_r (load_unlocked env cfg lf) (\<lambda>L.
     case map_of L key of
       None \<Rightarrow> Inr False
     | Some e \<Rightarrow>
         if \<not> (0 \<le> n \<and> n < int (length (e_generations e))) then Inr False
         else
           let g = e_generations e ! nat n in
           if desired_policy g = ''detect'' \<or> g_state g \<notin> {''claimed'', ''run_preallocated''} \<or> run_id g \<noteq> None
           then Inr False
           else if g_state g = ''run_preallocated''
           then
             (case preallocated_run_id g of
                None \<Rightarrow> Inl type_err
              | Some rid \<Rightarrow> bind_r (run_dir rid) (\<lambda>_. Inr (disk rid = None)))
           else Inr True)"

section \<open>Growth\<close>

text \<open>What no operation takes back: rows keep their number, policy and times of detection and
  creation, a Run identifier once chosen or linked, and the mark of a sent notification;
  entries keep their identity and their rows; keys stay.\<close>

definition row_le :: "gen \<Rightarrow> gen \<Rightarrow> bool" where
  "row_le g g' =
     (g_generation g' = g_generation g \<and> desired_policy g' = desired_policy g \<and>
      detected_at g' = detected_at g \<and> created_at g' = created_at g \<and>
      (preallocated_run_id g \<noteq> None \<longrightarrow> preallocated_run_id g' = preallocated_run_id g) \<and>
      (run_id g \<noteq> None \<longrightarrow> run_id g' = run_id g) \<and>
      (completion_notified g \<longrightarrow> completion_notified g'))"

definition entry_le :: "entry \<Rightarrow> entry \<Rightarrow> bool" where
  "entry_le e e' =
     (e_recipe_id e' = e_recipe_id e \<and> e_recipe_sha256 e' = e_recipe_sha256 e \<and> e_identity e' = e_identity e \<and>
      length (e_generations e) \<le> length (e_generations e') \<and>
      (\<forall>i < length (e_generations e). row_le (e_generations e ! i) (e_generations e' ! i)))"

definition ledger_le :: "ledger \<Rightarrow> ledger \<Rightarrow> bool" where
  "ledger_le L L' = (\<forall>key e. map_of L key = Some e \<longrightarrow> (\<exists>e'. map_of L' key = Some e' \<and> entry_le e e'))"

lemma row_le_refl [simp, intro]: "row_le g g"
  by (simp add: row_le_def)

lemma row_le_trans: "row_le a b \<Longrightarrow> row_le b c \<Longrightarrow> row_le a c"
  unfolding row_le_def by auto

lemma entry_le_refl [simp, intro]: "entry_le e e"
  by (simp add: entry_le_def)

lemma entry_le_trans: "entry_le a b \<Longrightarrow> entry_le b c \<Longrightarrow> entry_le a c"
  unfolding entry_le_def by (auto intro: row_le_trans dest: less_le_trans)

lemma ledger_le_refl [simp, intro]: "ledger_le L L"
  by (simp add: ledger_le_def)

lemma ledger_le_trans: "ledger_le a b \<Longrightarrow> ledger_le b c \<Longrightarrow> ledger_le a c"
  unfolding ledger_le_def by (meson entry_le_trans)

lemma ledger_le_update:
  assumes "\<And>e. map_of L key = Some e \<Longrightarrow> entry_le e e'"
  shows "ledger_le L (AList.update key e' L)"
  using assms by (auto simp: ledger_le_def update_conv')

lemma row_ofE:
  assumes "row_of L key n = Inr (e, g)"
  obtains "map_of L key = Some e" "nat n < length (e_generations e)" "0 \<le> n" "g = e_generations e ! nat n"
proof -
  have "map_of L key = Some e \<and> nat n < length (e_generations e) \<and> 0 \<le> n \<and> g = e_generations e ! nat n"
    using assms by (simp add: row_of_def nat_less_iff split: option.splits if_splits)
  with that show ?thesis by blast
qed

lemma entry_le_put:
  assumes "row_le (e_generations e ! i) g"
  shows "entry_le e (e\<lparr>e_generations := (e_generations e)[i := g]\<rparr>)"
proof -
  have "row_le (e_generations e ! j) ((e_generations e)[i := g] ! j)" if "j < length (e_generations e)" for j
    using assms that by (cases "i = j") simp_all
  then show ?thesis by (simp add: entry_le_def)
qed

lemma put_row_le: "row_of L key n = Inr (e, g) \<Longrightarrow> row_le g g' \<Longrightarrow> ledger_le L (put_row L key e n g')"
  unfolding put_row_def by (elim row_ofE, rule ledger_le_update) (simp add: entry_le_put)

lemma row_of_put_row:
  "row_of L key n = Inr (e, g) \<Longrightarrow>
     row_of (put_row L key e n g') key n = Inr (e\<lparr>e_generations := (e_generations e)[nat n := g']\<rparr>, g')"
  by (elim row_ofE) (simp add: row_of_def put_row_def update_conv' nat_less_iff)

lemma row_of_le:
  assumes "ledger_le L L'" "row_of L key n = Inr (e, g)"
  obtains e' g' where "row_of L' key n = Inr (e', g')" "entry_le e e'" "row_le g g'"
proof -
  from assms(2) have e: "map_of L key = Some e" "nat n < length (e_generations e)" "0 \<le> n" "g = e_generations e ! nat n"
    by (auto elim: row_ofE)
  with assms(1) obtain e' where e': "map_of L' key = Some e'" "entry_le e e'"
    by (auto simp: ledger_le_def)
  then have "row_of L' key n = Inr (e', e_generations e' ! nat n)"
    using e by (simp add: row_of_def entry_le_def nat_less_iff)
  with that e e' show ?thesis by (simp add: entry_le_def)
qed

text \<open>Every entry of a ledger has a canonical identity: the condition under which a save stores
  exactly what it was given.\<close>

definition identities_wf :: "ledger \<Rightarrow> bool" where
  "identities_wf L = (\<forall>ke \<in> set L. identity_wf (e_identity (snd ke)))"

lemma set_AList_update: "set (AList.update k v al) \<subseteq> insert (k, v) (set al)"
  by (induction al) auto

lemma identities_wf_update: "identities_wf L \<Longrightarrow> identity_wf (e_identity e) \<Longrightarrow> identities_wf (AList.update key e L)"
  using set_AList_update [of key e L] by (auto simp: identities_wf_def)

lemma load_wf: "load_unlocked env cfg lf = Inr L \<Longrightarrow> ledger_wf env cfg L"
  by (cases lf) (auto simp: load_unlocked_def ledger_doc.validate_wf, simp add: ledger_wf_def)

lemma ledger_wf_identities: "ledger_wf env cfg L \<Longrightarrow> identities_wf L"
  by (auto simp: ledger_wf_def identities_wf_def entry_wf_def)

lemma loaded_entry_wf: "load_unlocked env cfg lf = Inr L \<Longrightarrow> map_of L key = Some e \<Longrightarrow> entry_wf env key e"
  by (drule load_wf, drule map_of_SomeD) (auto simp: ledger_wf_def)

lemma loaded_row_wf:
  "load_unlocked env cfg lf = Inr L \<Longrightarrow> row_of L key n = Inr (e, g) \<Longrightarrow> gen_wf env n g"
  by (elim row_ofE, drule loaded_entry_wf, assumption) (auto simp: entry_wf_def)

text \<open>A save writes the given ledger or leaves the file.\<close>

lemma save_unlocked_cases:
  assumes "identities_wf L" "save_unlocked env cfg io L lf = (lf', r)"
  obtains (kept) e where "lf' = lf" "r = Inl e"
  | (stored) "ledger_wf env cfg L" "lf' = Stored (ledger_json L)" "l_write io \<noteq> FailedBefore"
      "length (encoded_ledger L) \<le> MAX_LEDGER_BYTES"
      "r = (if l_write io = Written then Inr () else Inl os_err)"
proof (cases "validate_ledger env cfg (ledger_json L)")
  case (Inl e)
  with assms(2) show ?thesis by (intro kept [of e]) (simp_all add: save_unlocked_def)
next
  case (Inr C)
  then have "C = L" using assms(1) validate_ledger_self by (auto simp: identities_wf_def)
  moreover have "ledger_wf env cfg C" using Inr by (rule ledger_doc.validate_wf)
  ultimately show ?thesis
    using Inr assms(2) kept stored
    by (cases "l_write io") (auto simp: save_unlocked_def split: if_splits)
qed

lemma load_stored_ledger: "ledger_wf env cfg L \<Longrightarrow> load_unlocked env cfg (Stored (ledger_json L)) = Inr L"
  by (simp add: load_unlocked_def ledger_doc.validate_render)

section \<open>The contract of a ledger operation\<close>

text \<open>
  What a caller may rely on, whatever the operation and however the filesystem behaves: the
  file stays loadable and grows; a failure that is not a failure after the rename leaves it
  alone; a ledger that cannot be loaded is never written and makes the operation fail.
\<close>

locale ledger_operation =
  fixes env :: py_env and cfg :: ledger_config
    and operation :: "ledger_io \<Rightarrow> ledger_file \<Rightarrow> ledger_file \<times> 'r result"
  assumes grows: "load_unlocked env cfg lf = Inr L \<Longrightarrow> operation io lf = (lf', r) \<Longrightarrow>
      \<exists>L'. load_unlocked env cfg lf' = Inr L' \<and> ledger_le L L'"
    and failure_is_clean: "operation io lf = (lf', Inl e) \<Longrightarrow> l_write io \<noteq> FailedAfter \<Longrightarrow> lf' = lf"
    and fails_closed: "load_unlocked env cfg lf = Inl err \<Longrightarrow> operation io lf = (lf', r) \<Longrightarrow>
      lf' = lf \<and> (\<exists>e. r = Inl e)"
begin

lemma row_survives:
  assumes "load_unlocked env cfg lf = Inr L" "row_of L key n = Inr (e, g)" "operation io lf = (lf', r)"
  shows "\<exists>L' e' g'. load_unlocked env cfg lf' = Inr L' \<and> row_of L' key n = Inr (e', g') \<and> entry_le e e' \<and> row_le g g'"
proof -
  obtain L' where "load_unlocked env cfg lf' = Inr L'" "ledger_le L L'"
    using grows [OF assms(1,3)] by blast
  with row_of_le [OF _ assms(2)] show ?thesis by blast
qed

lemma success_needs_ledger:
  assumes "operation io lf = (lf', Inr x)"
  shows "\<exists>L. load_unlocked env cfg lf = Inr L"
  using fails_closed [OF _ assms] by (cases "load_unlocked env cfg lf") auto

end

text \<open>An operation given by what it decides in its critical section.\<close>

locale ledger_decision =
  fixes env :: py_env and cfg :: ledger_config
    and decide :: "ledger_io \<Rightarrow> ledger_file \<Rightarrow> 'r outcome result"
  assumes decides_loaded: "decide io lf = Inr x \<Longrightarrow> \<exists>L. load_unlocked env cfg lf = Inr L"
    and saves_growth: "decide io lf = Inr (Save L' r) \<Longrightarrow> load_unlocked env cfg lf = Inr L \<Longrightarrow>
      ledger_le L L' \<and> identities_wf L'"
begin

lemma commit_cases:
  assumes "commit env cfg io lf (decide io lf) = (lf', r)"
  obtains (kept) "lf' = lf" "\<And>x. r = Inr x \<Longrightarrow> decide io lf = Inr (Return x)"
  | (saved) L L' x where "load_unlocked env cfg lf = Inr L" "decide io lf = Inr (Save L' x)" "ledger_le L L'"
      "ledger_wf env cfg L'" "lf' = Stored (ledger_json L')" "l_write io \<noteq> FailedBefore"
      "r = (if l_write io = Written then Inr x else Inl os_err)"
proof (cases "decide io lf")
  case (Inl e)
  with assms show ?thesis by (intro kept) (simp_all add: commit_def)
next
  case (Inr d)
  show ?thesis
  proof (cases d)
    case (Return x)
    with Inr assms show ?thesis by (intro kept) (auto simp: commit_def)
  next
    case (Save L' x)
    obtain L where L: "load_unlocked env cfg lf = Inr L" using decides_loaded [OF Inr] by blast
    obtain f q where save: "save_unlocked env cfg io L' lf = (f, q)" by fastforce
    have grow: "ledger_le L L'" "identities_wf L'"
      using saves_growth [OF Inr [unfolded Save] L] by auto
    have res: "lf' = f" "r = (case q of Inl e \<Rightarrow> Inl e | Inr _ \<Rightarrow> Inr x)"
      using assms Inr Save save by (auto simp: commit_def split: sum.splits)
    from grow(2) save show ?thesis
    proof (cases rule: save_unlocked_cases)
      case (kept e)
      with res that(1) show ?thesis by simp
    next
      case stored
      with res L Inr Save grow show ?thesis by (intro that(2)) auto
    qed
  qed
qed

end

sublocale ledger_decision \<subseteq> ledger_operation env cfg "\<lambda>io lf. commit env cfg io lf (decide io lf)"
proof
  fix lf L io lf' r
  assume load: "load_unlocked env cfg lf = Inr L" and op: "commit env cfg io lf (decide io lf) = (lf', r)"
  from op show "\<exists>L'. load_unlocked env cfg lf' = Inr L' \<and> ledger_le L L'"
  proof (cases rule: commit_cases)
    case kept
    with load show ?thesis by auto
  next
    case (saved M M' x)
    with load show ?thesis by (intro exI [of _ M']) (simp add: load_stored_ledger)
  qed
next
  fix io lf lf' e
  assume "commit env cfg io lf (decide io lf) = (lf', Inl e)" "l_write io \<noteq> FailedAfter"
  then show "lf' = lf"
    by (cases rule: commit_cases) (auto split: if_splits, metis write_outcome.exhaust)
next
  fix lf err io lf' r
  assume bad: "load_unlocked env cfg lf = Inl err" and op: "commit env cfg io lf (decide io lf) = (lf', r)"
  obtain e where "decide io lf = Inl e"
    using decides_loaded bad by (cases "decide io lf") fastforce+
  with op show "lf' = lf \<and> (\<exists>e. r = Inl e)" by (auto simp: commit_def)
qed

context ledger_decision
begin

lemma is_operation: "ledger_operation env cfg (\<lambda>io lf. commit env cfg io lf (decide io lf))"
  by unfold_locales

end

section \<open>Every operation meets the contract\<close>

lemma ledger_operationI:
  assumes "ledger_decision env cfg decide" "\<And>io lf. operation io lf = commit env cfg io lf (decide io lf)"
  shows "ledger_operation env cfg operation"
proof -
  have "operation = (\<lambda>io lf. commit env cfg io lf (decide io lf))" by (intro ext assms(2))
  with ledger_decision.is_operation [OF assms(1)] show ?thesis by simp
qed

lemma row_decisionE:
  assumes "row_decision env cfg key n body io lf = Inr d"
  obtains L e g step where "load_unlocked env cfg lf = Inr L" "row_of L key n = Inr (e, g)" "body e g = Inr step"
    "d = (case step of KeepRow \<Rightarrow> Return g | UpdateRow g' \<Rightarrow> Save (put_row L key e n g') g')"
  using assms by (auto simp: row_decision_def elim!: bind_r_InrE)

text \<open>A row update meets the contract when its body only extends the row.\<close>

lemma row_decision_grows:
  assumes "\<And>io e g g'. body io e g = Inr (UpdateRow g') \<Longrightarrow> row_le g g'"
  shows "ledger_decision env cfg (\<lambda>io lf. row_decision env cfg key n (body io) io lf)"
proof
  show "\<exists>L. load_unlocked env cfg lf = Inr L" if "row_decision env cfg key n (body io) io lf = Inr x" for io lf x
    using that by (auto elim: row_decisionE)
  fix io lf L' r L
  assume d: "row_decision env cfg key n (body io) io lf = Inr (Save L' r)" and L: "load_unlocked env cfg lf = Inr L"
  from d obtain e g where row: "row_of L key n = Inr (e, g)" and step: "body io e g = Inr (UpdateRow r)"
    and L': "L' = put_row L key e n r"
    by (rule row_decisionE) (auto simp: L split: row_step.splits)
  have "map_of L key = Some e" using row by (rule row_ofE)
  then have "identity_wf (e_identity e)" using loaded_entry_wf [OF L] by (simp add: entry_wf_def)
  with L show "ledger_le L L' \<and> identities_wf L'"
    using put_row_le [OF row assms [OF step]] ledger_wf_identities [OF load_wf [OF L]]
    by (simp add: L' put_row_def identities_wf_update)
qed

lemma with_row_operation:
  assumes "\<And>io e g g'. body io e g = Inr (UpdateRow g') \<Longrightarrow> row_le g g'"
    and "\<And>io lf. operation io lf = with_row env cfg io key n (body io) lf"
  shows "ledger_operation env cfg operation"
  using row_decision_grows [OF assms(1)] by (rule ledger_operationI) (simp_all add: assms(2) with_row_def)

lemma preallocate_body_le: "preallocate_body candidate now e g = Inr (UpdateRow g') \<Longrightarrow> row_le g g'"
  by (auto simp: preallocate_body_def row_le_def split: if_splits)

lemma link_body_le: "link_body key rid loaded now e g = Inr (UpdateRow g') \<Longrightarrow> row_le g g'"
  by (auto simp: link_body_def row_le_def linked_row_def split: if_splits elim!: bind_r_InrE)

lemma finish_body_le: "finish_body c r cnt b code d now e g = Inr (UpdateRow g') \<Longrightarrow> row_le g g'"
  by (auto simp: finish_body_def row_le_def Let_def bump_stage_def)

lemma advance_body_le: "advance_body stg v p now e g = Inr (UpdateRow g') \<Longrightarrow> row_le g g'"
  by (auto simp: advance_body_def row_le_def split: if_splits)

lemma notified_body_le: "notified_body now e g = Inr (UpdateRow g') \<Longrightarrow> row_le g g'"
  by (auto simp: notified_body_def row_le_def split: if_splits)

interpretation preallocating: ledger_operation env cfg "preallocate_run env cfg candidate key n" for env cfg candidate key n
  by (rule with_row_operation [where key = key and n = n and body = "\<lambda>io. preallocate_body candidate (l_clock io 0)"])
    (auto simp: preallocate_run_def dest: preallocate_body_le)

interpretation linking: ledger_operation env cfg "link_run env cfg rio disk key n rid" for env cfg rio disk key n rid
  by (rule with_row_operation [where key = key and n = n and body = "\<lambda>io. link_body key rid (load env rio rid disk) (l_clock io 0)"])
    (auto simp: link_run_def dest: link_body_le)

interpretation notifying: ledger_operation env cfg "mark_completion_notified env cfg key n" for env cfg key n
  by (rule with_row_operation [where key = key and n = n and body = "\<lambda>io. notified_body (l_clock io 0)"])
    (auto simp: mark_completion_notified_def dest: notified_body_le)

text \<open>An operation that checks its arguments first.\<close>

lemma guarded_operation:
  assumes "ledger_operation env cfg operation"
  shows "ledger_operation env cfg (\<lambda>io lf. if bad then (lf, Inl e) else operation io lf)"
proof (cases bad)
  case True
  then show ?thesis by unfold_locales auto
next
  case False
  with assms show ?thesis by simp
qed

interpretation finishing: ledger_operation env cfg "finish env cfg key n classification retry cnt before code diag"
  for env cfg key n classification retry cnt before code diag
proof -
  have "ledger_operation env cfg (\<lambda>io lf. with_row env cfg io key n
      (finish_body classification retry cnt before code diag (l_clock io 0)) lf)"
    by (rule with_row_operation [where key = key and n = n and
        body = "\<lambda>io. finish_body classification retry cnt before code diag (l_clock io 0)"]) (auto dest: finish_body_le)
  from guarded_operation [OF this] show "ledger_operation env cfg (finish env cfg key n classification retry cnt before code diag)"
    by (simp add: finish_def [abs_def])
qed

interpretation advancing: ledger_operation env cfg "advance_lifecycle env cfg key n stg val pub"
  for env cfg key n stg val pub
proof -
  have "ledger_operation env cfg (\<lambda>io lf. with_row env cfg io key n (advance_body stg val pub (l_clock io 0)) lf)"
    by (rule with_row_operation [where key = key and n = n and body = "\<lambda>io. advance_body stg val pub (l_clock io 0)"])
      (auto dest: advance_body_le)
  from guarded_operation [OF this] show "ledger_operation env cfg (advance_lifecycle env cfg key n stg val pub)"
    by (simp add: advance_lifecycle_def [abs_def])
qed

lemma in_recipe_Inr: "in_recipe code live k = Inr x \<longleftrightarrow> (\<exists>current digest. live = Live current digest \<and> k current digest = Inr x)"
  by (cases live) (auto split: sum.splits)

lemma claim_decision_le:
  assumes "claim_decision cfg now key recipe_id i sha pol det seen_at base L = Inr (Save L' r)"
  shows "map_of L key = None \<and> ledger_le L L' \<and> map_of L' key = Some (cr_record r) \<and> cr_created r \<and> cr_key r = key \<and>
    cr_generation r = 0 \<and> e_recipe_id (cr_record r) = recipe_id \<and> e_recipe_sha256 (cr_record r) = lower sha \<and>
    e_identity (cr_record r) = i \<and> length (e_generations (cr_record r)) = 1 \<and> (identities_wf L \<longrightarrow> identity_wf i \<longrightarrow> identities_wf L')"
proof -
  have none: "map_of L key = None"
    using assms by (simp add: claim_decision_def split: option.splits if_splits)
  note d = assms [unfolded claim_decision_def none option.case Let_def]
  define e where "e = cr_record r"
  have e: "L' = AList.update key e L" "cr_created r" "cr_key r = key" "cr_generation r = 0" "e_recipe_id e = recipe_id"
    "e_recipe_sha256 e = lower sha" "e_identity e = i" "length (e_generations e) = 1"
    using d by (auto simp: e_def new_entry_def split: if_splits)
  have "ledger_le L L'" unfolding e(1) by (rule ledger_le_update) (simp add: none)
  moreover have "map_of L' key = Some e" by (simp add: e(1) update_conv')
  moreover have "identities_wf L \<longrightarrow> identity_wf i \<longrightarrow> identities_wf L'"
    using e by (auto intro: identities_wf_update)
  ultimately show ?thesis using none e by (simp add: e_def)
qed

lemma claim_decidingE:
  assumes "claim_deciding env cfg live recipe_id idoc sha pol det detected base io lf = Inr d"
  obtains i key seen_at L where "normalize_upstream_identity idoc = Inr i"
    "automation_attempt_key env recipe_id (identity_json i) sha = Inr key" "load_unlocked env cfg lf = Inr L"
    "claim_decision cfg (l_clock io) key recipe_id i sha pol det seen_at base L = Inr d"
  using assms unfolding claim_deciding_def in_recipe_Inr bind_r_Inr_iff if_Inl_Inr_iff by blast

interpretation claiming: ledger_decision env cfg "claim_deciding env cfg live recipe_id idoc sha pol det detected base"
  for env cfg live recipe_id idoc sha pol det detected base
proof
  show "\<exists>L. load_unlocked env cfg lf = Inr L"
    if "claim_deciding env cfg live recipe_id idoc sha pol det detected base io lf = Inr x" for io lf x
    using that by (rule claim_decidingE) blast
  show "ledger_le L L' \<and> identities_wf L'"
    if d: "claim_deciding env cfg live recipe_id idoc sha pol det detected base io lf = Inr (Save L' r)"
      and L: "load_unlocked env cfg lf = Inr L" for io lf L' r L
  proof -
    from d obtain i key seen_at where i: "normalize_upstream_identity idoc = Inr i"
      and c: "claim_decision cfg (l_clock io) key recipe_id i sha pol det seen_at base L = Inr (Save L' r)"
      by (rule claim_decidingE) (simp add: L)
    from claim_decision_le [OF c] identity_doc.validate_wf [OF i] ledger_wf_identities [OF load_wf [OF L]]
    show ?thesis by blast
  qed
qed

lemma retry_decision_le:
  assumes "retry_decision now live recipe_id key expected upd L = Inr (Save L' r)"
  obtains e g where "map_of L key = Some e" "retry_duplicate e expected upd = Inr False" "cr_created r" "cr_key r = key"
    "cr_generation r = int (length (e_generations e))" "cr_record r = e\<lparr>e_generations := e_generations e @ [g]\<rparr>"
    "g = new_generation (now 0) (desired_policy (last_generation e)) (detected_at (last_generation e)) (int (length (e_generations e)))"
    "L' = AList.update key (cr_record r) L"
proof -
  obtain e where e: "map_of L key = Some e"
    using assms by (simp add: retry_decision_def split: option.splits)
  note d = assms [unfolded retry_decision_def e option.case]
  from d obtain dup where dup: "retry_duplicate e expected upd = Inr dup"
    and rest: "in_recipe ''automation_recipe_stale'' live (\<lambda>current digest.
              bind_r (retry_recipe_stale e current digest) (\<lambda>stale.
              if stale then Inl (led_err ''automation_recipe_stale'' ''$'')
              else if dup
              then Inr (Return \<lparr>cr_created = False, cr_key = key,
                cr_generation = g_generation (last_generation e), cr_record = e\<rparr>)
              else
                let n = length (e_generations e);
                    e' = e\<lparr>e_generations := e_generations e @
                      [new_generation (now 0) (desired_policy (last_generation e)) (detected_at (last_generation e)) (int n)]\<rparr> in
                Inr (Save (AList.update key e' L)
                  \<lparr>cr_created = True, cr_key = key, cr_generation = int n, cr_record = e'\<rparr>))) = Inr (Save L' r)"
    by (elim result_elims)
  from rest have "\<not> dup" "cr_created r" "cr_key r = key" "cr_generation r = int (length (e_generations e))"
    "cr_record r = e\<lparr>e_generations := e_generations e @
       [new_generation (now 0) (desired_policy (last_generation e)) (detected_at (last_generation e)) (int (length (e_generations e)))]\<rparr>"
    "L' = AList.update key (cr_record r) L"
    unfolding in_recipe_Inr bind_r_Inr_iff Let_def by (auto split: if_splits)
  with that e dup show ?thesis by simp
qed

lemma entry_le_append: "entry_le e (e\<lparr>e_generations := e_generations e @ gs\<rparr>)"
  by (simp add: entry_le_def nth_append)

interpretation retrying: ledger_decision env cfg "retry_deciding env cfg live recipe_id key expected upd"
  for env cfg live recipe_id key expected upd
proof
  show "\<exists>L. load_unlocked env cfg lf = Inr L" if "retry_deciding env cfg live recipe_id key expected upd io lf = Inr x" for io lf x
    using that unfolding retry_deciding_def by (auto elim!: bind_r_InrE)
  show "ledger_le L L' \<and> identities_wf L'"
    if d: "retry_deciding env cfg live recipe_id key expected upd io lf = Inr (Save L' r)"
      and L: "load_unlocked env cfg lf = Inr L" for io lf L' r L
  proof -
    from d have "retry_decision (l_clock io) live recipe_id key expected upd L = Inr (Save L' r)"
      by (auto simp: retry_deciding_def L elim!: bind_r_InrE)
    then obtain e g where e: "map_of L key = Some e" and r: "cr_record r = e\<lparr>e_generations := e_generations e @ [g]\<rparr>"
      and L': "L' = AList.update key (cr_record r) L"
      by (rule retry_decision_le)
    have "identity_wf (e_identity (cr_record r))"
      using loaded_entry_wf [OF L e] by (simp add: r entry_wf_def)
    then show ?thesis
      using ledger_wf_identities [OF load_wf [OF L]] e unfolding L'
      by (auto intro!: ledger_le_update identities_wf_update simp: r entry_le_append)
  qed
qed

interpretation claim_op: ledger_operation env cfg "claim_current_recipe env cfg live recipe_id idoc sha pol det detected base"
  for env cfg live recipe_id idoc sha pol det detected base
  by (rule ledger_operationI [OF claiming.ledger_decision_axioms]) (simp add: claim_current_recipe_def)

interpretation retry_op: ledger_operation env cfg "explicit_retry_current_recipe env cfg live recipe_id key expected upd"
  for env cfg live recipe_id key expected upd
  by (rule ledger_operationI [OF retrying.ledger_decision_axioms]) (simp add: explicit_retry_current_recipe_def)

section \<open>Histories\<close>

text \<open>One call of any operation by any thread or process, with any arguments, Run store and
  filesystem behaviour.\<close>

inductive ledger_step :: "py_env \<Rightarrow> ledger_config \<Rightarrow> ledger_file \<Rightarrow> ledger_file \<Rightarrow> bool" for env cfg where
  step_claim: "claim_current_recipe env cfg live recipe_id idoc sha pol det detected base io lf = (lf', r) \<Longrightarrow>
    ledger_step env cfg lf lf'"
| step_retry: "explicit_retry_current_recipe env cfg live recipe_id key expected upd io lf = (lf', r) \<Longrightarrow>
    ledger_step env cfg lf lf'"
| step_preallocate: "preallocate_run env cfg candidate key n io lf = (lf', r') \<Longrightarrow> ledger_step env cfg lf lf'"
| step_link: "link_run env cfg rio disk key n rid io lf = (lf', r') \<Longrightarrow> ledger_step env cfg lf lf'"
| step_reconcile: "reconcile_preallocated_run env cfg rio key n io (disk, lf) = ((disk', lf'), r'') \<Longrightarrow>
    ledger_step env cfg lf lf'"
| step_finish: "finish env cfg key n classification retry cnt before code diag io lf = (lf', r') \<Longrightarrow>
    ledger_step env cfg lf lf'"
| step_advance: "advance_lifecycle env cfg key n stg val pub io lf = (lf', r') \<Longrightarrow> ledger_step env cfg lf lf'"
| step_notified: "mark_completion_notified env cfg key n io lf = (lf', r') \<Longrightarrow> ledger_step env cfg lf lf'"

lemma reconcile_file:
  assumes "reconcile_preallocated_run env cfg rio key n io (disk, lf) = ((disk', lf'), r)"
  shows "lf' = lf \<or> (\<exists>rid q. link_run env cfg rio disk key n rid io lf = (lf', q))"
  using assms by (auto simp: reconcile_preallocated_run_def split: sum.splits if_splits option.splits prod.splits)

lemma ledger_step_grows:
  assumes "ledger_step env cfg lf lf'" "load_unlocked env cfg lf = Inr L"
  shows "\<exists>L'. load_unlocked env cfg lf' = Inr L' \<and> ledger_le L L'"
  using assms(1)
proof (cases rule: ledger_step.cases)
  case (step_reconcile rio key n io disk disk' r)
  from reconcile_file [OF step_reconcile] show ?thesis
  proof
    assume "lf' = lf"
    with assms(2) show ?thesis by simp
  next
    assume "\<exists>rid q. link_run env cfg rio disk key n rid io lf = (lf', q)"
    then show ?thesis using linking.grows [OF assms(2)] by blast
  qed
qed (erule claim_op.grows [OF assms(2)] retry_op.grows [OF assms(2)] preallocating.grows [OF assms(2)]
    linking.grows [OF assms(2)] finishing.grows [OF assms(2)] advancing.grows [OF assms(2)] notifying.grows [OF assms(2)])+

lemma ledger_steps_grow:
  assumes "(ledger_step env cfg)\<^sup>*\<^sup>* lf lf'" "load_unlocked env cfg lf = Inr L"
  obtains L' where "load_unlocked env cfg lf' = Inr L'" "ledger_le L L'"
proof -
  from assms(1) have "\<exists>L'. load_unlocked env cfg lf' = Inr L' \<and> ledger_le L L'"
  proof (induction rule: rtranclp_induct)
    case base
    then show ?case using assms(2) by blast
  next
    case (step y z)
    then show ?case using ledger_step_grows ledger_le_trans by blast
  qed
  with that show ?thesis by blast
qed

text \<open>After a successful row update the file holds the returned row.\<close>

lemma with_row_success:
  assumes body: "\<And>e g g'. body e g = Inr (UpdateRow g') \<Longrightarrow> row_le g g'"
    and "with_row env cfg io key n body lf = (lf', Inr g')"
  obtains L e g L' e' step where "load_unlocked env cfg lf = Inr L" "row_of L key n = Inr (e, g)" "body e g = Inr step"
    "g' = (case step of KeepRow \<Rightarrow> g | UpdateRow x \<Rightarrow> x)"
    "load_unlocked env cfg lf' = Inr L'" "row_of L' key n = Inr (e', g')" "entry_le e e'"
proof -
  have dec: "ledger_decision env cfg (row_decision env cfg key n body)"
    using row_decision_grows [where body = "\<lambda>_. body", OF body] .
  show ?thesis
    using assms(2) unfolding with_row_def
  proof (cases rule: ledger_decision.commit_cases [OF dec, consumes 1, case_names kept saved])
    case kept
    then have "row_decision env cfg key n body io lf = Inr (Return g')" by simp
    then show ?thesis
    proof (rule row_decisionE)
      fix L e g step
      assume h: "load_unlocked env cfg lf = Inr L" "row_of L key n = Inr (e, g)" "body e g = Inr step"
        "Return g' = (case step of KeepRow \<Rightarrow> Return g | UpdateRow x \<Rightarrow> Save (put_row L key e n x) x)"
      show ?thesis
      proof (rule that [OF h(1-3)])
        show "g' = (case step of KeepRow \<Rightarrow> g | UpdateRow x \<Rightarrow> x)" using h(4) by (simp split: row_step.splits)
        show "load_unlocked env cfg lf' = Inr L" using h(1) kept by simp
        show "row_of L key n = Inr (e, g')" using h(2,4) by (simp split: row_step.splits)
      qed simp
    qed
  next
    case (saved L0 L' x)
    then have x: "g' = x" by (simp split: if_splits)
    from saved(2) show ?thesis
    proof (rule row_decisionE)
      fix L e g step
      assume h: "load_unlocked env cfg lf = Inr L" "row_of L key n = Inr (e, g)" "body e g = Inr step"
        "Save L' x = (case step of KeepRow \<Rightarrow> Return g | UpdateRow x \<Rightarrow> Save (put_row L key e n x) x)"
      from h(4) have step: "step = UpdateRow x" "L' = put_row L key e n x" by (simp_all split: row_step.splits)
      have le: "row_le g x" using body h(3) step by simp
      show ?thesis
      proof (rule that [OF h(1-3)])
        show "g' = (case step of KeepRow \<Rightarrow> g | UpdateRow x \<Rightarrow> x)" using step x by simp
        show "load_unlocked env cfg lf' = Inr L'" using saved by (simp add: load_stored_ledger)
        show "row_of L' key n = Inr (e\<lparr>e_generations := (e_generations e)[nat n := x]\<rparr>, g')"
          using row_of_put_row [OF h(2)] step x by simp
        show "entry_le e (e\<lparr>e_generations := (e_generations e)[nat n := x]\<rparr>)"
          using h(2) le by (elim row_ofE) (simp add: entry_le_put)
      qed
    qed
  qed
qed

text \<open>What a successful claim leaves in the file.\<close>

lemma claim_success:
  assumes "claim_current_recipe env cfg live recipe_id idoc sha pol det detected base io lf = (lf', Inr r)"
  obtains i L L' where "normalize_upstream_identity idoc = Inr i"
    "automation_attempt_key env recipe_id (identity_json i) sha = Inr (cr_key r)"
    "load_unlocked env cfg lf = Inr L" "load_unlocked env cfg lf' = Inr L'" "map_of L' (cr_key r) = Some (cr_record r)"
    "cr_created r \<longleftrightarrow> map_of L (cr_key r) = None" "\<not> cr_created r \<longrightarrow> lf' = lf"
  using assms unfolding claim_current_recipe_def
proof (cases rule: claiming.commit_cases [consumes 1])
  case kept
  then have "claim_deciding env cfg live recipe_id idoc sha pol det detected base io lf = Inr (Return r)" by simp
  then show ?thesis
  proof (rule claim_decidingE)
    fix i key seen_at L
    assume h: "normalize_upstream_identity idoc = Inr i" "automation_attempt_key env recipe_id (identity_json i) sha = Inr key"
      "load_unlocked env cfg lf = Inr L" "claim_decision cfg (l_clock io) key recipe_id i sha pol det seen_at base L = Inr (Return r)"
    from h(4) have "map_of L key = Some (cr_record r) \<and> cr_key r = key \<and> \<not> cr_created r"
      by (auto simp: claim_decision_def Let_def split: option.splits if_splits)
    with h(1-3) kept(1) show ?thesis by (intro that [of i L L]) simp_all
  qed
next
  case (saved L L' x)
  then have x: "r = x" by (simp split: if_splits)
  from saved(2) show ?thesis
  proof (rule claim_decidingE)
    fix i key seen_at M
    assume h: "normalize_upstream_identity idoc = Inr i" "automation_attempt_key env recipe_id (identity_json i) sha = Inr key"
      "load_unlocked env cfg lf = Inr M" "claim_decision cfg (l_clock io) key recipe_id i sha pol det seen_at base M = Inr (Save L' x)"
    have "load_unlocked env cfg lf' = Inr L'" using saved by (simp add: load_stored_ledger)
    with h(1-3) claim_decision_le [OF h(4)] show ?thesis by (intro that [of i M L']) (simp_all add: x)
  qed
qed

lemma ledger_step_closed:
  assumes "ledger_step env cfg lf lf'" "load_unlocked env cfg lf = Inl err"
  shows "lf' = lf"
  using assms(1)
proof (cases rule: ledger_step.cases)
  case (step_reconcile rio key n io disk disk' r)
  then show ?thesis by (simp add: reconcile_preallocated_run_def assms(2))
next
  case step_claim
  from claim_op.fails_closed [OF assms(2) this] show ?thesis by simp
next
  case step_retry
  from retry_op.fails_closed [OF assms(2) this] show ?thesis by simp
next
  case step_preallocate
  from preallocating.fails_closed [OF assms(2) this] show ?thesis by simp
next
  case step_link
  from linking.fails_closed [OF assms(2) this] show ?thesis by simp
next
  case step_finish
  from finishing.fails_closed [OF assms(2) this] show ?thesis by simp
next
  case step_advance
  from advancing.fails_closed [OF assms(2) this] show ?thesis by simp
next
  case step_notified
  from notifying.fails_closed [OF assms(2) this] show ?thesis by simp
qed

text \<open>What \<^verbatim>\<open>link_run\<close> has checked when it accepts.\<close>

lemma verify_run_binding_ok:
  "verify_run_binding key e g run = Inr () \<longleftrightarrow>
     (\<exists>kvs. run = Some kvs \<and> kvs \<noteq> [] \<and> jget kvs ''id'' = opt_str (preallocated_run_id g) \<and>
        jget kvs ''recipe_id'' = JStr (e_recipe_id e) \<and> jget kvs ''recipe_sha256'' = JStr (e_recipe_sha256 e) \<and>
        has_automation kvs \<and> automation_field kvs ''attempt_key'' = JStr key \<and>
        py_eq (automation_field kvs ''generation'') (JInt (g_generation g)) \<and>
        automation_field kvs ''policy'' = JStr (desired_policy g) \<and>
        py_eq (automation_field kvs ''expected_upstream_identity'') (identity_json (e_identity e)))"
  by (simp add: verify_run_binding_def split: option.split list.split)

lemma link_body_ok:
  assumes "link_body key rid loaded now e g = Inr step"
  shows "(run_id g = Some rid \<and> step = KeepRow) \<or>
    (preallocated_run_id g = Some rid \<and>
     (\<exists>run. loaded = Inr (Some run) \<and> jget run ''id'' = JStr rid \<and> jget run ''recipe_id'' = JStr (e_recipe_id e) \<and>
        jget run ''recipe_sha256'' = JStr (e_recipe_sha256 e) \<and> automation_field run ''attempt_key'' = JStr key \<and>
        py_eq (automation_field run ''generation'') (JInt (g_generation g)) \<and>
        automation_field run ''policy'' = JStr (desired_policy g) \<and>
        py_eq (automation_field run ''expected_upstream_identity'') (identity_json (e_identity e))) \<and>
     (\<exists>g'. step = UpdateRow g' \<and> run_id g' = Some rid))"
proof (cases "run_id g = None")
  case False
  with assms show ?thesis by (auto simp: link_body_def split: if_splits)
next
  case True
  then have pre: "preallocated_run_id g = Some rid"
    using assms by (simp add: link_body_def split: if_splits)
  obtain run u where load: "verified_load loaded = Inr run" "verify_run_binding key e g run = Inr u"
    and g': "\<exists>g'. step = UpdateRow g' \<and> run_id g' = Some rid"
    using assms True pre by (auto simp: link_body_def linked_row_def elim!: bind_r_InrE)
  have "loaded = Inr run" using load(1) by (simp add: verified_load_def split: sum.splits)
  moreover have "verify_run_binding key e g run = Inr ()" using load(2) by simp
  then obtain kvs where "run = Some kvs" "jget kvs ''id'' = JStr rid" "jget kvs ''recipe_id'' = JStr (e_recipe_id e)"
    "jget kvs ''recipe_sha256'' = JStr (e_recipe_sha256 e)" "automation_field kvs ''attempt_key'' = JStr key"
    "py_eq (automation_field kvs ''generation'') (JInt (g_generation g))" "automation_field kvs ''policy'' = JStr (desired_policy g)"
    "py_eq (automation_field kvs ''expected_upstream_identity'') (identity_json (e_identity e))"
    using pre unfolding verify_run_binding_ok by auto
  ultimately show ?thesis using pre g' by (intro disjI2 conjI exI [of _ kvs]) simp_all
qed

text \<open>What a successful retry leaves in the file.\<close>

lemma retry_created:
  assumes "explicit_retry_current_recipe env cfg live recipe_id key expected upd io lf = (lf', Inr r)" "cr_created r"
  obtains L e g L' where "load_unlocked env cfg lf = Inr L" "map_of L key = Some e" "retry_duplicate e expected upd = Inr False"
    "load_unlocked env cfg lf' = Inr L'" "map_of L' key = Some (e\<lparr>e_generations := e_generations e @ [g]\<rparr>)"
    "g = new_generation (l_clock io 0) (desired_policy (last_generation e)) (detected_at (last_generation e)) (int (length (e_generations e)))"
  using assms(1) unfolding explicit_retry_current_recipe_def
proof (cases rule: retrying.commit_cases [consumes 1])
  case kept
  then have "retry_deciding env cfg live recipe_id key expected upd io lf = Inr (Return r)" by simp
  then have "\<not> cr_created r"
    by (auto simp: retry_deciding_def retry_decision_def in_recipe_Inr Let_def result_simps split: option.splits if_splits)
  with assms(2) show ?thesis by simp
next
  case (saved L L' x)
  then have "retry_decision (l_clock io) live recipe_id key expected upd L = Inr (Save L' x)"
    by (auto simp: retry_deciding_def elim!: bind_r_InrE)
  then obtain e g where "map_of L key = Some e" "retry_duplicate e expected upd = Inr False"
    "cr_record x = e\<lparr>e_generations := e_generations e @ [g]\<rparr>"
    "g = new_generation (l_clock io 0) (desired_policy (last_generation e)) (detected_at (last_generation e)) (int (length (e_generations e)))"
    "L' = AList.update key (cr_record x) L"
    by (rule retry_decision_le)
  with saved(1,4,5) show ?thesis by (intro that [of L e L' g]) (simp_all add: load_stored_ledger update_conv')
qed

lemma retry_reused:
  assumes "explicit_retry_current_recipe env cfg live recipe_id key expected upd io lf = (lf', Inr r)" "\<not> cr_created r"
  shows "lf' = lf"
  using assms(1) unfolding explicit_retry_current_recipe_def
proof (cases rule: retrying.commit_cases [consumes 1])
  case (saved L L' x)
  then have "retry_decision (l_clock io) live recipe_id key expected upd L = Inr (Save L' x)"
    by (auto simp: retry_deciding_def elim!: bind_r_InrE)
  then have "cr_created x" by (rule retry_decision_le)
  with saved assms(2) show ?thesis by (simp split: if_splits)
qed

lemma last_generation_number:
  assumes "entry_wf env key e"
  shows "g_generation (last_generation e) = int (length (e_generations e)) - 1"
proof -
  have ne: "e_generations e \<noteq> []" using assms by (auto simp: entry_wf_def)
  have "\<forall>i < length (e_generations e). gen_wf env (int i) (e_generations e ! i)"
    using assms by (simp add: entry_wf_def)
  then have "gen_wf env (int (length (e_generations e) - 1)) (e_generations e ! (length (e_generations e) - 1))"
    using ne by (elim allE impE) simp_all
  then show ?thesis using ne by (simp add: gen_wf_def last_generation_def last_conv_nth of_nat_diff Suc_leI)
qed

lemma retry_not_duplicate:
  assumes "entry_wf env key e" "retry_duplicate e (JInt n) upd = Inr False"
  shows "int (length (e_generations e)) = n + 1" "g_state (last_generation e) \<in> {''terminal'', ''retry_delayed'', ''blocked''}"
    "n + 2 \<le> int MAX_GENERATIONS"
proof -
  have d: "g_generation (last_generation e) = n \<and> g_state (last_generation e) \<in> {''terminal'', ''retry_delayed'', ''blocked''} \<and>
      length (e_generations e) < MAX_GENERATIONS"
    using assms(2) by (simp add: retry_duplicate_def Let_def split: if_splits)
  with last_generation_number [OF assms(1)] show "int (length (e_generations e)) = n + 1"
    "g_state (last_generation e) \<in> {''terminal'', ''retry_delayed'', ''blocked''}" "n + 2 \<le> int MAX_GENERATIONS" by simp_all
qed

section \<open>The created Run is the linked Run\<close>

text \<open>The metadata the orchestrator gives a Run for a row.\<close>

definition row_metadata :: "string \<Rightarrow> entry \<Rightarrow> gen \<Rightarrow> json" where
  "row_metadata key e g = automation_json \<lparr>attempt_key = key, generation = g_generation g, policy = desired_policy g,
     expected_upstream_identity = e_identity e\<rparr>"

lemma new_run_automation:
  assumes "new_run env now epoch rid recipe_id mode path sha contract od ad pd = Inr kvs" "ad = automation_json a"
    "identity_wf (expected_upstream_identity a)"
  shows "jget kvs ''id'' = JStr rid \<and> jget kvs ''recipe_id'' = JStr recipe_id \<and> jget kvs ''recipe_sha256'' = JStr sha \<and>
    jget kvs ''automation'' = automation_json a"
proof -
  from assms(1) obtain o' b m steps con limits where origin: "normalize_run_origin od ad = Inr (o', b)"
    and kvs: "kvs = [
          (''schema_version'', JInt 4), (''id'', JStr rid), (''recipe_id'', JStr recipe_id),
          (''recipe_sha256'', JStr sha), (''mode'', JStr mode), (''status'', JStr ''pending''),
          (''created_at'', JStr now), (''created_at_epoch'', JFloat epoch), (''started_at'', JNull),
          (''finished_at'', JNull), (''duration'', JNull), (''workspace'', JStr path),
          (''version'', JObj [(''upstream'', JStr []), (''debian'', JStr [])]),
          (''steps'', JArr steps), (''artifact'', JNull), (''toolchain'', JNull), (''error'', JNull),
          (''events'', JArr []), (''resource_limits'', limits), (''origin'', origin_json o'),
          (''automation'', opt_json automation_json b),
          (''manual_source_provenance'', opt_json identity_json m),
          (''admission_sha256'', JStr (admission_metadata_sha256 env recipe_id sha mode o' b m))]"
    unfolding new_run_def by (elim if_Inl_InrE) (auto elim!: bind_r_InrE)
  have "ad \<noteq> JNull" by (simp add: assms(2) automation_json_def)
  with origin obtain c where c: "normalize_automation ad = Inr c" "b = Some c"
    by (auto simp: normalize_run_origin_def normalize_origin_items_def Let_def elim!: bind_r_InrE
        split: json.splits if_splits)
  have "automation_json c = automation_json a"
    using c(1) assms(3) unfolding assms(2)
    by (auto simp: normalize_automation_def automation_json_def normalize_identity_json split: if_splits elim!: bind_r_InrE)
  with c(2) show ?thesis by (simp add: kvs)
qed

lemma created_run_binds:
  assumes "new_run env now epoch rid (e_recipe_id e) mode path (e_recipe_sha256 e) contract od (row_metadata key e g) pd = Inr kvs"
    and "identity_wf (e_identity e)" "preallocated_run_id g = Some rid"
  shows "verify_run_binding key e g (Some kvs) = Inr ()"
proof -
  have a: "jget kvs ''id'' = JStr rid" "jget kvs ''recipe_id'' = JStr (e_recipe_id e)" "jget kvs ''recipe_sha256'' = JStr (e_recipe_sha256 e)"
    "jget kvs ''automation'' = row_metadata key e g"
    using new_run_automation [OF assms(1) row_metadata_def] assms(2) by (auto simp: row_metadata_def)
  have "py_eq (identity_json (e_identity e)) (identity_json (e_identity e))" by (intro py_eq_refl json_wf_identity)
  with a assms(3) show ?thesis
    unfolding verify_run_binding_ok
    by (intro exI [of _ kvs]) (auto simp: has_automation_def automation_field_def row_metadata_def automation_json_def)
qed

lemma ledger_wf_update:
  assumes "ledger_wf env cfg L" "map_of L key = Some e" "entry_wf env key e'" "e_recipe_id e' = e_recipe_id e"
  shows "ledger_wf env cfg (AList.update key e' L)"
proof -
  have same: "map (\<lambda>ke. e_recipe_id (snd ke)) (AList.update key e' L) = map (\<lambda>ke. e_recipe_id (snd ke)) L"
    using assms(2,4) by (induction L) auto
  have img: "e_recipe_id ` snd ` set M = set (map (\<lambda>ke. e_recipe_id (snd ke)) M)" for M :: ledger by (simp add: image_image)
  have cnt: "recipe_count M rid = length (filter (\<lambda>r. r = rid) (map (\<lambda>ke. e_recipe_id (snd ke)) M))" for M rid
    by (simp add: recipe_count_def filter_map comp_def)
  have len: "length (AList.update key e' L) = length L" using same by (metis length_map)
  have bound: "recipe_count L r \<le> max_attempts_per_recipe cfg" if "r \<in> set (map (\<lambda>ke. e_recipe_id (snd ke)) L)" for r
    using assms(1) that by (auto simp: ledger_wf_def)
  have "recipe_count (AList.update key e' L) (e_recipe_id (snd ke)) \<le> max_attempts_per_recipe cfg"
    if "ke \<in> set (AList.update key e' L)" for ke
  proof -
    have "e_recipe_id (snd ke) \<in> set (map (\<lambda>ke. e_recipe_id (snd ke)) (AList.update key e' L))" using that by simp
    then show ?thesis unfolding same using bound by (simp only: cnt same)
  qed
  moreover have "entry_wf env (fst ke) (snd ke)" if "ke \<in> set (AList.update key e' L)" for ke
    using that assms(1,3) set_AList_update [of key e' L] by (auto simp: ledger_wf_def)
  ultimately show ?thesis
    using assms(1) unfolding ledger_wf_def by (simp only: len img same) blast
qed

lemma put_row_wf:
  assumes "ledger_wf env cfg L" "row_of L key n = Inr (e, g)" "gen_wf env n g'"
  shows "ledger_wf env cfg (put_row L key e n g')"
proof -
  from assms(2) have e: "map_of L key = Some e" "nat n < length (e_generations e)" "0 \<le> n" by (auto elim: row_ofE)
  have wf: "entry_wf env key e" using assms(1) map_of_SomeD [OF e(1)] by (auto simp: ledger_wf_def)
  have "gen_wf env (int i) ((e_generations e)[nat n := g'] ! i)" if "i < length (e_generations e)" for i
    using wf assms(3) that e by (cases "i = nat n") (auto simp: entry_wf_def)
  then have "entry_wf env key (e\<lparr>e_generations := (e_generations e)[nat n := g']\<rparr>)"
    using wf by (simp add: entry_wf_def)
  then show ?thesis unfolding put_row_def by (intro ledger_wf_update [OF assms(1) e(1)]) simp_all
qed

text \<open>The row that \<^verbatim>\<open>link_run\<close> stores is valid when the row waits for its Run.\<close>

lemma waiting_row_stage:
  assumes "gen_wf env n g" "g_state g = ''run_preallocated''" "run_id g = None"
  shows "validation_attempt_id g = None \<and> publication_attempt_id g = None"
proof -
  obtain rid where pre: "preallocated_run_id g = Some rid" using gen_wf_links(4) [OF assms(1,2)] by blast
  have s: "\<forall>c \<in> set (stage_checks [] (g_state g) (stage g) (run_id g) (preallocated_run_id g)
        (validation_attempt_id g) (publication_attempt_id g)). \<not> fst c"
    and stg: "stage g \<in> set STAGES"
    using assms(1) unfolding gen_wf_def links_wf_def raise_first_ok by auto
  have "stage g = ''run_admission''"
    using stg s unfolding stage_checks_def STAGES_def assms(2,3) pre by simp
  with s show ?thesis unfolding stage_checks_def assms(3) pre by simp
qed

lemma linked_row_wf:
  assumes "gen_wf env n g" "g_state g = ''run_preallocated''" "run_id g = None" "preallocated_run_id g = Some rid" "time_wf env now"
  shows "gen_wf env n (linked_row rid now g)"
proof -
  have l: "\<forall>c \<in> set (link_checks [] (g_state g) (desired_policy g) (terminal_classification g) (retry_class g)
        (run_id g) (preallocated_run_id g) (not_before g \<noteq> None)). \<not> fst c"
    using assms(1) unfolding gen_wf_def links_wf_def raise_first_ok by auto
  have name: "list_all is_name_char rid" and pol: "desired_policy g \<noteq> ''detect''"
    using l unfolding link_checks_def assms(2,3,4) by simp_all
  have notified: "\<not> completion_notified g" using gen_wf_links(6) [OF assms(1)] assms(2) by auto
  have short: "text_bounded 128 (Some rid)" using assms(1,4) by (simp add: gen_wf_def links_wf_def)
  have enums: "enums_wf (linked_row rid now g)"
    using assms(1) by (simp add: gen_wf_def enums_wf_def linked_row_def STATES_def RETRY_CLASSES_def)
  have links: "links_wf (linked_row rid now g)"
    using short name pol waiting_row_stage [OF assms(1-3)]
    by (simp add: links_wf_def linked_row_def assms(4) link_checks_def stage_checks_def STAGES_def text_bounded_def)
  have rest: "rest_wf env (linked_row rid now g)"
    using assms(1,5) notified by (simp add: gen_wf_def rest_wf_def linked_row_def code_wf_def text_bounded_def)
  show ?thesis using enums links rest assms(1) by (simp add: gen_wf_def linked_row_def)
qed

lemma link_run_succeeds:
  assumes "load_unlocked env cfg lf = Inr L" "row_of L key n = Inr (e, g)"
    and "g_state g = ''run_preallocated''" "run_id g = None" "preallocated_run_id g = Some rid"
    and "load env rio rid disk = Inr (Some kvs)" "verify_run_binding key e g (Some kvs) = Inr ()"
    and "l_lock io = LockTaken" "l_write io = Written" "time_wf env (l_clock io 0)"
    and "length (encoded_ledger (put_row L key e n (linked_row rid (l_clock io 0) g))) \<le> MAX_LEDGER_BYTES"
  shows "link_run env cfg rio disk key n rid io lf =
    (Stored (ledger_json (put_row L key e n (linked_row rid (l_clock io 0) g))), Inr (linked_row rid (l_clock io 0) g))"
proof -
  let ?g = "linked_row rid (l_clock io 0) g"
  have "ledger_wf env cfg (put_row L key e n ?g)"
    by (rule put_row_wf [OF load_wf [OF assms(1)] assms(2) linked_row_wf [OF loaded_row_wf [OF assms(1,2)] assms(3-5,10)]])
  then have "save_unlocked env cfg io (put_row L key e n ?g) lf = (Stored (ledger_json (put_row L key e n ?g)), Inr ())"
    using assms(9,11) by (simp add: save_unlocked_def ledger_doc.validate_render)
  moreover have "link_body key rid (load env rio rid disk) (l_clock io 0) e g = Inr (UpdateRow ?g)"
    using assms(4-7) by (simp add: link_body_def verified_load_def)
  ultimately show ?thesis
    using assms(1,2,8) by (simp add: link_run_def with_row_def row_decision_def ledger_locked_def commit_def)
qed

section \<open>The size of a stored ledger\<close>

text \<open>A bound on the length of \<^verbatim>\<open>json.dumps(..., indent=2)\<close> that ignores the order of
  the keys and the escapes that do not occur.\<close>

fun text_weight :: "nat \<Rightarrow> json \<Rightarrow> nat" where
  "text_weight n (JArr xs) = sum_list (map (\<lambda>x. n + 2 + 2 + text_weight (n + 2) x) xs) + n + 3"
| "text_weight n (JObj kvs) = sum_list (map (\<lambda>kv. n + 8 + 6 * length (fst kv) + text_weight (n + 2) (snd kv)) kvs) + n + 3"
| "text_weight n (JInt i) = nat \<bar>i\<bar> + 2"
| "text_weight n (JStr s) = 6 * length s + 2"
| "text_weight n v = 5"

lemma length_quote: "length (quote s) \<le> 6 * length s + 2"
proof -
  have esc: "length (esc_char c) \<le> 6" for c by (simp add: esc_char_def)
  have "length (concat (map esc_char s)) \<le> 6 * length s"
    by (induction s) (use esc in \<open>auto intro: add_mono\<close>)
  then show ?thesis by (simp add: quote_def)
qed

lemma length_digits_of: "length (digits_of n) \<le> n + 1"
proof (induction n rule: digits_of.induct)
  case (1 n)
  then show ?case by (subst digits_of.simps) auto
qed

lemma length_str_int: "length (str_int i) \<le> nat \<bar>i\<bar> + 2"
  using length_digits_of [of "nat \<bar>i\<bar>"] by (auto simp: str_int_def)

lemma length_join_lines: "length (join_lines n xs) \<le> sum_list (map (\<lambda>x. n + 2 + length x) xs)"
  by (induction n xs rule: join_lines.induct) (auto simp: new_line_def)

lemma sum_list_sort_key: "sum_list (map f (sort_key k xs)) = sum_list (map f xs :: nat list)"
proof -
  have "sum_list (map f (insort_key k x ys)) = f x + sum_list (map f ys)" for x ys by (induction ys) auto
  then show ?thesis by (induction xs) auto
qed

lemma length_dumps_indent: "no_float v \<Longrightarrow> length (dumps_indent n v) \<le> text_weight n v"
proof (induction n v rule: dumps_indent.induct)
  case (1 n xs)
  have "sum_list (map (\<lambda>x. n + 2 + 2 + length (dumps_indent (n + 2) x)) xs) \<le>
      sum_list (map (\<lambda>x. n + 2 + 2 + text_weight (n + 2) x) xs)"
    using 1 by (intro sum_list_mono) (cases xs, auto)
  moreover have "length (join_lines (n + 2) (map (dumps_indent (n + 2)) xs)) \<le>
      sum_list (map (\<lambda>x. n + 2 + 2 + length (dumps_indent (n + 2) x)) xs)"
    using length_join_lines [of "n + 2" "map (dumps_indent (n + 2)) xs"] by (simp only: map_map comp_def)
  ultimately show ?case by (simp add: new_line_def)
next
  case (2 n kvs)
  let ?f = "\<lambda>kv. quote (fst kv) @ '': '' @ dumps_indent (n + 2) (snd kv)"
  have line: "n + 2 + 2 + length (?f kv) \<le> n + 8 + 6 * length (fst kv) + text_weight (n + 2) (snd kv)" if "kv \<in> set kvs" for kv
  proof -
    have "length (dumps_indent (n + 2) (snd kv)) \<le> text_weight (n + 2) (snd kv)"
      using 2(1) [of kv] 2(2) that by (cases "kvs = []") auto
    with length_quote [of "fst kv"] show ?thesis by simp
  qed
  have "length (join_lines (n + 2) (map ?f (sort_key fst kvs))) \<le> sum_list (map (\<lambda>kv. n + 2 + 2 + length (?f kv)) (sort_key fst kvs))"
    using length_join_lines [of "n + 2" "map ?f (sort_key fst kvs)"] by (simp only: map_map comp_def)
  also have "\<dots> = sum_list (map (\<lambda>kv. n + 2 + 2 + length (?f kv)) kvs)"
    by (rule sum_list_sort_key)
  also have "\<dots> \<le> sum_list (map (\<lambda>kv. n + 8 + 6 * length (fst kv) + text_weight (n + 2) (snd kv)) kvs)"
    by (intro sum_list_mono line)
  finally show ?case by (simp add: new_line_def)
qed (use length_quote length_str_int in \<open>auto simp: numeral_2_eq_2\<close>)

lemma length_utf8: "length (utf8 s) \<le> 2 * length s"
  by (induction s) (auto simp: utf8_def utf8_char_def)

lemma encoded_ledger_bound:
  assumes "no_float (ledger_json L)" "2 * text_weight 0 (ledger_json L) + 2 \<le> MAX_LEDGER_BYTES"
  shows "length (encoded_ledger L) \<le> MAX_LEDGER_BYTES"
  using length_dumps_indent [OF assms(1), of 0] length_utf8 [of "dumps_indent 0 (ledger_json L) @ [char_of (10 :: nat)]"] assms(2)
  by (simp add: encoded_ledger_def)

lemma no_float_ledger: "no_float (ledger_json L)"
proof -
  have [simp]: "no_float (opt_str x)" for x by (cases x) auto
  have "no_float (gen_json g)" for g by (simp add: gen_json_def gen_items_def)
  then have "no_float (entry_json k e)" for k e by (auto simp: entry_json_def identity_json_no_float)
  then show ?thesis by (auto simp: ledger_json_def)
qed

section \<open>A concrete history\<close>

definition fine_ledger_io :: ledger_io where
  "fine_ledger_io = \<lparr>l_lock = LockTaken, l_write = Written, l_clock = (\<lambda>_. ''t'')\<rparr>"

abbreviation sample_cfg :: ledger_config where "sample_cfg \<equiv> ledger_config 8 8"

abbreviation sample_file :: "gen list \<Rightarrow> ledger_file" where
  "sample_file gs \<equiv> Stored (ledger_json [(sample_key, sample_entry gs)])"

definition sample_recipe :: live_recipe where
  "sample_recipe = Live [(''name'', JStr ''app''), (''active'', JBool True),
     (''automation'', JObj [(''enabled'', JBool True), (''policy'', JStr ''full'')])] (Inr (replicate 64 (CHR ''a'')))"

definition stopped_row :: gen where
  "stopped_row = sample_row\<lparr>g_state := ''terminal'', stage := ''terminal'', terminal_classification := Some ''cancelled''\<rparr>"

definition preallocated_row :: gen where
  "preallocated_row = sample_row\<lparr>g_state := ''run_preallocated'', stage := ''run_admission'',
     preallocated_run_id := Some ''run-1''\<rparr>"

lemma sample_rows_wf: "gen_wf clock_env 0 stopped_row" "gen_wf clock_env 0 preallocated_row"
  "gen_wf clock_env 1 (sample_row\<lparr>g_generation := 1\<rparr>)" "gen_wf clock_env 0 (stopped_row\<lparr>completion_notified := True\<rparr>)"
  "gen_wf clock_env 0 (preallocated_row\<lparr>run_id := Some ''run-1'', g_state := ''admitted'', stage := ''run''\<rparr>)"
  by (simp_all add: stopped_row_def preallocated_row_def sample_row_def row_wf_defs char_defs)

lemma sample_load: "\<forall>i < length gs. gen_wf clock_env (int i) (gs ! i) \<Longrightarrow> gs \<noteq> [] \<Longrightarrow> length gs \<le> 8 \<Longrightarrow>
    load_unlocked clock_env sample_cfg (sample_file gs) = Inr [(sample_key, sample_entry gs)]"
  by (intro load_stored_ledger sample_ledger_wf)

lemma sample_fits:
  assumes "sum_list (map (\<lambda>g. 2 * text_weight (0 + 2 + 2 + 2 + 2) (gen_json g) + 20) gs) < 10000000"
  shows "length (encoded_ledger [(sample_key, sample_entry gs)]) \<le> MAX_LEDGER_BYTES"
proof (rule encoded_ledger_bound [OF no_float_ledger])
  have i: "text_weight (0 + 2 + 2 + 2) (identity_json sample_identity) < 1200000"
    by (simp add: identity_json_def identity_items_def completeness_def sample_complete identity_complete_def)
      (simp add: sample_identity_def)
  have "2 * sum_list (map (\<lambda>g. 0 + 2 + 2 + 2 + 2 + 2 + text_weight (0 + 2 + 2 + 2 + 2) (gen_json g)) gs) =
      sum_list (map (\<lambda>g. 2 * text_weight (0 + 2 + 2 + 2 + 2) (gen_json g) + 20) gs)"
    by (induction gs) auto
  with i assms show "2 * text_weight 0 (ledger_json [(sample_key, sample_entry gs)]) + 2 \<le> MAX_LEDGER_BYTES"
    by (simp add: ledger_json_def entry_json_def sample_entry_def sample_key_def MAX_LEDGER_BYTES_def comp_def)
qed

lemma sample_save:
  assumes "\<forall>i < length gs. gen_wf clock_env (int i) (gs ! i)" "gs \<noteq> []" "length gs \<le> 8"
    and "sum_list (map (\<lambda>g. 2 * text_weight (0 + 2 + 2 + 2 + 2) (gen_json g) + 20) gs) < 10000000"
  shows "save_unlocked clock_env sample_cfg fine_ledger_io [(sample_key, sample_entry gs)] lf = (sample_file gs, Inr ())"
  using sample_ledger_wf [OF assms(2,3,1)] sample_fits [OF assms(4)]
  by (simp add: save_unlocked_def ledger_doc.validate_render fine_ledger_io_def)

lemma sample_claim:
  "claim_current_recipe clock_env sample_cfg sample_recipe ''app'' (JObj sample_asset) (replicate 64 (CHR ''a'')) ''full''
     False None False fine_ledger_io Absent =
   (sample_file [sample_row],
    Inr \<lparr>cr_created = True, cr_key = sample_key, cr_generation = 0, cr_record = sample_entry [sample_row]\<rparr>)"
proof -
  have low: "lower (replicate 64 (CHR ''a'')) = replicate 64 (CHR ''a'')" by (rule lower_hex) (simp add: list_all_iff char_defs)
  have entry: "new_entry ''t'' ''app'' (replicate 64 (CHR ''a'')) sample_identity ''full'' ''t'' = sample_entry [sample_row]"
    by (simp add: new_entry_def sample_entry_def new_generation_def sample_row_def low)
  have dec: "claim_decision sample_cfg (\<lambda>_. ''t'') sample_key ''app'' sample_identity (replicate 64 (CHR ''a'')) ''full'' False ''t'' False [] =
      Inr (Save [(sample_key, sample_entry [sample_row])]
        \<lparr>cr_created = True, cr_key = sample_key, cr_generation = 0, cr_record = sample_entry [sample_row]\<rparr>)"
    by (simp add: claim_decision_def entry ledger_config_def MAX_ATTEMPTS_def MAX_ATTEMPTS_PER_RECIPE_def recipe_count_def Let_def)
  have stale: "claim_recipe_stale ''app'' (replicate 64 (CHR ''a'')) ''full'' [(''name'', JStr ''app''), (''active'', JBool True),
     (''automation'', JObj [(''enabled'', JBool True), (''policy'', JStr ''full'')])] (Inr (replicate 64 (CHR ''a''))) = Inr False"
    by (simp add: claim_recipe_stale_def has_automation_def automation_field_def low)
  have time: "ledger_timestamp clock_env ''$.detected_at'' (JStr ''t'') = Inr ''t''"
    by (rule ledger_timestamp_JStr) (simp add: time_wf_def clock_env_def)
  have "claim_deciding clock_env sample_cfg sample_recipe ''app'' (JObj sample_asset) (replicate 64 (CHR ''a'')) ''full''
      False None False fine_ledger_io Absent = Inr (Save [(sample_key, sample_entry [sample_row])]
        \<lparr>cr_created = True, cr_key = sample_key, cr_generation = 0, cr_record = sample_entry [sample_row]\<rparr>)"
    by (simp add: claim_deciding_def POLICIES_def sample_normalized sample_attempt_key fine_ledger_io_def time ledger_locked_def
        sample_recipe_def stale load_unlocked_def dec)
  then show ?thesis
    using sample_save [of "[sample_row]" Absent]
    by (simp add: claim_current_recipe_def commit_def sample_row_wf) (simp add: gen_json_def gen_items_def sample_row_def)
qed

lemma sample_retry:
  "explicit_retry_current_recipe clock_env sample_cfg sample_recipe ''app'' sample_key (JInt 0) None fine_ledger_io
     (sample_file [stopped_row]) =
   (sample_file [stopped_row, sample_row\<lparr>g_generation := 1\<rparr>],
    Inr \<lparr>cr_created = True, cr_key = sample_key, cr_generation = 1,
      cr_record = sample_entry [stopped_row, sample_row\<lparr>g_generation := 1\<rparr>]\<rparr>)"
proof -
  have load: "load_unlocked clock_env sample_cfg (sample_file [stopped_row]) = Inr [(sample_key, sample_entry [stopped_row])]"
    by (rule sample_load) (simp_all add: sample_rows_wf)
  have dup: "retry_duplicate (sample_entry [stopped_row]) (JInt 0) None = Inr False"
    by (simp add: retry_duplicate_def sample_entry_def last_generation_def stopped_row_def sample_row_def MAX_GENERATIONS_def)
  have stale: "retry_recipe_stale (sample_entry [stopped_row]) [(''name'', JStr ''app''), (''active'', JBool True),
     (''automation'', JObj [(''enabled'', JBool True), (''policy'', JStr ''full'')])] (Inr (replicate 64 (CHR ''a''))) = Inr False"
    by (simp add: retry_recipe_stale_def has_automation_def automation_field_def sample_entry_def last_generation_def
        stopped_row_def sample_row_def)
  have new: "new_generation ''t'' (desired_policy (last_generation (sample_entry [stopped_row])))
      (detected_at (last_generation (sample_entry [stopped_row]))) 1 = sample_row\<lparr>g_generation := 1\<rparr>"
    by (simp add: new_generation_def sample_entry_def last_generation_def stopped_row_def sample_row_def)
  have "retry_decision (\<lambda>_. ''t'') sample_recipe ''app'' sample_key (JInt 0) None [(sample_key, sample_entry [stopped_row])] =
      Inr (Save [(sample_key, sample_entry [stopped_row, sample_row\<lparr>g_generation := 1\<rparr>])]
        \<lparr>cr_created = True, cr_key = sample_key, cr_generation = 1,
          cr_record = sample_entry [stopped_row, sample_row\<lparr>g_generation := 1\<rparr>]\<rparr>)"
    using new by (simp add: retry_decision_def newest_key_def attempt_order_def dup sample_recipe_def stale Let_def)
      (simp add: sample_entry_def)
  then have dec: "retry_deciding clock_env sample_cfg sample_recipe ''app'' sample_key (JInt 0) None fine_ledger_io (sample_file [stopped_row]) =
      Inr (Save [(sample_key, sample_entry [stopped_row, sample_row\<lparr>g_generation := 1\<rparr>])]
        \<lparr>cr_created = True, cr_key = sample_key, cr_generation = 1,
          cr_record = sample_entry [stopped_row, sample_row\<lparr>g_generation := 1\<rparr>]\<rparr>)"
    by (simp add: retry_deciding_def load) (simp add: fine_ledger_io_def ledger_locked_def)
  have "save_unlocked clock_env sample_cfg fine_ledger_io [(sample_key, sample_entry [stopped_row, sample_row\<lparr>g_generation := 1\<rparr>])]
      (sample_file [stopped_row]) = (sample_file [stopped_row, sample_row\<lparr>g_generation := 1\<rparr>], Inr ())"
  proof (rule sample_save)
    show "\<forall>i < length [stopped_row, sample_row\<lparr>g_generation := 1\<rparr>].
        gen_wf clock_env (int i) ([stopped_row, sample_row\<lparr>g_generation := 1\<rparr>] ! i)"
      using sample_rows_wf(1,3) by (simp add: All_less_Suc2)
  qed (simp_all add: gen_json_def gen_items_def stopped_row_def sample_row_def)
  with dec show ?thesis by (simp add: explicit_retry_current_recipe_def commit_def)
qed

text \<open>A Run on disk that was created for the preallocated row.\<close>

definition automation_origin :: json where
  "automation_origin = JObj [(''kind'', JStr ''automation''), (''trigger'', JStr ''upstream_change''), (''reason'', JStr ''new_release'')]"

definition sample_created :: "doc result" where
  "sample_created = new_run clock_env ''t'' 0 ''run-1'' ''app'' ''build'' ''/w/run-1'' (replicate 64 (CHR ''a'')) JNull
     automation_origin (row_metadata sample_key (sample_entry [preallocated_row]) preallocated_row) JNull"

lemma sample_created_ok: "\<exists>kvs. sample_created = Inr kvs"
proof -
  let ?a = "\<lparr>attempt_key = sample_key, generation = 0, policy = ''full'', expected_upstream_identity = sample_identity\<rparr>"
  have meta: "row_metadata sample_key (sample_entry [preallocated_row]) preallocated_row = automation_json ?a"
    by (simp add: row_metadata_def sample_entry_def preallocated_row_def sample_row_def)
  have "automation_wf ?a"
    using identity_doc.validate_wf [OF sample_normalized] sample_key_ok
    by (simp add: automation_wf_def AUTOMATION_POLICIES_def identity_complete_def sample_complete)
  then have norm: "normalize_automation (automation_json ?a) = Inr ?a" by (rule normalize_automation_json)
  have origin: "normalize_run_origin automation_origin (automation_json ?a) =
      Inr (\<lparr>kind_of_origin = ''automation'', trigger = ''upstream_change'', reason = Some ''new_release''\<rparr>, Some ?a)"
    by (simp add: normalize_run_origin_def normalize_origin_items_def automation_origin_def same_keys_def RUN_ORIGINS_def norm
        bounded_optional_text_def origin_checks_def RUN_TRIGGERS_def RUN_REASONS_def char_defs Let_def)
  obtain c where c: "default_contract = Inr c" "validate_contract ''$.resource_limits'' c = Inr c"
    using default_contract_accepted [of "''$.resource_limits''"] by blast
  obtain steps where steps: "map_r new_step STEP_NAMES = Inr steps"
    by (simp add: STEP_NAMES_def new_step_def)
  show ?thesis
    unfolding sample_created_def meta
    by (simp add: new_run_def origin normalize_manual_source_provenance_def require_bound_automation_def sample_attempt_key
        require_automation_mode_def steps c)
qed

definition sample_run_disk :: disk where
  "sample_run_disk = [''run-1'' \<mapsto> \<lparr>plain_dir = True, run_file = Parsed (JObj (projr sample_created))\<rparr>]"

lemma sample_run_load:
  "load clock_env io_fine ''run-1'' sample_run_disk = Inr (Some (projr sample_created))"
proof -
  obtain kvs where kvs: "sample_created = Inr kvs" using sample_created_ok by blast
  have "validate_run clock_env (JObj kvs) = Inr kvs"
    using new_run_wf [OF kvs [unfolded sample_created_def]] by (blast intro: run_doc.validate_render)
  then show ?thesis
    by (simp add: load_def sample_run_disk_def run_dir_def safe_name_def char_defs kvs io_fine_def)
qed

lemma sample_linked:
  "link_run clock_env sample_cfg io_fine sample_run_disk sample_key 0 ''run-1'' fine_ledger_io (sample_file [preallocated_row]) =
     (sample_file [linked_row ''run-1'' ''t'' preallocated_row], Inr (linked_row ''run-1'' ''t'' preallocated_row))"
proof -
  let ?e = "sample_entry [preallocated_row]"
  have load: "load_unlocked clock_env sample_cfg (sample_file [preallocated_row]) = Inr [(sample_key, ?e)]"
    by (rule sample_load) (simp_all add: sample_rows_wf)
  have row: "row_of [(sample_key, ?e)] sample_key 0 = Inr (?e, preallocated_row)"
    by (simp add: row_of_def sample_entry_def)
  have g: "g_state preallocated_row = ''run_preallocated''" "run_id preallocated_row = None"
    "preallocated_run_id preallocated_row = Some ''run-1''"
    by (simp_all add: preallocated_row_def sample_row_def)
  obtain kvs where kvs: "sample_created = Inr kvs" using sample_created_ok by blast
  have bind: "verify_run_binding sample_key ?e preallocated_row (Some (projr sample_created)) = Inr ()"
    using created_run_binds [of clock_env "''t''" 0 "''run-1''" ?e "''build''" "''/w/run-1''" JNull automation_origin sample_key
        preallocated_row JNull kvs] kvs g(3) identity_doc.validate_wf [OF sample_normalized]
    by (simp add: sample_created_def sample_entry_def)
  have put: "put_row [(sample_key, ?e)] sample_key ?e 0 (linked_row ''run-1'' ''t'' preallocated_row) =
      [(sample_key, sample_entry [linked_row ''run-1'' ''t'' preallocated_row])]"
    by (simp add: put_row_def sample_entry_def)
  have io: "l_lock fine_ledger_io = LockTaken" "l_write fine_ledger_io = Written" "l_clock fine_ledger_io 0 = ''t''"
    by (simp_all add: fine_ledger_io_def)
  have fits: "length (encoded_ledger [(sample_key, sample_entry [linked_row ''run-1'' ''t'' preallocated_row])]) \<le> MAX_LEDGER_BYTES"
    by (rule sample_fits) (simp add: gen_json_def gen_items_def linked_row_def preallocated_row_def sample_row_def)
  show ?thesis
    using link_run_succeeds [OF load row g sample_run_load bind io(1,2)] fits
    by (simp add: io put time_wf_def clock_env_def)
qed

section \<open>Properties\<close>

text \<open>C13: the ledger is an append-only record.  Whatever operations run, by whichever
  threads or processes, with whatever arguments and storage failures, a ledger that could
  be loaded can still be loaded, is within its bounds, and extends the old one: every
  attempt key is still there with the same Recipe, digest and identity, no generation is
  removed or renumbered, and the policy, the preallocated Run, the linked Run and the
  notification mark of a generation are never taken back.\<close>

theorem ledger_history_durable:
  assumes "(ledger_step env cfg)\<^sup>*\<^sup>* lf lf'" "load_unlocked env cfg lf = Inr L"
  shows "\<exists>L'. load_unlocked env cfg lf' = Inr L' \<and> ledger_wf env cfg L' \<and> ledger_le L L'"
  using assms by (rule ledger_steps_grow) (auto intro: load_wf)

theorem ledger_history_durable_witness:
  "\<exists>lf' L'. ledger_step clock_env sample_cfg (sample_file [stopped_row]) lf' \<and> lf' \<noteq> sample_file [stopped_row] \<and>
     load_unlocked clock_env sample_cfg lf' = Inr L' \<and> ledger_le [(sample_key, sample_entry [stopped_row])] L'"
proof -
  let ?new = "sample_file [stopped_row, sample_row\<lparr>g_generation := 1\<rparr>]"
  have step: "ledger_step clock_env sample_cfg (sample_file [stopped_row]) ?new"
    by (rule step_retry [OF sample_retry])
  have load: "load_unlocked clock_env sample_cfg (sample_file [stopped_row]) = Inr [(sample_key, sample_entry [stopped_row])]"
    by (rule sample_load) (simp_all add: sample_rows_wf)
  have "?new \<noteq> sample_file [stopped_row]"
    by (simp add: ledger_json_def entry_json_def sample_entry_def)
  with ledger_history_durable [OF r_into_rtranclp [of "ledger_step clock_env sample_cfg", OF step] load] step
  show ?thesis by blast
qed

text \<open>C14: an upstream change is claimed once.  After a claim of a Recipe revision and an
  upstream identity has succeeded, and whatever happened to the ledger since, another
  successful claim of the same revision and identity reports the existing attempt and
  writes nothing.\<close>

theorem claim_created_once:
  assumes "claim_current_recipe env cfg live recipe_id idoc sha pol det detected base io lf = (lf1, Inr r1)"
    and "(ledger_step env cfg)\<^sup>*\<^sup>* lf1 lf2"
    and "claim_current_recipe env cfg live' recipe_id idoc sha pol' det' detected' base' io' lf2 = (lf3, Inr r2)"
  shows "\<not> cr_created r2 \<and> lf3 = lf2 \<and> cr_key r2 = cr_key r1 \<and> entry_le (cr_record r1) (cr_record r2)"
proof -
  obtain i L1 where i: "normalize_upstream_identity idoc = Inr i"
    and key: "automation_attempt_key env recipe_id (identity_json i) sha = Inr (cr_key r1)"
    and L1: "load_unlocked env cfg lf1 = Inr L1" "map_of L1 (cr_key r1) = Some (cr_record r1)"
    using assms(1) by (rule claim_success)
  obtain L2 where L2: "load_unlocked env cfg lf2 = Inr L2" "ledger_le L1 L2"
    using assms(2) L1(1) by (rule ledger_steps_grow)
  obtain j M M' where j: "normalize_upstream_identity idoc = Inr j"
    and key': "automation_attempt_key env recipe_id (identity_json j) sha = Inr (cr_key r2)"
    and M: "load_unlocked env cfg lf2 = Inr M" "load_unlocked env cfg lf3 = Inr M'" "map_of M' (cr_key r2) = Some (cr_record r2)"
      "cr_created r2 \<longleftrightarrow> map_of M (cr_key r2) = None" "\<not> cr_created r2 \<longrightarrow> lf3 = lf2"
    using assms(3) by (rule claim_success)
  have same: "cr_key r2 = cr_key r1" using i j key key' by simp
  obtain e where "map_of L2 (cr_key r1) = Some e" "entry_le (cr_record r1) e"
    using L1(2) L2(2) by (auto simp: ledger_le_def)
  with M L2(1) same show ?thesis by auto
qed

theorem claim_created_once_witness:
  "\<exists>r1 lf1. claim_current_recipe clock_env sample_cfg sample_recipe ''app'' (JObj sample_asset) (replicate 64 (CHR ''a'')) ''full''
     False None False fine_ledger_io Absent = (lf1, Inr r1) \<and> cr_created r1 \<and>
   (\<forall>lf3 r2. claim_current_recipe clock_env sample_cfg sample_recipe ''app'' (JObj sample_asset) (replicate 64 (CHR ''a'')) ''full''
     False None False fine_ledger_io lf1 = (lf3, Inr r2) \<longrightarrow> \<not> cr_created r2)"
  using sample_claim claim_created_once [OF sample_claim rtranclp.rtrancl_refl] by fastforce

text \<open>C16: a retry request appends one generation.  It succeeds as created only when the
  newest attempt's latest generation is the expected one and has stopped; the ledger then
  has exactly one more, freshly claimed generation, at most eight in all; and after
  that, whatever happened since, a request with the same expected generation that succeeds
  reuses the generation and writes nothing.\<close>

theorem retry_appends_once:
  assumes "explicit_retry_current_recipe env cfg live recipe_id key (JInt n) upd io lf = (lf1, Inr r1)" "cr_created r1"
  shows "(\<exists>L e g L1. load_unlocked env cfg lf = Inr L \<and> map_of L key = Some e \<and> int (length (e_generations e)) = n + 1 \<and>
      g_state (last_generation e) \<in> {''terminal'', ''retry_delayed'', ''blocked''} \<and>
      load_unlocked env cfg lf1 = Inr L1 \<and> map_of L1 key = Some (e\<lparr>e_generations := e_generations e @ [g]\<rparr>) \<and>
      g_state g = ''claimed'' \<and> g_generation g = n + 1 \<and> desired_policy g = desired_policy (last_generation e) \<and>
      n + 2 \<le> int MAX_GENERATIONS) \<and>
    (\<forall>lf2 live' upd' io' lf3 r2. (ledger_step env cfg)\<^sup>*\<^sup>* lf1 lf2 \<longrightarrow>
       explicit_retry_current_recipe env cfg live' recipe_id key (JInt n) upd' io' lf2 = (lf3, Inr r2) \<longrightarrow>
       \<not> cr_created r2 \<and> lf3 = lf2)"
proof -
  obtain L e g L1 where saved: "load_unlocked env cfg lf = Inr L" "map_of L key = Some e" "retry_duplicate e (JInt n) upd = Inr False"
    "load_unlocked env cfg lf1 = Inr L1" "map_of L1 key = Some (e\<lparr>e_generations := e_generations e @ [g]\<rparr>)"
    and g: "g = new_generation (l_clock io 0) (desired_policy (last_generation e)) (detected_at (last_generation e)) (int (length (e_generations e)))"
    using retry_created [OF assms] .
  note n = retry_not_duplicate [OF loaded_entry_wf [OF saved(1,2)] saved(3)]
  have first: "g_state g = ''claimed'' \<and> g_generation g = n + 1 \<and> desired_policy g = desired_policy (last_generation e)"
    using n by (simp add: g new_generation_def)
  have "\<not> cr_created r2 \<and> lf3 = lf2"
    if steps: "(ledger_step env cfg)\<^sup>*\<^sup>* lf1 lf2"
      and again: "explicit_retry_current_recipe env cfg live' recipe_id key (JInt n) upd' io' lf2 = (lf3, Inr r2)"
    for lf2 live' upd' io' lf3 r2
  proof -
    obtain L2 where L2: "load_unlocked env cfg lf2 = Inr L2" "ledger_le L1 L2"
      using steps saved(4) by (rule ledger_steps_grow)
    obtain e2 where e2: "map_of L2 key = Some e2" "entry_le (e\<lparr>e_generations := e_generations e @ [g]\<rparr>) e2"
      using saved(5) L2(2) unfolding ledger_le_def by blast
    from e2(2) have longer: "length (e_generations e) + 1 \<le> length (e_generations e2)" by (simp add: entry_le_def)
    show ?thesis
    proof (cases "cr_created r2")
      case True
      obtain L' e' g' M where h: "load_unlocked env cfg lf2 = Inr L'" "map_of L' key = Some e'"
        "retry_duplicate e' (JInt n) upd' = Inr False" "load_unlocked env cfg lf3 = Inr M"
        "map_of M key = Some (e'\<lparr>e_generations := e_generations e' @ [g']\<rparr>)"
        using retry_created [OF again True] .
      with L2 e2 have "e' = e2" by simp
      with retry_not_duplicate [OF loaded_entry_wf [OF h(1,2)] h(3)] n longer show ?thesis by simp
    next
      case False
      with retry_reused [OF again] show ?thesis by simp
    qed
  qed
  with first saved n show ?thesis by blast
qed

theorem retry_appends_once_witness:
  "\<exists>lf1 r1. explicit_retry_current_recipe clock_env sample_cfg sample_recipe ''app'' sample_key (JInt 0) None fine_ledger_io
     (sample_file [stopped_row]) = (lf1, Inr r1) \<and> cr_created r1 \<and>
   (\<forall>lf3 r2. explicit_retry_current_recipe clock_env sample_cfg sample_recipe ''app'' sample_key (JInt 0) None fine_ledger_io lf1 =
      (lf3, Inr r2) \<longrightarrow> \<not> cr_created r2 \<and> lf3 = lf1)"
proof -
  have c: "cr_created \<lparr>cr_created = True, cr_key = sample_key, cr_generation = 1,
      cr_record = sample_entry [stopped_row, sample_row\<lparr>g_generation := 1\<rparr>]\<rparr>" by simp
  from retry_appends_once [OF sample_retry c] sample_retry c show ?thesis by blast
qed

text \<open>C15: a linked Run is final and bound.  When \<^verbatim>\<open>link_run\<close> succeeds, either the row
  was linked to that Run before, or the Run was its preallocated one and the stored Run
  names the same Recipe, Recipe digest, attempt key, generation, policy and upstream
  identity.  From then on, whatever happens, the row keeps that Run and no second Run may
  be created for it.\<close>

theorem linked_run_is_final:
  assumes "link_run env cfg rio disk key n rid io lf = (lf1, Inr g1)" "(ledger_step env cfg)\<^sup>*\<^sup>* lf1 lf2"
  shows "(\<exists>L e g. load_unlocked env cfg lf = Inr L \<and> row_of L key n = Inr (e, g) \<and>
      (run_id g = Some rid \<or> preallocated_run_id g = Some rid \<and>
        (\<exists>run. load env rio rid disk = Inr (Some run) \<and> jget run ''id'' = JStr rid \<and>
           jget run ''recipe_id'' = JStr (e_recipe_id e) \<and> jget run ''recipe_sha256'' = JStr (e_recipe_sha256 e) \<and>
           automation_field run ''attempt_key'' = JStr key \<and> py_eq (automation_field run ''generation'') (JInt n) \<and>
           automation_field run ''policy'' = JStr (desired_policy g) \<and>
           py_eq (automation_field run ''expected_upstream_identity'') (identity_json (e_identity e))))) \<and>
    (\<exists>L2 e2 g2. load_unlocked env cfg lf2 = Inr L2 \<and> row_of L2 key n = Inr (e2, g2) \<and>
      run_id g2 = Some rid \<and> preallocated_run_id g2 = Some rid \<and>
      (\<forall>disk'. may_create_run env cfg disk' key n lf2 = Inr False))"
proof -
  obtain L e g L1 e1 step where L: "load_unlocked env cfg lf = Inr L" and row: "row_of L key n = Inr (e, g)"
    and step: "link_body key rid (load env rio rid disk) (l_clock io 0) e g = Inr step"
    and g1: "g1 = (case step of KeepRow \<Rightarrow> g | UpdateRow x \<Rightarrow> x)"
    and L1: "load_unlocked env cfg lf1 = Inr L1" "row_of L1 key n = Inr (e1, g1)"
    using with_row_success [OF link_body_le assms(1) [unfolded link_run_def]] .
  have n: "g_generation g = n" using loaded_row_wf [OF L row] by (simp add: gen_wf_def)
  note bound = link_body_ok [OF step]
  have r1: "run_id g1 = Some rid" using bound g1 by (auto split: row_step.splits)
  obtain L2 where L2: "load_unlocked env cfg lf2 = Inr L2" "ledger_le L1 L2"
    using assms(2) L1(1) by (rule ledger_steps_grow)
  obtain e2 g2 where g2: "row_of L2 key n = Inr (e2, g2)" "row_le g1 g2"
    using L2(2) L1(2) by (rule row_of_le)
  have r2: "run_id g2 = Some rid" using r1 g2(2) by (simp add: row_le_def)
  then have p2: "preallocated_run_id g2 = Some rid" using gen_wf_links(1) [OF loaded_row_wf [OF L2(1) g2(1)]] by simp
  have "may_create_run env cfg disk' key n lf2 = Inr False" for disk'
    using L2(1) r2 g2(1) by (elim row_ofE) (simp add: may_create_run_def nat_less_iff Let_def)
  with L row bound n L2(1) g2(1) r2 p2 show ?thesis by blast
qed

theorem linked_run_is_final_witness:
  "\<exists>lf1 g1 L2 e2 g2. link_run clock_env sample_cfg io_fine sample_run_disk sample_key 0 ''run-1'' fine_ledger_io
       (sample_file [preallocated_row]) = (lf1, Inr g1) \<and>
     load_unlocked clock_env sample_cfg lf1 = Inr L2 \<and> row_of L2 sample_key 0 = Inr (e2, g2) \<and> run_id g2 = Some ''run-1'' \<and>
     may_create_run clock_env sample_cfg Map.empty sample_key 0 lf1 = Inr False"
  using linked_run_is_final [OF sample_linked rtranclp.rtrancl_refl] sample_linked by blast

text \<open>C17: the Run created for a row is accepted for that row.  When a row waits for its
  preallocated Run and the Run store holds the Run that \<^verbatim>\<open>new_run\<close> makes from the row's
  metadata, then \<^verbatim>\<open>link_run\<close> succeeds and stores the linked row, provided the lock and
  the write succeed and the ledger stays within its byte bound.\<close>

theorem created_run_is_linkable:
  assumes "load_unlocked env cfg lf = Inr L" "row_of L key n = Inr (e, g)"
    and "g_state g = ''run_preallocated''" "run_id g = None" "preallocated_run_id g = Some rid"
    and "new_run env now epoch rid (e_recipe_id e) mode path (e_recipe_sha256 e) contract od (row_metadata key e g) JNull = Inr kvs"
    and "load env rio rid disk = Inr (Some kvs)"
    and "l_lock io = LockTaken" "l_write io = Written" "time_wf env (l_clock io 0)"
    and "length (encoded_ledger (put_row L key e n (linked_row rid (l_clock io 0) g))) \<le> MAX_LEDGER_BYTES"
  shows "\<exists>lf' L' e'. link_run env cfg rio disk key n rid io lf = (lf', Inr (linked_row rid (l_clock io 0) g)) \<and>
    load_unlocked env cfg lf' = Inr L' \<and> row_of L' key n = Inr (e', linked_row rid (l_clock io 0) g)"
proof -
  have "map_of L key = Some e" using assms(2) by (rule row_ofE)
  then have "identity_wf (e_identity e)" using loaded_entry_wf [OF assms(1)] by (simp add: entry_wf_def)
  then have bind: "verify_run_binding key e g (Some kvs) = Inr ()" by (rule created_run_binds [OF assms(6) _ assms(5)])
  note op = link_run_succeeds [OF assms(1-5,7) bind assms(8-11)]
  obtain L' e' where "load_unlocked env cfg (Stored (ledger_json (put_row L key e n (linked_row rid (l_clock io 0) g)))) = Inr L'"
    "row_of L' key n = Inr (e', linked_row rid (l_clock io 0) g)"
    using with_row_success [OF link_body_le op [unfolded link_run_def]] .
  with op show ?thesis by blast
qed

theorem created_run_is_linkable_witness:
  "\<exists>lf' g'. link_run clock_env sample_cfg io_fine sample_run_disk sample_key 0 ''run-1'' fine_ledger_io
     (sample_file [preallocated_row]) = (lf', Inr g') \<and> run_id g' = Some ''run-1''"
proof -
  let ?e = "sample_entry [preallocated_row]"
  have load: "load_unlocked clock_env sample_cfg (sample_file [preallocated_row]) = Inr [(sample_key, ?e)]"
    by (rule sample_load) (simp_all add: sample_rows_wf)
  have row: "row_of [(sample_key, ?e)] sample_key 0 = Inr (?e, preallocated_row)"
    by (simp add: row_of_def sample_entry_def)
  have g: "g_state preallocated_row = ''run_preallocated''" "run_id preallocated_row = None"
    "preallocated_run_id preallocated_row = Some ''run-1''"
    by (simp_all add: preallocated_row_def sample_row_def)
  obtain kvs where kvs: "sample_created = Inr kvs" using sample_created_ok by blast
  have new: "new_run clock_env ''t'' 0 ''run-1'' (e_recipe_id ?e) ''build'' ''/w/run-1'' (e_recipe_sha256 ?e) JNull
     automation_origin (row_metadata sample_key ?e preallocated_row) JNull = Inr kvs"
    using kvs by (simp add: sample_created_def sample_entry_def)
  have loaded: "load clock_env io_fine ''run-1'' sample_run_disk = Inr (Some kvs)"
    using sample_run_load by (simp add: kvs)
  have io: "l_lock fine_ledger_io = LockTaken" "l_write fine_ledger_io = Written" "time_wf clock_env (l_clock fine_ledger_io 0)"
    by (simp_all add: fine_ledger_io_def time_wf_def clock_env_def)
  have "put_row [(sample_key, ?e)] sample_key ?e 0 (linked_row ''run-1'' (l_clock fine_ledger_io 0) preallocated_row) =
      [(sample_key, sample_entry [linked_row ''run-1'' ''t'' preallocated_row])]"
    by (simp add: put_row_def sample_entry_def fine_ledger_io_def)
  then have fits: "length (encoded_ledger (put_row [(sample_key, ?e)] sample_key ?e 0
      (linked_row ''run-1'' (l_clock fine_ledger_io 0) preallocated_row))) \<le> MAX_LEDGER_BYTES"
    using sample_fits [of "[linked_row ''run-1'' ''t'' preallocated_row]"]
    by (simp add: gen_json_def gen_items_def linked_row_def preallocated_row_def sample_row_def)
  from created_run_is_linkable [OF load row g new loaded io fits] show ?thesis by (auto simp: linked_row_def)
qed

text \<open>A reported completion is final.  After the completion of a generation has been
  marked as notified, the generation stays stopped and notified, whatever happens.\<close>

theorem notified_generation_stays_stopped:
  assumes "mark_completion_notified env cfg key n io lf = (lf1, Inr g1)" "(ledger_step env cfg)\<^sup>*\<^sup>* lf1 lf2"
  shows "\<exists>L2 e2 g2. load_unlocked env cfg lf2 = Inr L2 \<and> row_of L2 key n = Inr (e2, g2) \<and>
    completion_notified g2 \<and> g_state g2 \<in> {''terminal'', ''blocked''} \<and> stage g2 = ''terminal''"
proof -
  obtain L e g L1 e1 step where step: "notified_body (l_clock io 0) e g = Inr step"
    and g1: "g1 = (case step of KeepRow \<Rightarrow> g | UpdateRow x \<Rightarrow> x)"
    and L1: "load_unlocked env cfg lf1 = Inr L1" "row_of L1 key n = Inr (e1, g1)"
    using with_row_success [OF notified_body_le assms(1) [unfolded mark_completion_notified_def]] .
  have c1: "completion_notified g1"
    using step g1 by (auto simp: notified_body_def split: if_splits row_step.splits)
  obtain L2 where L2: "load_unlocked env cfg lf2 = Inr L2" "ledger_le L1 L2"
    using assms(2) L1(1) by (rule ledger_steps_grow)
  obtain e2 g2 where g2: "row_of L2 key n = Inr (e2, g2)" "row_le g1 g2"
    using L2(2) L1(2) by (rule row_of_le)
  have "completion_notified g2" using c1 g2(2) by (simp add: row_le_def)
  with gen_wf_links(5,6) [OF loaded_row_wf [OF L2(1) g2(1)]] L2(1) g2(1) show ?thesis by blast
qed

theorem notified_generation_stays_stopped_witness:
  "\<exists>lf1 g1 L2 e2 g2. mark_completion_notified clock_env sample_cfg sample_key 0 fine_ledger_io (sample_file [stopped_row]) = (lf1, Inr g1) \<and>
     load_unlocked clock_env sample_cfg lf1 = Inr L2 \<and> row_of L2 sample_key 0 = Inr (e2, g2) \<and> g_state g2 \<in> {''terminal'', ''blocked''}"
proof -
  let ?g = "stopped_row\<lparr>completion_notified := True\<rparr>"
  have load: "load_unlocked clock_env sample_cfg (sample_file [stopped_row]) = Inr [(sample_key, sample_entry [stopped_row])]"
    by (rule sample_load) (simp_all add: sample_rows_wf)
  have row: "row_of [(sample_key, sample_entry [stopped_row])] sample_key 0 = Inr (sample_entry [stopped_row], stopped_row)"
    by (simp add: row_of_def sample_entry_def)
  have body: "notified_body ''t'' (sample_entry [stopped_row]) stopped_row = Inr (UpdateRow ?g)"
    by (simp add: notified_body_def stopped_row_def sample_row_def)
  have put: "put_row [(sample_key, sample_entry [stopped_row])] sample_key (sample_entry [stopped_row]) 0 ?g = [(sample_key, sample_entry [?g])]"
    by (simp add: put_row_def sample_entry_def)
  have save: "save_unlocked clock_env sample_cfg fine_ledger_io [(sample_key, sample_entry [?g])] (sample_file [stopped_row]) =
      (sample_file [?g], Inr ())"
    by (rule sample_save) (simp_all add: sample_rows_wf, simp add: gen_json_def gen_items_def stopped_row_def sample_row_def)
  have op: "mark_completion_notified clock_env sample_cfg sample_key 0 fine_ledger_io (sample_file [stopped_row]) = (sample_file [?g], Inr ?g)"
    unfolding mark_completion_notified_def with_row_def row_decision_def
    by (simp add: load row) (simp add: fine_ledger_io_def ledger_locked_def body put commit_def save [unfolded fine_ledger_io_def])
  from notified_generation_stays_stopped [OF op rtranclp.rtrancl_refl] op show ?thesis by blast
qed

text \<open>C18: the ledger fails closed.  A ledger file that cannot be loaded (unreadable, unsafe,
  undecodable or invalid) is never overwritten: every operation fails and leaves it as it
  is, so no claim is forgotten by rebuilding the ledger.\<close>

theorem unreadable_ledger_untouched:
  assumes "load_unlocked env cfg lf = Inl err" "(ledger_step env cfg)\<^sup>*\<^sup>* lf lf'"
  shows "lf' = lf"
  using assms(2)
proof (induction rule: rtranclp_induct)
  case (step y z)
  then show ?case using ledger_step_closed assms(1) by blast
qed simp

theorem unreadable_ledger_untouched_witness:
  "\<exists>lf'. ledger_step clock_env sample_cfg Undecodable lf' \<and> lf' = Undecodable"
proof -
  obtain lf' r where op: "mark_completion_notified clock_env sample_cfg sample_key 0 fine_ledger_io Undecodable = (lf', r)" by fastforce
  have bad: "load_unlocked clock_env sample_cfg Undecodable = Inl (led_err ''automation_ledger_malformed'' ''$'')"
    by (simp add: load_unlocked_def)
  from unreadable_ledger_untouched [OF bad r_into_rtranclp [of "ledger_step clock_env sample_cfg", OF step_notified [OF op]]]
    step_notified [OF op] show ?thesis by blast
qed

end
