(* ===== verification/Fallible_State.thy ===== *)
theory Fallible_State
  imports Prelude
begin

text \<open>
  Operations that change a state and may raise: a function from the state to the new state and
  a value or an exception.  A raised exception keeps the changes made before it, as in Python.
  Used by the orchestrator and by the resolution of ELF dependencies.
\<close>

definition ret :: "'a \<Rightarrow> 's \<Rightarrow> 's \<times> ('e + 'a)" where
  "ret x s = (s, Inr x)"

definition throw :: "'e \<Rightarrow> 's \<Rightarrow> 's \<times> ('e + 'a)" where
  "throw e s = (s, Inl e)"

definition lift_r :: "'e + 'a \<Rightarrow> 's \<Rightarrow> 's \<times> ('e + 'a)" where
  "lift_r r s = (s, r)"

definition bind_o :: "('s \<Rightarrow> 's \<times> ('e + 'a)) \<Rightarrow> ('a \<Rightarrow> 's \<Rightarrow> 's \<times> ('e + 'b)) \<Rightarrow> 's \<Rightarrow> 's \<times> ('e + 'b)" where
  "bind_o m f s = (case m s of (s', Inl e) \<Rightarrow> (s', Inl e) | (s', Inr x) \<Rightarrow> f x s')"

text \<open>\<^verbatim>\<open>try\<close>: the outcome of an operation as a value.\<close>

definition attempt :: "('s \<Rightarrow> 's \<times> ('e + 'a)) \<Rightarrow> 's \<Rightarrow> 's \<times> ('x + ('e + 'a))" where
  "attempt m s = (case m s of (s', r) \<Rightarrow> (s', Inr r))"

text \<open>Reading a field of the state, changing the state, and a loop over a list.\<close>

definition get_s :: "('s \<Rightarrow> 'a) \<Rightarrow> 's \<Rightarrow> 's \<times> ('e + 'a)" where
  "get_s f s = (s, Inr (f s))"

definition modify_s :: "('s \<Rightarrow> 's) \<Rightarrow> 's \<Rightarrow> 's \<times> ('e + unit)" where
  "modify_s f s = (f s, Inr ())"

fun for_each :: "('a \<Rightarrow> 's \<Rightarrow> 's \<times> ('e + unit)) \<Rightarrow> 'a list \<Rightarrow> 's \<Rightarrow> 's \<times> ('e + unit)" where
  "for_each f [] = ret ()"
| "for_each f (x # xs) = bind_o (f x) (\<lambda>_. for_each f xs)"

section \<open>How an operation succeeds\<close>

lemma bind_o_success [result_simps]:
  "bind_o m f s = (s', Inr y) \<longleftrightarrow> (\<exists>s1 x. m s = (s1, Inr x) \<and> f x s1 = (s', Inr y))"
  by (auto simp: bind_o_def split: prod.splits sum.splits)

lemma ret_success [result_simps]: "ret x s = (s', Inr y) \<longleftrightarrow> s' = s \<and> y = x"
  by (auto simp: ret_def)

lemma throw_success [result_simps]: "throw e s = (s', Inr y) \<longleftrightarrow> False"
  by (simp add: throw_def)

lemma lift_r_success [result_simps]: "lift_r r s = (s', Inr y) \<longleftrightarrow> s' = s \<and> r = Inr y"
  by (auto simp: lift_r_def)

lemma get_s_success [result_simps]: "get_s f s = (s', Inr y) \<longleftrightarrow> s' = s \<and> y = f s"
  by (auto simp: get_s_def)

lemma modify_s_success [result_simps]: "modify_s f s = (s', Inr y) \<longleftrightarrow> s' = f s"
  by (auto simp: modify_s_def)

lemma attempt_success [result_simps]: "attempt m s = (s', Inr y) \<longleftrightarrow> m s = (s', y)"
  by (auto simp: attempt_def split: prod.splits)

lemma if_throw_success [result_simps]:
  "(if b then throw e else m) s = (s', Inr y) \<longleftrightarrow> \<not> b \<and> m s = (s', Inr y)"
  by (simp add: throw_def)

text \<open>An invariant of a loop that has not raised.\<close>

lemma for_each_success:
  assumes "for_each f xs s = (s', Inr y)" "P [] s"
    and "\<And>before x after s1 s2 u. xs = before @ x # after \<Longrightarrow> P before s1 \<Longrightarrow> f x s1 = (s2, Inr u) \<Longrightarrow> P (before @ [x]) s2"
  shows "P xs s'"
proof -
  have "P (seen @ ys) s2"
    if "xs = seen @ ys" "for_each f ys s1 = (s2, Inr y)" "P seen s1" for seen ys s1 s2
    using that
  proof (induction ys arbitrary: seen s1)
    case (Cons y' ys)
    then obtain s3 u where step: "f y' s1 = (s3, Inr u)" "for_each f ys s3 = (s2, Inr y)"
      by (auto simp: result_simps)
    have "P (seen @ [y']) s3" using assms(3) [OF _ Cons.prems(3) step(1)] Cons.prems(1) by simp
    from Cons.IH [OF _ step(2) this] Cons.prems(1) show ?case by simp
  qed (simp add: result_simps)
  from this [of "[]" xs s s'] assms(1,2) show ?thesis by simp
qed

end
