(* ===== verification/Automation_Orchestrator.thy ===== *)
theory Automation_Orchestrator
  imports Ledger_Operations Fallible_State
begin

text \<open>
  \<^verbatim>\<open>src/debbuilder/automation_orchestrator.py\<close>: the coordinator that moves a claimed generation
  of the ledger through Run admission, the Run, validation and publication.

  A handler is a function on the \<^emph>\<open>world\<close>: the ledger file, the Run store, a counter of the
  questions asked so far and the calls made to other components.  The constructor's callbacks,
  the clock and the modules the class calls answer questions; an answer may depend on the
  number of the question, so nothing is assumed about how two answers agree, and before each
  answer other threads may change ledger and store (\<open>a_others\<close>).  The ledger operations and
  the reads of the Run store are those of \<open>Ledger_Operations\<close> and \<open>Run_Store\<close>.
\<close>

section \<open>Constants\<close>

definition TERMINAL_RUN_STATUSES :: "string list" where
  "TERMINAL_RUN_STATUSES = [''prepared'', ''success'', ''failed'', ''cancelled'']"

definition VALIDATION_TRANSIENT_CODES :: "string list" where
  "VALIDATION_TRANSIENT_CODES = [
     ''dependency_preparation_failed'', ''dependency_download_failed'',
     ''dependency_repository_unavailable'', ''apt_update_failed'',
     ''validation_preparation_failed'', ''validation_preparation_interrupted'',
     ''validation_image_unavailable'', ''validation_worker_error'']"

definition PUBLICATION_TRANSIENT_CODES :: "string list" where
  "PUBLICATION_TRANSIENT_CODES = [
     ''repository_mutation_busy'', ''publication_execution_failed'',
     ''publication_reconciliation_failed'', ''publication_interrupted'',
     ''reprepro_include_failed'']"

definition PUBLICATION_BLOCKED_CODES :: "string list" where
  "PUBLICATION_BLOCKED_CODES = [
     ''downgrade_refused'', ''publication_identity_conflict'', ''publication_proof_failed'',
     ''publication_proof_invalid'', ''artifact_not_ready'', ''artifact_mutated'',
     ''artifact_identity_mismatch'', ''artifact_not_available'',
     ''publication_confirmation_required'', ''component_not_configured'',
     ''repository_configuration_unsupported'']"

definition POLICY_RANK :: "(string \<times> nat) list" where
  "POLICY_RANK = [(''manual'', 0), (''detect'', 1), (''test'', 2), (''build'', 3), (''build_validate'', 4), (''full'', 5)]"

definition MAX_VALIDATION_RETRIES :: int where "MAX_VALIDATION_RETRIES = 2"
definition MAX_PUBLICATION_RETRIES :: int where "MAX_PUBLICATION_RETRIES = 3"
definition MIN_RETRY_SECONDS :: int where "MIN_RETRY_SECONDS = 60"
definition MAX_RETRY_SECONDS :: int where "MAX_RETRY_SECONDS = 15 * 60"

definition RUN_ADMISSION_TRANSIENT_CODES :: "string list" where
  "RUN_ADMISSION_TRANSIENT_CODES = [
     ''execution_queue_full'', ''execution_manager_unavailable'', ''execution_recovery_unresolved'',
     ''storage_pressure_admission_blocked'', ''storage_measurement_unavailable'']"

definition VALIDATION_ACTIVE_STATUSES :: "string list" where
  "VALIDATION_ACTIVE_STATUSES = [''queued'', ''running'', ''cancelling'']"

definition VALIDATION_TERMINAL_STATUSES :: "string list" where
  "VALIDATION_TERMINAL_STATUSES = [''cancelled'', ''success'', ''failed'']"

section \<open>World, answers, operations\<close>

text \<open>A call to another component.  The admission of a Run carries the workflow handed over, the
  Recipe read last, and whether the Run existed already; those of a validation and a
  publication end with the Recipe that authorized them.\<close>

datatype call =
    EnqueueRun doc "doc option" bool "string option" bool string string int string
  | AdmitValidation string bool string int string "doc option"
  | Publish string string "doc option"
  | CancelIntent string string
  | CompleteIntent string string
  | NotifyCompletion string int string string string string "string option"

record world =
  w_ledger :: ledger_file
  w_disk :: disk
  w_tick :: nat
  w_calls :: "call list"

type_synonym 'a op = "world \<Rightarrow> world \<times> 'a result"

text \<open>What \<^verbatim>\<open>enqueue_run\<close> does: it creates the Run unless it raises first, calls
  \<^verbatim>\<open>created_callback\<close>, submits, and may raise then.\<close>

record enqueue_answer =
  en_create :: "disk \<Rightarrow> disk"
  en_refused :: "exn option"
  en_submit :: "disk \<Rightarrow> disk"
  en_failed :: "exn option"

text \<open>A validation attempt as the orchestrator reads it: status, error code, and the phase that
  \<^verbatim>\<open>public_attempt\<close> shows.\<close>

record attempt_view =
  at_status :: string
  at_error :: "string option"
  at_phase :: "string result"

record answers =
  a_others :: "nat \<Rightarrow> ledger_file \<times> disk \<Rightarrow> ledger_file \<times> disk"
  a_ledger_io :: "nat \<Rightarrow> ledger_io"
  a_io :: "nat \<Rightarrow> io"
  a_open :: "nat \<Rightarrow> bool"
  a_unlocked :: "nat \<Rightarrow> bool"
  a_lease :: "nat \<Rightarrow> exn option"
  a_recipe :: "nat \<Rightarrow> string \<Rightarrow> doc option"
  a_digest :: "doc \<Rightarrow> string result"
  a_stored :: "doc \<Rightarrow> doc result"
  a_clock :: "nat \<Rightarrow> rat"
  a_isoformat :: "rat \<Rightarrow> string"
  a_token :: "nat \<Rightarrow> string"
  a_snapshot :: "nat \<Rightarrow> string \<Rightarrow> doc option"
  a_runs :: "nat \<Rightarrow> doc list result"
  a_enqueue :: "nat \<Rightarrow> enqueue_answer"
  a_links :: "nat \<Rightarrow> (string \<times> doc result) list result"
  a_metadata :: "nat \<Rightarrow> string \<Rightarrow> string \<Rightarrow> doc result"
  a_manager :: "nat \<Rightarrow> bool"
  a_admit :: "nat \<Rightarrow> string result"
  a_attempt :: "nat \<Rightarrow> string \<Rightarrow> attempt_view result"
  a_publish :: "nat \<Rightarrow> doc result"
  a_proof :: "doc option \<Rightarrow> doc \<Rightarrow> bool"
  a_intent :: "nat \<Rightarrow> exn option"

definition step_world :: "answers \<Rightarrow> world \<Rightarrow> world" where
  "step_world A w =
     (case a_others A (w_tick w) (w_ledger w, w_disk w) of
        (lf, d) \<Rightarrow> w\<lparr>w_ledger := lf, w_disk := d, w_tick := Suc (w_tick w)\<rparr>)"

definition ask :: "answers \<Rightarrow> (nat \<Rightarrow> 'a) \<Rightarrow> 'a op" where
  "ask A f w = (step_world A w, Inr (f (w_tick w)))"

definition emit :: "call \<Rightarrow> unit op" where
  "emit c w = (w\<lparr>w_calls := w_calls w @ [c]\<rparr>, Inr ())"

definition on_ledger :: "answers \<Rightarrow> (nat \<Rightarrow> ledger_io \<Rightarrow> ledger_file \<Rightarrow> ledger_file \<times> 'a result) \<Rightarrow> 'a op" where
  "on_ledger A f w =
     (let w1 = step_world A w in
      case f (w_tick w) (a_ledger_io A (w_tick w)) (w_ledger w1) of (lf, r) \<Rightarrow> (w1\<lparr>w_ledger := lf\<rparr>, r))"

definition read_ledger :: "py_env \<Rightarrow> ledger_config \<Rightarrow> answers \<Rightarrow> ledger op" where
  "read_ledger env cfg A w = (let w1 = step_world A w in (w1, load_unlocked env cfg (w_ledger w1)))"

definition load_run :: "py_env \<Rightarrow> answers \<Rightarrow> string \<Rightarrow> doc option op" where
  "load_run env A rid w =
     (let w1 = step_world A w in (w1, load env (a_io A (w_tick w)) rid (w_disk w1)))"

text \<open>Entering \<^verbatim>\<open>mutation_lease\<close>.\<close>

definition lease :: "answers \<Rightarrow> unit op" where
  "lease A = bind_o (ask A (a_lease A)) (\<lambda>r. case r of None \<Rightarrow> ret () | Some e \<Rightarrow> throw e)"

definition admission_open :: "answers \<Rightarrow> bool op" where
  "admission_open A = ask A (a_open A)"

text \<open>\<^verbatim>\<open>str(getattr(exc, "code", default))\<close>; the other classes have no such attribute.\<close>

definition code_of :: "string \<Rightarrow> exn \<Rightarrow> string" where
  "code_of alt e = (if exn_code e = [] \<or> exn_class e = RunStatusTransitionError then alt else exn_code e)"

text \<open>\<^verbatim>\<open>except (OSError, ValueError)\<close>\<close>

definition os_or_value_error :: "exn \<Rightarrow> bool" where
  "os_or_value_error e = (load_failure e \<and> exn_class e \<noteq> TypeError)"

section \<open>Rows and Recipes\<close>

text \<open>\<^verbatim>\<open>_row\<close>\<close>

definition find_row :: "ledger \<Rightarrow> string \<Rightarrow> int \<Rightarrow> (entry \<times> gen) option" where
  "find_row L key n =
     (case map_of L key of
        None \<Rightarrow> None
      | Some e \<Rightarrow> if 0 \<le> n \<and> n < int (length (e_generations e)) then Some (e, e_generations e ! nat n) else None)"

text \<open>\<^verbatim>\<open>_recipe\<close>\<close>

definition recipe_named :: "string \<Rightarrow> doc option \<Rightarrow> doc option" where
  "recipe_named rid r = (case r of None \<Rightarrow> None | Some d \<Rightarrow> if jget d ''name'' = JStr rid then Some d else None)"

definition recipe :: "answers \<Rightarrow> string \<Rightarrow> doc option op" where
  "recipe A rid = ask A (\<lambda>t. recipe_named rid (a_recipe A t rid))"

text \<open>\<^verbatim>\<open>_initial_authorized\<close>\<close>

definition initial_authorized :: "answers \<Rightarrow> entry \<Rightarrow> gen \<Rightarrow> doc option \<Rightarrow> bool result" where
  "initial_authorized A e g r =
     (case r of
        None \<Rightarrow> Inr False
      | Some d \<Rightarrow>
          if d = [] \<or> \<not> truthy (jget d ''active'') \<or> \<not> truthy (automation_field d ''enabled'')
            \<or> automation_field d ''policy'' \<noteq> JStr (desired_policy g)
          then Inr False
          else bind_r (a_digest A d) (\<lambda>digest. Inr (digest = e_recipe_sha256 e)))"

text \<open>\<^verbatim>\<open>_downstream_authorized\<close>\<close>

definition policy_rank :: "string \<Rightarrow> nat" where
  "policy_rank p = (case map_of POLICY_RANK p of None \<Rightarrow> 0 | Some n \<Rightarrow> n)"

definition downstream_authorized :: "py_env \<Rightarrow> doc option \<Rightarrow> string \<Rightarrow> bool" where
  "downstream_authorized env r required =
     (case r of
        None \<Rightarrow> False
      | Some d \<Rightarrow> d \<noteq> [] \<and> truthy (jget d ''active'') \<and> truthy (automation_field d ''enabled'') \<and>
          policy_rank (str_or env (automation_field d ''policy'') ''manual'') \<ge> policy_rank required)"

text \<open>\<^verbatim>\<open>_is_recipe_turn\<close>: the unfinished generations of a Recipe, oldest first.\<close>

definition unfinished :: "gen \<Rightarrow> bool" where
  "unfinished g = (g_state g \<notin> {''terminal'', ''blocked''})"

definition entry_rows :: "string \<times> entry \<Rightarrow> (string \<times> string \<times> int) list" where
  "entry_rows ke = map (\<lambda>g. (created_at g, fst ke, g_generation g)) (filter unfinished (e_generations (snd ke)))"

definition active_rows :: "ledger \<Rightarrow> string \<Rightarrow> (string \<times> string \<times> int) list" where
  "active_rows L recipe_id = concat (map entry_rows (filter (\<lambda>ke. e_recipe_id (snd ke) = recipe_id) L))"

definition is_recipe_turn :: "ledger \<Rightarrow> string \<Rightarrow> int \<Rightarrow> string \<Rightarrow> string \<Rightarrow> bool" where
  "is_recipe_turn L key n recipe_id created =
     (active_rows L recipe_id = [] \<or> Min (set (active_rows L recipe_id)) = (created, key, n))"

text \<open>\<^verbatim>\<open>_retry_due\<close>; a date is in microseconds, the clock in seconds.\<close>

definition retry_due :: "py_env \<Rightarrow> rat \<Rightarrow> gen \<Rightarrow> bool" where
  "retry_due env now g =
     (g_state g \<noteq> ''retry_delayed'' \<or>
      (case not_before g of
         None \<Rightarrow> False
       | Some s \<Rightarrow> (case fromisoformat env s of None \<Rightarrow> False | Some (_, t) \<Rightarrow> of_int t / 1000000 \<le> now)))"

text \<open>\<^verbatim>\<open>_delay\<close>\<close>

definition retry_seconds :: "int \<Rightarrow> int" where
  "retry_seconds count = min MAX_RETRY_SECONDS (MIN_RETRY_SECONDS * 2 ^ nat (max 0 (count - 1)))"

definition delay :: "answers \<Rightarrow> int \<Rightarrow> string op" where
  "delay A count = ask A (\<lambda>t. a_isoformat A (a_clock A t + of_int (retry_seconds count)))"

text \<open>\<^verbatim>\<open>_schedule_retry\<close>\<close>

definition stage_retries :: "gen \<Rightarrow> int" where
  "stage_retries g =
     (if stage g = ''run_admission'' then run_retry_count g
      else if stage g \<in> {''validation_admission'', ''validation''} then validation_retry_count g
      else if stage g = ''publication'' then publication_retry_count g
      else retry_count g)"

definition schedule_retry ::
  "py_env \<Rightarrow> ledger_config \<Rightarrow> answers \<Rightarrow> string \<Rightarrow> gen \<Rightarrow> string \<Rightarrow> string \<Rightarrow> unit op" where
  "schedule_retry env cfg A key g code diag =
     bind_o (delay A (stage_retries g + 1)) (\<lambda>before.
     bind_o (on_ledger A (\<lambda>_. finish env cfg key (g_generation g) ''transient_retryable'' ''transient''
         (stage_retries g + 1) (Some before) (Some code) (Some diag))) (\<lambda>_.
     ret ()))"

text \<open>\<^verbatim>\<open>_finish\<close>: a failing notification is logged and changes nothing.\<close>

definition finish_row ::
  "py_env \<Rightarrow> ledger_config \<Rightarrow> answers \<Rightarrow> string \<Rightarrow> gen \<Rightarrow> string \<Rightarrow> string \<Rightarrow> string \<Rightarrow> unit op" where
  "finish_row env cfg A key g classification code diag =
     bind_o (on_ledger A (\<lambda>_. finish env cfg key (g_generation g) classification
         (if classification = ''blocked_manual'' then ''operator'' else ''none'') (retry_count g) None
         (if code = [] then None else Some code) (Some diag))) (\<lambda>finished.
     if completion_notified finished then ret ()
     else
       bind_o (if classification \<in> {''cancelled'', ''disabled''} then ret ()
          else emit (NotifyCompletion key (g_generation g) (case run_id g of None \<Rightarrow> [] | Some r \<Rightarrow> r)
            (if classification = ''success'' then ''success'' else ''failed'') (desired_policy g) (stage g)
            (if code = [] then None else Some code))) (\<lambda>_.
       bind_o (on_ledger A (\<lambda>_. mark_completion_notified env cfg key (g_generation g))) (\<lambda>_.
       ret ())))"

section \<open>Validation\<close>

text \<open>\<^verbatim>\<open>_reconcile_validation_link\<close>: the newest attempt whose metadata names this generation; the
  second component says whether another row came back.\<close>

definition names_row :: "string \<Rightarrow> gen \<Rightarrow> doc \<Rightarrow> bool" where
  "names_row key g metadata =
     (jget metadata ''attempt_key'' = JStr key \<and> py_eq (jget metadata ''generation'') (JInt (g_generation g)) \<and>
      jget metadata ''policy'' = JStr (desired_policy g))"

fun linked_attempt :: "string \<Rightarrow> gen \<Rightarrow> (string \<times> doc result) list \<Rightarrow> string option result" where
  "linked_attempt key g [] = Inr None"
| "linked_attempt key g ((aid, Inl e) # rest) = (if os_or_value_error e then linked_attempt key g rest else Inl e)"
| "linked_attempt key g ((aid, Inr metadata) # rest) =
     (if names_row key g metadata then Inr (Some aid) else linked_attempt key g rest)"

definition reconcile_validation_link ::
  "py_env \<Rightarrow> ledger_config \<Rightarrow> answers \<Rightarrow> string \<Rightarrow> gen \<Rightarrow> (gen \<times> bool) op" where
  "reconcile_validation_link env cfg A key g =
     bind_o (bind_o (ask A (a_links A)) lift_r) (\<lambda>attempts.
     bind_o (lift_r (linked_attempt key g (rev attempts))) (\<lambda>found.
     case found of
       None \<Rightarrow> ret (g, False)
     | Some aid \<Rightarrow>
         if validation_attempt_id g = Some aid then ret (g, False)
         else
           bind_o (on_ledger A (\<lambda>_. advance_lifecycle env cfg key (g_generation g) ''validation'' (Some aid) None)) (\<lambda>g'.
           ret (g', True))))"

text \<open>\<^verbatim>\<open>cancel_publication_intent\<close> and \<^verbatim>\<open>complete_publication_intent\<close>\<close>

definition intent :: "answers \<Rightarrow> call \<Rightarrow> unit op" where
  "intent A c = bind_o (emit c) (\<lambda>_. bind_o (ask A (a_intent A)) (\<lambda>r. case r of None \<Rightarrow> ret () | Some e \<Rightarrow> throw e))"

definition swallow_os_or_value :: "unit op \<Rightarrow> unit op" where
  "swallow_os_or_value m =
     bind_o (attempt m) (\<lambda>r. case r of Inr _ \<Rightarrow> ret () | Inl e \<Rightarrow> if os_or_value_error e then ret () else throw e)"

definition run_of :: "gen \<Rightarrow> string" where
  "run_of g = (case run_id g of None \<Rightarrow> [] | Some r \<Rightarrow> r)"

text \<open>\<^verbatim>\<open>str(exc.code) == "application_shutting_down" or not self.admission_open()\<close>\<close>

definition closing :: "answers \<Rightarrow> string \<Rightarrow> bool op" where
  "closing A code =
     (if code = ''application_shutting_down'' then ret True else bind_o (admission_open A) (\<lambda>b. ret (\<not> b)))"

text \<open>What \<^verbatim>\<open>_admit_validation\<close> does with an exception of the admission: \<^verbatim>\<open>g\<close> is the row at
  that moment.\<close>

definition validation_admission_failed ::
  "py_env \<Rightarrow> ledger_config \<Rightarrow> answers \<Rightarrow> string \<Rightarrow> gen \<Rightarrow> exn \<Rightarrow> unit op" where
  "validation_admission_failed env cfg A key g e =
     (if exn_class e = ValidationAdmissionError then
        (if exn_code e \<in> {''validation_queue_full'', ''validation_manager_shutting_down''} then
           bind_o (admission_open A) (\<lambda>b.
           if b then schedule_retry env cfg A key g (exn_code e) ''validation_admission_delayed'' else ret ())
         else finish_row env cfg A key g ''terminal_failure'' (exn_code e) ''validation_admission_failed'')
      else
        let code = code_of ''validation_admission_failed'' e in
        bind_o (closing A code) (\<lambda>b.
        if b then ret () else finish_row env cfg A key g ''terminal_failure'' code ''validation_admission_failed''))"

text \<open>The admission stage is recorded under a lease of the mutation gate.\<close>

definition leased_advance ::
  "py_env \<Rightarrow> ledger_config \<Rightarrow> answers \<Rightarrow> string \<Rightarrow> int \<Rightarrow> string \<Rightarrow> gen result op" where
  "leased_advance env cfg A key n stg =
     attempt (bind_o (lease A) (\<lambda>_. on_ledger A (\<lambda>_. advance_lifecycle env cfg key n stg None None)))"

definition validation_manager_absent ::
  "py_env \<Rightarrow> ledger_config \<Rightarrow> answers \<Rightarrow> string \<Rightarrow> gen \<Rightarrow> unit op" where
  "validation_manager_absent env cfg A key g =
     bind_o (leased_advance env cfg A key (g_generation g) ''validation_admission'') (\<lambda>r1.
     case r1 of
       Inl err \<Rightarrow> bind_o (closing A (code_of [] err)) (\<lambda>b. if b then ret () else throw err)
     | Inr g1 \<Rightarrow> schedule_retry env cfg A key g1 ''validation_manager_unavailable'' ''validation_admission_delayed'')"

text \<open>The admission itself; \<^verbatim>\<open>r\<close> is the Recipe that authorizes it, \<^verbatim>\<open>handle\<close> is
  \<^verbatim>\<open>_handle_validation\<close>.\<close>

definition validation_admitted ::
  "(string \<Rightarrow> entry \<Rightarrow> gen \<Rightarrow> unit op) \<Rightarrow> py_env \<Rightarrow> ledger_config \<Rightarrow> answers \<Rightarrow> string \<Rightarrow> entry \<Rightarrow> doc option \<Rightarrow> gen \<Rightarrow> unit op" where
  "validation_admitted handle env cfg A key e r g =
     bind_o (emit (AdmitValidation (run_of g) (desired_policy g = ''full'') key (g_generation g) (desired_policy g) r)) (\<lambda>_.
     bind_o (ask A (a_admit A)) (\<lambda>admitted.
     case admitted of
       Inl err \<Rightarrow> validation_admission_failed env cfg A key g err
     | Inr aid \<Rightarrow>
         bind_o (on_ledger A (\<lambda>_. advance_lifecycle env cfg key (g_generation g) ''validation'' (Some aid) None)) (\<lambda>g1.
         bind_o (ask A (\<lambda>t. a_attempt A t aid)) (\<lambda>current.
         case current of
           Inl err \<Rightarrow> if exn_class err = ValidationAdmissionError then ret () else throw err
         | Inr v \<Rightarrow> if at_status v \<in> set VALIDATION_TERMINAL_STATUSES then handle key e g1 else ret ()))))"

text \<open>\<^verbatim>\<open>_admit_validation\<close> when no other attempt belongs to the row.\<close>

definition validation_unlinked ::
  "(string \<Rightarrow> entry \<Rightarrow> gen \<Rightarrow> unit op) \<Rightarrow> py_env \<Rightarrow> ledger_config \<Rightarrow> answers \<Rightarrow> string \<Rightarrow> entry \<Rightarrow> gen \<Rightarrow> unit op" where
  "validation_unlinked handle env cfg A key e g =
     bind_o (recipe A (e_recipe_id e)) (\<lambda>r.
     if \<not> downstream_authorized env r (if desired_policy g = ''full'' then ''full'' else ''build_validate'') then
       bind_o (case validation_attempt_id g of
           None \<Rightarrow> ret ()
         | Some aid \<Rightarrow> if aid = [] then ret () else swallow_os_or_value (intent A (CancelIntent (run_of g) aid))) (\<lambda>_.
       finish_row env cfg A key g ''disabled'' ''automation_downstream_disabled'' ''downstream_admission_disabled'')
     else
     bind_o (ask A (a_manager A)) (\<lambda>present.
     if \<not> present then validation_manager_absent env cfg A key g
     else
       bind_o (leased_advance env cfg A key (g_generation g) ''validation_admission'') (\<lambda>r1.
       case r1 of
         Inl err \<Rightarrow> validation_admission_failed env cfg A key g err
       | Inr g1 \<Rightarrow> validation_admitted handle env cfg A key e r g1)))"

text \<open>\<^verbatim>\<open>_admit_validation\<close>\<close>

definition admit_validation_body ::
  "(string \<Rightarrow> entry \<Rightarrow> gen \<Rightarrow> unit op) \<Rightarrow> py_env \<Rightarrow> ledger_config \<Rightarrow> answers \<Rightarrow> string \<Rightarrow> entry \<Rightarrow> gen \<Rightarrow> unit op" where
  "admit_validation_body handle env cfg A key e g =
     bind_o (admission_open A) (\<lambda>b.
     if \<not> b then ret ()
     else
     bind_o (reconcile_validation_link env cfg A key g) (\<lambda>(g', changed).
     if changed then handle key e g' else validation_unlinked handle env cfg A key e g))"

section \<open>Publication\<close>

text \<open>\<^verbatim>\<open>(value or {}).get(...)\<close>: a value that is true and no dictionary raises.\<close>

definition dict_or_empty :: "json \<Rightarrow> doc result" where
  "dict_or_empty v = (if \<not> truthy v then Inr [] else case v of JObj kvs \<Rightarrow> Inr kvs | _ \<Rightarrow> Inl (Exn AttributeError [] []))"

text \<open>\<^verbatim>\<open>str((value.get("error") or {}).get("code") or alt)\<close>\<close>

definition error_code :: "py_env \<Rightarrow> doc \<Rightarrow> string \<Rightarrow> string result" where
  "error_code env kvs alt = bind_r (dict_or_empty (jget kvs ''error'')) (\<lambda>err. Inr (str_or env (jget err ''code'') alt))"

text \<open>\<^verbatim>\<open>publication_confirmation\<close> of \<^verbatim>\<open>automation_service.py\<close>: \<^verbatim>\<open>str\<close> of the first true value.\<close>

fun first_true :: "json list \<Rightarrow> json" where
  "first_true [] = JStr []"
| "first_true (v # vs) = (if truthy v then v else first_true vs)"

definition publication_confirmation :: "py_env \<Rightarrow> doc \<Rightarrow> string result" where
  "publication_confirmation env run =
     bind_r (dict_or_empty (jget run ''artifact'')) (\<lambda>artifact.
     bind_r (dict_or_empty (jget artifact ''inspection'')) (\<lambda>inspection.
     let package = first_true [jget inspection ''package'', jget run ''package'', jget run ''recipe_id''] in
     bind_r (if truthy (jget inspection ''version'') then Inr (jget inspection ''version'')
         else bind_r (dict_or_empty (jget run ''version'')) (\<lambda>v.
           Inr (if has_key v ''debian'' then jget v ''debian'' else JStr []))) (\<lambda>version.
     Inr (''publish:'' @ py_str env package @ '':'' @ py_str env version))))"

text \<open>\<^verbatim>\<open>_last_publication\<close>; a string or dictionary has no last element with a \<^verbatim>\<open>get\<close>.\<close>

definition last_of :: "json \<Rightarrow> json result" where
  "last_of rows =
     (if \<not> truthy rows then Inr JNull
      else case rows of
        JArr xs \<Rightarrow> Inr (last xs)
      | JStr _ \<Rightarrow> Inl (Exn AttributeError [] [])
      | JObj _ \<Rightarrow> Inl (Exn KeyError [] [])
      | _ \<Rightarrow> Inl type_err)"

definition last_publication :: "py_env \<Rightarrow> answers \<Rightarrow> string \<Rightarrow> json op" where
  "last_publication env A rid =
     bind_o (load_run env A rid) (\<lambda>run.
     lift_r (last_of (jget (case run of None \<Rightarrow> [] | Some d \<Rightarrow> d) ''publications'')))"

text \<open>The attempt with the identifier of the result, among the dictionaries of the list.\<close>

definition publication_attempts :: "doc \<Rightarrow> doc list result" where
  "publication_attempts run =
     (case jget run ''publications'' of
        JArr xs \<Rightarrow> Inr (List.map_filter (\<lambda>x. case x of JObj kvs \<Rightarrow> Some kvs | _ \<Rightarrow> None) xs)
      | JStr _ \<Rightarrow> Inr []
      | JObj _ \<Rightarrow> Inr []
      | v \<Rightarrow> if truthy v then Inl type_err else Inr [])"

definition attempt_with_id :: "json \<Rightarrow> doc list \<Rightarrow> doc option" where
  "attempt_with_id i rows = List.find (\<lambda>kvs. py_eq (jget kvs ''id'') i) rows"

text \<open>How a failed publication ends: a bounded number of retries for transient codes, else the
  intent is cancelled and the row is finished.\<close>

definition publication_failed ::
  "py_env \<Rightarrow> ledger_config \<Rightarrow> answers \<Rightarrow> string \<Rightarrow> gen \<Rightarrow> string \<Rightarrow> string \<Rightarrow> unit op" where
  "publication_failed env cfg A key g aid code =
     (if code \<in> set PUBLICATION_TRANSIENT_CODES \<and> publication_retry_count g < MAX_PUBLICATION_RETRIES
      then schedule_retry env cfg A key g code ''publication_transient_retry''
      else
        bind_o (intent A (CancelIntent (run_of g) aid)) (\<lambda>_.
        finish_row env cfg A key g
          (if code \<in> set PUBLICATION_BLOCKED_CODES then ''blocked_manual'' else ''terminal_failure'') code ''publication_failed''))"

text \<open>\<^verbatim>\<open>publication_attempt_id=x["id"]\<close>: the ledger refuses what is no string when it saves.\<close>

definition publication_id :: "doc \<Rightarrow> string result" where
  "publication_id kvs =
     (case jget kvs ''id'' of
        JStr s \<Rightarrow> Inr s
      | _ \<Rightarrow> Inl (if has_key kvs ''id'' then led_err ''automation_ledger_invalid'' ''$'' else Exn KeyError [] []))"

text \<open>The part of \<^verbatim>\<open>_publish\<close> after the call, with the result of \<^verbatim>\<open>self.publish\<close>.\<close>

definition publication_result ::
  "py_env \<Rightarrow> ledger_config \<Rightarrow> answers \<Rightarrow> string \<Rightarrow> gen \<Rightarrow> string \<Rightarrow> doc \<Rightarrow> unit op" where
  "publication_result env cfg A key g aid result =
     bind_o (if truthy (jget result ''id'')
        then bind_o (lift_r (publication_id result)) (\<lambda>pid.
          on_ledger A (\<lambda>_. advance_lifecycle env cfg key (g_generation g) ''publication'' None (Some pid)))
        else ret g) (\<lambda>g1.
     bind_o (load_run env A (run_of g1)) (\<lambda>persisted.
     let run = (case persisted of None \<Rightarrow> [] | Some d \<Rightarrow> d) in
     bind_o (lift_r (publication_attempts run)) (\<lambda>rows.
     if a_proof A (attempt_with_id (jget result ''id'') rows) run
     then
       bind_o (intent A (CompleteIntent (run_of g1) aid)) (\<lambda>_.
       finish_row env cfg A key g1 ''success'' [] ''publication_succeeded'')
     else
       bind_o (lift_r (error_code env result (if jget result ''status'' = JStr ''success''
           then ''publication_proof_invalid'' else ''publication_execution_failed''))) (\<lambda>code.
       publication_failed env cfg A key g1 aid code))))"

text \<open>A publication attempt that failed before: record it, then retry or finish.\<close>

definition previous_failed ::
  "py_env \<Rightarrow> ledger_config \<Rightarrow> answers \<Rightarrow> string \<Rightarrow> gen \<Rightarrow> string \<Rightarrow> doc \<Rightarrow> unit op" where
  "previous_failed env cfg A key g aid prev =
     bind_o (lift_r (publication_id prev)) (\<lambda>pid.
     bind_o (on_ledger A (\<lambda>_. advance_lifecycle env cfg key (g_generation g) ''publication'' None (Some pid))) (\<lambda>g1.
     bind_o (lift_r (error_code env prev ''publication_execution_failed'')) (\<lambda>code.
     publication_failed env cfg A key g1 aid code)))"

text \<open>The call of \<^verbatim>\<open>self.publish\<close> under a lease, with the row it leaves bound; \<^verbatim>\<open>r\<close> is the
  Recipe that authorizes it.\<close>

definition call_publish ::
  "py_env \<Rightarrow> ledger_config \<Rightarrow> answers \<Rightarrow> string \<Rightarrow> gen \<Rightarrow> doc option \<Rightarrow> doc \<Rightarrow> (gen \<times> doc result) op" where
  "call_publish env cfg A key g r run =
     bind_o (leased_advance env cfg A key (g_generation g) ''publication'') (\<lambda>r1.
     case r1 of
       Inl err \<Rightarrow> ret (g, Inl err)
     | Inr g1 \<Rightarrow>
         bind_o (attempt (bind_o (lift_r (publication_confirmation env run)) (\<lambda>confirm.
             bind_o (emit (Publish (run_of g1) confirm r)) (\<lambda>_.
             bind_o (ask A (a_publish A)) lift_r)))) (\<lambda>q. ret (g1, q)))"

text \<open>\<^verbatim>\<open>_publish\<close>\<close>

definition publish ::
  "py_env \<Rightarrow> ledger_config \<Rightarrow> answers \<Rightarrow> string \<Rightarrow> entry \<Rightarrow> gen \<Rightarrow> string \<Rightarrow> unit op" where
  "publish env cfg A key e g aid =
     bind_o (admission_open A) (\<lambda>b.
     if \<not> b then ret ()
     else
     bind_o (recipe A (e_recipe_id e)) (\<lambda>r.
     if \<not> downstream_authorized env r ''full'' then
       bind_o (intent A (CancelIntent (run_of g) aid)) (\<lambda>_.
       finish_row env cfg A key g ''disabled'' ''automation_publication_disabled'' ''publication_admission_disabled'')
     else
     bind_o (last_publication env A (run_of g)) (\<lambda>previous.
     bind_o (lift_r (if truthy previous then (case previous of JObj kvs \<Rightarrow> Inr kvs | _ \<Rightarrow> Inl (Exn AttributeError [] [])) else Inr [])) (\<lambda>prev.
     if jget prev ''status'' = JStr ''failed'' \<and> g_state g \<noteq> ''retry_delayed''
     then previous_failed env cfg A key g aid prev
     else
     bind_o (load_run env A (run_of g)) (\<lambda>loaded.
     let run = (case loaded of None \<Rightarrow> [] | Some d \<Rightarrow> d) in
     if run = [] then finish_row env cfg A key g ''blocked_manual'' ''build_run_not_found'' ''publication_state_unavailable''
     else
     bind_o (call_publish env cfg A key g r run) (\<lambda>(g1, q).
     case q of
       Inl err \<Rightarrow>
         bind_o (closing A (code_of ''publication_execution_failed'' err)) (\<lambda>b.
         if b then ret () else publication_failed env cfg A key g1 aid (code_of ''publication_execution_failed'' err))
     | Inr result \<Rightarrow> publication_result env cfg A key g1 aid result))))))"

text \<open>\<^verbatim>\<open>_handle_validation\<close>; \<^verbatim>\<open>admit\<close> is \<^verbatim>\<open>_admit_validation\<close>.\<close>

definition handle_validation_body ::
  "(string \<Rightarrow> entry \<Rightarrow> gen \<Rightarrow> unit op) \<Rightarrow> py_env \<Rightarrow> ledger_config \<Rightarrow> answers \<Rightarrow> string \<Rightarrow> entry \<Rightarrow> gen \<Rightarrow> unit op" where
  "handle_validation_body admit env cfg A key e g0 =
     bind_o (reconcile_validation_link env cfg A key g0) (\<lambda>(g, _).
     let aid = (case validation_attempt_id g of None \<Rightarrow> [] | Some a \<Rightarrow> a) in
     if aid = [] then admit key e g
     else
     bind_o (ask A (\<lambda>t. a_attempt A t aid)) (\<lambda>found.
     case found of
       Inl err \<Rightarrow>
         if exn_class err = ValidationAdmissionError
         then finish_row env cfg A key g ''blocked_manual'' (exn_code err) ''validation_state_unavailable''
         else throw err
     | Inr v \<Rightarrow>
         if at_status v \<in> set VALIDATION_ACTIVE_STATUSES then ret ()
         else if at_status v = ''cancelled''
         then finish_row env cfg A key g ''cancelled''
           (case at_error v of None \<Rightarrow> ''validation_cancelled'' | Some c \<Rightarrow> c) ''validation_cancelled''
         else if at_status v = ''failed'' then
           (let code = (case at_error v of None \<Rightarrow> ''validation_failed'' | Some c \<Rightarrow> c) in
            bind_o (load_run env A (run_of g)) (\<lambda>_.
            bind_o (lift_r (at_phase v)) (\<lambda>phase.
            if phase = ''preparation'' \<and> code \<in> set VALIDATION_TRANSIENT_CODES \<and> validation_retry_count g < MAX_VALIDATION_RETRIES
            then schedule_retry env cfg A key g code ''validation_transient_retry''
            else finish_row env cfg A key g ''terminal_failure'' code ''validation_failed'')))
         else if desired_policy g = ''build_validate''
         then finish_row env cfg A key g ''success'' [] ''validation_succeeded''
         else publish env cfg A key e g aid))"

text \<open>The two methods call each other.  \<^verbatim>\<open>depth\<close> is what the recursion limit leaves; beyond it
  Python raises \<^verbatim>\<open>RecursionError\<close>, a \<^verbatim>\<open>RuntimeError\<close>.\<close>

fun admit_validation ::
  "nat \<Rightarrow> py_env \<Rightarrow> ledger_config \<Rightarrow> answers \<Rightarrow> string \<Rightarrow> entry \<Rightarrow> gen \<Rightarrow> unit op"
and handle_validation ::
  "nat \<Rightarrow> py_env \<Rightarrow> ledger_config \<Rightarrow> answers \<Rightarrow> string \<Rightarrow> entry \<Rightarrow> gen \<Rightarrow> unit op" where
  "admit_validation 0 env cfg A key e g = throw (Exn RuntimeError [] [])"
| "admit_validation (Suc d) env cfg A key e g = admit_validation_body (handle_validation d env cfg A) env cfg A key e g"
| "handle_validation 0 env cfg A key e g = throw (Exn RuntimeError [] [])"
| "handle_validation (Suc d) env cfg A key e g = handle_validation_body (admit_validation d env cfg A) env cfg A key e g"

section \<open>Runs\<close>

text \<open>\<^verbatim>\<open>_reason\<close>: the newest earlier attempt of the Recipe decides; \<^verbatim>\<open>max\<close> keeps the first of
  equals.\<close>

definition first_created :: "entry \<Rightarrow> string" where
  "first_created e = created_at (hd (e_generations e))"

fun newest_entry :: "entry \<Rightarrow> entry list \<Rightarrow> entry" where
  "newest_entry best [] = best"
| "newest_entry best (e # es) = newest_entry (if first_created e > first_created best then e else best) es"

definition earlier_attempts :: "ledger \<Rightarrow> string \<Rightarrow> entry \<Rightarrow> entry list" where
  "earlier_attempts L key e =
     map snd (filter (\<lambda>ke. fst ke \<noteq> key \<and> e_recipe_id (snd ke) = e_recipe_id e \<and> first_created (snd ke) < first_created e) L)"

definition reason_of :: "ledger \<Rightarrow> string \<Rightarrow> entry \<Rightarrow> string" where
  "reason_of L key e =
     (let i = e_identity e;
          otherwise = (if tracking i = ''latest_release'' then ''new_release'' else ''ref_advanced'') in
      case earlier_attempts L key e of
        [] \<Rightarrow> otherwise
      | c # cs \<Rightarrow>
          let previous = newest_entry c cs; prior = e_identity previous in
          if prior = i \<and> e_recipe_sha256 previous \<noteq> e_recipe_sha256 e then ''recipe_revision_changed''
          else if tracking i = ''latest_release'' \<and> source_type i = ''release_asset'' \<and>
              release_id prior = release_id i \<and> prior \<noteq> i
          then ''release_asset_changed''
          else otherwise)"

text \<open>Whether a stored Run already has the identity of the claim, one element of \<^verbatim>\<open>any(...)\<close>.\<close>

definition owns_identity :: "entry \<Rightarrow> gen \<Rightarrow> doc \<Rightarrow> bool" where
  "owns_identity e g run =
     (jget run ''recipe_id'' = JStr (e_recipe_id e) \<and>
      py_eq (case jget run ''automation'' of
          JObj a \<Rightarrow> if has_key a ''expected_upstream_identity'' then jget a ''expected_upstream_identity''
            else jget run ''manual_source_provenance''
        | _ \<Rightarrow> jget run ''manual_source_provenance'') (identity_json (e_identity e)) \<and>
      (jget run ''mode'' = JStr ''build'' \<or> desired_policy g = ''test'') \<and>
      (\<exists>s \<in> {''pending'', ''queued'', ''running'', ''building'', ''prepared'', ''success''}. jget run ''status'' = JStr s))"

text \<open>\<^verbatim>\<open>enqueue_run\<close> with its callback \<^verbatim>\<open>ledger.link_run\<close>.\<close>

definition change_disk :: "(disk \<Rightarrow> disk) \<Rightarrow> unit op" where
  "change_disk f w = (w\<lparr>w_disk := f (w_disk w)\<rparr>, Inr ())"

definition link_created ::
  "py_env \<Rightarrow> ledger_config \<Rightarrow> answers \<Rightarrow> string \<Rightarrow> int \<Rightarrow> string \<Rightarrow> gen op" where
  "link_created env cfg A key n rid w =
     (let w1 = step_world A w in
      case link_run env cfg (a_io A (w_tick w)) (w_disk w1) key n rid (a_ledger_io A (w_tick w)) (w_ledger w1) of
        (lf, r) \<Rightarrow> (w1\<lparr>w_ledger := lf\<rparr>, r))"

definition enqueue_run ::
  "py_env \<Rightarrow> ledger_config \<Rightarrow> answers \<Rightarrow> string \<Rightarrow> int \<Rightarrow> string \<Rightarrow> unit op" where
  "enqueue_run env cfg A key n rid =
     bind_o (ask A (a_enqueue A)) (\<lambda>answer.
     bind_o (change_disk (en_create answer)) (\<lambda>_.
     case en_refused answer of
       Some err \<Rightarrow> throw err
     | None \<Rightarrow>
         bind_o (link_created env cfg A key n rid) (\<lambda>_.
         bind_o (change_disk (en_submit answer)) (\<lambda>_.
         case en_failed answer of Some err \<Rightarrow> throw err | None \<Rightarrow> ret ()))))"

text \<open>\<^verbatim>\<open>reconcile_preallocated_run\<close> changes the Run store too.\<close>

definition reconcile_run :: "py_env \<Rightarrow> ledger_config \<Rightarrow> answers \<Rightarrow> string \<Rightarrow> int \<Rightarrow> reconciliation op" where
  "reconcile_run env cfg A key n w =
     (let w1 = step_world A w in
      case reconcile_preallocated_run env cfg (a_io A (w_tick w)) key n (a_ledger_io A (w_tick w)) (w_disk w1, w_ledger w1) of
        ((d, lf), r) \<Rightarrow> (w1\<lparr>w_ledger := lf, w_disk := d\<rparr>, r))"

text \<open>The first part of the \<^verbatim>\<open>try\<close> of \<^verbatim>\<open>_admit_run\<close>, up to the binding of the row: whether a Run
  owns the identity, and the row.\<close>

definition bind_run ::
  "py_env \<Rightarrow> ledger_config \<Rightarrow> answers \<Rightarrow> string \<Rightarrow> entry \<Rightarrow> gen \<Rightarrow> (bool \<times> gen) op" where
  "bind_run env cfg A key e g =
     bind_o (lease A) (\<lambda>_.
     if preallocated_run_id g = None then
       bind_o (bind_o (ask A (a_runs A)) lift_r) (\<lambda>runs.
       if \<exists>run \<in> set runs. owns_identity e g run then ret (True, g)
       else
         bind_o (on_ledger A (\<lambda>t. preallocate_run env cfg (a_token A t) key (g_generation g))) (\<lambda>g1.
         ret (False, g1)))
     else
       bind_o (reconcile_run env cfg A key (g_generation g)) (\<lambda>rec.
       ret (False, rec_record rec)))"

text \<open>The second part: \<^verbatim>\<open>None\<close> when the Run was enqueued, else the code of a stale claim.\<close>

definition enqueue_bound ::
  "py_env \<Rightarrow> ledger_config \<Rightarrow> answers \<Rightarrow> bool \<Rightarrow> string \<Rightarrow> entry \<Rightarrow> gen \<Rightarrow> doc \<Rightarrow> string option op" where
  "enqueue_bound env cfg A existing key e g r =
     bind_o (recipe A (e_recipe_id e)) (\<lambda>live.
     bind_o (if existing
        then ret (if downstream_authorized env live (desired_policy g) then Inr r else Inl ''automation_run_admission_disabled'')
        else
          bind_o (lift_r (initial_authorized A e g live)) (\<lambda>ok.
          ret (if ok then Inr (the live) else Inl ''recipe_changed_before_run''))) (\<lambda>chosen.
     case chosen of
       Inl code \<Rightarrow> ret (Some code)
     | Inr r1 \<Rightarrow>
         bind_o (read_ledger env cfg A) (\<lambda>L.
         bind_o (lift_r (a_stored A r1)) (\<lambda>workflow.
         bind_o (emit (EnqueueRun workflow live existing (preallocated_run_id g) (desired_policy g = ''test'') (reason_of L key e)
             key (g_generation g) (desired_policy g))) (\<lambda>_.
         bind_o (enqueue_run env cfg A key (g_generation g) (case preallocated_run_id g of None \<Rightarrow> [] | Some rid \<Rightarrow> rid)) (\<lambda>_.
         ret None))))))"

text \<open>The \<^verbatim>\<open>except Exception\<close> of \<^verbatim>\<open>_admit_run\<close>.\<close>

definition run_admission_failed ::
  "py_env \<Rightarrow> ledger_config \<Rightarrow> answers \<Rightarrow> string \<Rightarrow> gen \<Rightarrow> exn \<Rightarrow> unit op" where
  "run_admission_failed env cfg A key g err =
     (let code = code_of ''execution_admission_failed'' err in
      bind_o (closing A code) (\<lambda>b.
      if b then ret ()
      else if code \<in> set RUN_ADMISSION_TRANSIENT_CODES then
        bind_o (admission_open A) (\<lambda>b.
        if b then schedule_retry env cfg A key g code ''run_admission_delayed'' else ret ())
      else finish_row env cfg A key g ''terminal_failure'' code ''run_admission_failed''))"

text \<open>\<^verbatim>\<open>self.ledger.read()["attempts"][key]["generations"][n]\<close>\<close>

definition read_row :: "py_env \<Rightarrow> ledger_config \<Rightarrow> answers \<Rightarrow> string \<Rightarrow> int \<Rightarrow> gen op" where
  "read_row env cfg A key n =
     bind_o (read_ledger env cfg A) (\<lambda>L.
     case map_of L key of
       None \<Rightarrow> throw (Exn KeyError [] [])
     | Some e \<Rightarrow> if 0 \<le> n \<and> n < int (length (e_generations e)) then ret (e_generations e ! nat n) else throw (Exn IndexError [] []))"

text \<open>The Recipe an admission goes on with, or the classification, code and diagnostic of its
  end: the checks of \<^verbatim>\<open>_admit_run\<close> before the \<^verbatim>\<open>try\<close>.\<close>

definition admission_recipe ::
  "py_env \<Rightarrow> answers \<Rightarrow> bool \<Rightarrow> entry \<Rightarrow> gen \<Rightarrow> doc option \<Rightarrow> (string \<times> string \<times> string + doc) op" where
  "admission_recipe env A existing e g r =
     bind_o (if existing then ret True else lift_r (initial_authorized A e g r)) (\<lambda>authorized.
     if \<not> existing \<and> \<not> authorized
     then ret (Inl (''disabled'', ''recipe_changed_before_run'', ''stale_claim_suppressed''))
     else if existing \<and> \<not> downstream_authorized env r (desired_policy g)
     then ret (Inl (''disabled'', ''automation_run_admission_disabled'', ''pending_run_admission_disabled''))
     else
       bind_o (if existing \<and> run_of g \<noteq> [] then
           bind_o (ask A (\<lambda>t. a_snapshot A t (run_of g))) (\<lambda>s.
           ret (case s of
               None \<Rightarrow> Inl (''blocked_manual'', ''build_run_snapshot_invalid'', ''run_state_unavailable'')
             | Some d \<Rightarrow> Inr (Some d)))
         else ret (Inr r)) (\<lambda>chosen.
       ret (case chosen of
           Inl stop \<Rightarrow> Inl stop
         | Inr None \<Rightarrow> Inl (''disabled'', ''recipe_unavailable'', ''stale_claim_suppressed'')
         | Inr (Some d) \<Rightarrow> Inr d)))"

text \<open>The end of \<^verbatim>\<open>_admit_run\<close> for an enqueued Run; \<^verbatim>\<open>handle\<close> is \<^verbatim>\<open>_handle_run\<close>.\<close>

definition run_enqueued ::
  "(string \<Rightarrow> entry \<Rightarrow> gen \<Rightarrow> unit op) \<Rightarrow> py_env \<Rightarrow> ledger_config \<Rightarrow> answers \<Rightarrow> string \<Rightarrow> entry \<Rightarrow> gen \<Rightarrow> unit op" where
  "run_enqueued handle env cfg A key e g =
     bind_o (read_row env cfg A key (g_generation g)) (\<lambda>linked_row.
     bind_o (on_ledger A (\<lambda>_. advance_lifecycle env cfg key (g_generation g) ''run'' None None)) (\<lambda>_.
     bind_o (case run_id linked_row of None \<Rightarrow> throw val_err | Some rid \<Rightarrow> load_run env A rid) (\<lambda>current.
     if (case current of None \<Rightarrow> False | Some d \<Rightarrow> \<exists>s \<in> set TERMINAL_RUN_STATUSES. jget d ''status'' = JStr s)
     then bind_o (read_row env cfg A key (g_generation g)) (handle key e)
     else ret ())))"

text \<open>\<^verbatim>\<open>_admit_run\<close> once the row is bound.\<close>

definition run_bound ::
  "(string \<Rightarrow> entry \<Rightarrow> gen \<Rightarrow> unit op) \<Rightarrow> py_env \<Rightarrow> ledger_config \<Rightarrow> answers \<Rightarrow> bool \<Rightarrow> string \<Rightarrow> entry \<Rightarrow> doc \<Rightarrow>
   bool \<times> gen \<Rightarrow> unit op" where
  "run_bound handle env cfg A existing key e r = (\<lambda>(owned, g).
     if owned
     then finish_row env cfg A key g ''success'' ''existing_run_owns_identity'' ''existing_run_owns_identity''
     else
     bind_o (attempt (enqueue_bound env cfg A existing key e g r)) (\<lambda>enqueued.
     case enqueued of
       Inl err \<Rightarrow> run_admission_failed env cfg A key g err
     | Inr (Some code) \<Rightarrow>
         finish_row env cfg A key g ''disabled'' code
           (if existing then ''pending_run_admission_disabled'' else ''stale_claim_suppressed'')
     | Inr None \<Rightarrow> run_enqueued handle env cfg A key e g))"

text \<open>\<^verbatim>\<open>_admit_run\<close>\<close>

definition admit_run_body ::
  "(string \<Rightarrow> entry \<Rightarrow> gen \<Rightarrow> unit op) \<Rightarrow> py_env \<Rightarrow> ledger_config \<Rightarrow> answers \<Rightarrow> bool \<Rightarrow> string \<Rightarrow> entry \<Rightarrow> gen \<Rightarrow>
   doc option \<Rightarrow> unit op" where
  "admit_run_body handle env cfg A existing key e g r =
     bind_o (admission_open A) (\<lambda>b.
     if \<not> b then ret ()
     else
     bind_o (admission_recipe env A existing e g r) (\<lambda>chosen.
     case chosen of
       Inl (classification, code, diag) \<Rightarrow> finish_row env cfg A key g classification code diag
     | Inr r1 \<Rightarrow>
         bind_o (attempt (bind_run env cfg A key e g)) (\<lambda>bound.
         case bound of
           Inl err \<Rightarrow> run_admission_failed env cfg A key g err
         | Inr owned_row \<Rightarrow> run_bound handle env cfg A existing key e r1 owned_row)))"

text \<open>\<^verbatim>\<open>_handle_run\<close>; \<^verbatim>\<open>admit\<close> is \<^verbatim>\<open>_admit_run\<close> of an existing Run, \<^verbatim>\<open>validate\<close> is
  \<^verbatim>\<open>_admit_validation\<close>.\<close>

definition handle_run_body ::
  "(string \<Rightarrow> entry \<Rightarrow> gen \<Rightarrow> doc option \<Rightarrow> unit op) \<Rightarrow> (string \<Rightarrow> entry \<Rightarrow> gen \<Rightarrow> unit op) \<Rightarrow>
   py_env \<Rightarrow> ledger_config \<Rightarrow> answers \<Rightarrow> string \<Rightarrow> entry \<Rightarrow> gen \<Rightarrow> unit op" where
  "handle_run_body admit validate env cfg A key e g =
     bind_o (load_run env A (run_of g)) (\<lambda>loaded.
     let run = (case loaded of None \<Rightarrow> [] | Some d \<Rightarrow> d); status = jget run ''status'' in
     if run = [] then finish_row env cfg A key g ''blocked_manual'' ''automation_run_not_found'' ''run_state_unavailable''
     else if status = JStr ''pending'' then bind_o (recipe A (e_recipe_id e)) (admit key e g)
     else if \<forall>s \<in> set TERMINAL_RUN_STATUSES. status \<noteq> JStr s then ret ()
     else if status = JStr ''cancelled''
     then bind_o (lift_r (error_code env run ''execution_cancelled'')) (\<lambda>code.
       finish_row env cfg A key g ''cancelled'' code ''run_cancelled'')
     else if status \<noteq> JStr (if desired_policy g = ''test'' then ''prepared'' else ''success'')
     then bind_o (lift_r (error_code env run ''execution_failed'')) (\<lambda>code.
       finish_row env cfg A key g ''terminal_failure'' code ''run_failed'')
     else if desired_policy g \<in> {''test'', ''build''}
     then finish_row env cfg A key g ''success'' []
       (if desired_policy g = ''test'' then ''test_succeeded'' else ''build_succeeded'')
     else validate key e g)"

fun admit_run ::
  "nat \<Rightarrow> py_env \<Rightarrow> ledger_config \<Rightarrow> answers \<Rightarrow> bool \<Rightarrow> string \<Rightarrow> entry \<Rightarrow> gen \<Rightarrow> doc option \<Rightarrow> unit op"
and handle_run ::
  "nat \<Rightarrow> py_env \<Rightarrow> ledger_config \<Rightarrow> answers \<Rightarrow> string \<Rightarrow> entry \<Rightarrow> gen \<Rightarrow> unit op" where
  "admit_run 0 env cfg A existing key e g r = throw (Exn RuntimeError [] [])"
| "admit_run (Suc d) env cfg A existing key e g r = admit_run_body (handle_run d env cfg A) env cfg A existing key e g r"
| "handle_run 0 env cfg A key e g = throw (Exn RuntimeError [] [])"
| "handle_run (Suc d) env cfg A key e g =
     handle_run_body (admit_run d env cfg A True) (admit_validation d env cfg A) env cfg A key e g"

section \<open>Advancing\<close>

text \<open>The dispatch of \<^verbatim>\<open>advance\<close> on the stage of the row.\<close>

definition dispatch :: "nat \<Rightarrow> py_env \<Rightarrow> ledger_config \<Rightarrow> answers \<Rightarrow> string \<Rightarrow> entry \<Rightarrow> gen \<Rightarrow> unit op" where
  "dispatch depth env cfg A key e g =
     (if run_of g \<noteq> [] then
        (if stage g \<in> {''validation_admission'', ''validation''} then
           (if g_state g = ''retry_delayed'' \<or> stage g = ''validation_admission''
            then admit_validation depth env cfg A key e g else handle_validation depth env cfg A key e g)
         else if stage g = ''publication'' then handle_validation depth env cfg A key e g
         else handle_run depth env cfg A key e g)
      else bind_o (recipe A (e_recipe_id e)) (admit_run depth env cfg A False key e g))"

definition advance_locked :: "nat \<Rightarrow> py_env \<Rightarrow> ledger_config \<Rightarrow> answers \<Rightarrow> string \<Rightarrow> int \<Rightarrow> unit op" where
  "advance_locked depth env cfg A key n =
     bind_o (read_ledger env cfg A) (\<lambda>L.
     case find_row L key n of
       None \<Rightarrow> ret ()
     | Some (e, g) \<Rightarrow>
         if g_state g \<in> {''terminal'', ''blocked''} then ret ()
         else
         bind_o (if g_state g = ''retry_delayed'' then ask A (a_clock A) else ret 0) (\<lambda>now.
         if \<not> retry_due env now g then ret ()
         else if \<not> is_recipe_turn L key n (e_recipe_id e) (created_at g) then ret ()
         else dispatch depth env cfg A key e g))"

text \<open>\<^verbatim>\<open>advance\<close>: nothing when another thread holds the lock of the generation; a ledger error is
  logged.\<close>

definition advance :: "nat \<Rightarrow> py_env \<Rightarrow> ledger_config \<Rightarrow> answers \<Rightarrow> string \<Rightarrow> int \<Rightarrow> unit op" where
  "advance depth env cfg A key n =
     bind_o (ask A (a_unlocked A)) (\<lambda>free.
     if \<not> free then ret ()
     else
       bind_o (attempt (advance_locked depth env cfg A key n)) (\<lambda>r.
       case r of
         Inr _ \<Rightarrow> ret ()
       | Inl err \<Rightarrow> if exn_class err = AutomationLedgerError then ret () else throw err))"

fun each :: "('a \<Rightarrow> unit op) \<Rightarrow> 'a list \<Rightarrow> unit op" where
  "each f [] = ret ()"
| "each f (x # xs) = bind_o (f x) (\<lambda>_. each f xs)"

definition advance_all :: "nat \<Rightarrow> py_env \<Rightarrow> ledger_config \<Rightarrow> answers \<Rightarrow> unit op" where
  "advance_all depth env cfg A =
     bind_o (read_ledger env cfg A) (\<lambda>L.
     each (\<lambda>(_, key, n). advance depth env cfg A key n) (sort (concat (map entry_rows L))))"

definition on_detection :: "nat \<Rightarrow> py_env \<Rightarrow> ledger_config \<Rightarrow> answers \<Rightarrow> doc \<Rightarrow> unit op" where
  "on_detection depth env cfg A result =
     (case (jget result ''attempt_key'', jget result ''generation'') of
        (JStr key, JInt n) \<Rightarrow> advance depth env cfg A key n
      | (JStr key, JBool b) \<Rightarrow> advance depth env cfg A key (if b then 1 else 0)
      | _ \<Rightarrow> ret ())"

text \<open>\<^verbatim>\<open>metadata["attempt_key"], metadata["generation"]\<close> and the two calls that follow: the
  metadata of a valid Run or attempt has a string and an integer there.\<close>

definition advance_named :: "nat \<Rightarrow> py_env \<Rightarrow> ledger_config \<Rightarrow> answers \<Rightarrow> doc \<Rightarrow> unit op" where
  "advance_named depth env cfg A m =
     (case (jget m ''attempt_key'', jget m ''generation'') of
        (JStr key, JInt n) \<Rightarrow> bind_o (advance depth env cfg A key n) (\<lambda>_. advance_all depth env cfg A)
      | _ \<Rightarrow> throw (Exn KeyError [] []))"

definition on_run_terminal :: "nat \<Rightarrow> py_env \<Rightarrow> ledger_config \<Rightarrow> answers \<Rightarrow> string \<Rightarrow> unit op" where
  "on_run_terminal depth env cfg A rid =
     bind_o (load_run env A rid) (\<lambda>run.
     case jget (case run of None \<Rightarrow> [] | Some d \<Rightarrow> d) ''automation'' of
       JObj m \<Rightarrow> advance_named depth env cfg A m
     | _ \<Rightarrow> ret ())"

definition on_validation_terminal :: "nat \<Rightarrow> py_env \<Rightarrow> ledger_config \<Rightarrow> answers \<Rightarrow> string \<Rightarrow> string \<Rightarrow> unit op" where
  "on_validation_terminal depth env cfg A rid aid =
     bind_o (ask A (\<lambda>t. a_metadata A t rid aid)) (\<lambda>r.
     case r of
       Inl err \<Rightarrow> if os_or_value_error err \<or> exn_class err = ValidationAdmissionError then ret () else throw err
     | Inr m \<Rightarrow> if truthy (jget m ''attempt_key'') then advance_named depth env cfg A m else ret ())"

text \<open>\<^verbatim>\<open>next_retry_delay\<close>\<close>

definition delayed_dates :: "ledger \<Rightarrow> string list" where
  "delayed_dates L = concat (map (\<lambda>ke. List.map_filter (\<lambda>g.
     if g_state g = ''retry_delayed'' then (case not_before g of None \<Rightarrow> None | Some s \<Rightarrow> if s = [] then None else Some s) else None)
     (e_generations (snd ke))) L)"

fun retry_delays :: "py_env \<Rightarrow> answers \<Rightarrow> string list \<Rightarrow> rat list op" where
  "retry_delays env A [] = ret []"
| "retry_delays env A (s # ss) =
     (case fromisoformat env s of
        None \<Rightarrow> throw val_err
      | Some (_, t) \<Rightarrow>
          bind_o (ask A (a_clock A)) (\<lambda>now.
          bind_o (retry_delays env A ss) (\<lambda>rest.
          ret (max 0 (of_int t / 1000000 - now) # rest))))"

definition next_retry_delay :: "py_env \<Rightarrow> ledger_config \<Rightarrow> answers \<Rightarrow> rat option op" where
  "next_retry_delay env cfg A =
     bind_o (read_ledger env cfg A) (\<lambda>L.
     bind_o (retry_delays env A (delayed_dates L)) (\<lambda>delays.
     ret (if delays = [] then None else Some (Min (set delays)))))"

end
