(* ===== verification/Orchestrator_Flow.thy ===== *)
theory Orchestrator_Flow
  imports Automation_Orchestrator
begin

text \<open>
  How the handlers of \<open>Automation_Orchestrator\<close> move through the world, in the style of a Hoare
  calculus: \<open>keeps J Q m\<close> says that \<open>m\<close> preserves \<open>J\<close> on every path, exceptions included, and
  returns only values with \<open>Q\<close>; \<open>leads J I m\<close> says that \<open>m\<close> ends in \<open>I\<close> when started in
  \<open>J\<close>.  The locale \<open>row_flow\<close> states once what an invariant has to survive; it is indexed by the
  version of the row that the handler has in hand, and \<open>learns\<close> describes the operations that return a newer
  version.  Its theorem \<open>dispatch_leads\<close> carries every handler; each invariant is an interpretation.
\<close>

section \<open>Rules for operations\<close>

definition keeps :: "(world \<Rightarrow> bool) \<Rightarrow> ('a \<Rightarrow> bool) \<Rightarrow> 'a op \<Rightarrow> bool" where
  "keeps J Q m = (\<forall>w. J w \<longrightarrow> J (fst (m w)) \<and> (\<forall>x. snd (m w) = Inr x \<longrightarrow> Q x))"

definition leads :: "(world \<Rightarrow> bool) \<Rightarrow> (world \<Rightarrow> bool) \<Rightarrow> 'a op \<Rightarrow> bool" where
  "leads J I m = (\<forall>w. J w \<longrightarrow> I (fst (m w)))"

abbreviation anything :: "'a \<Rightarrow> bool" where
  "anything \<equiv> \<lambda>_. True"

lemma keeps_ret: "Q x \<Longrightarrow> keeps J Q (ret x)"
  by (simp add: keeps_def ret_def)

lemma keeps_throw: "keeps J Q (throw err)"
  by (simp add: keeps_def throw_def)

lemma keeps_lift: "(\<And>x. r = Inr x \<Longrightarrow> Q x) \<Longrightarrow> keeps J Q (lift_r r)"
  by (simp add: keeps_def lift_r_def)

lemma keeps_bind:
  assumes "keeps J Q m" "\<And>x. Q x \<Longrightarrow> keeps J R (f x)"
  shows "keeps J R (bind_o m f)"
  unfolding keeps_def
proof (intro allI impI)
  fix w
  assume "J w"
  then show "J (fst (bind_o m f w)) \<and> (\<forall>x. snd (bind_o m f w) = Inr x \<longrightarrow> R x)"
    using assms unfolding keeps_def bind_o_def
    by (cases "m w"; cases "snd (m w)") fastforce+
qed

lemma keeps_attempt: "keeps J Q m \<Longrightarrow> keeps J (\<lambda>r. \<forall>x. r = Inr x \<longrightarrow> Q x) (attempt m)"
  unfolding keeps_def attempt_def by (auto split: prod.split)

lemma keeps_weaken: "keeps J Q m \<Longrightarrow> (\<And>x. Q x \<Longrightarrow> R x) \<Longrightarrow> keeps J R m"
  by (auto simp: keeps_def)

lemma keeps_if: "(b \<Longrightarrow> keeps J Q m) \<Longrightarrow> (\<not> b \<Longrightarrow> keeps J Q m') \<Longrightarrow> keeps J Q (if b then m else m')"
  by simp

lemma leads_bind:
  assumes "keeps J Q m" "\<And>x. Q x \<Longrightarrow> leads J I (f x)" "\<And>w. J w \<Longrightarrow> I w"
  shows "leads J I (bind_o m f)"
  unfolding leads_def
proof (intro allI impI)
  fix w
  assume "J w"
  with assms show "I (fst (bind_o m f w))"
    unfolding keeps_def leads_def bind_o_def
    by (cases "m w"; cases "snd (m w)") fastforce+
qed

lemma leads_keeps: "keeps J Q m \<Longrightarrow> (\<And>w. J w \<Longrightarrow> I w) \<Longrightarrow> leads J I m"
  by (auto simp: keeps_def leads_def)

lemma leads_if: "(b \<Longrightarrow> leads J I m) \<Longrightarrow> (\<not> b \<Longrightarrow> leads J I m') \<Longrightarrow> leads J I (if b then m else m')"
  by simp

section \<open>What a handler may do\<close>

text \<open>The ledger operations that leave the row of the handler unfinished.\<close>

inductive resuming ::
  "py_env \<Rightarrow> ledger_config \<Rightarrow> string \<Rightarrow> int \<Rightarrow> (ledger_io \<Rightarrow> ledger_file \<Rightarrow> ledger_file \<times> gen result) \<Rightarrow> bool"
  for env cfg key n where
  "resuming env cfg key n (advance_lifecycle env cfg key n stg val pub)"
| "resuming env cfg key n (finish env cfg key n ''transient_retryable'' ''transient'' count before code diag)"
| "resuming env cfg key n (preallocate_run env cfg candidate key n)"
| "resuming env cfg key n (link_run env cfg rio disk key n rid)"

text \<open>Every one of them is the common frame of a row update or refuses its arguments.\<close>

lemma resuming_frame:
  assumes "resuming env cfg key n op"
  shows "(\<exists>body. (\<forall>io e g g'. body io e g = Inr (UpdateRow g') \<longrightarrow> row_le g g') \<and>
      (\<forall>io lf. op io lf = with_row env cfg io key n (body io) lf)) \<or> (\<exists>err. \<forall>io lf. op io lf = (lf, Inl err))"
  using assms
proof cases
  case (1 stg val pub)
  show ?thesis
  proof (cases "stg \<notin> set STAGES \<or> stg \<in> {''detection'', ''terminal''}")
    case False
    then show ?thesis using advance_body_le unfolding 1 advance_lifecycle_def
      by (intro disjI1 exI [of _ "\<lambda>io. advance_body stg val pub (l_clock io 0)"] conjI allI impI) (blast, simp)
  qed (intro disjI2 exI [of _ "led_err ''automation_stage_invalid'' ''$''"] allI, simp add: 1 advance_lifecycle_def)
next
  case (2 count before code diag)
  show ?thesis
  proof (cases "''transient_retryable'' \<notin> set TERMINAL_CLASSIFICATIONS \<or> ''transient'' \<notin> set RETRY_CLASSES")
    case False
    then show ?thesis using finish_body_le unfolding 2 finish_def
      by (intro disjI1 exI [of _ "\<lambda>io. finish_body ''transient_retryable'' ''transient'' count before code diag (l_clock io 0)"] conjI allI impI) (blast, simp)
  qed (intro disjI2 exI [of _ "led_err ''automation_classification_invalid'' ''$''"] allI, simp add: 2 finish_def)
next
  case (3 candidate)
  show ?thesis using preallocate_body_le unfolding 3 preallocate_run_def
    by (intro disjI1 exI [of _ "\<lambda>io. preallocate_body candidate (l_clock io 0)"]) blast
next
  case (4 rio disk rid)
  show ?thesis using link_body_le unfolding 4 link_run_def
    by (intro disjI1 exI [of _ "\<lambda>io. link_body key rid (load env rio rid disk) (l_clock io 0)"]) blast
qed

text \<open>The row that an operation returns is the row of the file it leaves.\<close>

lemma with_row_row:
  assumes "\<And>e g g'. body e g = Inr (UpdateRow g') \<Longrightarrow> row_le g g'" "with_row env cfg io key n body lf = (lf', Inr g)"
  shows "\<exists>L e. load_unlocked env cfg lf' = Inr L \<and> row_of L key n = Inr (e, g)"
proof -
  obtain L e0 g0 L' e step where "load_unlocked env cfg lf' = Inr L'" "row_of L' key n = Inr (e, g)"
    using with_row_success [OF assms] .
  then show ?thesis by blast
qed

lemma resuming_row:
  assumes "resuming env cfg key n op" "op io lf = (lf', Inr g)"
  shows "\<exists>L e. load_unlocked env cfg lf' = Inr L \<and> row_of L key n = Inr (e, g)"
  using resuming_frame [OF assms(1)]
proof (elim disjE exE conjE)
  fix body
  assume "\<forall>io e g g'. body io e g = Inr (UpdateRow g') \<longrightarrow> row_le g g'" "\<forall>io lf. op io lf = with_row env cfg io key n (body io) lf"
  with assms(2) show ?thesis using with_row_row [of "body io"] by simp
qed (use assms(2) in simp)

lemma preallocate_row:
  assumes "preallocate_run env cfg candidate key n io lf = (lf', Inr g)"
  shows "preallocated_run_id g \<noteq> None"
  using preallocate_body_le assms [unfolded preallocate_run_def]
  by (rule with_row_success) (auto simp: preallocate_body_def split: if_splits)

lemma reconcile_row:
  assumes "reconcile_preallocated_run env cfg rio key n io (d, lf) = ((d', lf'), Inr rec)"
  shows "\<exists>L e. load_unlocked env cfg lf' = Inr L \<and> row_of L key n = Inr (e, rec_record rec)"
  using assms unfolding reconcile_preallocated_run_def
  by (auto simp: bind_r_Inr_iff split: sum.splits option.splits if_splits prod.splits
      dest: resuming_row [OF resuming.intros(4)])

text \<open>A Recipe as one of the reads returned it.\<close>

definition read_recipe :: "answers \<Rightarrow> entry \<Rightarrow> doc option \<Rightarrow> bool" where
  "read_recipe A e r = (\<exists>t. r = recipe_named (e_recipe_id e) (a_recipe A t (e_recipe_id e)))"

text \<open>The calls a handler may make while it has the version \<open>g\<close> of the row in hand and before it finishes the
  row, with what authorizes them.  A Run is enqueued, and a validation admitted, under the policy of the
  row; a validation, a publication and the end of a publication intent concern the Run of the row; a
  publication is not asked for under the policy \<^verbatim>\<open>build_validate\<close>; and an intent is completed only when the
  publication is proved on the document of that Run.\<close>

fun authorized :: "py_env \<Rightarrow> answers \<Rightarrow> string \<Rightarrow> int \<Rightarrow> entry \<Rightarrow> gen \<Rightarrow> call \<Rightarrow> bool" where
  "authorized env A key n e g (EnqueueRun workflow live existing rid dry why k m pol) =
     (k = key \<and> m = n \<and> pol = desired_policy g \<and> rid = preallocated_run_id g \<and>
      read_recipe A e live \<and> dry = (pol = ''test'') \<and>
      (if existing then downstream_authorized env live pol
       else \<exists>d. live = Some d \<and> truthy (jget d ''active'') \<and> truthy (automation_field d ''enabled'') \<and>
         automation_field d ''policy'' = JStr pol \<and> a_digest A d = Inr (e_recipe_sha256 e) \<and> a_stored A d = Inr workflow))"
| "authorized env A key n e g (AdmitValidation rid then_publish k m pol live) =
     (k = key \<and> m = n \<and> pol = desired_policy g \<and> rid = run_of g \<and>
      read_recipe A e live \<and> then_publish = (pol = ''full''))"
| "authorized env A key n e g (Publish rid confirm live) =
     (rid = run_of g \<and> read_recipe A e live \<and> downstream_authorized env live ''full'')"
| "authorized env A key n e g (CancelIntent rid aid) = (rid = run_of g \<and> aid \<noteq> [])"
| "authorized env A key n e g (CompleteIntent rid aid) =
     (rid = run_of g \<and> aid \<noteq> [] \<and>
      (\<exists>t disk run i attempts. load env (a_io A t) rid disk = Inr run \<and>
         publication_attempts (case run of None \<Rightarrow> [] | Some d \<Rightarrow> d) = Inr attempts \<and>
         a_proof A (attempt_with_id i attempts) (case run of None \<Rightarrow> [] | Some d \<Rightarrow> d)))"
| "authorized env A key n e g (NotifyCompletion k m rid st pol stg code) = False"

text \<open>What a call needs of the row, and later versions keep: a Run to be created, a Run, a policy beyond
  validation, a policy under which the Recipe \<open>r\<close> permits a validation.\<close>

datatype fact = Prepared | HasRun | BeyondValidation | Permitted "doc option"

fun has_fact :: "py_env \<Rightarrow> fact \<Rightarrow> gen \<Rightarrow> bool" where
  "has_fact env Prepared g = (preallocated_run_id g \<noteq> None)"
| "has_fact env HasRun g = (run_id g \<noteq> None)"
| "has_fact env BeyondValidation g = (desired_policy g \<noteq> ''build_validate'')"
| "has_fact env (Permitted r) g =
     downstream_authorized env r (if desired_policy g = ''full'' then ''full'' else ''build_validate'')"

fun needs :: "call \<Rightarrow> fact set" where
  "needs (EnqueueRun workflow live existing rid dry why k m pol) = {Prepared}"
| "needs (AdmitValidation rid then_publish k m pol live) = {HasRun, Permitted live}"
| "needs (Publish rid confirm live) = {HasRun, BeyondValidation}"
| "needs (NotifyCompletion k m rid st pol stg code) = {}"
| "needs c = {HasRun}"

lemma initial_authorized_True:
  assumes "initial_authorized A e g r = Inr True"
  obtains d where "r = Some d" "truthy (jget d ''active'')" "truthy (automation_field d ''enabled'')"
    "automation_field d ''policy'' = JStr (desired_policy g)" "a_digest A d = Inr (e_recipe_sha256 e)"
  using assms by (auto simp: initial_authorized_def split: option.splits if_splits elim!: bind_r_InrE)

section \<open>The contract of an invariant\<close>

text \<open>\<open>J g\<close> holds while the row is unfinished and the handler knows its version \<open>g\<close>, and \<open>I\<close> once a
  handler has returned; \<open>later\<close> relates the versions of the row, and \<open>known\<close> are the facts that later versions
  keep.\<close>

locale row_flow =
  fixes env :: py_env and cfg :: ledger_config and A :: answers and key :: string and n :: int and e :: entry
    and later :: "gen \<Rightarrow> gen \<Rightarrow> bool" and known :: "fact \<Rightarrow> gen \<Rightarrow> bool"
    and J :: "gen \<Rightarrow> world \<Rightarrow> bool" and I :: "world \<Rightarrow> bool"
  assumes weaker: "J g w \<Longrightarrow> I w"
    and number: "J g w \<Longrightarrow> g_generation g = n"
    and others: "J g w \<Longrightarrow> J g (step_world A w)"
    and store: "J g w \<Longrightarrow> J g (w\<lparr>w_disk := d\<rparr>)"
    and resumes: "J g w \<Longrightarrow> resuming env cfg key n op \<Longrightarrow> J g (w\<lparr>w_ledger := fst (op io (w_ledger w))\<rparr>)"
    and reads: "J g w \<Longrightarrow> load_unlocked env cfg (w_ledger w) = Inr L \<Longrightarrow> row_of L key n = Inr (e', g') \<Longrightarrow> J g' w \<and> later g g'"
    and forgets: "J g' w \<Longrightarrow> later g g' \<Longrightarrow> J g w"
    and later_refl: "later g g"
    and later_trans: "later g g' \<Longrightarrow> later g' g'' \<Longrightarrow> later g g''"
    and has_known: "has_fact env f g \<Longrightarrow> known f g"
    and later_known: "later g g' \<Longrightarrow> known f g \<Longrightarrow> known f g'"
    and calls: "J g w \<Longrightarrow> authorized env A key n e g c \<Longrightarrow> (\<And>f. f \<in> needs c \<Longrightarrow> known f g) \<Longrightarrow> J g (w\<lparr>w_calls := w_calls w @ [c]\<rparr>)"
    and finishes: "J g w \<Longrightarrow> classification \<noteq> ''transient_retryable'' \<Longrightarrow>
      I (fst (finish_row env cfg A key g classification code diag w))"
begin

lemmas bind_step = leads_bind [OF _ _ weaker]

text \<open>An operation that returns a version of the row, as \<open>row\<close> of its value.\<close>

definition learns :: "gen \<Rightarrow> ('a \<Rightarrow> gen) \<Rightarrow> ('a \<Rightarrow> bool) \<Rightarrow> 'a op \<Rightarrow> bool" where
  "learns g row Q m = (\<forall>w. J g w \<longrightarrow> J g (fst (m w)) \<and>
     (\<forall>x. snd (m w) = Inr x \<longrightarrow> later g (row x) \<and> J (row x) (fst (m w)) \<and> Q x))"

abbreviation newer_row :: "gen \<Rightarrow> gen \<Rightarrow> bool" where
  "newer_row g g' \<equiv> later g g' \<and> g_generation g' = n"

lemma learn_bind:
  assumes "learns g row Q m" "\<And>x. Q x \<Longrightarrow> newer_row g (row x) \<Longrightarrow> leads (J (row x)) I (F x)"
  shows "leads (J g) I (bind_o m F)"
  unfolding leads_def
proof (intro allI impI)
  fix w
  assume J: "J g w"
  obtain w1 q where m: "m w = (w1, q)" by fastforce
  have l: "J g w1" "q = Inr x \<Longrightarrow> later g (row x) \<and> J (row x) w1 \<and> Q x" for x
    using assms(1) [unfolded learns_def, rule_format, OF J] m by simp_all
  show "I (fst (bind_o m F w))"
  proof (cases q)
    case (Inl err)
    with m weaker [OF l(1)] show ?thesis by (simp add: bind_o_def)
  next
    case (Inr x)
    with l(2) number assms(2) [of x] have "leads (J (row x)) I (F x)" "J (row x) w1" by blast+
    with m Inr show ?thesis by (simp add: bind_o_def leads_def)
  qed
qed

lemma learns_attempt:
  "learns g row Q m \<Longrightarrow>
    learns g (\<lambda>r. case r of Inl err \<Rightarrow> g | Inr x \<Rightarrow> row x) (\<lambda>r. \<forall>x. r = Inr x \<longrightarrow> Q x) (attempt m)"
  unfolding learns_def attempt_def by (auto simp: later_refl split: prod.split sum.split)

lemma learn_attempt:
  assumes "learns g row Q m" "\<And>err. leads (J g) I (F (Inl err))"
    "\<And>x. Q x \<Longrightarrow> newer_row g (row x) \<Longrightarrow> leads (J (row x)) I (F (Inr x))"
  shows "leads (J g) I (bind_o (attempt m) F)"
proof (rule learn_bind [OF learns_attempt [OF assms(1)]])
  fix r :: "'a result"
  assume "\<forall>x. r = Inr x \<longrightarrow> Q x" "newer_row g (case r of Inl err \<Rightarrow> g | Inr x \<Rightarrow> row x)"
  with assms(2,3) show "leads (J (case r of Inl err \<Rightarrow> g | Inr x \<Rightarrow> row x)) I (F r)" by (cases r) simp_all
qed

lemma learns_keep:
  assumes "keeps (J g) Q m" "\<And>x. Q x \<Longrightarrow> learns g row R (f x)"
  shows "learns g row R (bind_o m f)"
  unfolding learns_def
proof (intro allI impI)
  fix w
  assume J: "J g w"
  obtain w1 q where m: "m w = (w1, q)" by fastforce
  have l: "J g w1" "q = Inr x \<Longrightarrow> Q x" for x using assms(1) [unfolded keeps_def, rule_format, OF J] m by simp_all
  show "J g (fst (bind_o m f w)) \<and>
      (\<forall>x. snd (bind_o m f w) = Inr x \<longrightarrow> later g (row x) \<and> J (row x) (fst (bind_o m f w)) \<and> R x)"
  proof (cases q)
    case (Inr x)
    with l assms(2) [of x] m show ?thesis by (simp add: bind_o_def learns_def)
  qed (use l m in \<open>simp add: bind_o_def\<close>)
qed

lemma learns_bind:
  assumes "learns g row Q m" "\<And>x. Q x \<Longrightarrow> newer_row g (row x) \<Longrightarrow> learns (row x) row' R (f x)"
  shows "learns g row' R (bind_o m f)"
  unfolding learns_def
proof (intro allI impI)
  fix w
  assume J: "J g w"
  obtain w1 q where m: "m w = (w1, q)" by fastforce
  have l: "J g w1" "q = Inr x \<Longrightarrow> later g (row x) \<and> J (row x) w1 \<and> Q x" for x
    using assms(1) [unfolded learns_def, rule_format, OF J] m by simp_all
  show "J g (fst (bind_o m f w)) \<and>
      (\<forall>x. snd (bind_o m f w) = Inr x \<longrightarrow> later g (row' x) \<and> J (row' x) (fst (bind_o m f w)) \<and> R x)"
  proof (cases q)
    case (Inr x)
    with l(2) number assms(2) [of x] have "learns (row x) row' R (f x)" "J (row x) w1" "later g (row x)" by blast+
    then show ?thesis using m Inr forgets later_trans unfolding learns_def by (simp add: bind_o_def) blast
  qed (use l m in \<open>simp add: bind_o_def\<close>)
qed

lemma learns_ret: "row x = g \<Longrightarrow> Q x \<Longrightarrow> learns g row Q (ret x)"
  by (simp add: learns_def ret_def later_refl)

lemma learns_if: "(b \<Longrightarrow> learns g row Q m) \<Longrightarrow> (\<not> b \<Longrightarrow> learns g row Q m') \<Longrightarrow> learns g row Q (if b then m else m')"
  by simp

lemma learns_keeps: "learns g row Q m \<Longrightarrow> keeps (J g) anything m"
  by (simp add: learns_def keeps_def)

lemma leads_back: "leads (J g) I m \<Longrightarrow> later g g' \<Longrightarrow> leads (J g') I m"
  unfolding leads_def using forgets by blast

lemma learns_on_ledger:
  assumes "\<And>t. resuming env cfg key n (f t)" "\<And>t io lf lf' g'. f t io lf = (lf', Inr g') \<Longrightarrow> Q g'"
  shows "learns g (\<lambda>g'. g') Q (on_ledger A f)"
  unfolding learns_def
proof (intro allI impI)
  fix w
  assume "J g w"
  let ?w = "step_world A w"
  obtain lf r where op: "f (w_tick w) (a_ledger_io A (w_tick w)) (w_ledger ?w) = (lf, r)" by fastforce
  have run: "on_ledger A f w = (?w\<lparr>w_ledger := lf\<rparr>, r)" by (simp add: on_ledger_def op Let_def)
  have J: "J g (?w\<lparr>w_ledger := lf\<rparr>)"
    using resumes [where io = "a_ledger_io A (w_tick w)", OF others [OF \<open>J g w\<close>] assms(1) [of "w_tick w"]] op by simp
  moreover have "later g g' \<and> J g' (?w\<lparr>w_ledger := lf\<rparr>) \<and> Q g'" if r: "r = Inr g'" for g'
  proof -
    obtain L e' where "load_unlocked env cfg lf = Inr L" "row_of L key n = Inr (e', g')"
      using resuming_row [OF assms(1) op [unfolded r]] by blast
    then show ?thesis using reads [OF J, of L e' g'] assms(2) [OF op [unfolded r]] by simp
  qed
  ultimately show "J g (fst (on_ledger A f w)) \<and> (\<forall>x. snd (on_ledger A f w) = Inr x \<longrightarrow> later g x \<and> J x (fst (on_ledger A f w)) \<and> Q x)"
    by (simp add: run)
qed

lemma keeps_ask: "keeps (J g) (\<lambda>x. \<exists>t. x = f t) (ask A f)"
  by (auto simp: keeps_def ask_def others)

lemma keeps_any_ask: "keeps (J g) anything (ask A f)"
  by (simp add: keeps_def ask_def others)

lemma keeps_asked: "keeps (J g) anything (bind_o (ask A f) lift_r)"
  by (rule keeps_bind [OF keeps_any_ask keeps_lift]) simp

lemma keeps_recipe: "keeps (J g) (read_recipe A e) (recipe A (e_recipe_id e))"
  unfolding recipe_def read_recipe_def by (rule keeps_weaken [OF keeps_ask]) auto

lemma keeps_read_ledger: "keeps (J g) anything (read_ledger env cfg A)"
  by (simp add: keeps_def read_ledger_def others Let_def)

lemma keeps_load_run: "keeps (J g) (\<lambda>run. \<exists>t disk. load env (a_io A t) rid disk = Inr run) (load_run env A rid)"
  by (auto simp: keeps_def load_run_def others Let_def)

lemma keeps_any_load_run: "keeps (J g) anything (load_run env A rid)"
  by (rule keeps_weaken [OF keeps_load_run]) simp

lemma keeps_emit: "authorized env A key n e g c \<Longrightarrow> (\<And>f. f \<in> needs c \<Longrightarrow> known f g) \<Longrightarrow> keeps (J g) anything (emit c)"
  by (simp add: keeps_def emit_def calls)

lemma keeps_change_disk: "keeps (J g) anything (change_disk f)"
  by (simp add: keeps_def change_disk_def store)

lemma keeps_on_ledger:
  assumes "\<And>t. resuming env cfg key n (f t)"
  shows "keeps (J g) anything (on_ledger A f)"
  using learns_on_ledger [where Q = anything, OF assms] by (intro learns_keeps) simp

lemma keeps_link_created: "keeps (J g) anything (link_created env cfg A key n rid)"
  unfolding keeps_def
proof (intro allI impI)
  fix w
  assume "J g w"
  then show "J g (fst (link_created env cfg A key n rid w)) \<and> (\<forall>x. snd (link_created env cfg A key n rid w) = Inr x \<longrightarrow> True)"
    using resumes [OF others resuming.intros(4)]
    by (simp add: link_created_def Let_def split: prod.split) (metis fst_conv)
qed

lemma learns_reconcile_run: "learns g rec_record anything (reconcile_run env cfg A key n)"
  unfolding learns_def
proof (intro allI impI)
  fix w
  assume "J g w"
  let ?w = "step_world A w"
  obtain d lf r where q: "reconcile_preallocated_run env cfg (a_io A (w_tick w)) key n (a_ledger_io A (w_tick w))
      (w_disk ?w, w_ledger ?w) = ((d, lf), r)" by (metis prod.collapse)
  from reconcile_file [OF q] have "J g (?w\<lparr>w_ledger := lf\<rparr>)"
    using others [OF \<open>J g w\<close>] resumes [OF others [OF \<open>J g w\<close>] resuming.intros(4)]
    by (elim disjE exE) (simp, metis fst_conv)
  then have J: "J g (?w\<lparr>w_ledger := lf, w_disk := d\<rparr>)" by (rule store)
  moreover have "later g (rec_record rec) \<and> J (rec_record rec) (?w\<lparr>w_ledger := lf, w_disk := d\<rparr>)" if r: "r = Inr rec" for rec
  proof -
    obtain L e' where "load_unlocked env cfg lf = Inr L" "row_of L key n = Inr (e', rec_record rec)"
      using reconcile_row [OF q [unfolded r]] by blast
    then show ?thesis using reads [OF J, of L e' "rec_record rec"] by simp
  qed
  ultimately show "J g (fst (reconcile_run env cfg A key n w)) \<and>
      (\<forall>rec. snd (reconcile_run env cfg A key n w) = Inr rec \<longrightarrow>
        later g (rec_record rec) \<and> J (rec_record rec) (fst (reconcile_run env cfg A key n w)) \<and> True)"
    by (simp add: reconcile_run_def Let_def q)
qed

lemma keeps_admission_open: "keeps (J g) anything (admission_open A)"
  unfolding admission_open_def by (rule keeps_any_ask)

lemma keeps_lease: "keeps (J g) anything (lease A)"
  unfolding lease_def by (rule keeps_bind [OF keeps_any_ask]) (auto split: option.split intro: keeps_ret keeps_throw)

lemma keeps_closing: "keeps (J g) anything (closing A code)"
  unfolding closing_def by (intro keeps_if keeps_ret keeps_bind [OF keeps_admission_open]) simp_all

lemma keeps_intent:
  "authorized env A key n e g c \<Longrightarrow> (\<And>f. f \<in> needs c \<Longrightarrow> known f g) \<Longrightarrow> keeps (J g) anything (intent A c)"
  unfolding intent_def
  by (intro keeps_bind [OF keeps_emit] keeps_bind [OF keeps_any_ask]) (auto split: option.split intro: keeps_ret keeps_throw)

lemma keeps_swallow: "keeps (J g) anything m \<Longrightarrow> keeps (J g) anything (swallow_os_or_value m)"
  unfolding swallow_os_or_value_def
  by (rule keeps_bind [OF keeps_attempt]) (auto split: sum.split intro: keeps_ret keeps_throw)

lemma keeps_schedule_retry: "g_generation g' = n \<Longrightarrow> keeps (J g) anything (schedule_retry env cfg A key g' code diag)"
  unfolding schedule_retry_def delay_def
  by (intro keeps_bind [OF keeps_any_ask] keeps_bind [OF keeps_on_ledger]) (auto intro: keeps_ret resuming.intros)

lemma finish_leads:
  "classification \<noteq> ''transient_retryable'' \<Longrightarrow> leads (J g) I (finish_row env cfg A key g classification code diag)"
  unfolding leads_def using finishes by blast

lemma retry_leads: "g_generation g' = n \<Longrightarrow> leads (J g) I (schedule_retry env cfg A key g' code diag)"
  by (rule leads_keeps [OF keeps_schedule_retry weaker])

lemma ret_leads: "leads (J g) I (ret x)"
  by (simp add: leads_def ret_def weaker)

lemma throw_leads: "leads (J g) I (throw err)"
  by (simp add: leads_def throw_def weaker)

lemmas row_leads = finish_leads retry_leads ret_leads throw_leads leads_if

lemma learns_advance_row:
  "learns g (\<lambda>g'. g') anything (on_ledger A (\<lambda>_. advance_lifecycle env cfg key n stg val pub))"
  by (rule learns_on_ledger) (rule resuming.intros, simp)

lemma learns_read_row: "learns g (\<lambda>g'. g') anything (read_row env cfg A key n)"
  unfolding learns_def
proof (intro allI impI)
  fix w
  assume "J g w"
  then have J: "J g (step_world A w)" by (rule others)
  have "fst (read_row env cfg A key n w) = step_world A w"
    by (simp add: read_row_def bind_o_def read_ledger_def Let_def throw_def ret_def split: sum.split option.split)
  moreover have "later g g' \<and> J g' (step_world A w)" if r: "snd (read_row env cfg A key n w) = Inr g'" for g'
  proof (cases "load_unlocked env cfg (w_ledger (step_world A w))")
    case (Inr L)
    with r obtain e' where "map_of L key = Some e'" "0 \<le> n" "n < int (length (e_generations e'))" "g' = e_generations e' ! nat n"
      by (auto simp: read_row_def bind_o_def read_ledger_def Let_def throw_def ret_def split: option.splits if_splits)
    then have "row_of L key n = Inr (e', g')" by (simp add: row_of_def)
    with reads [OF J Inr] show ?thesis by blast
  qed (use r in \<open>simp add: read_row_def bind_o_def read_ledger_def Let_def\<close>)
  ultimately show "J g (fst (read_row env cfg A key n w)) \<and>
      (\<forall>x. snd (read_row env cfg A key n w) = Inr x \<longrightarrow> later g x \<and> J x (fst (read_row env cfg A key n w)) \<and> True)"
    using J by simp
qed

lemma learns_leased_advance:
  "learns g (\<lambda>g'. g') anything (bind_o (lease A) (\<lambda>_. on_ledger A (\<lambda>_. advance_lifecycle env cfg key n stg None None)))"
  by (rule learns_keep [OF keeps_lease learns_advance_row])

lemma learns_reconcile_validation_link:
  assumes "g_generation g = n"
  shows "learns g fst anything (reconcile_validation_link env cfg A key g)"
  unfolding reconcile_validation_link_def assms
  by (intro learns_keep [OF keeps_asked] learns_keep [OF keeps_lift [where Q = anything]])
    (auto split: option.split intro!: learns_ret learns_bind [OF learns_advance_row])

end

section \<open>The handlers\<close>

context row_flow
begin

text \<open>A handler of a row that has a Run.\<close>

abbreviation row_handler :: "(string \<Rightarrow> entry \<Rightarrow> gen \<Rightarrow> unit op) \<Rightarrow> bool" where
  "row_handler h \<equiv> \<forall>g. g_generation g = n \<longrightarrow> known HasRun g \<longrightarrow> leads (J g) I (h key e g)"

lemma validation_admission_failed_leads:
  "g_generation g = n \<Longrightarrow> leads (J g) I (validation_admission_failed env cfg A key g err)"
  unfolding validation_admission_failed_def Let_def
  by (intro row_leads bind_step [OF keeps_admission_open] bind_step [OF keeps_closing]) simp_all

lemma validation_manager_absent_leads:
  assumes "g_generation g = n"
  shows "leads (J g) I (validation_manager_absent env cfg A key g)"
  unfolding validation_manager_absent_def leased_advance_def assms
  by (rule learn_attempt [OF learns_leased_advance])
    (auto intro!: row_leads bind_step [OF keeps_closing])

lemma validation_admitted_leads:
  assumes handle: "row_handler handle" and g: "g_generation g = n" "known HasRun g"
    and r: "read_recipe A e r" "known (Permitted r) g"
  shows "leads (J g) I (validation_admitted handle env cfg A key e r g)"
proof -
  have call: "keeps (J g) anything (emit (AdmitValidation (run_of g) (desired_policy g = ''full'') key n (desired_policy g) r))"
    using g r by (intro keeps_emit) auto
  have attempted: "leads (J g') I (case current of
       Inl err \<Rightarrow> if exn_class err = ValidationAdmissionError then ret () else throw err
     | Inr v \<Rightarrow> if at_status v \<in> set VALIDATION_TERMINAL_STATUSES then handle key e g' else ret ())"
    if "newer_row g g'" for g' current
    using that handle later_known g(2) by (cases current) (auto intro!: row_leads)
  have linked: "leads (J g) I (bind_o (on_ledger A (\<lambda>_. advance_lifecycle env cfg key n ''validation'' (Some aid) None)) (\<lambda>g1.
         bind_o (ask A (\<lambda>t. a_attempt A t aid)) (\<lambda>current.
         case current of
           Inl err \<Rightarrow> if exn_class err = ValidationAdmissionError then ret () else throw err
         | Inr v \<Rightarrow> if at_status v \<in> set VALIDATION_TERMINAL_STATUSES then handle key e g1 else ret ())))" for aid
    by (intro learn_bind [OF learns_advance_row] bind_step [OF keeps_any_ask] attempted)
  show ?thesis
    unfolding validation_admitted_def g(1)
    by (intro bind_step [OF call] bind_step [OF keeps_any_ask])
      (auto split: sum.split intro: validation_admission_failed_leads [OF g(1)] linked)
qed

lemma validation_unlinked_leads:
  assumes handle: "row_handler handle" and g: "g_generation g = n" "known HasRun g"
  shows "leads (J g) I (validation_unlinked handle env cfg A key e g)"
proof -
  let ?required = "if desired_policy g = ''full'' then ''full'' else ''build_validate''"
  have cancel: "keeps (J g) anything (case validation_attempt_id g of
           None \<Rightarrow> ret ()
         | Some aid \<Rightarrow> if aid = [] then ret () else swallow_os_or_value (intent A (CancelIntent (run_of g) aid)))"
    using g(2) by (auto split: option.split intro!: keeps_ret keeps_swallow keeps_intent)
  have admit: "leads (J g) I (bind_o (leased_advance env cfg A key n ''validation_admission'') (\<lambda>r1.
       case r1 of
         Inl err \<Rightarrow> validation_admission_failed env cfg A key g err
       | Inr g1 \<Rightarrow> validation_admitted handle env cfg A key e r g1))"
    if r: "read_recipe A e r" "downstream_authorized env r ?required" for r
  proof -
    have permitted: "known (Permitted r) g" using r(2) by (intro has_known) simp
    show ?thesis
      unfolding leased_advance_def
    proof (rule learn_attempt [OF learns_leased_advance])
      fix g1
      assume "newer_row g g1"
      then show "leads (J g1) I (case Inr g1 of
         Inl err \<Rightarrow> validation_admission_failed env cfg A key g err
       | Inr g1 \<Rightarrow> validation_admitted handle env cfg A key e r g1)"
        using later_known g(2) permitted by (auto intro: validation_admitted_leads [where handle = handle, OF handle _ _ r(1)])
    qed (simp add: validation_admission_failed_leads g)
  qed
  show ?thesis
    unfolding validation_unlinked_def g(1)
    by (intro bind_step [OF keeps_recipe] leads_if bind_step [OF cancel] finish_leads bind_step [OF keeps_any_ask]
        validation_manager_absent_leads g admit) simp_all
qed

lemma admit_validation_leads:
  assumes handle: "row_handler handle" and g: "g_generation g = n" "known HasRun g"
  shows "leads (J g) I (admit_validation_body handle env cfg A key e g)"
  unfolding admit_validation_body_def
proof (intro leads_if ret_leads bind_step [OF keeps_admission_open] learn_bind [OF learns_reconcile_validation_link [OF g(1)]])
  fix x :: "gen \<times> bool"
  assume new: "newer_row g (fst x)"
  obtain g' changed where x: "x = (g', changed)" by fastforce
  have "leads (J g') I (validation_unlinked handle env cfg A key e g)"
    using validation_unlinked_leads [where handle = handle, OF handle g] new by (auto simp: x intro: leads_back)
  moreover have "leads (J g') I (handle key e g')"
    using handle new later_known g(2) by (auto simp: x)
  ultimately show "leads (J (fst x)) I (case x of (g', changed) \<Rightarrow>
      if changed then handle key e g' else validation_unlinked handle env cfg A key e g)"
    by (simp add: x)
qed

end

context row_flow
begin

lemma publication_failed_leads:
  assumes g: "g_generation g = n" "known HasRun g" and aid: "aid \<noteq> []"
  shows "leads (J g) I (publication_failed env cfg A key g aid code)"
  unfolding publication_failed_def
  using g aid by (intro leads_if retry_leads finish_leads bind_step [OF keeps_intent]) auto

text \<open>The end of a publication: the proof is on the Run that was loaded.\<close>

lemma publication_result_leads:
  assumes g: "g_generation g = n" "known HasRun g" and aid: "aid \<noteq> []"
  shows "leads (J g) I (publication_result env cfg A key g aid result)"
proof -
  have row: "learns g (\<lambda>g1. g1) anything (if truthy (jget result ''id'')
        then bind_o (lift_r (publication_id result)) (\<lambda>pid.
          on_ledger A (\<lambda>_. advance_lifecycle env cfg key n ''publication'' None (Some pid)))
        else ret g)"
    by (intro learns_if learns_keep [OF keeps_lift [where Q = anything]] learns_advance_row learns_ret) simp_all
  have proved: "leads (J g1) I (if a_proof A (attempt_with_id i rows) run
     then
       bind_o (intent A (CompleteIntent (run_of g1) aid)) (\<lambda>_.
       finish_row env cfg A key g1 ''success'' [] ''publication_succeeded'')
     else
       bind_o (lift_r (error_code env result alt)) (\<lambda>code.
       publication_failed env cfg A key g1 aid code))"
    if "newer_row g g1" "load env (a_io A t) (run_of g1) disk = Inr persisted"
      "run = (case persisted of None \<Rightarrow> [] | Some d \<Rightarrow> d)" "publication_attempts run = Inr rows" for g1 t disk persisted run rows i alt
  proof -
    have g1: "g_generation g1 = n" "known HasRun g1" using that(1) g later_known by auto
    have "authorized env A key n e g1 (CompleteIntent (run_of g1) aid)"
      if "a_proof A (attempt_with_id i rows) run"
      unfolding authorized.simps
      using that aid \<open>load env (a_io A t) (run_of g1) disk = Inr persisted\<close> \<open>publication_attempts run = Inr rows\<close>
        \<open>run = _\<close> by blast
    then show ?thesis
      by (intro leads_if finish_leads bind_step [OF keeps_lift [where Q = anything]] publication_failed_leads aid g1
          bind_step [OF keeps_intent]) (simp_all add: g1)
  qed
  show ?thesis
    unfolding publication_result_def Let_def g(1)
  proof (intro learn_bind [OF row] bind_step [OF keeps_load_run])
    fix g1 persisted
    assume "newer_row g g1" "\<exists>t disk. load env (a_io A t) (run_of g1) disk = Inr persisted"
    then obtain t disk where h: "newer_row g g1" "load env (a_io A t) (run_of g1) disk = Inr persisted" by blast
    let ?run = "case persisted of None \<Rightarrow> [] | Some d \<Rightarrow> d"
    show "leads (J g1) I (bind_o (lift_r (publication_attempts ?run)) (\<lambda>rows.
       if a_proof A (attempt_with_id (jget result ''id'') rows) ?run
       then
         bind_o (intent A (CompleteIntent (run_of g1) aid)) (\<lambda>_.
         finish_row env cfg A key g1 ''success'' [] ''publication_succeeded'')
       else
         bind_o (lift_r (error_code env result (if jget result ''status'' = JStr ''success''
             then ''publication_proof_invalid'' else ''publication_execution_failed''))) (\<lambda>code.
         publication_failed env cfg A key g1 aid code)))"
      by (rule bind_step [OF keeps_lift [where Q = "\<lambda>rows. publication_attempts ?run = Inr rows"]])
        (assumption, rule proved [OF h refl])
  qed
qed

lemma learns_call_publish:
  assumes g: "g_generation g = n" "known HasRun g" "known BeyondValidation g"
    and r: "read_recipe A e r" "downstream_authorized env r ''full''"
  shows "learns g fst anything (call_publish env cfg A key g r run)"
proof -
  have sent: "learns g1 fst anything (bind_o (attempt (bind_o (lift_r (publication_confirmation env run)) (\<lambda>confirm.
             bind_o (emit (Publish (run_of g1) confirm r)) (\<lambda>_.
             bind_o (ask A (a_publish A)) lift_r)))) (\<lambda>q. ret (g1, q)))" if "newer_row g g1" for g1
  proof -
    have "known HasRun g1" "known BeyondValidation g1" using that g later_known by auto
    then have call: "keeps (J g1) anything (emit (Publish (run_of g1) confirm r))" for confirm
      using r by (intro keeps_emit) auto
    have "keeps (J g1) anything (attempt (bind_o (lift_r (publication_confirmation env run)) (\<lambda>confirm.
             bind_o (emit (Publish (run_of g1) confirm r)) (\<lambda>_.
             bind_o (ask A (a_publish A)) lift_r))))"
      by (rule keeps_weaken [OF keeps_attempt [where Q = anything]])
        (intro keeps_bind [OF keeps_lift [where Q = anything]] keeps_bind [OF call] keeps_asked TrueI)+
    then show ?thesis by (rule learns_keep) (simp add: learns_ret)
  qed
  show ?thesis
    unfolding call_publish_def leased_advance_def g(1)
  proof (rule learns_bind [OF learns_attempt [OF learns_leased_advance]])
    fix q :: "gen result"
    assume "newer_row g (case q of Inl err \<Rightarrow> g | Inr x \<Rightarrow> x)"
    then show "learns (case q of Inl err \<Rightarrow> g | Inr x \<Rightarrow> x) fst anything (case q of
       Inl err \<Rightarrow> ret (g, Inl err)
     | Inr g1 \<Rightarrow>
         bind_o (attempt (bind_o (lift_r (publication_confirmation env run)) (\<lambda>confirm.
             bind_o (emit (Publish (run_of g1) confirm r)) (\<lambda>_.
             bind_o (ask A (a_publish A)) lift_r)))) (\<lambda>q. ret (g1, q)))"
      using sent by (cases q) (simp_all add: learns_ret)
  qed
qed

lemma previous_failed_leads:
  assumes g: "g_generation g = n" "known HasRun g" and aid: "aid \<noteq> []"
  shows "leads (J g) I (previous_failed env cfg A key g aid prev)"
  unfolding previous_failed_def g(1)
  using aid g later_known
  by (intro bind_step [OF keeps_lift [where Q = anything]] learn_bind [OF learns_advance_row] publication_failed_leads) auto

lemma publish_leads:
  assumes g: "g_generation g = n" "known HasRun g" "known BeyondValidation g" and aid: "aid \<noteq> []"
  shows "leads (J g) I (publish env cfg A key e g aid)"
proof -
  have last: "keeps (J g) anything (last_publication env A rid)" for rid
    unfolding last_publication_def by (intro keeps_bind [OF keeps_load_run] keeps_lift) simp
  have answered: "leads (J (fst x)) I (case x of (g1, q) \<Rightarrow>
     case q of
       Inl err \<Rightarrow>
         bind_o (closing A (code_of ''publication_execution_failed'' err)) (\<lambda>b.
         if b then ret () else publication_failed env cfg A key g1 aid (code_of ''publication_execution_failed'' err))
     | Inr result \<Rightarrow> publication_result env cfg A key g1 aid result)" if "newer_row g (fst x)" for x :: "gen \<times> doc result"
    using that g later_known aid
    by (auto split: prod.split sum.split intro!: row_leads bind_step [OF keeps_closing] publication_failed_leads publication_result_leads)
  have stop: "keeps (J g) anything (intent A (CancelIntent (run_of g) aid))"
    using g aid by (intro keeps_intent) auto
  show ?thesis
    unfolding publish_def Let_def
    by (intro leads_if ret_leads finish_leads bind_step [OF keeps_admission_open] bind_step [OF keeps_recipe] bind_step [OF stop]
        bind_step [OF last] bind_step [OF keeps_lift [where Q = anything]] previous_failed_leads bind_step [OF keeps_any_load_run]
        learn_bind [OF learns_call_publish] answered g aid) simp_all
qed

lemma handle_validation_leads:
  assumes admit: "row_handler admit" and g0: "g_generation g0 = n" "known HasRun g0"
  shows "leads (J g0) I (handle_validation_body admit env cfg A key e g0)"
  unfolding handle_validation_body_def
proof (rule learn_bind [OF learns_reconcile_validation_link [OF g0(1)]])
  fix x :: "gen \<times> bool"
  assume new: "newer_row g0 (fst x)"
  obtain g changed where x: "x = (g, changed)" by fastforce
  have g: "g_generation g = n" "known HasRun g" using new g0 later_known by (auto simp: x)
  have publishes: "leads (J g) I (publish env cfg A key e g aid)" if "aid \<noteq> []" "desired_policy g \<noteq> ''build_validate''" for aid
    using that g by (intro publish_leads has_known [of BeyondValidation]) simp_all
  show "leads (J (fst x)) I (case x of (g, _) \<Rightarrow>
     let aid = (case validation_attempt_id g of None \<Rightarrow> [] | Some a \<Rightarrow> a) in
     if aid = [] then admit key e g
     else
     bind_o (ask A (\<lambda>t. a_attempt A t aid)) (\<lambda>found.
     case found of
       Inl err \<Rightarrow>
         if exn_class err = ValidationAdmissionError
         then finish_row env cfg A key g ''blocked_manual'' (exn_code err) ''validation_state_unavailable''
         else throw err
     | Inr v \<Rightarrow>
         if at_status v \<in> set VALIDATION_ACTIVE_STATUSES then ret ()
         else if at_status v = ''cancelled''
         then finish_row env cfg A key g ''cancelled''
           (case at_error v of None \<Rightarrow> ''validation_cancelled'' | Some c \<Rightarrow> c) ''validation_cancelled''
         else if at_status v = ''failed'' then
           (let code = (case at_error v of None \<Rightarrow> ''validation_failed'' | Some c \<Rightarrow> c) in
            bind_o (load_run env A (run_of g)) (\<lambda>_.
            bind_o (lift_r (at_phase v)) (\<lambda>phase.
            if phase = ''preparation'' \<and> code \<in> set VALIDATION_TRANSIENT_CODES \<and> validation_retry_count g < MAX_VALIDATION_RETRIES
            then schedule_retry env cfg A key g code ''validation_transient_retry''
            else finish_row env cfg A key g ''terminal_failure'' code ''validation_failed'')))
         else if desired_policy g = ''build_validate''
         then finish_row env cfg A key g ''success'' [] ''validation_succeeded''
         else publish env cfg A key e g aid))"
    using admit g
    by (auto simp: x Let_def split: sum.split option.split intro!: row_leads bind_step [OF keeps_any_ask] bind_step [OF keeps_any_load_run]
      bind_step [OF keeps_lift [where Q = anything]] publishes)
qed

lemma validation_leads:
  "row_handler (admit_validation d env cfg A) \<and> row_handler (handle_validation d env cfg A)"
proof (induction d)
  case (Suc d)
  then show ?case using admit_validation_leads handle_validation_leads by simp
qed (simp add: throw_leads)

end

context row_flow
begin

lemma keeps_enqueue_run: "keeps (J g) anything (enqueue_run env cfg A key n rid)"
  unfolding enqueue_run_def
  by (intro keeps_bind [OF keeps_any_ask] keeps_bind [OF keeps_change_disk])
    (auto split: option.split intro!: keeps_throw keeps_ret keeps_bind [OF keeps_link_created] keeps_bind [OF keeps_change_disk])

lemma learns_bind_run:
  assumes "g_generation g = n"
  shows "learns g snd (\<lambda>(owned, g1). \<not> owned \<longrightarrow> known Prepared g1) (bind_run env cfg A key e g)"
proof -
  have prepared: "learns g (\<lambda>g'. g') (known Prepared) (on_ledger A (\<lambda>t. preallocate_run env cfg (a_token A t) key n))"
  proof (rule learns_on_ledger)
    show "known Prepared g'" if "preallocate_run env cfg (a_token A t) key n io lf = (lf', Inr g')" for t io lf lf' g'
      using preallocate_row [OF that] by (intro has_known) simp
  qed (rule resuming.intros)
  have reconciled: "learns g snd (\<lambda>(owned, g1). \<not> owned \<longrightarrow> known Prepared g1)
      (bind_o (reconcile_run env cfg A key n) (\<lambda>rec. ret (False, rec_record rec)))" if "preallocated_run_id g \<noteq> None"
  proof (rule learns_bind [OF learns_reconcile_run])
    fix rec
    assume "newer_row g (rec_record rec)"
    moreover have "known Prepared g" using that by (intro has_known) simp
    ultimately show "learns (rec_record rec) snd (\<lambda>(owned, g1). \<not> owned \<longrightarrow> known Prepared g1) (ret (False, rec_record rec))"
      using later_known by (intro learns_ret) auto
  qed
  show ?thesis
    unfolding bind_run_def assms
    by (intro learns_keep [OF keeps_lease] learns_if learns_keep [OF keeps_asked] learns_bind [OF prepared] learns_ret reconciled)
      simp_all
qed

text \<open>The Recipe an enqueued Run goes on with.\<close>

definition chosen_ok :: "bool \<Rightarrow> gen \<Rightarrow> doc option \<Rightarrow> doc \<Rightarrow> bool" where
  "chosen_ok existing g live d =
     (if existing then downstream_authorized env live (desired_policy g)
      else live = Some d \<and> initial_authorized A e g live = Inr True)"

lemma keeps_choice:
  "keeps (J g) (\<lambda>chosen. \<forall>d. chosen = Inr d \<longrightarrow> chosen_ok existing g live d) (if existing
        then ret (if downstream_authorized env live (desired_policy g) then Inr r else Inl ''automation_run_admission_disabled'')
        else
          bind_o (lift_r (initial_authorized A e g live)) (\<lambda>ok.
          ret (if ok then Inr (the live) else Inl ''recipe_changed_before_run'')))"
proof (intro keeps_if)
  show "keeps (J g) (\<lambda>chosen. \<forall>d. chosen = Inr d \<longrightarrow> chosen_ok existing g live d)
      (ret (if downstream_authorized env live (desired_policy g) then Inr r else Inl ''automation_run_admission_disabled''))"
    if existing using that by (intro keeps_ret) (simp add: chosen_ok_def)
  show "keeps (J g) (\<lambda>chosen. \<forall>d. chosen = Inr d \<longrightarrow> chosen_ok existing g live d)
      (bind_o (lift_r (initial_authorized A e g live)) (\<lambda>ok.
        ret (if ok then Inr (the live) else Inl ''recipe_changed_before_run'')))" if "\<not> existing"
  proof (rule keeps_bind [OF keeps_lift [where Q = "\<lambda>ok. initial_authorized A e g live = Inr ok"]], assumption)
    fix ok
    assume init: "initial_authorized A e g live = Inr ok"
    show "keeps (J g) (\<lambda>chosen. \<forall>d. chosen = Inr d \<longrightarrow> chosen_ok existing g live d)
        (ret (if ok then Inr (the live) else Inl ''recipe_changed_before_run''))"
    proof (cases ok)
      case True
      with init obtain d where "live = Some d" by (auto elim: initial_authorized_True)
      with True init that show ?thesis by (intro keeps_ret) (simp add: chosen_ok_def)
    qed (simp add: keeps_ret)
  qed
qed

lemma keeps_enqueue_bound:
  assumes g: "g_generation g = n" "known Prepared g"
  shows "keeps (J g) anything (enqueue_bound env cfg A existing key e g r)"
proof -
  have call: "authorized env A key n e g (EnqueueRun workflow live existing (preallocated_run_id g) (desired_policy g = ''test'') why
      key n (desired_policy g))"
    if "read_recipe A e live" "chosen_ok existing g live d" "a_stored A d = Inr workflow" for live d workflow why
    using that by (auto simp: chosen_ok_def elim: initial_authorized_True split: if_splits)
  have enqueue: "keeps (J g) anything (bind_o (read_ledger env cfg A) (\<lambda>L.
         bind_o (lift_r (a_stored A d)) (\<lambda>workflow.
         bind_o (emit (EnqueueRun workflow live existing (preallocated_run_id g) (desired_policy g = ''test'') (reason_of L key e)
             key n (desired_policy g))) (\<lambda>_.
         bind_o (enqueue_run env cfg A key n (case preallocated_run_id g of None \<Rightarrow> [] | Some rid \<Rightarrow> rid)) (\<lambda>_.
         ret None)))))" if "read_recipe A e live" "chosen_ok existing g live d" for live d
    using g(2)
    by (intro keeps_bind [OF keeps_read_ledger] keeps_bind [OF keeps_lift [where Q = "\<lambda>x. a_stored A d = Inr x"]]
        keeps_bind [OF keeps_emit] keeps_bind [OF keeps_enqueue_run] keeps_ret call [OF that]) simp_all
  show ?thesis
    unfolding enqueue_bound_def g(1)
    by (intro keeps_bind [OF keeps_recipe] keeps_bind [OF keeps_choice]) (auto split: sum.split intro!: keeps_ret enqueue)
qed

lemma run_admission_failed_leads:
  "g_generation g = n \<Longrightarrow> leads (J g) I (run_admission_failed env cfg A key g err)"
  unfolding run_admission_failed_def Let_def
  by (intro row_leads bind_step [OF keeps_admission_open] bind_step [OF keeps_closing]) simp_all

text \<open>How an admission may stop before it binds a Run.\<close>

lemma keeps_admission_recipe:
  "keeps (J g) (\<lambda>chosen. \<forall>c code diag. chosen = Inl (c, code, diag) \<longrightarrow> c \<noteq> ''transient_retryable'') (admission_recipe env A existing e g r)"
proof -
  have snapshot: "keeps (J g) (\<lambda>chosen :: string \<times> string \<times> string + doc option.
        \<forall>c code diag. chosen = Inl (c, code, diag) \<longrightarrow> c \<noteq> ''transient_retryable'')
      (if existing \<and> run_of g \<noteq> [] then
           bind_o (ask A (\<lambda>t. a_snapshot A t (run_of g))) (\<lambda>s.
           ret (case s of
               None \<Rightarrow> Inl (''blocked_manual'', ''build_run_snapshot_invalid'', ''run_state_unavailable'')
             | Some d \<Rightarrow> Inr (Some d)))
         else ret (Inr r))"
    by (intro keeps_if keeps_bind [OF keeps_any_ask] keeps_ret) (simp_all split: option.split)
  have start: "keeps (J g) anything (if existing then ret True else lift_r (initial_authorized A e g r))"
    by (intro keeps_if keeps_ret keeps_lift) simp_all
  show ?thesis
    unfolding admission_recipe_def
    by (intro keeps_bind [OF start] keeps_if keeps_bind [OF snapshot] keeps_ret) (simp_all split: sum.split option.split)
qed

text \<open>After the submission the row is read again: it must have its Run, and later versions keep it.\<close>

lemma run_enqueued_leads:
  assumes handle: "row_handler handle" and "g_generation g = n"
  shows "leads (J g) I (run_enqueued handle env cfg A key e g)"
  unfolding run_enqueued_def assms(2)
proof (rule learn_bind [OF learns_read_row])
  fix row
  assume "newer_row g row"
  have load: "keeps (J row) (\<lambda>_. run_id row \<noteq> None) (case run_id row of None \<Rightarrow> throw val_err | Some rid \<Rightarrow> load_run env A rid)"
    by (auto split: option.split intro: keeps_throw keeps_weaken [OF keeps_load_run])
  have again: "leads (J row) I (bind_o (read_row env cfg A key n) (handle key e))" if "run_id row \<noteq> None"
  proof (rule learn_bind [OF learns_read_row])
    fix g'
    assume "newer_row row g'"
    moreover have "known HasRun row" using that by (intro has_known) simp
    ultimately show "leads (J g') I (handle key e g')" using handle later_known by blast
  qed
  show "leads (J row) I (bind_o (on_ledger A (\<lambda>_. advance_lifecycle env cfg key n ''run'' None None)) (\<lambda>_.
     bind_o (case run_id row of None \<Rightarrow> throw val_err | Some rid \<Rightarrow> load_run env A rid) (\<lambda>current.
     if (case current of None \<Rightarrow> False | Some d \<Rightarrow> \<exists>s \<in> set TERMINAL_RUN_STATUSES. jget d ''status'' = JStr s)
     then bind_o (read_row env cfg A key n) (handle key e)
     else ret ())))"
    by (intro bind_step [OF keeps_on_ledger] resuming.intros bind_step [OF load] leads_if ret_leads again)
qed

lemma run_bound_leads:
  assumes "row_handler handle" "g_generation g = n" "\<not> owned \<longrightarrow> known Prepared g"
  shows "leads (J g) I (run_bound handle env cfg A existing key e r (owned, g))"
proof (cases owned)
  case False
  with assms(3) have enqueue: "keeps (J g) anything (enqueue_bound env cfg A existing key e g r)"
    by (intro keeps_enqueue_bound assms(2)) simp
  show ?thesis
    using False unfolding run_bound_def prod.case
    by (intro leads_if finish_leads bind_step [OF keeps_attempt [OF enqueue]])
      (simp_all add: run_admission_failed_leads assms finish_leads run_enqueued_leads split: sum.split option.split)
qed (simp add: run_bound_def finish_leads)

lemma admit_run_leads:
  assumes handle: "row_handler handle" and g: "g_generation g = n"
  shows "leads (J g) I (admit_run_body handle env cfg A existing key e g r)"
  unfolding admit_run_body_def
proof (intro leads_if ret_leads bind_step [OF keeps_admission_open] bind_step [OF keeps_admission_recipe])
  fix chosen :: "string \<times> string \<times> string + doc"
  assume ok: "\<forall>c code diag. chosen = Inl (c, code, diag) \<longrightarrow> c \<noteq> ''transient_retryable''"
  show "leads (J g) I (case chosen of
       Inl (classification, code, diag) \<Rightarrow> finish_row env cfg A key g classification code diag
     | Inr r1 \<Rightarrow>
         bind_o (attempt (bind_run env cfg A key e g)) (\<lambda>bound.
         case bound of
           Inl err \<Rightarrow> run_admission_failed env cfg A key g err
         | Inr owned_row \<Rightarrow> run_bound handle env cfg A existing key e r1 owned_row))"
  proof (cases chosen)
    case (Inl stopped)
    obtain c code diag where st: "stopped = (c, code, diag)" by (cases stopped)
    with ok Inl have "c \<noteq> ''transient_retryable''" by simp
    with finish_leads show ?thesis unfolding Inl st by simp
  next
    case (Inr r1)
    show ?thesis
      unfolding Inr sum.case
    proof (rule learn_attempt [OF learns_bind_run [OF g]])
      fix x :: "bool \<times> gen"
      assume x: "case x of (owned, g1) \<Rightarrow> \<not> owned \<longrightarrow> known Prepared g1" "newer_row g (snd x)"
      obtain owned g1 where "x = (owned, g1)" by fastforce
      with x run_bound_leads [where handle = handle, OF handle] show "leads (J (snd x)) I (case Inr x of
           Inl err \<Rightarrow> run_admission_failed env cfg A key g err
         | Inr owned_row \<Rightarrow> run_bound handle env cfg A existing key e r1 owned_row)"
        by simp
    qed (simp add: run_admission_failed_leads g)
  qed
qed

lemma handle_run_leads:
  assumes admit: "\<And>g r. g_generation g = n \<Longrightarrow> leads (J g) I (admit key e g r)" and validate: "row_handler validate"
    and g: "g_generation g = n" "known HasRun g"
  shows "leads (J g) I (handle_run_body admit validate env cfg A key e g)"
  unfolding handle_run_body_def Let_def
  using validate
  by (intro bind_step [OF keeps_any_load_run] leads_if finish_leads ret_leads bind_step [OF keeps_recipe]
      bind_step [OF keeps_lift [where Q = anything]] admit g) (simp_all add: g)

lemma run_leads:
  "(\<forall>existing g r. g_generation g = n \<longrightarrow> leads (J g) I (admit_run d env cfg A existing key e g r)) \<and>
   row_handler (handle_run d env cfg A)"
proof (induction d)
  case (Suc d)
  then show ?case using admit_run_leads handle_run_leads validation_leads [of d] by simp
qed (simp add: throw_leads)

theorem dispatch_leads: "g_generation g = n \<Longrightarrow> leads (J g) I (dispatch d env cfg A key e g)"
proof -
  assume g: "g_generation g = n"
  have run: "known HasRun g" if "run_of g \<noteq> []"
    using that by (intro has_known) (auto simp: run_of_def split: option.splits)
  show "leads (J g) I (dispatch d env cfg A key e g)"
    unfolding dispatch_def
    using validation_leads [of d] run_leads [of d] g run
    by (intro leads_if bind_step [OF keeps_recipe]) simp_all
qed

end

end
