(* ===== verification/Orchestrator_Properties.thy ===== *)
theory Orchestrator_Properties
  imports Orchestrator_Flow
begin

text \<open>
  What the orchestrator of \<open>Automation_Orchestrator\<close> guarantees: every call to another component
  is authorized by a Recipe that was read, and concerns the Run and the policy of the generation whose turn it is; a
  completion is notified at most once, whatever else happens to ledger and Run store; retries
  wait between one and fifteen minutes; exactly one unfinished generation of a Recipe has its
  turn.  The first two are interpretations of \<open>row_flow\<close>.
\<close>

section \<open>Calls are authorized\<close>




lemma step_world_calls [simp]: "w_calls (step_world A w) = w_calls w"
  by (simp add: step_world_def split: prod.split)

text \<open>How \<^verbatim>\<open>_finish\<close> ends: with an error of the ledger, without a notification, or with one
  notification and the mark.\<close>

definition finishing_op :: "py_env \<Rightarrow> ledger_config \<Rightarrow> string \<Rightarrow> gen \<Rightarrow> string \<Rightarrow> string \<Rightarrow> string \<Rightarrow> ledger_io \<Rightarrow>
   ledger_file \<Rightarrow> ledger_file \<times> gen result" where
  "finishing_op env cfg key g classification code diag =
     finish env cfg key (g_generation g) classification (if classification = ''blocked_manual'' then ''operator'' else ''none'')
       (retry_count g) None (if code = [] then None else Some code) (Some diag)"

lemma on_ledger_eq:
  "on_ledger A f w = ((step_world A w)\<lparr>w_ledger := fst (f (w_tick w) (a_ledger_io A (w_tick w)) (w_ledger (step_world A w)))\<rparr>,
     snd (f (w_tick w) (a_ledger_io A (w_tick w)) (w_ledger (step_world A w))))"
  by (simp add: on_ledger_def Let_def split: prod.split)

lemma finish_row_cases:
  assumes "finish_row env cfg A key g classification code diag w = (w', r)"
  obtains (quiet) lf q where "finishing_op env cfg key g classification code diag (a_ledger_io A (w_tick w)) (w_ledger (step_world A w)) = (lf, q)"
      "w' = (step_world A w)\<lparr>w_ledger := lf\<rparr>"
  | (marked) lf g' w1 lf' where "finishing_op env cfg key g classification code diag (a_ledger_io A (w_tick w)) (w_ledger (step_world A w)) = (lf, Inr g')"
      "\<not> completion_notified g'"
      "w1 = (step_world A w)\<lparr>w_ledger := lf\<rparr> \<or> (\<exists>c st stg code.
         c = NotifyCompletion key (g_generation g) (run_of g) st (desired_policy g) stg code \<and>
         w1 = (step_world A w)\<lparr>w_ledger := lf, w_calls := w_calls w @ [c]\<rparr>)"
      "lf' = fst (mark_completion_notified env cfg key (g_generation g) (a_ledger_io A (w_tick w1)) (w_ledger (step_world A w1)))"
      "w' = (step_world A w1)\<lparr>w_ledger := lf'\<rparr>"
proof -
  obtain lf q where op: "finishing_op env cfg key g classification code diag (a_ledger_io A (w_tick w)) (w_ledger (step_world A w)) = (lf, q)"
    by fastforce
  let ?w = "(step_world A w)\<lparr>w_ledger := lf\<rparr>"
  have run: "finish_row env cfg A key g classification code diag w =
      (case q of Inl err \<Rightarrow> (?w, Inl err)
       | Inr finished \<Rightarrow>
           (if completion_notified finished then ret ()
            else
              bind_o (if classification \<in> {''cancelled'', ''disabled''} then ret ()
                 else emit (NotifyCompletion key (g_generation g) (case run_id g of None \<Rightarrow> [] | Some r \<Rightarrow> r)
                   (if classification = ''success'' then ''success'' else ''failed'') (desired_policy g) (stage g)
                   (if code = [] then None else Some code))) (\<lambda>_.
              bind_o (on_ledger A (\<lambda>_. mark_completion_notified env cfg key (g_generation g))) (\<lambda>_.
              ret ()))) ?w)"
    using op by (simp add: finish_row_def bind_o_def on_ledger_eq finishing_op_def split: sum.split)
  show ?thesis
  proof (cases "\<exists>g'. q = Inr g' \<and> \<not> completion_notified g'")
    case False
    then have "w' = ?w" using assms run by (auto simp: ret_def split: sum.splits)
    with op show ?thesis by (rule quiet)
  next
    case True
    then obtain g' where g': "q = Inr g'" "\<not> completion_notified g'" by blast
    let ?c = "NotifyCompletion key (g_generation g) (case run_id g of None \<Rightarrow> [] | Some r \<Rightarrow> r)
                   (if classification = ''success'' then ''success'' else ''failed'') (desired_policy g) (stage g)
                   (if code = [] then None else Some code)"
    define w1 where "w1 = (if classification \<in> {''cancelled'', ''disabled''} then ?w else ?w\<lparr>w_calls := w_calls w @ [?c]\<rparr>)"
    have "w' = fst (bind_o (on_ledger A (\<lambda>_. mark_completion_notified env cfg key (g_generation g))) (\<lambda>_. ret ()) w1)"
      using assms run g' unfolding w1_def by (auto simp: bind_o_def ret_def emit_def split: if_splits)
    then have "w' = (step_world A w1)\<lparr>w_ledger :=
        fst (mark_completion_notified env cfg key (g_generation g) (a_ledger_io A (w_tick w1)) (w_ledger (step_world A w1)))\<rparr>"
      by (simp add: bind_o_def ret_def on_ledger_eq split: sum.split)
    moreover have "w1 = ?w \<or> (\<exists>c st stg code.
         c = NotifyCompletion key (g_generation g) (run_of g) st (desired_policy g) stg code \<and>
         w1 = ?w\<lparr>w_calls := w_calls w @ [c]\<rparr>)"
    proof (cases "classification \<in> {''cancelled'', ''disabled''}")
      case True
      then show ?thesis unfolding w1_def by simp
    next
      case False
      then have "w1 = ?w\<lparr>w_calls := w_calls w @ [?c]\<rparr>" unfolding w1_def by simp
      then show ?thesis unfolding run_of_def by blast
    qed
    ultimately show ?thesis using op g' by (intro marked [of lf g' w1 _]) simp_all
  qed
qed












text \<open>\<^verbatim>\<open>advance\<close> either leaves the generation alone or dispatches it.\<close>

lemma find_row_of: "find_row L key n = Some (e, g) \<longleftrightarrow> row_of L key n = Inr (e, g)"
  by (auto simp: find_row_def row_of_def split: option.splits if_splits)

lemma advance_cases:
  assumes "advance depth env cfg A key n w = (w', r)"
  obtains (idle) k where "w' = (step_world A ^^ k) w" "k \<le> 3"
  | (dispatched) L e g w1 where "load_unlocked env cfg (w_ledger (step_world A (step_world A w))) = Inr L"
      "find_row L key n = Some (e, g)" "unfinished g" "\<exists>t. retry_due env (a_clock A t) g"
      "is_recipe_turn L key n (e_recipe_id e) (created_at g)"
      "w1 = step_world A (step_world A w) \<or> w1 = step_world A (step_world A (step_world A w))"
      "w' = fst (dispatch depth env cfg A key e g w1)"
proof -
  let ?w1 = "step_world A w" and ?w2 = "step_world A (step_world A w)"
  have world: "w' = (if a_unlocked A (w_tick w) then fst (advance_locked depth env cfg A key n ?w1) else ?w1)"
    using assms by (auto simp: advance_def bind_o_def ask_def ret_def throw_def attempt_def split: prod.splits sum.splits if_splits)
  show ?thesis
  proof (cases "a_unlocked A (w_tick w)")
    case False
    with world show ?thesis by (intro idle [of 1]) simp_all
  next
    case True
    note w' = world [simplified True if_True]
    show ?thesis
    proof (cases "load_unlocked env cfg (w_ledger ?w2)")
      case (Inl err)
      with w' show ?thesis
        by (intro idle [of 2]) (simp_all add: advance_locked_def bind_o_def read_ledger_def Let_def numeral_2_eq_2)
    next
      case (Inr L)
      note locked = w' [unfolded advance_locked_def bind_o_def read_ledger_def Let_def, simplified Inr, simplified]
      show ?thesis
      proof (cases "find_row L key n")
        case None
        with locked show ?thesis by (intro idle [of 2]) (simp_all add: ret_def numeral_2_eq_2)
      next
        case (Some eg)
        obtain e g where eg: "eg = (e, g)" by fastforce
        show ?thesis
        proof (cases "unfinished g")
          case False
          with locked Some eg show ?thesis by (intro idle [of 2]) (simp_all add: ret_def unfinished_def numeral_2_eq_2)
        next
          case open_row: True
          define now where "now = (if g_state g = ''retry_delayed'' then a_clock A (w_tick ?w2) else 0)"
          define w1 where "w1 = (if g_state g = ''retry_delayed'' then step_world A ?w2 else ?w2)"
          have go: "w' = fst ((if \<not> retry_due env now g then ret ()
              else if \<not> is_recipe_turn L key n (e_recipe_id e) (created_at g) then ret ()
              else dispatch depth env cfg A key e g) w1)"
            using locked Some eg open_row unfolding now_def w1_def
            by (simp add: unfinished_def bind_o_def ask_def ret_def split: if_splits)
          show ?thesis
          proof (cases "retry_due env now g \<and> is_recipe_turn L key n (e_recipe_id e) (created_at g)")
            case False
            then have "w' = w1" using go by (auto simp: ret_def split: if_splits)
            then show ?thesis unfolding w1_def
              by (cases "g_state g = ''retry_delayed''") (auto intro: idle [of 2] idle [of 3] simp: numeral_2_eq_2 numeral_3_eq_3)
          next
            case True
            have "retry_due env (a_clock A (w_tick ?w2)) g"
            proof (cases "g_state g = ''retry_delayed''")
              case delayed: True
              with True show ?thesis unfolding now_def by simp
            qed (simp add: retry_due_def)
            with Inr Some eg open_row True go show ?thesis
              by (intro dispatched [of L e g w1]) (auto simp: w1_def)
          qed
        qed
      qed
    qed
  qed
qed

lemma steps_calls [simp]: "w_calls ((step_world A ^^ k) w) = w_calls w"
  by (induction k) simp_all

section \<open>Completions are notified once\<close>

definition finished_in :: "py_env \<Rightarrow> ledger_config \<Rightarrow> ledger_file \<Rightarrow> string \<times> int \<Rightarrow> bool" where
  "finished_in env cfg lf = (\<lambda>(key, n). \<exists>L e g. load_unlocked env cfg lf = Inr L \<and> row_of L key n = Inr (e, g) \<and> \<not> unfinished g)"

fun notified_row :: "call \<Rightarrow> (string \<times> int) option" where
  "notified_row (NotifyCompletion key n rid st pol stg code) = Some (key, n)"
| "notified_row _ = None"

definition notified_rows :: "world \<Rightarrow> (string \<times> int) list" where
  "notified_rows w = List.map_filter notified_row (w_calls w)"

lemma row_of_put_row_other:
  assumes "row_of L key n = Inr (e, g)" "row_of L k m = Inr (e1, g1)" "(k, m) \<noteq> (key, n)"
  shows "\<exists>e2. row_of (put_row L key e n g') k m = Inr (e2, g1)"
proof -
  from assms(1) have e: "map_of L key = Some e" "0 \<le> n" by (auto elim: row_ofE)
  from assms(2) have e1: "map_of L k = Some e1" "nat m < length (e_generations e1)" "0 \<le> m" "g1 = e_generations e1 ! nat m"
    by (auto elim: row_ofE)
  show ?thesis
  proof (cases "k = key")
    case True
    with assms(3) have "m \<noteq> n" by simp
    with e(2) e1(3) have "nat n \<noteq> nat m" by auto
    with True e e1 show ?thesis by (auto simp: row_of_def put_row_def update_conv' nat_less_iff)
  next
    case False
    with e1 show ?thesis by (auto simp: row_of_def put_row_def update_conv' nat_less_iff)
  qed
qed

text \<open>A row update keeps finished rows finished when it does so for its own row.\<close>

lemma with_row_finished:
  assumes grows: "\<And>e g g'. body e g = Inr (UpdateRow g') \<Longrightarrow> row_le g g'"
    and own: "\<And>e g g'. km = (key, n) \<Longrightarrow> body e g = Inr (UpdateRow g') \<Longrightarrow> \<not> unfinished g \<Longrightarrow> \<not> unfinished g'"
    and op: "with_row env cfg io key n body lf = (lf', r)" and fin: "finished_in env cfg lf km"
  shows "finished_in env cfg lf' km"
proof -
  have dec: "ledger_decision env cfg (row_decision env cfg key n body)"
    using row_decision_grows [where body = "\<lambda>_. body", OF grows] .
  obtain k m where km: "km = (k, m)" by fastforce
  from op show ?thesis
    unfolding with_row_def
  proof (cases rule: ledger_decision.commit_cases [OF dec, consumes 1, case_names kept saved])
    case kept
    with fin show ?thesis by simp
  next
    case (saved L L' x)
    from saved(2) obtain e g where row: "row_of L key n = Inr (e, g)" "body e g = Inr (UpdateRow x)" "L' = put_row L key e n x"
      by (rule row_decisionE) (auto simp: saved(1) split: row_step.splits)
    from fin saved(1) km obtain e1 g1 where old: "row_of L k m = Inr (e1, g1)" "\<not> unfinished g1"
      by (auto simp: finished_in_def)
    have "\<exists>e2 g2. row_of L' k m = Inr (e2, g2) \<and> \<not> unfinished g2"
    proof (cases "km = (key, n)")
      case True
      with old row km have "g1 = g" by simp
      with own [OF True row(2)] old(2) row_of_put_row [OF row(1)] row(3) True km show ?thesis by auto
    next
      case False
      with row_of_put_row_other [OF row(1) old(1)] old(2) row(3) km show ?thesis by blast
    qed
    moreover have "load_unlocked env cfg lf' = Inr L'" using saved(4,5) load_stored_ledger by simp
    ultimately show ?thesis by (auto simp: finished_in_def km)
  qed
qed

lemma mark_keeps_finished:
  assumes "finished_in env cfg lf km"
  shows "finished_in env cfg (fst (mark_completion_notified env cfg key n io lf)) km"
proof -
  have own: "notified_body now e g = Inr (UpdateRow g') \<Longrightarrow> \<not> unfinished g \<Longrightarrow> \<not> unfinished g'" for now e g g'
    by (auto simp: notified_body_def unfinished_def split: if_splits)
  obtain lf' r where op: "mark_completion_notified env cfg key n io lf = (lf', r)" by fastforce
  from with_row_finished [OF notified_body_le own op [unfolded mark_completion_notified_def] assms] op
  show ?thesis by simp
qed

lemma finishing_frame:
  "(\<exists>body. (\<forall>e g g'. body e g = Inr (UpdateRow g') \<longrightarrow> row_le g g') \<and>
      (\<forall>e g x. body e g = Inr x \<longrightarrow> (classification \<noteq> ''transient_retryable'' \<longrightarrow> (\<exists>g'. x = UpdateRow g' \<and> \<not> unfinished g'))) \<and>
      finishing_op env cfg key g0 classification code diag io lf = with_row env cfg io key (g_generation g0) body lf) \<or>
   (\<exists>err. finishing_op env cfg key g0 classification code diag io lf = (lf, Inl err))"
proof (cases "classification \<notin> set TERMINAL_CLASSIFICATIONS \<or>
    (if classification = ''blocked_manual'' then ''operator'' else ''none'') \<notin> set RETRY_CLASSES")
  case True
  then show ?thesis by (intro disjI2) (auto simp: finishing_op_def finish_def)
next
  case False
  let ?body = "finish_body classification (if classification = ''blocked_manual'' then ''operator'' else ''none'') (retry_count g0) None
      (if code = [] then None else Some code) (Some diag) (l_clock io 0)"
  have "finishing_op env cfg key g0 classification code diag io lf = with_row env cfg io key (g_generation g0) ?body lf"
    using False unfolding finishing_op_def finish_def by (simp del: set_simps)
  moreover have "\<exists>g'. x = UpdateRow g' \<and> \<not> unfinished g'" if "?body e g = Inr x" "classification \<noteq> ''transient_retryable''" for e g x
    using that by (auto simp: finish_body_def finish_state_def Let_def unfinished_def)
  ultimately show ?thesis using finish_body_le by (intro disjI1 exI [of _ ?body]) blast
qed

lemma finishing_keeps:
  assumes "finished_in env cfg lf km" "classification \<noteq> ''transient_retryable''"
  shows "finished_in env cfg (fst (finishing_op env cfg key g classification code diag io lf)) km"
  using finishing_frame [of classification env cfg key g code diag io lf]
proof (elim disjE exE conjE)
  fix body
  assume b: "\<forall>e g g'. body e g = Inr (UpdateRow g') \<longrightarrow> row_le g g'"
    "\<forall>e g x. body e g = Inr x \<longrightarrow> (classification \<noteq> ''transient_retryable'' \<longrightarrow> (\<exists>g'. x = UpdateRow g' \<and> \<not> unfinished g'))"
    and op: "finishing_op env cfg key g classification code diag io lf = with_row env cfg io key (g_generation g) body lf"
  obtain lf' r where run: "with_row env cfg io key (g_generation g) body lf = (lf', r)" by fastforce
  have "finished_in env cfg lf' km"
    by (rule with_row_finished [OF _ _ run assms(1)]) (use b assms(2) in blast)+
  with op run show ?thesis by simp
qed (use assms in simp)

lemma finishing_finishes:
  assumes "finishing_op env cfg key g classification code diag io lf = (lf', Inr g')" "classification \<noteq> ''transient_retryable''"
  shows "finished_in env cfg lf' (key, g_generation g)"
  using finishing_frame [of classification env cfg key g code diag io lf]
proof (elim disjE exE conjE)
  fix body
  assume b: "\<forall>e g g'. body e g = Inr (UpdateRow g') \<longrightarrow> row_le g g'"
    "\<forall>e g x. body e g = Inr x \<longrightarrow> (classification \<noteq> ''transient_retryable'' \<longrightarrow> (\<exists>g'. x = UpdateRow g' \<and> \<not> unfinished g'))"
    and op: "finishing_op env cfg key g classification code diag io lf = with_row env cfg io key (g_generation g) body lf"
  obtain L e g0 L' e' step where "body e g0 = Inr step" "g' = (case step of KeepRow \<Rightarrow> g0 | UpdateRow x \<Rightarrow> x)"
      "load_unlocked env cfg lf' = Inr L'" "row_of L' key (g_generation g) = Inr (e', g')"
    by (rule with_row_success [OF _ assms(1) [unfolded op]]) (use b(1) in blast)+
  with b(2) assms(2) show ?thesis by (fastforce simp: finished_in_def)
qed (use assms in simp)

text \<open>Rows with a notification are finished, and none has two.\<close>

definition notified_once :: "py_env \<Rightarrow> ledger_config \<Rightarrow> world \<Rightarrow> bool" where
  "notified_once env cfg w = (distinct (notified_rows w) \<and> (\<forall>km \<in> set (notified_rows w). finished_in env cfg (w_ledger w) km))"

definition not_yet_notified :: "py_env \<Rightarrow> ledger_config \<Rightarrow> string \<times> int \<Rightarrow> world \<Rightarrow> bool" where
  "not_yet_notified env cfg km w = (notified_once env cfg w \<and> km \<notin> set (notified_rows w))"

text \<open>What is assumed of the other threads: they do not resume a finished generation.\<close>

definition others_keep_finished :: "py_env \<Rightarrow> ledger_config \<Rightarrow> answers \<Rightarrow> bool" where
  "others_keep_finished env cfg A =
     (\<forall>t st km. finished_in env cfg (fst st) km \<longrightarrow> finished_in env cfg (fst (a_others A t st)) km)"

lemma notified_rows_emit: "notified_rows (w\<lparr>w_calls := w_calls w @ [c]\<rparr>) = notified_rows w @ (case notified_row c of None \<Rightarrow> [] | Some km \<Rightarrow> [km])"
  by (simp add: notified_rows_def List.map_filter_def split: option.split)

lemma notified_rows_same [simp]:
  "notified_rows (w\<lparr>w_ledger := lf\<rparr>) = notified_rows w" "notified_rows (w\<lparr>w_disk := d\<rparr>) = notified_rows w"
  "notified_rows (step_world A w) = notified_rows w"
  by (simp_all add: notified_rows_def)

lemma step_keeps_finished:
  assumes "others_keep_finished env cfg A" "finished_in env cfg (w_ledger w) km"
  shows "finished_in env cfg (w_ledger (step_world A w)) km"
proof -
  have "finished_in env cfg (fst (a_others A (w_tick w) (w_ledger w, w_disk w))) km"
    using assms(1) [unfolded others_keep_finished_def, rule_format, of "(w_ledger w, w_disk w)"] assms(2) by simp
  then show ?thesis by (cases "a_others A (w_tick w) (w_ledger w, w_disk w)") (simp add: step_world_def)
qed

lemma steps_keep_notified:
  "others_keep_finished env cfg A \<Longrightarrow> notified_once env cfg w \<Longrightarrow> notified_once env cfg (step_world A w)"
  using step_keeps_finished by (simp add: notified_once_def)

lemma authorized_no_notification: "authorized env A key n e g c \<Longrightarrow> notified_row c = None"
  by (cases c) simp_all

lemma resuming_keeps_others:
  assumes "resuming env cfg key n op" "finished_in env cfg lf km" "km \<noteq> (key, n)"
  shows "finished_in env cfg (fst (op io lf)) km"
  using resuming_frame [OF assms(1)]
proof (elim disjE exE conjE)
  fix body
  assume b: "\<forall>io e g g'. body io e g = Inr (UpdateRow g') \<longrightarrow> row_le g g'"
    and op: "\<forall>io lf. op io lf = with_row env cfg io key n (body io) lf"
  obtain lf' r where run: "with_row env cfg io key n (body io) lf = (lf', r)" by fastforce
  have "finished_in env cfg lf' km"
    by (rule with_row_finished [OF _ _ run assms(2)]) (use b assms(3) in blast)+
  with op run show ?thesis by simp
qed (use assms in simp)

lemma notification_flow:
  assumes others: "others_keep_finished env cfg A"
  shows "row_flow env cfg A key n e (\<lambda>g g'. g_generation g' = g_generation g) (\<lambda>_ _. True)
    (\<lambda>g w. not_yet_notified env cfg (key, n) w \<and> g_generation g = n) (notified_once env cfg)"
proof
  show "not_yet_notified env cfg (key, n) (step_world A w) \<and> g_generation g = n"
    if "not_yet_notified env cfg (key, n) w \<and> g_generation g = n" for g w
    using that steps_keep_notified [OF others] by (simp add: not_yet_notified_def)
  show "not_yet_notified env cfg (key, n) (w\<lparr>w_ledger := fst (op io (w_ledger w))\<rparr>) \<and> g_generation g = n"
    if "not_yet_notified env cfg (key, n) w \<and> g_generation g = n" "resuming env cfg key n op" for g w op io
  proof -
    have "finished_in env cfg (fst (op io (w_ledger w))) km" if km: "km \<in> set (notified_rows w)" for km
      using resuming_keeps_others [OF \<open>resuming env cfg key n op\<close>] \<open>not_yet_notified env cfg (key, n) w \<and> _\<close> km
      unfolding not_yet_notified_def notified_once_def by metis
    with that(1) show ?thesis by (simp add: not_yet_notified_def notified_once_def)
  qed
  show "not_yet_notified env cfg (key, n) (w\<lparr>w_calls := w_calls w @ [c]\<rparr>) \<and> g_generation g = n"
    if "not_yet_notified env cfg (key, n) w \<and> g_generation g = n" "authorized env A key n e g c" for g w c
    using that authorized_no_notification [OF that(2)]
    by (simp add: not_yet_notified_def notified_once_def notified_rows_emit)
  show "(not_yet_notified env cfg (key, n) w \<and> g_generation g' = n) \<and> g_generation g' = g_generation g"
    if "not_yet_notified env cfg (key, n) w \<and> g_generation g = n" "load_unlocked env cfg (w_ledger w) = Inr L"
      "row_of L key n = Inr (e', g')" for g w L e' g'
    using that loaded_row_wf [OF that(2,3)] by (simp add: gen_wf_def)
next
  fix w and g :: gen and classification code diag
  assume "not_yet_notified env cfg (key, n) w \<and> g_generation g = n"
  then have J: "not_yet_notified env cfg (key, n) w" and g: "g_generation g = n" by blast+
  assume c: "classification \<noteq> ''transient_retryable''"
  let ?once = "notified_once env cfg"
  obtain w' r where fin: "finish_row env cfg A key g classification code diag w = (w', r)" by fastforce
  have step: "?once (step_world A w)" "(key, n) \<notin> set (notified_rows w)"
    using J steps_keep_notified [OF others] by (simp_all add: not_yet_notified_def)
  have saved: "?once ((step_world A w)\<lparr>w_ledger := lf\<rparr>)"
    if "finishing_op env cfg key g classification code diag io (w_ledger (step_world A w)) = (lf, q)" for io lf q
    using step(1) finishing_keeps [OF _ c, of env cfg "w_ledger (step_world A w)" _ key g code diag io] that
    by (simp add: notified_once_def)
  from fin have "?once w'"
  proof (cases rule: finish_row_cases)
    case (quiet lf q)
    with saved show ?thesis by simp
  next
    case (marked lf g' w1 lf')
    have "finished_in env cfg lf (key, n)" using finishing_finishes [OF marked(1) c] g by simp
    moreover have "w_ledger w1 = lf" "notified_rows w1 = notified_rows w \<or> notified_rows w1 = notified_rows w @ [(key, n)]"
      using marked(3) g by (auto simp: notified_rows_def List.map_filter_def)
    ultimately have "?once w1"
      using saved [OF marked(1)] step(2) by (auto simp: notified_once_def)
    then have "?once (step_world A w1)" by (rule steps_keep_notified [OF others])
    then show ?thesis
      unfolding marked(4,5) using mark_keeps_finished by (simp add: notified_once_def)
  qed
  with fin show "?once (fst (finish_row env cfg A key g classification code diag w))" by simp
qed (simp_all add: not_yet_notified_def notified_once_def)

lemma advance_notifies_once:
  assumes "others_keep_finished env cfg A" "notified_once env cfg w" "advance depth env cfg A key n w = (w', r)"
  shows "notified_once env cfg w'"
  using assms(3)
proof (cases rule: advance_cases)
  case (idle k)
  have "notified_once env cfg ((step_world A ^^ k) w)"
    using assms(2) steps_keep_notified [OF assms(1)] by (induction k) simp_all
  with idle show ?thesis by simp
next
  case (dispatched L e g w1)
  let ?w2 = "step_world A (step_world A w)"
  have w2: "notified_once env cfg ?w2" using assms(2) steps_keep_notified [OF assms(1)] by blast
  have row: "row_of L key n = Inr (e, g)" using dispatched(2) by (simp add: find_row_of)
  with dispatched(1,3) have "\<not> finished_in env cfg (w_ledger ?w2) (key, n)" by (auto simp: finished_in_def)
  with w2 have "(key, n) \<notin> set (notified_rows w)" by (auto simp: notified_once_def)
  with w2 dispatched(6) steps_keep_notified [OF assms(1)] have "not_yet_notified env cfg (key, n) w1"
    by (auto simp: not_yet_notified_def)
  moreover have g: "g_generation g = n" using loaded_row_wf [OF dispatched(1) row] by (simp add: gen_wf_def)
  have "leads (\<lambda>w. not_yet_notified env cfg (key, n) w \<and> g_generation g = n) (notified_once env cfg) (dispatch depth env cfg A key e g)"
    by (rule row_flow.dispatch_leads [OF notification_flow [OF assms(1)] g])
  ultimately show ?thesis using g unfolding leads_def dispatched(7) by blast
qed

lemma each_keeps:
  assumes "\<And>x w. I w \<Longrightarrow> I (fst (f x w))" "I w"
  shows "I (fst (each f xs w))"
  using assms(2)
proof (induction xs arbitrary: w)
  case (Cons x xs)
  then show ?case using assms(1) [of w x] by (auto simp: bind_o_def split: prod.split sum.split)
qed (simp add: ret_def)

section \<open>The turn of a Recipe\<close>

lemma active_rowsI:
  assumes "ledger_wf env cfg L" "find_row L key n = Some (e, g)" "e_recipe_id e = rid" "unfinished g" "created_at g = c"
  shows "(c, key, n) \<in> set (active_rows L rid)"
proof -
  from assms(2) have row: "row_of L key n = Inr (e, g)" by (simp add: find_row_of)
  then have e: "map_of L key = Some e" "nat n < length (e_generations e)" "0 \<le> n" "g = e_generations e ! nat n"
    by (auto elim: row_ofE)
  then have "(key, e) \<in> set L" by (auto dest: map_of_SomeD)
  moreover from this have "\<forall>i < length (e_generations e). gen_wf env (int i) (e_generations e ! i)"
    using assms(1) by (auto simp: ledger_wf_def entry_wf_def)
  then have "g_generation g = n" using e(2-4) by (simp add: gen_wf_def)
  moreover from this have "(c, key, n) \<in> set (entry_rows (key, e))"
    using assms(4,5) nth_mem [OF e(2)] unfolding entry_rows_def e(4) by (simp add: image_iff) (metis)
  ultimately show ?thesis
    using assms(3) unfolding active_rows_def by auto
qed

lemma active_rows_iff:
  assumes "ledger_wf env cfg L" "distinct (map fst L)"
  shows "(c, key, n) \<in> set (active_rows L rid) \<longleftrightarrow>
    (\<exists>e g. find_row L key n = Some (e, g) \<and> e_recipe_id e = rid \<and> unfinished g \<and> created_at g = c)"
proof
  assume "(c, key, n) \<in> set (active_rows L rid)"
  then obtain e g where e: "(key, e) \<in> set L" "e_recipe_id e = rid" and g: "g \<in> set (e_generations e)" "unfinished g"
      "created_at g = c" "g_generation g = n"
    by (auto simp: active_rows_def entry_rows_def)
  from g(1) obtain i where i: "i < length (e_generations e)" "g = e_generations e ! i" by (auto simp: in_set_conv_nth)
  have "gen_wf env (int i) g" using assms(1) e(1) i by (auto simp: ledger_wf_def entry_wf_def)
  then have "n = int i" using g(4) by (simp add: gen_wf_def)
  moreover have "map_of L key = Some e" using assms(2) e(1) by simp
  ultimately show "\<exists>e g. find_row L key n = Some (e, g) \<and> e_recipe_id e = rid \<and> unfinished g \<and> created_at g = c"
    using i e g by (intro exI [of _ e] exI [of _ g]) (simp add: find_row_def)
qed (use assms(1) active_rowsI in blast)

text \<open>The unfinished generations of a Recipe in a ledger.\<close>

definition unfinished_row :: "ledger \<Rightarrow> string \<Rightarrow> string \<Rightarrow> int \<Rightarrow> gen \<Rightarrow> bool" where
  "unfinished_row L rid key n g = (\<exists>e. find_row L key n = Some (e, g) \<and> e_recipe_id e = rid \<and> unfinished g)"


section \<open>A concrete advance\<close>

text \<open>A claimed generation of a Recipe whose build a stored Run already owns.\<close>

definition sample_live :: doc where
  "sample_live = [(''name'', JStr ''app''), (''active'', JBool True),
     (''automation'', JObj [(''enabled'', JBool True), (''policy'', JStr ''full'')])]"

definition sample_owner :: doc where
  "sample_owner = [(''recipe_id'', JStr ''app''), (''mode'', JStr ''build''), (''status'', JStr ''success''),
     (''manual_source_provenance'', identity_json sample_identity)]"

definition sample_answers :: answers where
  "sample_answers = \<lparr>a_others = (\<lambda>_ x. x), a_ledger_io = (\<lambda>_. fine_ledger_io), a_io = (\<lambda>_. io_fine),
     a_open = (\<lambda>_. True), a_unlocked = (\<lambda>_. True), a_lease = (\<lambda>_. None), a_recipe = (\<lambda>_ _. Some sample_live),
     a_digest = (\<lambda>_. Inr (replicate 64 (CHR ''a''))), a_stored = Inr, a_clock = (\<lambda>_. - 60), a_isoformat = (\<lambda>_. ''t''),
     a_token = (\<lambda>_. ''token''), a_snapshot = (\<lambda>_ _. None), a_runs = (\<lambda>_. Inr [sample_owner]),
     a_enqueue = (\<lambda>_. \<lparr>en_create = id, en_refused = None, en_submit = id, en_failed = None\<rparr>), a_links = (\<lambda>_. Inr []),
     a_metadata = (\<lambda>_ _ _. Inr []), a_manager = (\<lambda>_. True), a_admit = (\<lambda>_. Inr ''v''),
     a_attempt = (\<lambda>_ _. Inr \<lparr>at_status = ''running'', at_error = None, at_phase = Inr []\<rparr>), a_publish = (\<lambda>_. Inr []),
     a_proof = (\<lambda>_ _. True), a_intent = (\<lambda>_. None)\<rparr>"

definition sample_world :: "gen \<Rightarrow> call list \<Rightarrow> nat \<Rightarrow> world" where
  "sample_world g calls n = \<lparr>w_ledger = sample_file [g], w_disk = (\<lambda>_. None), w_tick = n, w_calls = calls\<rparr>"

abbreviation owned :: string where "owned \<equiv> ''existing_run_owns_identity''"

definition finished_row :: gen where
  "finished_row = sample_row\<lparr>g_state := ''terminal'', stage := ''terminal'', terminal_classification := Some ''success'',
     last_error_code := Some owned, diagnostic := Some owned\<rparr>"

definition delayed_row :: gen where
  "delayed_row = sample_row\<lparr>g_state := ''retry_delayed'', terminal_classification := Some ''transient_retryable'',
     retry_class := ''transient'', retry_count := 1, not_before := Some ''t'', last_error_code := Some ''c'', diagnostic := Some ''d''\<rparr>"

abbreviation notice :: call where
  "notice \<equiv> NotifyCompletion sample_key 0 [] ''success'' ''full'' ''detection'' (Some owned)"

lemma sample_rows_finished_wf: "gen_wf clock_env 0 finished_row" "gen_wf clock_env 0 (finished_row\<lparr>completion_notified := True\<rparr>)"
  "gen_wf clock_env 0 delayed_row"
  by (simp_all add: finished_row_def delayed_row_def sample_row_def row_wf_defs char_defs)

lemma sample_step: "step_world sample_answers (sample_world g calls n) = sample_world g calls (Suc n)"
  by (simp add: step_world_def sample_answers_def sample_world_def)

lemma sample_row_op:
  assumes "gen_wf clock_env 0 g" "gen_wf clock_env 0 g'" "body (sample_entry [g]) g = Inr (UpdateRow g')"
    and "2 * text_weight (0 + 2 + 2 + 2 + 2) (gen_json g') + 20 < 10000000"
  shows "with_row clock_env sample_cfg fine_ledger_io sample_key 0 body (sample_file [g]) = (sample_file [g'], Inr g')"
proof -
  have load: "load_unlocked clock_env sample_cfg (sample_file [g]) = Inr [(sample_key, sample_entry [g])]"
    by (rule sample_load) (simp_all add: assms(1))
  have row: "row_of [(sample_key, sample_entry [g])] sample_key 0 = Inr (sample_entry [g], g)"
    by (simp add: row_of_def sample_entry_def)
  have put: "put_row [(sample_key, sample_entry [g])] sample_key (sample_entry [g]) 0 g' = [(sample_key, sample_entry [g'])]"
    by (simp add: put_row_def sample_entry_def)
  have "save_unlocked clock_env sample_cfg fine_ledger_io [(sample_key, sample_entry [g'])] (sample_file [g]) = (sample_file [g'], Inr ())"
    by (rule sample_save) (use assms(2,4) in simp_all)
  then show ?thesis
    unfolding with_row_def row_decision_def
    by (simp add: load row) (simp add: fine_ledger_io_def ledger_locked_def assms(3) put commit_def)
qed

lemma sample_on_ledger:
  "on_ledger sample_answers f (sample_world g calls n) =
     (case f n fine_ledger_io (sample_file [g]) of (lf, r) \<Rightarrow> ((sample_world g calls (Suc n))\<lparr>w_ledger := lf\<rparr>, r))"
  by (simp add: on_ledger_def sample_step) (simp add: sample_answers_def sample_world_def)

lemma sample_world_ledger: "(sample_world g calls n)\<lparr>w_ledger := sample_file [g']\<rparr> = sample_world g' calls n"
  by (simp add: sample_world_def)

lemma sample_emit: "emit c (sample_world g calls n) = (sample_world g (calls @ [c]) n, Inr ())"
  by (simp add: emit_def sample_world_def)

lemma sample_ask: "ask sample_answers f (sample_world g calls n) = (sample_world g calls (Suc n), Inr (f n))"
  by (simp add: ask_def sample_step) (simp add: sample_world_def)

lemma sample_finish:
  "finish_row clock_env sample_cfg sample_answers sample_key sample_row ''success'' owned owned (sample_world sample_row [] n) =
     (sample_world (finished_row\<lparr>completion_notified := True\<rparr>) [notice] (n + 2), Inr ())"
proof -
  have first: "finish clock_env sample_cfg sample_key 0 ''success'' ''none'' 0 None (Some owned) (Some owned)
      fine_ledger_io (sample_file [sample_row]) = (sample_file [finished_row], Inr finished_row)"
    unfolding finish_def by (simp add: TERMINAL_CLASSIFICATIONS_def RETRY_CLASSES_def)
      (rule sample_row_op, simp_all add: sample_row_wf sample_rows_finished_wf,
       simp_all add: finish_body_def Let_def finish_state_def finished_row_def sample_row_def fine_ledger_io_def gen_json_def gen_items_def)
  have second: "mark_completion_notified clock_env sample_cfg sample_key 0 fine_ledger_io (sample_file [finished_row]) =
      (sample_file [finished_row\<lparr>completion_notified := True\<rparr>], Inr (finished_row\<lparr>completion_notified := True\<rparr>))"
    unfolding mark_completion_notified_def
    by (rule sample_row_op, simp_all add: sample_rows_finished_wf,
       simp_all add: notified_body_def finished_row_def sample_row_def fine_ledger_io_def gen_json_def gen_items_def)
  have facts: "g_generation sample_row = 0" "retry_count sample_row = 0" "run_id sample_row = None" "desired_policy sample_row = ''full''"
    "stage sample_row = ''detection''" "\<not> completion_notified finished_row"
    by (simp_all add: sample_row_def finished_row_def)
  show ?thesis
    unfolding finish_row_def bind_o_def
    by (simp add: sample_on_ledger facts first sample_world_ledger second sample_emit ret_def)
qed

lemma sample_turn: "is_recipe_turn [(sample_key, sample_entry [sample_row])] sample_key 0 ''app'' ''t''"
  by (simp add: is_recipe_turn_def active_rows_def entry_rows_def sample_entry_def unfinished_def sample_row_def)

lemma sample_admission:
  "admit_run_body handle clock_env sample_cfg sample_answers False sample_key (sample_entry [sample_row]) sample_row
     (Some sample_live) (sample_world sample_row [] n) =
   (sample_world (finished_row\<lparr>completion_notified := True\<rparr>) [notice] (Suc (Suc (Suc (Suc (Suc n))))), Inr ())"
proof -
  have auth: "initial_authorized sample_answers (sample_entry [sample_row]) sample_row (Some sample_live) = Inr True"
    by (simp add: initial_authorized_def sample_live_def automation_field_def has_automation_def sample_row_def sample_entry_def
        sample_answers_def)
  have owns: "owns_identity (sample_entry [sample_row]) sample_row sample_owner"
    by (simp add: owns_identity_def sample_owner_def sample_entry_def py_eq_refl json_wf_identity)
  have bind: "bind_run clock_env sample_cfg sample_answers sample_key (sample_entry [sample_row]) sample_row (sample_world sample_row [] n) =
      (sample_world sample_row [] (n + 2), Inr (True, sample_row))" for n
  proof -
    have "a_lease sample_answers t = None" "a_runs sample_answers t = Inr [sample_owner]" "preallocated_run_id sample_row = None" for t
      by (simp_all add: sample_answers_def sample_row_def)
    then show ?thesis by (simp add: bind_run_def bind_o_def lease_def sample_ask ret_def lift_r_def owns)
  qed
  show ?thesis
    unfolding admit_run_body_def admission_recipe_def run_bound_def admission_open_def attempt_def
    by (simp add: bind_o_def sample_ask ret_def lift_r_def auth bind sample_finish) (simp add: sample_answers_def)
qed

lemma sample_advance:
  "advance 1 clock_env sample_cfg sample_answers sample_key 0 (sample_world sample_row [] 0) =
     (sample_world (finished_row\<lparr>completion_notified := True\<rparr>) [notice] 8, Inr ())"
proof -
  have load: "read_ledger clock_env sample_cfg sample_answers (sample_world sample_row [] n) =
      (sample_world sample_row [] (Suc n), Inr [(sample_key, sample_entry [sample_row])])" for n
    using sample_load [of "[sample_row]"] by (simp add: read_ledger_def sample_step sample_row_wf) (simp add: sample_world_def)
  have row: "find_row [(sample_key, sample_entry [sample_row])] sample_key 0 = Some (sample_entry [sample_row], sample_row)"
    by (simp add: find_row_def sample_entry_def)
  have facts: "g_state sample_row = ''claimed''" "created_at sample_row = ''t''" "run_of sample_row = []"
    "e_recipe_id (sample_entry [sample_row]) = ''app''"
    by (simp_all add: sample_row_def sample_entry_def run_of_def)
  have due: "retry_due clock_env t sample_row" for t by (simp add: retry_due_def facts)
  have named: "recipe_named ''app'' (a_recipe sample_answers t ''app'') = Some sample_live" for t
    by (simp add: recipe_named_def sample_answers_def sample_live_def)
  have free: "a_unlocked sample_answers n" for n by (simp add: sample_answers_def)
  have go: "dispatch 1 clock_env sample_cfg sample_answers sample_key (sample_entry [sample_row]) sample_row (sample_world sample_row [] 2) =
      (sample_world (finished_row\<lparr>completion_notified := True\<rparr>) [notice] 8, Inr ())"
    using sample_admission by (simp add: dispatch_def facts recipe_def bind_o_def sample_ask named)
  show ?thesis
    unfolding advance_def advance_locked_def attempt_def
    by (simp add: bind_o_def sample_ask free load row facts due sample_turn ret_def go [simplified numeral_2_eq_2 One_nat_def])
qed










lemma sample_delay:
  "schedule_retry clock_env sample_cfg sample_answers sample_key sample_row ''c'' ''d'' (sample_world sample_row [] 0) =
     (sample_world delayed_row [] 2, Inr ())"
proof -
  have facts: "g_generation sample_row = 0" "stage_retries sample_row = 0"
    by (simp_all add: sample_row_def stage_retries_def)
  have iso: "a_isoformat sample_answers t = ''t''" for t by (simp add: sample_answers_def)
  have "finish clock_env sample_cfg sample_key 0 ''transient_retryable'' ''transient'' 1 (Some ''t'') (Some ''c'') (Some ''d'')
      fine_ledger_io (sample_file [sample_row]) = (sample_file [delayed_row], Inr delayed_row)"
    unfolding finish_def by (simp add: TERMINAL_CLASSIFICATIONS_def RETRY_CLASSES_def)
      (rule sample_row_op, simp_all add: sample_row_wf sample_rows_finished_wf,
       simp_all add: finish_body_def Let_def finish_state_def bump_stage_def delayed_row_def sample_row_def fine_ledger_io_def
         gen_json_def gen_items_def)
  then show ?thesis
    unfolding schedule_retry_def delay_def bind_o_def
    by (simp add: sample_ask facts iso sample_on_ledger sample_world_ledger ret_def numeral_2_eq_2)
qed

section \<open>Properties\<close>



text \<open>C21: of the unfinished generations of a Recipe exactly one has its turn, and it is the first of
  them by date of creation, attempt key and number: a ledger never lets two generations
  of a Recipe advance, never prefers a younger one, and never blocks them all.\<close>

theorem one_turn_per_recipe:
  assumes "load_unlocked env cfg lf = Inr L" "distinct (map fst L)" "unfinished_row L rid key0 n0 g0"
  shows "\<exists>key n g. unfinished_row L rid key n g \<and>
    (\<forall>key' n' g'. unfinished_row L rid key' n' g' \<longrightarrow>
       (is_recipe_turn L key' n' rid (created_at g') \<longleftrightarrow> key' = key \<and> n' = n) \<and>
       (created_at g, key, n) \<le> (created_at g', key', n'))"
proof -
  let ?S = "set (active_rows L rid)"
  have rows: "unfinished_row L rid key n g \<Longrightarrow> (created_at g, key, n) \<in> ?S" for key n g
    unfolding unfinished_row_def active_rows_iff [OF load_wf [OF assms(1)] assms(2)] by blast
  have some: "active_rows L rid \<noteq> []" using rows [OF assms(3)] by (cases "active_rows L rid") simp_all
  obtain c key n where first: "Min ?S = (c, key, n)" by (cases "Min ?S")
  have "Min ?S \<in> ?S" using some by (intro Min_in) simp_all
  then obtain g where row: "unfinished_row L rid key n g" "created_at g = c"
    unfolding first unfinished_row_def active_rows_iff [OF load_wf [OF assms(1)] assms(2)] by blast
  have turn: "is_recipe_turn L key' n' rid d \<longleftrightarrow> (c, key, n) = (d, key', n')" for key' n' d
    using some by (auto simp: is_recipe_turn_def first)
  have "(is_recipe_turn L key' n' rid (created_at g') \<longleftrightarrow> key' = key \<and> n' = n) \<and>
      (created_at g, key, n) \<le> (created_at g', key', n')" if other: "unfinished_row L rid key' n' g'" for key' n' g'
  proof
    have "created_at g' = c" if "key' = key" "n' = n"
      using other row that by (auto simp: unfinished_row_def)
    then show "is_recipe_turn L key' n' rid (created_at g') \<longleftrightarrow> key' = key \<and> n' = n"
      unfolding turn by auto
    have "Min ?S \<le> (created_at g', key', n')" using rows [OF other] by (intro Min_le) simp_all
    then show "(created_at g, key, n) \<le> (created_at g', key', n')" unfolding first row(2) .
  qed
  with row(1) show ?thesis by blast
qed

theorem one_turn_per_recipe_witness:
  "\<exists>L. load_unlocked clock_env sample_cfg (sample_file [stopped_row, sample_row\<lparr>g_generation := 1\<rparr>]) = Inr L \<and>
     unfinished_row L ''app'' sample_key 1 (sample_row\<lparr>g_generation := 1\<rparr>) \<and>
     (\<exists>key n g. unfinished_row L ''app'' key n g \<and>
       (\<forall>key' n' g'. unfinished_row L ''app'' key' n' g' \<longrightarrow>
         (is_recipe_turn L key' n' ''app'' (created_at g') \<longleftrightarrow> key' = key \<and> n' = n) \<and>
         (created_at g, key, n) \<le> (created_at g', key', n')))"
proof -
  let ?gs = "[stopped_row, sample_row\<lparr>g_generation := 1\<rparr>]"
  have load: "load_unlocked clock_env sample_cfg (sample_file ?gs) = Inr [(sample_key, sample_entry ?gs)]"
  proof (rule sample_load)
    show "\<forall>i < length ?gs. gen_wf clock_env (int i) (?gs ! i)" using sample_rows_wf(1,3) by (simp add: All_less_Suc2)
  qed simp_all
  have row: "unfinished_row [(sample_key, sample_entry ?gs)] ''app'' sample_key 1 (sample_row\<lparr>g_generation := 1\<rparr>)"
    by (simp add: unfinished_row_def find_row_def sample_entry_def unfinished_def sample_row_def)
  have "distinct (map fst [(sample_key, sample_entry ?gs)])" by simp
  from one_turn_per_recipe [OF load this row] load row show ?thesis by blast
qed

text \<open>C20: a completion is notified at most once.  However many generations are advanced, in
  whatever order, with whatever answers, storage failures and recursion limits, no generation
  gets two notifications, and each notified one is recorded as finished; the other threads are
  only assumed not to resume a finished generation.\<close>

theorem completion_notified_at_most_once:
  assumes "others_keep_finished env cfg A" "w_calls w = []"
    and "each (\<lambda>(depth, key, n). advance depth env cfg A key n) rows w = (w', r)"
  shows "distinct (notified_rows w') \<and> (\<forall>km \<in> set (notified_rows w'). finished_in env cfg (w_ledger w') km)"
proof -
  have start: "notified_once env cfg w"
    using assms(2) by (simp add: notified_once_def notified_rows_def List.map_filter_simps)
  have "notified_once env cfg (fst (each (\<lambda>(depth, key, n). advance depth env cfg A key n) rows w))"
  proof (rule each_keeps [where I = "notified_once env cfg"])
    show "notified_once env cfg w" by (fact start)
  next
    fix x :: "nat \<times> string \<times> int" and w1
    assume "notified_once env cfg w1"
    show "notified_once env cfg (fst ((case x of (depth, key, n) \<Rightarrow> advance depth env cfg A key n) w1))"
    proof (cases x)
      case (fields depth key n)
      obtain w2 r2 where step: "advance depth env cfg A key n w1 = (w2, r2)" by (cases "advance depth env cfg A key n w1")
      then have "notified_once env cfg w2" by (rule advance_notifies_once [OF assms(1) \<open>notified_once env cfg w1\<close>])
      then show ?thesis using fields step by simp
    qed
  qed
  with assms(3) show ?thesis by (simp add: notified_once_def)
qed

theorem completion_notified_at_most_once_witness:
  "\<exists>w' r. each (\<lambda>(depth, key, n). advance depth clock_env sample_cfg sample_answers key n)
       [(1, sample_key, 0), (1, sample_key, 0)] (sample_world sample_row [] 0) = (w', r) \<and>
     w_calls (fst (advance 1 clock_env sample_cfg sample_answers sample_key 0 (sample_world sample_row [] 0))) = [notice] \<and>
     distinct (notified_rows w')"
proof -
  obtain w' r where run: "each (\<lambda>(depth, key, n). advance depth clock_env sample_cfg sample_answers key n)
      [(1, sample_key, 0), (1, sample_key, 0)] (sample_world sample_row [] 0) = (w', r)" by fastforce
  have "others_keep_finished clock_env sample_cfg sample_answers"
    by (simp add: others_keep_finished_def sample_answers_def)
  moreover have "w_calls (sample_world sample_row [] 0) = []" "w_calls (sample_world g [notice] n) = [notice]" for g n
    by (simp_all add: sample_world_def)
  ultimately show ?thesis using completion_notified_at_most_once [OF _ _ run] run sample_advance by auto
qed

lemma scheduled_finish:
  assumes "schedule_retry env cfg A key g code diag w = (w', Inr ())"
  obtains io lf g1 where "finish env cfg key (g_generation g) ''transient_retryable'' ''transient'' (stage_retries g + 1)
      (Some (a_isoformat A (a_clock A (w_tick w) + of_int (retry_seconds (stage_retries g + 1))))) (Some code) (Some diag)
      io lf = (w_ledger w', Inr g1)"
proof -
  let ?w1 = "step_world A w"
  let ?f = "finish env cfg key (g_generation g) ''transient_retryable'' ''transient'' (stage_retries g + 1)
      (Some (a_isoformat A (a_clock A (w_tick w) + of_int (retry_seconds (stage_retries g + 1))))) (Some code) (Some diag)
      (a_ledger_io A (w_tick ?w1)) (w_ledger (step_world A ?w1))"
  obtain lf' r where f: "?f = (lf', r)" by (cases ?f)
  have "(w', Inr ()) = (case r of Inl x \<Rightarrow> ((step_world A ?w1)\<lparr>w_ledger := lf'\<rparr>, Inl x)
      | Inr _ \<Rightarrow> ((step_world A ?w1)\<lparr>w_ledger := lf'\<rparr>, Inr ()))"
    using assms f by (simp add: schedule_retry_def delay_def bind_o_def ask_def on_ledger_def Let_def ret_def split: sum.splits)
  then show ?thesis using f that by (cases r) auto
qed

text \<open>C22: a generation put back by \<^verbatim>\<open>_schedule_retry\<close> waits: it is not due before one minute
  and is due after fifteen, to the microsecond that the stored date has; the wait doubles with the
  retries of the stage.\<close>

theorem retry_waits:
  assumes iso: "until = a_clock A (w_tick w) + of_int (retry_seconds (stage_retries g + 1))"
      "fromisoformat env (a_isoformat A until) = Some (b, m)" "\<bar>of_int m / 1000000 - until\<bar> \<le> 1 / 1000000"
    and "schedule_retry env cfg A key g code diag w = (w', Inr ())"
  shows "\<exists>L e g'. load_unlocked env cfg (w_ledger w') = Inr L \<and> find_row L key (g_generation g) = Some (e, g') \<and>
    g_state g' = ''retry_delayed'' \<and>
    (\<forall>now. (retry_due env now g' \<longrightarrow> a_clock A (w_tick w) + 60 - 1 / 1000000 \<le> now) \<and>
       (a_clock A (w_tick w) + 900 + 1 / 1000000 \<le> now \<longrightarrow> retry_due env now g')) \<and>
    (0 \<le> stage_retries g \<and> stage_retries g \<le> 3 \<longrightarrow> retry_seconds (stage_retries g + 1) = 60 * 2 ^ nat (stage_retries g))"
proof -
  let ?s = "retry_seconds (stage_retries g + 1)"
  let ?before = "a_isoformat A (a_clock A (w_tick w) + of_int ?s)"
  have bounds: "60 \<le> ?s" "?s \<le> 900"
    unfolding retry_seconds_def MIN_RETRY_SECONDS_def MAX_RETRY_SECONDS_def by simp_all
  obtain io lf g1 where op: "finish env cfg key (g_generation g) ''transient_retryable'' ''transient''
      (stage_retries g + 1) (Some ?before) (Some code) (Some diag) io lf = (w_ledger w', Inr g1)"
    using scheduled_finish [OF assms(4)] .
  have frame: "with_row env cfg io key (g_generation g) (finish_body ''transient_retryable'' ''transient'' (stage_retries g + 1)
      (Some ?before) (Some code) (Some diag) (l_clock io 0)) lf = (w_ledger w', Inr g1)"
    using op unfolding finish_def by (simp add: TERMINAL_CLASSIFICATIONS_def RETRY_CLASSES_def)
  obtain L e g0 L' e' step where body: "finish_body ''transient_retryable'' ''transient'' (stage_retries g + 1)
      (Some ?before) (Some code) (Some diag) (l_clock io 0) e g0 = Inr step" "g1 = (case step of KeepRow \<Rightarrow> g0 | UpdateRow x \<Rightarrow> x)"
      and L': "load_unlocked env cfg (w_ledger w') = Inr L'" "row_of L' key (g_generation g) = Inr (e', g1)"
    using with_row_success [OF finish_body_le frame] .
  have g1: "g_state g1 = ''retry_delayed''" "not_before g1 = Some ?before"
    using body by (auto simp: finish_body_def Let_def finish_state_def bump_stage_def)
  have m: "fromisoformat env ?before = Some (b, m)"
    using iso(2) unfolding iso(1) .
  have close: "a_clock A (w_tick w) + of_int ?s - 1 / 1000000 \<le> of_int m / 1000000"
      "of_int m / 1000000 \<le> a_clock A (w_tick w) + of_int ?s + 1 / 1000000"
    using iso(3) unfolding iso(1) by linarith+
  have due: "retry_due env now g1 \<longleftrightarrow> of_int m / 1000000 \<le> now" for now
    using g1 m by (simp add: retry_due_def)
  have "(of_int 60 :: rat) \<le> of_int ?s" "(of_int ?s :: rat) \<le> of_int 900" using bounds by (simp_all only: of_int_le_iff)
  then have s: "(60 :: rat) \<le> of_int ?s" "(of_int ?s :: rat) \<le> 900" by (simp_all only: of_int_numeral)
  have "\<forall>now. (retry_due env now g1 \<longrightarrow> a_clock A (w_tick w) + 60 - 1 / 1000000 \<le> now) \<and>
       (a_clock A (w_tick w) + 900 + 1 / 1000000 \<le> now \<longrightarrow> retry_due env now g1)"
    unfolding due using close s by (intro allI conjI impI) linarith+
  moreover have "retry_seconds (stage_retries g + 1) = 60 * 2 ^ nat (stage_retries g)" if r: "0 \<le> stage_retries g \<and> stage_retries g \<le> 3"
  proof -
    have "(2 :: int) ^ nat (stage_retries g) \<le> 2 ^ 3" using r by (intro power_increasing) auto
    then show ?thesis using r by (simp add: retry_seconds_def MIN_RETRY_SECONDS_def MAX_RETRY_SECONDS_def)
  qed
  ultimately show ?thesis using L' g1(1) find_row_of by (intro exI [of _ L'] exI [of _ e'] exI [of _ g1]) simp
qed

theorem retry_waits_witness:
  "\<exists>L e g'. load_unlocked clock_env sample_cfg (sample_file [delayed_row]) = Inr L \<and>
     find_row L sample_key 0 = Some (e, g') \<and> g_state g' = ''retry_delayed'' \<and> \<not> retry_due clock_env (- 1) g'"
proof -
  have facts: "g_generation sample_row = 0" "stage_retries sample_row = 0" "w_ledger (sample_world delayed_row [] 2) = sample_file [delayed_row]"
    "\<And>n. a_clock sample_answers n = - 60" "retry_seconds 1 = 60"
    by (simp_all add: sample_row_def stage_retries_def sample_world_def sample_answers_def retry_seconds_def
        MIN_RETRY_SECONDS_def MAX_RETRY_SECONDS_def)
  have iso: "fromisoformat clock_env (a_isoformat sample_answers 0) = Some (True, 0)" by (simp add: clock_env_def)
  have until: "(0 :: rat) = a_clock sample_answers (w_tick (sample_world sample_row [] 0)) + of_int (retry_seconds (stage_retries sample_row + 1))"
    by (simp add: facts(2,5)) (simp add: sample_answers_def)
  from retry_waits [OF until iso _ sample_delay] show ?thesis by (auto simp: facts)
qed

end
