(* ===== verification/Retry_Store.thy ===== *)
theory Retry_Store
  imports Ledger_Operations "HOL-Library.Sublist"
begin

text \<open>
  \<^verbatim>\<open>AutomationRetryStore\<close> of \<^verbatim>\<open>src/debbuilder/automation_scheduler.py\<close>: the file of Recipes whose
  detection failed without an attempt identity, and what \<^verbatim>\<open>_record_outcome\<close> and
  \<^verbatim>\<open>_retry_delay\<close> write into it.  The file and the outcomes of lock and write are those of
  \<open>Ledger_Operations\<close>.  The store is a map from Recipes to rows that survives storage failures
  (locale \<open>durable_map\<close>).
\<close>

section \<open>Rows\<close>

definition MAX_STATE_BYTES :: nat where "MAX_STATE_BYTES = 1024 * 1024"
definition MAX_RETRY_COUNT :: int where "MAX_RETRY_COUNT = 8"
definition MIN_BACKOFF_SECONDS :: int where "MIN_BACKOFF_SECONDS = 60"
definition MAX_BACKOFF_SECONDS :: int where "MAX_BACKOFF_SECONDS = 6 * 60 * 60"
definition TRANSIENT_CLASSIFICATIONS :: "string list" where
  "TRANSIENT_CLASSIFICATIONS = [''upstream_unavailable'', ''rate_limited'']"
definition SOURCE_ABSENT_CLASSIFICATIONS :: "string list" where
  "SOURCE_ABSENT_CLASSIFICATIONS = [''source_not_found'']"

record retry_row =
  rr_sha256 :: string
  rr_class :: string
  rr_classification :: string
  rr_diagnostic :: string
  rr_count :: int
  rr_not_before :: "string option"
  rr_updated_at :: string

type_synonym retry_state = "(string \<times> retry_row) list"

definition RETRY_FIELDS :: "string list" where
  "RETRY_FIELDS = [''recipe_id'', ''recipe_sha256'', ''retry_class'', ''classification'', ''diagnostic'', ''retry_count'',
     ''not_before'', ''updated_at'']"

definition row_json :: "string \<Rightarrow> retry_row \<Rightarrow> json" where
  "row_json recipe_id r = JObj [(''recipe_id'', JStr recipe_id), (''recipe_sha256'', JStr (rr_sha256 r)),
     (''retry_class'', JStr (rr_class r)), (''classification'', JStr (rr_classification r)),
     (''diagnostic'', JStr (rr_diagnostic r)), (''retry_count'', JInt (rr_count r)),
     (''not_before'', opt_str (rr_not_before r)), (''updated_at'', JStr (rr_updated_at r))]"

definition state_json :: "retry_state \<Rightarrow> json" where
  "state_json S = JObj [(''schema_version'', JInt 1), (''recipes'', JObj (map (\<lambda>(k, r). (k, row_json k r)) S))]"

section \<open>Validation\<close>

definition sched_err :: "string \<Rightarrow> exn" where
  "sched_err code = Exn AutomationSchedulerError code []"

abbreviation malformed :: exn where "malformed \<equiv> sched_err ''automation_scheduler_state_malformed''"

text \<open>\<^verbatim>\<open>_timestamp\<close>\<close>

definition timestamp :: "py_env \<Rightarrow> json \<Rightarrow> string result" where
  "timestamp env v =
     (case v of
        JStr s \<Rightarrow>
          if s = [] \<or> length s > 64 then Inl malformed
          else (case fromisoformat env s of
              None \<Rightarrow> Inl malformed
            | Some (aware, _) \<Rightarrow> if aware then Inr s else Inl malformed)
      | _ \<Rightarrow> Inl malformed)"

definition optional_time :: "py_env \<Rightarrow> json \<Rightarrow> string option result" where
  "optional_time env v = (if v = JNull then Inr None else bind_r (timestamp env v) (\<lambda>s. Inr (Some s)))"

text \<open>A field that must match \<^verbatim>\<open>[a-z0-9_.-]{1,80}\<close>, and one that must be a digest.\<close>

definition code_text :: "json \<Rightarrow> string result" where
  "code_text v = (case v of JStr s \<Rightarrow> if matches is_code_char 1 80 s then Inr s else Inl malformed | _ \<Rightarrow> Inl malformed)"

definition sha_text :: "json \<Rightarrow> string result" where
  "sha_text v = (case v of JStr s \<Rightarrow> if is_sha256 s then Inr s else Inl malformed | _ \<Rightarrow> Inl malformed)"

definition class_text :: "json \<Rightarrow> string result" where
  "class_text v = bind_r (str_in v [''transient'', ''source_absent'', ''operator'']) (\<lambda>ok.
     case v of JStr s \<Rightarrow> if ok then Inr s else Inl malformed | _ \<Rightarrow> Inl malformed)"

definition count_value :: "json \<Rightarrow> int result" where
  "count_value v = (case v of JInt n \<Rightarrow> if 1 \<le> n \<and> n \<le> MAX_RETRY_COUNT then Inr n else Inl malformed | _ \<Rightarrow> Inl malformed)"

definition validate_row :: "py_env \<Rightarrow> string \<Rightarrow> json \<Rightarrow> retry_row result" where
  "validate_row env recipe_id v =
     (if \<not> matches is_name_char 1 128 recipe_id then Inl malformed
      else case v of
        JObj kvs \<Rightarrow>
          if \<not> same_keys kvs RETRY_FIELDS \<or> jget kvs ''recipe_id'' \<noteq> JStr recipe_id then Inl malformed
          else
            bind_r (sha_text (jget kvs ''recipe_sha256'')) (\<lambda>sha.
            bind_r (class_text (jget kvs ''retry_class'')) (\<lambda>cls.
            bind_r (count_value (jget kvs ''retry_count'')) (\<lambda>count.
            bind_r (code_text (jget kvs ''classification'')) (\<lambda>classification.
            bind_r (code_text (jget kvs ''diagnostic'')) (\<lambda>diagnostic.
            bind_r (optional_time env (jget kvs ''not_before'')) (\<lambda>before.
            if (cls = ''operator'') \<noteq> (before = None) then Inl malformed
            else
              bind_r (timestamp env (jget kvs ''updated_at'')) (\<lambda>updated.
              Inr \<lparr>rr_sha256 = sha, rr_class = cls, rr_classification = classification, rr_diagnostic = diagnostic,
                rr_count = count, rr_not_before = before, rr_updated_at = updated\<rparr>)))))))
      | _ \<Rightarrow> Inl malformed)"

fun validate_retry_rows :: "py_env \<Rightarrow> (string \<times> json) list \<Rightarrow> retry_state result" where
  "validate_retry_rows env [] = Inr []"
| "validate_retry_rows env ((recipe_id, v) # kvs) =
     bind_r (validate_row env recipe_id v) (\<lambda>r. bind_r (validate_retry_rows env kvs) (\<lambda>S. Inr ((recipe_id, r) # S)))"

text \<open>\<^verbatim>\<open>_validate\<close>\<close>

definition validate_state :: "py_env \<Rightarrow> json \<Rightarrow> retry_state result" where
  "validate_state env document =
     (case document of
        JObj kvs \<Rightarrow>
          if \<not> same_keys kvs [''schema_version'', ''recipes''] then Inl malformed
          else if \<not> py_eq (jget kvs ''schema_version'') (JInt 1) \<or> (\<exists>b \<in> {True, False}. jget kvs ''schema_version'' = JBool b)
          then Inl (case jget kvs ''schema_version'' of
              JInt n \<Rightarrow> if n > 1 then sched_err ''automation_scheduler_state_future_version'' else malformed
            | _ \<Rightarrow> malformed)
          else (case jget kvs ''recipes'' of
              JObj entries \<Rightarrow>
                if length entries > MAX_RECIPES then Inl (sched_err ''automation_scheduler_state_capacity'')
                else validate_retry_rows env entries
            | _ \<Rightarrow> Inl (sched_err ''automation_scheduler_state_capacity''))
      | _ \<Rightarrow> Inl malformed)"

section \<open>The file\<close>

text \<open>\<^verbatim>\<open>_load_unlocked\<close>: exceptions that are not the store's own become \<^verbatim>\<open>malformed\<close>.\<close>

definition load_state :: "py_env \<Rightarrow> ledger_file \<Rightarrow> retry_state result" where
  "load_state env f =
     (case f of
        Absent \<Rightarrow> Inr []
      | Unavailable \<Rightarrow> Inl (sched_err ''automation_scheduler_state_unavailable'')
      | Unsafe \<Rightarrow> Inl malformed
      | Undecodable \<Rightarrow> Inl malformed
      | Stored document \<Rightarrow>
          (case validate_state env document of
             Inl e \<Rightarrow> Inl (if exn_class e = AutomationSchedulerError then e else malformed)
           | Inr S \<Rightarrow> Inr S))"

text \<open>\<^verbatim>\<open>_locked\<close>: the lock file cannot be taken at all, or is unavailable or unsafe.\<close>

definition state_locked :: "ledger_io \<Rightarrow> unit result" where
  "state_locked io =
     (case l_lock io of
        LockTaken \<Rightarrow> Inr ()
      | LockFailed \<Rightarrow> Inl os_err
      | LockUnsafe \<Rightarrow> Inl (sched_err ''automation_scheduler_state_unavailable''))"

definition encoded_state :: "retry_state \<Rightarrow> string" where
  "encoded_state S = utf8 (dumps_indent 0 (state_json S) @ [char_of (10 :: nat)])"

text \<open>\<^verbatim>\<open>_save_unlocked\<close>\<close>

definition save_state :: "py_env \<Rightarrow> ledger_io \<Rightarrow> retry_state \<Rightarrow> ledger_file \<Rightarrow> ledger_file \<times> unit result" where
  "save_state env io S f =
     (case validate_state env (state_json S) of
        Inl e \<Rightarrow> (f, Inl e)
      | Inr canonical \<Rightarrow>
          if length (encoded_state canonical) > MAX_STATE_BYTES
          then (f, Inl (sched_err ''automation_scheduler_state_capacity''))
          else (case l_write io of
              Written \<Rightarrow> (Stored (state_json canonical), Inr ())
            | FailedBefore \<Rightarrow> (f, Inl (sched_err ''automation_scheduler_state_unavailable''))
            | FailedAfter \<Rightarrow> (Stored (state_json canonical), Inl (sched_err ''automation_scheduler_state_unavailable''))))"

text \<open>\<^verbatim>\<open>record\<close>: a row that differs from the stored one only in \<^verbatim>\<open>updated_at\<close> is not written.\<close>

definition same_retry :: "retry_row \<Rightarrow> retry_row \<Rightarrow> bool" where
  "same_retry r r' = (r\<lparr>rr_updated_at := []\<rparr> = r'\<lparr>rr_updated_at := []\<rparr>)"

definition record_row :: "py_env \<Rightarrow> ledger_io \<Rightarrow> string \<Rightarrow> retry_row \<Rightarrow> ledger_file \<Rightarrow> ledger_file \<times> unit result" where
  "record_row env io recipe_id row f =
     (case validate_state env (state_json [(recipe_id, row)]) of
        Inl e \<Rightarrow> (f, Inl e)
      | Inr _ \<Rightarrow>
          (case bind_r (state_locked io) (\<lambda>_. load_state env f) of
             Inl e \<Rightarrow> (f, Inl e)
           | Inr S \<Rightarrow>
               if (case map_of S recipe_id of None \<Rightarrow> False | Some old \<Rightarrow> same_retry old row) then (f, Inr ())
               else if map_of S recipe_id = None \<and> length S \<ge> MAX_RECIPES
               then (f, Inl (sched_err ''automation_scheduler_state_capacity''))
               else save_state env io (AList.update recipe_id row S) f))"

text \<open>\<^verbatim>\<open>clear\<close>\<close>

definition clear_row :: "py_env \<Rightarrow> ledger_io \<Rightarrow> string \<Rightarrow> ledger_file \<Rightarrow> ledger_file \<times> unit result" where
  "clear_row env io recipe_id f =
     (case bind_r (state_locked io) (\<lambda>_. load_state env f) of
        Inl e \<Rightarrow> (f, Inl e)
      | Inr S \<Rightarrow>
          if map_of S recipe_id = None then (f, Inr ())
          else save_state env io (AList.delete recipe_id S) f)"

section \<open>Backoff\<close>

text \<open>\<^verbatim>\<open>int(hexdigest[:8], 16) % 16\<close>: the value of the eighth hexadecimal digit.\<close>

definition hex_value :: "char \<Rightarrow> int" where
  "hex_value c = (if is_dec c then int (cord c) - 48 else int (cord c) - 87)"

definition jitter :: "py_env \<Rightarrow> string \<Rightarrow> int \<Rightarrow> int" where
  "jitter env recipe_id count =
     foldl (\<lambda>n c. 16 * n + hex_value c) 0 (take 8 (sha256_hex env (recipe_id @ '':'' @ str_int count))) mod 16"

text \<open>A hint of the upstream: an integer that is no boolean.\<close>

definition int_field :: "doc \<Rightarrow> string \<Rightarrow> int option" where
  "int_field result k = (case jget result k of JInt n \<Rightarrow> Some n | _ \<Rightarrow> None)"

text \<open>\<^verbatim>\<open>int(x)\<close> of a float.\<close>

definition to_int :: "rat \<Rightarrow> int" where
  "to_int x = (if 0 \<le> x then \<lfloor>x\<rfloor> else - \<lfloor>- x\<rfloor>)"

text \<open>\<^verbatim>\<open>_retry_delay\<close>; \<^verbatim>\<open>now\<close> is \<^verbatim>\<open>wall_clock()\<close>.\<close>

definition backoff_delay :: "py_env \<Rightarrow> rat \<Rightarrow> string \<Rightarrow> int \<Rightarrow> doc \<Rightarrow> int" where
  "backoff_delay env now recipe_id count result =
     (let base = min MAX_BACKOFF_SECONDS (MIN_BACKOFF_SECONDS * 2 ^ nat (count - 1));
          computed = min MAX_BACKOFF_SECONDS (base + base * jitter env recipe_id count div 100);
          after = (case int_field result ''retry_after_seconds'' of None \<Rightarrow> 0 | Some n \<Rightarrow> max 0 n);
          reset = (case int_field result ''rate_limit_reset'' of None \<Rightarrow> 0 | Some n \<Rightarrow> max 0 (n - to_int now))
      in max MIN_BACKOFF_SECONDS (min MAX_BACKOFF_SECONDS (max computed (max after reset))))"

section \<open>Recording an outcome\<close>

text \<open>The clock and \<^verbatim>\<open>datetime\<close>: the time at the three readings of \<^verbatim>\<open>wall_clock()\<close> (for the
  delay, for \<^verbatim>\<open>not_before\<close>, for \<^verbatim>\<open>updated_at\<close>), and the ISO form of a time in seconds.\<close>

record scheduler_clock =
  wall :: "nat \<Rightarrow> rat"
  iso_of :: "rat \<Rightarrow> string"

definition retry_class_of :: "json \<Rightarrow> string" where
  "retry_class_of classification =
     (if \<exists>c \<in> set TRANSIENT_CLASSIFICATIONS. classification = JStr c then ''transient''
      else if \<exists>c \<in> set SOURCE_ABSENT_CLASSIFICATIONS. classification = JStr c then ''source_absent'' else ''operator'')"

definition result_sha :: "doc \<Rightarrow> string" where
  "result_sha result =
     (case jget result ''recipe_sha256'' of JStr s \<Rightarrow> if is_sha256 s then s else replicate 64 (CHR ''0'')
      | _ \<Rightarrow> replicate 64 (CHR ''0''))"

text \<open>The row of a failed detection: the count goes on when digest and class are those of the
  row that the pass had read.\<close>

definition outcome_row :: "py_env \<Rightarrow> scheduler_clock \<Rightarrow> string \<Rightarrow> doc \<Rightarrow> retry_row option \<Rightarrow> retry_row" where
  "outcome_row env clock recipe_id result previous =
     (let sha = result_sha result;
          cls = retry_class_of (jget result ''classification'');
          prior = (case previous of
              None \<Rightarrow> 0
            | Some r \<Rightarrow> if rr_sha256 r = sha \<and> rr_class r = cls then rr_count r else 0);
          count = min MAX_RETRY_COUNT (prior + 1)
      in \<lparr>rr_sha256 = sha, rr_class = cls,
          rr_classification = take 80 (str_or env (jget result ''classification'') ''upstream_unavailable''),
          rr_diagnostic = take 80 (str_or env (jget result ''diagnostic'') ''automation_detection_failed''),
          rr_count = count,
          rr_not_before = (if cls = ''operator'' then None
            else Some (iso_of clock (wall clock 1 + of_int (backoff_delay env (wall clock 0) recipe_id count result)))),
          rr_updated_at = iso_of clock (wall clock 2)\<rparr>)"

text \<open>What \<^verbatim>\<open>_record_outcome\<close> does to the store; \<^verbatim>\<open>lease\<close> is the outcome of \<^verbatim>\<open>_mutation_lease\<close>.\<close>

definition record_outcome ::
  "py_env \<Rightarrow> scheduler_clock \<Rightarrow> ledger_io \<Rightarrow> exn option \<Rightarrow> string \<Rightarrow> doc \<Rightarrow> retry_row option \<Rightarrow> ledger_file \<Rightarrow> ledger_file \<times> unit result" where
  "record_outcome env clock io lease recipe_id result previous f =
     (if jget result ''classification'' = JStr ''observed'' then (f, Inr ())
      else if jget result ''identity'' \<noteq> JNull then
        (case lease of Some e \<Rightarrow> (f, Inl e) | None \<Rightarrow> clear_row env io recipe_id f)
      else if has_key result ''automation_eligible'' \<and> jget result ''automation_eligible'' = JBool False then (f, Inr ())
      else if jget result ''classification'' = JStr ''shutting_down'' \<or> jget result ''diagnostic'' = JStr ''automation_shutting_down''
      then (f, Inr ())
      else (case lease of
          Some e \<Rightarrow> (f, Inl e)
        | None \<Rightarrow> record_row env io recipe_id (outcome_row env clock recipe_id result previous) f))"

text \<open>The check of \<^verbatim>\<open>_eligible\<close>: whether a pass only observes the Recipe because its retry waits.\<close>

definition retry_waiting :: "py_env \<Rightarrow> rat \<Rightarrow> string \<Rightarrow> retry_row option \<Rightarrow> bool" where
  "retry_waiting env now sha row =
     (case row of
        None \<Rightarrow> False
      | Some r \<Rightarrow> rr_sha256 r = sha \<and>
          (case rr_not_before r of
             None \<Rightarrow> False
           | Some s \<Rightarrow> s \<noteq> [] \<and>
               (case fromisoformat env s of
                  None \<Rightarrow> False
                | Some (_, t) \<Rightarrow> 0 < of_int t / 1000000 - now \<and> of_int t / 1000000 - now \<le> of_int MAX_BACKOFF_SECONDS)))"

section \<open>Canonical states\<close>

definition row_wf :: "py_env \<Rightarrow> string \<Rightarrow> retry_row \<Rightarrow> bool" where
  "row_wf env recipe_id r =
     (matches is_name_char 1 128 recipe_id \<and> is_sha256 (rr_sha256 r) \<and>
      rr_class r \<in> {''transient'', ''source_absent'', ''operator''} \<and> 1 \<le> rr_count r \<and> rr_count r \<le> MAX_RETRY_COUNT \<and>
      matches is_code_char 1 80 (rr_classification r) \<and> matches is_code_char 1 80 (rr_diagnostic r) \<and>
      (rr_class r = ''operator'' \<longleftrightarrow> rr_not_before r = None) \<and>
      (\<forall>s \<in> set_option (rr_not_before r). time_wf env s) \<and> time_wf env (rr_updated_at r))"

definition state_wf :: "py_env \<Rightarrow> retry_state \<Rightarrow> bool" where
  "state_wf env S = (length S \<le> MAX_RECIPES \<and> (\<forall>(k, r) \<in> set S. row_wf env k r))"

lemma timestamp_iff: "timestamp env v = Inr s \<longleftrightarrow> v = JStr s \<and> time_wf env s"
  by (cases v) (auto simp: timestamp_def time_wf_def split: option.splits)

lemma optional_time_iff: "optional_time env v = Inr t \<longleftrightarrow> v = opt_str t \<and> (\<forall>s \<in> set_option t. time_wf env s)"
  by (cases t) (auto simp: optional_time_def result_simps timestamp_iff)

lemma code_text_iff: "code_text v = Inr s \<longleftrightarrow> v = JStr s \<and> matches is_code_char 1 80 s"
  by (cases v) (auto simp: code_text_def)

lemma sha_text_iff: "sha_text v = Inr s \<longleftrightarrow> v = JStr s \<and> is_sha256 s"
  by (cases v) (auto simp: sha_text_def)

lemma class_text_iff: "class_text v = Inr s \<longleftrightarrow> v = JStr s \<and> s \<in> {''transient'', ''source_absent'', ''operator''}"
  by (cases v) (auto simp: class_text_def result_simps)

lemma count_value_iff: "count_value v = Inr n \<longleftrightarrow> v = JInt n \<and> 1 \<le> n \<and> n \<le> MAX_RETRY_COUNT"
  by (cases v) (auto simp: count_value_def)

lemmas field_iffs = timestamp_iff optional_time_iff code_text_iff sha_text_iff class_text_iff count_value_iff

lemma validate_row_render: "row_wf env k r \<Longrightarrow> validate_row env k (row_json k r) = Inr r"
  by (simp add: validate_row_def row_json_def row_wf_def same_keys_def RETRY_FIELDS_def result_simps field_iffs jkeys_def) auto

text \<open>What is read from an accepted row: the values of its fields.\<close>

lemma validate_row_fields:
  assumes "validate_row env k (JObj kvs) = Inr r"
  shows "row_wf env k r \<and> jget kvs ''recipe_sha256'' = JStr (rr_sha256 r) \<and> jget kvs ''retry_class'' = JStr (rr_class r) \<and>
    jget kvs ''retry_count'' = JInt (rr_count r) \<and> jget kvs ''classification'' = JStr (rr_classification r) \<and>
    jget kvs ''diagnostic'' = JStr (rr_diagnostic r) \<and> jget kvs ''not_before'' = opt_str (rr_not_before r) \<and>
    jget kvs ''updated_at'' = JStr (rr_updated_at r)"
proof -
  have name: "matches is_name_char 1 128 k" using assms by (simp add: validate_row_def split: if_splits)
  obtain sha cls count classification diag before updated where fields:
      "sha_text (jget kvs ''recipe_sha256'') = Inr sha" "class_text (jget kvs ''retry_class'') = Inr cls"
      "count_value (jget kvs ''retry_count'') = Inr count" "code_text (jget kvs ''classification'') = Inr classification"
      "code_text (jget kvs ''diagnostic'') = Inr diag" "optional_time env (jget kvs ''not_before'') = Inr before"
      "\<not> (cls = ''operator'') \<noteq> (before = None)" "timestamp env (jget kvs ''updated_at'') = Inr updated"
      "Inr \<lparr>rr_sha256 = sha, rr_class = cls, rr_classification = classification, rr_diagnostic = diag,
          rr_count = count, rr_not_before = before, rr_updated_at = updated\<rparr> = (Inr r :: retry_row result)"
    using assms unfolding validate_row_def json.case if_not_P [OF not_not [THEN iffD2, OF name]]
    by (elim result_elims)
  have r: "r = \<lparr>rr_sha256 = sha, rr_class = cls, rr_classification = classification, rr_diagnostic = diag,
      rr_count = count, rr_not_before = before, rr_updated_at = updated\<rparr>"
    using fields(9) by simp
  show ?thesis
    unfolding row_wf_def r using name fields(1-8) by (simp add: field_iffs)
qed

lemma validate_row_wf:
  assumes "validate_row env k v = Inr r"
  shows "row_wf env k r"
proof (cases v)
  case (JObj kvs)
  from validate_row_fields [OF assms [unfolded JObj]] show ?thesis by (rule conjunct1)
qed (use assms in \<open>simp_all add: validate_row_def split: if_splits\<close>)

text \<open>A row whose rendering is accepted is the row it is read as.\<close>

lemma opt_str_inject: "opt_str a = opt_str b \<longleftrightarrow> a = b"
  by (cases a; cases b) simp_all

lemma jget_row_json:
  assumes "row_json k r = JObj kvs"
  shows "jget kvs ''recipe_sha256'' = JStr (rr_sha256 r)" "jget kvs ''retry_class'' = JStr (rr_class r)"
    "jget kvs ''retry_count'' = JInt (rr_count r)" "jget kvs ''classification'' = JStr (rr_classification r)"
    "jget kvs ''diagnostic'' = JStr (rr_diagnostic r)" "jget kvs ''not_before'' = opt_str (rr_not_before r)"
    "jget kvs ''updated_at'' = JStr (rr_updated_at r)"
  using assms unfolding row_json_def json.inject by (auto simp: jget_def)

lemma validate_row_json:
  assumes "validate_row env k (row_json k row) = Inr r"
  shows "r = row"
proof -
  obtain kvs where kvs: "row_json k row = JObj kvs" by (simp add: row_json_def)
  have "rr_sha256 r = rr_sha256 row \<and> rr_class r = rr_class row \<and> rr_count r = rr_count row \<and>
      rr_classification r = rr_classification row \<and> rr_diagnostic r = rr_diagnostic row \<and>
      rr_not_before r = rr_not_before row \<and> rr_updated_at r = rr_updated_at row"
    using validate_row_fields [OF assms [unfolded kvs]] unfolding jget_row_json [OF kvs] by (simp add: opt_str_inject)
  then show ?thesis by simp
qed

lemma validate_retry_rows_render: "\<forall>(k, r) \<in> set S. row_wf env k r \<Longrightarrow> validate_retry_rows env (map (\<lambda>(k, r). (k, row_json k r)) S) = Inr S"
  by (induction S) (auto simp: result_simps validate_row_render)

lemma validate_retry_rows_wf: "validate_retry_rows env kvs = Inr S \<Longrightarrow> length S = length kvs \<and> (\<forall>(k, r) \<in> set S. row_wf env k r)"
  by (induction env kvs arbitrary: S rule: validate_retry_rows.induct) (auto simp: result_simps dest: validate_row_wf)

interpretation retry_doc: canonical_document "validate_state env" state_json "state_wf env" for env
proof
  fix S
  assume "state_wf env S"
  then show "validate_state env (state_json S) = Inr S"
    by (simp add: validate_state_def state_json_def same_keys_def jkeys_def state_wf_def validate_retry_rows_render py_eq_JInt_iff)
next
  fix j S
  assume "validate_state env j = Inr S"
  then obtain entries where "length entries \<le> MAX_RECIPES" "validate_retry_rows env entries = Inr S"
    by (cases j) (auto simp: validate_state_def not_less split: if_splits json.splits)
  then show "state_wf env S" using validate_retry_rows_wf by (auto simp: state_wf_def)
qed

lemma checked_row_wf:
  assumes "validate_state env (state_json [(k, row)]) = Inr C"
  shows "row_wf env k row"
proof -
  have "validate_retry_rows env [(k, row_json k row)] = Inr C"
    using assms by (auto simp: validate_state_def state_json_def split: if_splits)
  then obtain r where r: "validate_row env k (row_json k row) = Inr r" by (auto simp: result_simps)
  with validate_row_wf [OF this] validate_row_json [OF this] show ?thesis by simp
qed

section \<open>A map that survives storage failures\<close>

text \<open>
  The contract of a store of rows by key: an operation sets one key, to a row or to nothing; it
  is done or it is not, and when it reports success the key has what was asked for.
\<close>

locale durable_map =
  fixes view :: "'f \<Rightarrow> ('k \<Rightarrow> 'v option) option"
    and perform :: "'io \<Rightarrow> 'o \<Rightarrow> 'f \<Rightarrow> 'f \<times> ('e + unit)"
    and key :: "'o \<Rightarrow> 'k"
    and target :: "'o \<Rightarrow> 'v option"
    and agrees :: "'v option \<Rightarrow> 'v option \<Rightarrow> bool"
  assumes step: "view f = Some m \<Longrightarrow> perform io act f = (f', r) \<Longrightarrow>
    \<exists>m'. view f' = Some m' \<and> (m' = m \<or> m' = m(key act := target act)) \<and> (r = Inr () \<longrightarrow> agrees (m' (key act)) (target act))"
begin

definition run :: "('io \<times> 'o) list \<Rightarrow> 'f \<Rightarrow> 'f" where
  "run acts f = fold (\<lambda>(io, act) f. fst (perform io act f)) acts f"

definition set_key :: "'o \<Rightarrow> ('k \<Rightarrow> 'v option) \<Rightarrow> 'k \<Rightarrow> 'v option" where
  "set_key act m = m(key act := target act)"

lemma run_simps [simp]: "run [] f = f" "run ((io, act) # acts) f = run acts (fst (perform io act f))"
  "run (as @ bs) f = run bs (run as f)"
  by (simp_all add: run_def)

lemma step_cases:
  assumes "view f = Some m"
  obtains m' where "view (fst (perform io act f)) = Some m'" "m' = m \<or> m' = set_key act m"
    "snd (perform io act f) = Inr () \<Longrightarrow> agrees (m' (key act)) (target act)"
  using step [OF assms, of io act "fst (perform io act f)" "snd (perform io act f)"] by (auto simp: set_key_def)

text \<open>Any sequence of operations has the effect of some of them, in their order.\<close>

lemma refines:
  "view f = Some m \<Longrightarrow> \<exists>m' applied. view (run acts f) = Some m' \<and> subseq applied (map snd acts) \<and> m' = fold set_key applied m"
proof (induction acts arbitrary: f m)
  case (Cons a acts)
  obtain io act where a: "a = (io, act)" by (cases a)
  obtain m1 where m1: "view (fst (perform io act f)) = Some m1" "m1 = m \<or> m1 = set_key act m"
    using step_cases [OF Cons.prems] by blast
  obtain m' applied where rest: "view (run acts (fst (perform io act f))) = Some m'" "subseq applied (map snd acts)"
      "m' = fold set_key applied m1"
    using Cons.IH [OF m1(1)] by blast
  show ?case
  proof (cases "m1 = m")
    case True
    with rest show ?thesis unfolding a by (intro exI [of _ m'] exI [of _ applied]) (simp add: list_emb_Cons)
  next
    case False
    with rest m1(2) show ?thesis unfolding a by (intro exI [of _ m'] exI [of _ "act # applied"]) simp
  qed
qed (auto intro!: exI [of _ "[]"])

lemma untouched: "\<forall>act \<in> set acts. key act \<noteq> k \<Longrightarrow> fold set_key acts m k = m k"
  by (induction acts arbitrary: m) (auto simp: set_key_def)

text \<open>A reported success lasts until the next operation on its key.\<close>

lemma success_lasts:
  assumes "view f = Some m" "snd (perform io act (run before f)) = Inr ()" "\<forall>(io', act') \<in> set after. key act' \<noteq> key act"
    and "view (run (before @ (io, act) # after) f) = Some m'"
  shows "agrees (m' (key act)) (target act)"
proof -
  obtain m1 where "view (run before f) = Some m1" using refines [OF assms(1)] by blast
  then obtain m2 where m2: "view (fst (perform io act (run before f))) = Some m2" "agrees (m2 (key act)) (target act)"
    using step_cases assms(2) by metis
  have "view (run after (fst (perform io act (run before f)))) = Some m'" using assms(4) by simp
  then obtain applied where applied: "subseq applied (map snd after)" "m' = fold set_key applied m2"
    using refines [OF m2(1), of after] by auto
  have "key x \<noteq> key act" if "x \<in> set applied" for x
  proof -
    from list_emb_set [OF applied(1) that] obtain y where "y \<in> set (map snd after)" "x = y" .
    with assms(3) show ?thesis by auto
  qed
  then have "\<forall>x \<in> set applied. key x \<noteq> key act" by blast
  then have "m' (key act) = m2 (key act)" unfolding applied(2) by (rule untouched)
  with m2(2) show ?thesis by simp
qed

end

section \<open>The store is such a map\<close>

datatype store_op = Record string retry_row | Clear string

fun op_key :: "store_op \<Rightarrow> string" where
  "op_key (Record k r) = k"
| "op_key (Clear k) = k"

fun op_target :: "store_op \<Rightarrow> retry_row option" where
  "op_target (Record k r) = Some r"
| "op_target (Clear k) = None"

fun perform_op :: "py_env \<Rightarrow> ledger_io \<Rightarrow> store_op \<Rightarrow> ledger_file \<Rightarrow> ledger_file \<times> unit result" where
  "perform_op env io (Record k r) f = record_row env io k r f"
| "perform_op env io (Clear k) f = clear_row env io k f"

definition stored :: "py_env \<Rightarrow> ledger_file \<Rightarrow> (string \<Rightarrow> retry_row option) option" where
  "stored env f = (case load_state env f of Inl _ \<Rightarrow> None | Inr S \<Rightarrow> Some (map_of S))"

definition up_to_date :: "retry_row option \<Rightarrow> retry_row option \<Rightarrow> bool" where
  "up_to_date r r' = rel_option same_retry r r'"

lemma load_canonical: "state_wf env S \<Longrightarrow> load_state env (Stored (state_json S)) = Inr S"
  by (simp add: load_state_def retry_doc.validate_render)

lemma retry_load_wf: "load_state env f = Inr S \<Longrightarrow> state_wf env S"
  by (auto simp: load_state_def state_wf_def retry_doc.validate_wf [unfolded state_wf_def] split: ledger_file.splits sum.splits
      dest: retry_doc.validate_wf)

lemma save_state_cases:
  assumes "save_state env io S f = (f', r)" "state_wf env S"
  shows "(f' = f \<and> r \<noteq> Inr ()) \<or> load_state env f' = Inr S"
  using assms by (auto simp: save_state_def retry_doc.validate_render load_canonical split: if_splits write_outcome.splits)

lemma update_wf:
  assumes "state_wf env S" "row_wf env k r" "map_of S k = None \<longrightarrow> length S < MAX_RECIPES"
  shows "state_wf env (AList.update k r S)"
proof -
  have "length (AList.update k r S) \<le> (if map_of S k = None then Suc (length S) else length S)"
    by (induction S) auto
  moreover have "set (AList.update k r S) \<subseteq> insert (k, r) (set S)"
    by (induction S) auto
  ultimately show ?thesis using assms by (auto simp: state_wf_def split: if_splits)
qed

lemma delete_wf: "state_wf env S \<Longrightarrow> state_wf env (AList.delete k S)"
  by (auto simp: state_wf_def AList.delete_eq intro: order_trans [OF length_filter_le])

lemma record_row_step:
  assumes "load_state env f = Inr S" "record_row env io k row f = (f', r)"
  shows "\<exists>S'. load_state env f' = Inr S' \<and> (map_of S' = map_of S \<or> map_of S' = (map_of S)(k \<mapsto> row)) \<and>
    (r = Inr () \<longrightarrow> up_to_date (map_of S' k) (Some row))"
proof (cases "validate_state env (state_json [(k, row)])")
  case (Inl e)
  then show ?thesis using assms by (auto simp: record_row_def)
next
  case checked: (Inr C)
  show ?thesis
  proof (cases "state_locked io")
    case (Inl e)
    then show ?thesis using assms checked by (auto simp: record_row_def)
  next
    case (Inr u)
    note run = assms(2) [unfolded record_row_def checked sum.case Inr bind_r.simps assms(1)]
    consider (same) old where "map_of S k = Some old" "same_retry old row" | (full) "map_of S k = None" "length S \<ge> MAX_RECIPES"
      | (save) "save_state env io (AList.update k row S) f = (f', r)" "map_of S k = None \<longrightarrow> length S < MAX_RECIPES"
      using run by (cases "map_of S k") (auto split: if_splits)
    then show ?thesis
    proof cases
      case same
      then have "f' = f" "r = Inr ()" using run by simp_all
      with same assms(1) show ?thesis by (auto simp: up_to_date_def)
    next
      case full
      then have "f' = f" "r \<noteq> Inr ()" using run by auto
      with assms(1) show ?thesis by auto
    next
      case save
      have "row_wf env k row" using checked by (rule checked_row_wf)
      then have "state_wf env (AList.update k row S)" using retry_load_wf [OF assms(1)] save(2) by (intro update_wf)
      from save_state_cases [OF save(1) this] show ?thesis
      proof (elim disjE conjE)
        assume "load_state env f' = Inr (AList.update k row S)"
        then show ?thesis by (intro exI [of _ "AList.update k row S"]) (auto simp: update_conv' up_to_date_def same_retry_def)
      qed (use assms(1) in auto)
    qed
  qed
qed

lemma clear_row_step:
  assumes "load_state env f = Inr S" "clear_row env io k f = (f', r)"
  shows "\<exists>S'. load_state env f' = Inr S' \<and> (map_of S' = map_of S \<or> map_of S' = (map_of S)(k := None)) \<and>
    (r = Inr () \<longrightarrow> map_of S' k = None)"
proof (cases "state_locked io")
  case (Inl e)
  then show ?thesis using assms by (auto simp: clear_row_def)
next
  case (Inr u)
  note run = assms(2) [unfolded clear_row_def Inr bind_r.simps assms(1) sum.case]
  show ?thesis
  proof (cases "map_of S k")
    case None
    then show ?thesis using run assms(1) by auto
  next
    case (Some row)
    then have "save_state env io (AList.delete k S) f = (f', r)" using run by simp
    from save_state_cases [OF this delete_wf [OF retry_load_wf [OF assms(1)]]] show ?thesis
    proof (elim disjE conjE)
      assume "load_state env f' = Inr (AList.delete k S)"
      then show ?thesis by (intro exI [of _ "AList.delete k S"]) (simp add: delete_conv')
    qed (use assms(1) in auto)
  qed
qed

interpretation retry_map: durable_map "stored env" "perform_op env" op_key op_target up_to_date for env
proof
  fix f m io act f' r
  assume "stored env f = Some m" and run: "perform_op env io act f = (f', r)"
  then obtain S where S: "load_state env f = Inr S" "m = map_of S" by (auto simp: stored_def split: sum.splits)
  show "\<exists>m'. stored env f' = Some m' \<and> (m' = m \<or> m' = m(op_key act := op_target act)) \<and>
      (r = Inr () \<longrightarrow> up_to_date (m' (op_key act)) (op_target act))"
  proof (cases act)
    case (Record k row)
    with run S record_row_step [OF S(1)] show ?thesis by (fastforce simp: stored_def)
  next
    case (Clear k)
    with run S clear_row_step [OF S(1)] show ?thesis by (fastforce simp: stored_def up_to_date_def)
  qed
qed

end
