(* ===== verification/Retry_Properties.thy ===== *)
theory Retry_Properties
  imports Retry_Store
begin

text \<open>
  What the retry store and the backoff of \<^verbatim>\<open>src/debbuilder/automation_scheduler.py\<close>
  guarantee: the byte bound is never the limit, an outcome is stored, a stored outcome makes
  exactly the passes of its backoff wait, and storage failures lose whole operations only.
\<close>

section \<open>The size of a stored state\<close>

text \<open>A bound on the bytes of \<^verbatim>\<open>json.dumps(..., indent=2)\<close> that keeps the exact length of
  text.\<close>

fun byte_weight :: "nat \<Rightarrow> json \<Rightarrow> nat" where
  "byte_weight n (JArr xs) = sum_list (map (\<lambda>x. n + 2 + 2 + byte_weight (n + 2) x) xs) + n + 3"
| "byte_weight n (JObj kvs) =
     sum_list (map (\<lambda>kv. n + 6 + length (utf8 (quote (fst kv))) + byte_weight (n + 2) (snd kv)) kvs) + n + 3"
| "byte_weight n (JInt i) = 2 * nat \<bar>i\<bar> + 4"
| "byte_weight n (JStr s) = length (utf8 (quote s))"
| "byte_weight n v = 10"

lemma utf8_append [simp]: "utf8 (s @ t) = utf8 s @ utf8 t" "utf8 [] = []"
  by (simp_all add: utf8_def)

lemma utf8_Cons: "utf8 (c # s) = utf8_char c @ utf8 s"
  by (simp add: utf8_def)

lemma utf8_ascii: "\<forall>c \<in> set s. cord c < 128 \<Longrightarrow> utf8 s = s"
  by (induction s) (auto simp: utf8_Cons utf8_char_def)

lemma utf8_line [simp]: "length (utf8 (new_line n)) = n + 1"
proof -
  have "utf8 (new_line n) = new_line n" by (rule utf8_ascii) (auto simp: new_line_def cord_def)
  then show ?thesis by (simp add: new_line_def)
qed

lemma utf8_join_lines: "length (utf8 (join_lines n xs)) \<le> sum_list (map (\<lambda>x. n + 2 + length (utf8 x)) xs)"
  by (induction n xs rule: join_lines.induct) (auto simp: utf8_Cons utf8_char_def cord_def)

lemma utf8_str_int: "length (utf8 (str_int i)) \<le> 2 * nat \<bar>i\<bar> + 4"
  using length_utf8 [of "str_int i"] length_str_int [of i] by simp

lemma dumps_indent_bytes: "no_float v \<Longrightarrow> length (utf8 (dumps_indent n v)) \<le> byte_weight n v"
proof (induction n v rule: dumps_indent.induct)
  case (1 n xs)
  have "sum_list (map (\<lambda>x. n + 2 + 2 + length (utf8 (dumps_indent (n + 2) x))) xs) \<le>
      sum_list (map (\<lambda>x. n + 2 + 2 + byte_weight (n + 2) x) xs)"
    using 1 by (intro sum_list_mono) (cases xs, auto)
  moreover have "length (utf8 (join_lines (n + 2) (map (dumps_indent (n + 2)) xs))) \<le>
      sum_list (map (\<lambda>x. n + 2 + 2 + length (utf8 (dumps_indent (n + 2) x))) xs)"
    using utf8_join_lines [of "n + 2" "map (dumps_indent (n + 2)) xs"] by (simp only: map_map comp_def)
  ultimately show ?case by (simp add: utf8_Cons utf8_char_def cord_def)
next
  case (2 n kvs)
  let ?f = "\<lambda>kv. quote (fst kv) @ '': '' @ dumps_indent (n + 2) (snd kv)"
  have line: "n + 2 + 2 + length (utf8 (?f kv)) \<le> n + 6 + length (utf8 (quote (fst kv))) + byte_weight (n + 2) (snd kv)"
    if "kv \<in> set kvs" for kv
  proof -
    have "length (utf8 (dumps_indent (n + 2) (snd kv))) \<le> byte_weight (n + 2) (snd kv)"
      using 2(1) [of kv] 2(2) that by (cases "kvs = []") auto
    then show ?thesis by (simp add: utf8_Cons utf8_char_def cord_def)
  qed
  have "length (utf8 (join_lines (n + 2) (map ?f (sort_key fst kvs)))) \<le>
      sum_list (map (\<lambda>kv. n + 2 + 2 + length (utf8 (?f kv))) (sort_key fst kvs))"
    using utf8_join_lines [of "n + 2" "map ?f (sort_key fst kvs)"] by (simp only: map_map comp_def)
  also have "\<dots> = sum_list (map (\<lambda>kv. n + 2 + 2 + length (utf8 (?f kv))) kvs)"
    by (rule sum_list_sort_key)
  also have "\<dots> \<le> sum_list (map (\<lambda>kv. n + 6 + length (utf8 (quote (fst kv))) + byte_weight (n + 2) (snd kv)) kvs)"
    by (intro sum_list_mono line)
  finally show ?case by (simp add: utf8_Cons utf8_char_def cord_def)
qed (simp_all add: utf8_str_int utf8_Cons utf8_char_def cord_def)

text \<open>Text whose characters are printed as they are.\<close>

definition printed :: "char \<Rightarrow> bool" where
  "printed c = (cord c < 128 \<and> esc_char c = [c])"

lemma utf8_quote_printed:
  assumes "\<forall>c \<in> set s. printed c"
  shows "length (utf8 (quote s)) = length s + 2"
proof -
  have "concat (map esc_char s) = s" using assms by (induction s) (auto simp: printed_def)
  moreover have "utf8 s = s" using assms by (intro utf8_ascii) (simp add: printed_def)
  ultimately show ?thesis by (simp add: quote_def utf8_Cons utf8_char_def cord_def)
qed

lemma printed_chars: "is_name_char c \<Longrightarrow> printed c" "is_code_char c \<Longrightarrow> printed c" "is_hex c \<Longrightarrow> printed c"
  by (auto simp: printed_def esc_char_def char_defs cord_def)

lemma utf8_quote_bound:
  assumes "matches P m n s" "\<And>c. P c \<Longrightarrow> printed c"
  shows "length (utf8 (quote s)) \<le> n + 2"
proof -
  have "\<forall>c \<in> set s. printed c" "length s \<le> n" using assms by (auto simp: matches_def list_all_iff)
  then show ?thesis using utf8_quote_printed [of s] by simp
qed

lemma utf8_quote_any: "length (utf8 (quote s)) \<le> 12 * length s + 4"
  using length_utf8 [of "quote s"] length_quote [of s] by linarith

lemma utf8_key: "list_all is_code_char k \<Longrightarrow> length (utf8 (quote k)) = length k + 2"
  by (rule utf8_quote_printed) (auto simp: list_all_iff intro: printed_chars)

lemma row_bytes:
  assumes "row_wf env k r"
  shows "byte_weight 4 (row_json k r) \<le> 2400"
proof -
  have time: "length (utf8 (quote t)) \<le> 772" if "time_wf env t" for t
    using utf8_quote_any [of t] that by (simp add: time_wf_def)
  have fields: "matches is_name_char 1 128 k" "matches is_hex 64 64 (rr_sha256 r)"
    "matches is_code_char 1 80 (rr_classification r)" "matches is_code_char 1 80 (rr_diagnostic r)"
    using assms by (auto simp: row_wf_def is_sha256_def)
  note b = utf8_quote_bound [OF fields(1) printed_chars(1)] utf8_quote_bound [OF fields(2) printed_chars(3)]
    utf8_quote_bound [OF fields(3) printed_chars(2)] utf8_quote_bound [OF fields(4) printed_chars(2)]
  have t: "length (utf8 (quote (rr_updated_at r))) \<le> 772" "byte_weight 6 (opt_str (rr_not_before r)) \<le> 772"
    using assms time by (cases "rr_not_before r"; simp add: row_wf_def)+
  have n: "2 * nat \<bar>rr_count r\<bar> \<le> 16"
    using assms by (auto simp: row_wf_def MAX_RETRY_COUNT_def)
  have c: "length (utf8 (quote (rr_class r))) \<le> 15"
    using assms by (auto simp: row_wf_def utf8_key char_defs)
  have keys: "\<forall>x \<in> set RETRY_FIELDS. length (utf8 (quote x)) \<le> 16"
    by (auto simp: RETRY_FIELDS_def utf8_key char_defs)
  show ?thesis
    using b t n c keys by (simp add: row_json_def RETRY_FIELDS_def)
qed

lemma state_bytes:
  assumes "state_wf env S"
  shows "length (encoded_state S) \<le> MAX_STATE_BYTES"
proof -
  let ?row = "\<lambda>kv. 2 + 6 + length (utf8 (quote (fst kv))) + byte_weight 4 (row_json (fst kv) (snd kv))"
  have "?row kv \<le> 2538" if "kv \<in> set S" for kv
  proof -
    have "row_wf env (fst kv) (snd kv)" using assms that by (auto simp: state_wf_def)
    then have "byte_weight 4 (row_json (fst kv) (snd kv)) \<le> 2400" "matches is_name_char 1 128 (fst kv)"
      by (rule row_bytes) (use \<open>row_wf env (fst kv) (snd kv)\<close> in \<open>auto simp: row_wf_def\<close>)
    with utf8_quote_bound [OF this(2) printed_chars(1)] show ?thesis by simp
  qed
  then have "sum_list (map ?row S) \<le> sum_list (map (\<lambda>_. 2538) S)" by (rule sum_list_mono)
  also have "\<dots> = 2538 * length S" by (induction S) simp_all
  also have "\<dots> \<le> 2538 * 256" using assms by (simp add: state_wf_def MAX_RECIPES_def)
  finally have rows: "sum_list (map ?row S) \<le> 649728" by simp
  have "byte_weight 0 (state_json S) \<le> sum_list (map ?row S) + 100"
    by (simp add: state_json_def utf8_key char_defs comp_def split_beta eval_nat_numeral)
  moreover have "no_float (state_json S)"
  proof -
    have "no_float (opt_str x)" for x by (cases x) auto
    then show ?thesis by (auto simp: state_json_def row_json_def)
  qed
  ultimately show ?thesis
    using rows dumps_indent_bytes [of "state_json S" 0]
    by (simp add: encoded_state_def MAX_STATE_BYTES_def utf8_Cons utf8_char_def cord_def)
qed

lemma retry_state_saved:
  "state_wf env S \<Longrightarrow> save_state env (io\<lparr>l_write := Written\<rparr>) S f = (Stored (state_json S), Inr ())"
  by (simp add: save_state_def retry_doc.validate_render not_less state_bytes)

text \<open>The byte bound on the scheduler's retry file is never the limit that a caller meets:
  every valid state, of up to 256 Recipes, is within 1 MiB when it is printed, so saving one fails only when
  the storage fails.\<close>

theorem retry_state_fits:
  assumes "state_wf env S"
  shows "length (encoded_state S) \<le> MAX_STATE_BYTES \<and>
    save_state env (io\<lparr>l_write := Written\<rparr>) S f = (Stored (state_json S), Inr ())"
  using assms state_bytes retry_state_saved by blast

section \<open>What a recorded outcome does to the next passes\<close>

lemma backoff_bounds:
  "MIN_BACKOFF_SECONDS \<le> backoff_delay env now k n result" "backoff_delay env now k n result \<le> MAX_BACKOFF_SECONDS"
proof -
  have "MIN_BACKOFF_SECONDS \<le> MAX_BACKOFF_SECONDS" by (simp add: MIN_BACKOFF_SECONDS_def MAX_BACKOFF_SECONDS_def)
  then have "MIN_BACKOFF_SECONDS \<le> max MIN_BACKOFF_SECONDS (min MAX_BACKOFF_SECONDS x)"
    "max MIN_BACKOFF_SECONDS (min MAX_BACKOFF_SECONDS x) \<le> MAX_BACKOFF_SECONDS" for x
    by simp_all
  then show "MIN_BACKOFF_SECONDS \<le> backoff_delay env now k n result" "backoff_delay env now k n result \<le> MAX_BACKOFF_SECONDS"
    unfolding backoff_delay_def Let_def by blast+
qed

lemma jitter_bounds: "0 \<le> jitter env k n" "jitter env k n < 16"
  by (simp_all add: jitter_def)

lemma backoff_lower:
  "min MAX_BACKOFF_SECONDS (MIN_BACKOFF_SECONDS * 2 ^ nat (n - 1)) \<le> backoff_delay env now k n result"
  "jget result ''retry_after_seconds'' = JInt x \<Longrightarrow> min MAX_BACKOFF_SECONDS x \<le> backoff_delay env now k n result"
  "jget result ''rate_limit_reset'' = JInt x \<Longrightarrow> min MAX_BACKOFF_SECONDS (x - to_int now) \<le> backoff_delay env now k n result"
proof -
  define base where "base = min MAX_BACKOFF_SECONDS (MIN_BACKOFF_SECONDS * 2 ^ nat (n - 1))"
  define hint where "hint = (case int_field result ''retry_after_seconds'' of None \<Rightarrow> 0 | Some n \<Rightarrow> max 0 n)"
  define reset where "reset = (case int_field result ''rate_limit_reset'' of None \<Rightarrow> 0 | Some n \<Rightarrow> max 0 (n - to_int now))"
  have "0 \<le> base" by (simp add: base_def MIN_BACKOFF_SECONDS_def MAX_BACKOFF_SECONDS_def)
  then have "0 \<le> base * jitter env k n div 100"
    using jitter_bounds(1) [of env k n] by (simp add: pos_imp_zdiv_nonneg_iff)
  moreover have "backoff_delay env now k n result = max MIN_BACKOFF_SECONDS (min MAX_BACKOFF_SECONDS
      (max (min MAX_BACKOFF_SECONDS (base + base * jitter env k n div 100)) (max hint reset)))"
    unfolding backoff_delay_def Let_def base_def hint_def reset_def ..
  ultimately have lower: "min MAX_BACKOFF_SECONDS y \<le> backoff_delay env now k n result"
    if "y \<le> base \<or> y \<le> hint \<or> y \<le> reset" for y
    using that by linarith
  show "min MAX_BACKOFF_SECONDS (MIN_BACKOFF_SECONDS * 2 ^ nat (n - 1)) \<le> backoff_delay env now k n result"
    using lower [of base] by (simp add: base_def)
  show "min MAX_BACKOFF_SECONDS x \<le> backoff_delay env now k n result" if "jget result ''retry_after_seconds'' = JInt x"
    using that by (intro lower) (simp add: hint_def int_field_def)
  show "min MAX_BACKOFF_SECONDS (x - to_int now) \<le> backoff_delay env now k n result" if "jget result ''rate_limit_reset'' = JInt x"
    using that by (intro lower) (simp add: reset_def int_field_def)
qed

text \<open>C26: a transient or absent-source failure delays exactly the automatic checks of its
  backoff: the delay is between one minute and six hours and never below the exponential base or the
  upstream's hints (up to six hours), a pass within it only observes the Recipe, a pass after it checks again,
  and a Recipe that was edited since does not wait.\<close>

theorem retry_backoff_window:
  assumes "retry_class_of (jget result ''classification'') \<noteq> ''operator''"
    and "row = outcome_row env clock k result previous"
    and "delay = backoff_delay env (wall clock 0) k (rr_count row) result"
    and "fromisoformat env (iso_of clock (wall clock 1 + of_int delay)) = Some (True, t)"
    and "iso_of clock (wall clock 1 + of_int delay) \<noteq> []"
    and "\<bar>of_int t / 1000000 - (wall clock 1 + of_int delay)\<bar> \<le> \<mu>"
  shows "MIN_BACKOFF_SECONDS \<le> delay \<and> delay \<le> MAX_BACKOFF_SECONDS \<and>
    min MAX_BACKOFF_SECONDS (MIN_BACKOFF_SECONDS * 2 ^ nat (rr_count row - 1)) \<le> delay \<and>
    (\<forall>n. jget result ''retry_after_seconds'' = JInt n \<longrightarrow> min MAX_BACKOFF_SECONDS n \<le> delay) \<and>
    (\<forall>n. jget result ''rate_limit_reset'' = JInt n \<longrightarrow> min MAX_BACKOFF_SECONDS (n - to_int (wall clock 0)) \<le> delay) \<and>
    (\<forall>now. wall clock 1 + \<mu> \<le> now \<and> now < wall clock 1 + of_int delay - \<mu> \<longrightarrow>
       retry_waiting env now (result_sha result) (Some row)) \<and>
    (\<forall>now. wall clock 1 + of_int delay + \<mu> \<le> now \<longrightarrow> \<not> retry_waiting env now (result_sha result) (Some row)) \<and>
    (\<forall>now sha. sha \<noteq> result_sha result \<longrightarrow> \<not> retry_waiting env now sha (Some row))"
proof -
  have row: "rr_sha256 row = result_sha result"
    "rr_not_before row = Some (iso_of clock (wall clock 1 + of_int delay))"
    using assms(1) by (simp_all add: assms(2,3) outcome_row_def Let_def)
  have "(of_int delay :: rat) \<le> of_int MAX_BACKOFF_SECONDS"
    using backoff_bounds(2) [of env "wall clock 0" k "rr_count row" result] by (simp only: assms(3) of_int_le_iff)
  moreover have "wall clock 1 + of_int delay - \<mu> \<le> of_int t / 1000000" "of_int t / 1000000 \<le> wall clock 1 + of_int delay + \<mu>"
    using assms(6) by (simp_all add: abs_le_iff)
  ultimately have window: "retry_waiting env now (result_sha result) (Some row)"
    if "wall clock 1 + \<mu> \<le> now" "now < wall clock 1 + of_int delay - \<mu>" for now
    using that assms(4,5) row unfolding retry_waiting_def by simp
  have "\<not> retry_waiting env now (result_sha result) (Some row)" if "wall clock 1 + of_int delay + \<mu> \<le> now" for now
    using that assms(4,5) row \<open>of_int t / 1000000 \<le> wall clock 1 + of_int delay + \<mu>\<close> by (simp add: retry_waiting_def)
  moreover have "\<not> retry_waiting env now sha (Some row)" if "sha \<noteq> result_sha result" for now sha
    using that row by (simp add: retry_waiting_def)
  ultimately show ?thesis
    using window backoff_bounds [of env "wall clock 0" k "rr_count row" result]
      backoff_lower [where n = "rr_count row" and env = env and now = "wall clock 0" and k = k and result = result] unfolding assms(3) [symmetric] by blast
qed

section \<open>Storage failures\<close>

definition run_store :: "py_env \<Rightarrow> (ledger_io \<times> store_op) list \<Rightarrow> ledger_file \<Rightarrow> ledger_file" where
  "run_store env acts f = fold (\<lambda>(io, act) f. fst (perform_op env io act f)) acts f"

definition apply_op :: "store_op \<Rightarrow> (string \<Rightarrow> retry_row option) \<Rightarrow> string \<Rightarrow> retry_row option" where
  "apply_op act m = m(op_key act := op_target act)"

lemma run_store_map: "retry_map.run env acts f = run_store env acts f"
  by (simp add: run_store_def retry_map.run_def)

lemma stored_retries: "stored env f = Some m \<longleftrightarrow> (\<exists>S. load_state env f = Inr S \<and> m = map_of S)"
  by (auto simp: stored_def split: sum.splits)

text \<open>C24: whatever fails - the lock, the write before or after it took effect, the validation of
  a row - a sequence of record and clear operations leaves a readable file whose content is that of a map
  updated by a subsequence of them in their order; and a row recorded with success is there, up to its
  update time, as long as no later operation names its Recipe.\<close>

theorem retry_store_refines_map:
  assumes "load_state env f = Inr S"
  shows "(\<exists>S' applied. load_state env (run_store env acts f) = Inr S' \<and> subseq applied (map snd acts) \<and>
      map_of S' = fold apply_op applied (map_of S)) \<and>
    (\<forall>earlier io act later S'. acts = earlier @ (io, act) # later \<and>
      snd (perform_op env io act (run_store env earlier f)) = Inr () \<and>
      (\<forall>(io', act') \<in> set later. op_key act' \<noteq> op_key act) \<and>
      load_state env (run_store env acts f) = Inr S' \<longrightarrow>
      rel_option same_retry (map_of S' (op_key act)) (op_target act))"
proof (intro conjI allI impI, goal_cases)
  case 1
  have "stored env f = Some (map_of S)" using assms by (simp add: stored_def)
  from retry_map.refines [OF this, of acts] obtain m' applied where
      "stored env (run_store env acts f) = Some m'" "subseq applied (map snd acts)" "m' = fold retry_map.set_key applied (map_of S)"
    unfolding run_store_map by blast
  moreover have "retry_map.set_key = apply_op" by (intro ext) (simp add: retry_map.set_key_def apply_op_def)
  ultimately obtain S' where "load_state env (run_store env acts f) = Inr S'" "subseq applied (map snd acts)"
      "map_of S' = fold apply_op applied (map_of S)"
    by (auto simp: stored_retries)
  then show ?case by blast
next
  case (2 earlier io act later S')
  have "stored env f = Some (map_of S)" "stored env (run_store env acts f) = Some (map_of S')"
    using assms 2 by (auto simp: stored_retries)
  with 2 have "up_to_date (map_of S' (op_key act)) (op_target act)"
    by (intro retry_map.success_lasts [of env f "map_of S" io act earlier later]) (simp_all add: run_store_map)
  then show ?case by (simp add: up_to_date_def)
qed

section \<open>An outcome is stored\<close>

lemma load_locked: "l_lock io = LockTaken \<Longrightarrow> load_state env f = Inr S \<Longrightarrow> bind_r (state_locked io) (\<lambda>_. load_state env f) = Inr S"
  by (simp add: state_locked_def)

lemma outcome_row_wf:
  assumes "matches is_name_char 1 128 k" "\<And>t. time_wf env (iso_of clock t)"
    and "matches is_code_char 1 80 (rr_classification (outcome_row env clock k result previous))"
    and "matches is_code_char 1 80 (rr_diagnostic (outcome_row env clock k result previous))"
    and "\<forall>r \<in> set_option previous. 1 \<le> rr_count r"
  shows "row_wf env k (outcome_row env clock k result previous)"
proof -
  have "is_sha256 (result_sha result)"
    by (auto simp: result_sha_def is_sha256_def matches_def char_defs list_all_iff split: json.splits)
  then show ?thesis
    using assms by (auto simp: row_wf_def outcome_row_def Let_def retry_class_of_def MAX_RETRY_COUNT_def split: option.splits)
qed

text \<open>With lock and storage available, clearing and recording succeed.\<close>

lemma save_available:
  assumes "l_write io = Written" "state_wf env S"
  shows "save_state env io S f = (Stored (state_json S), Inr ())"
proof -
  have "io = io\<lparr>l_write := Written\<rparr>" using assms(1) by simp
  then show ?thesis using retry_state_saved [OF assms(2)] by metis
qed

lemma clear_row_succeeds:
  assumes "l_lock io = LockTaken" "l_write io = Written" "load_state env f = Inr S"
  shows "\<exists>f' S'. clear_row env io k f = (f', Inr ()) \<and> load_state env f' = Inr S' \<and> map_of S' = (map_of S)(k := None)"
proof -
  obtain f' r where clear: "clear_row env io k f = (f', r)" by fastforce
  have "r = Inr ()"
    using clear save_available [OF assms(2) delete_wf [OF retry_load_wf [OF assms(3)]]]
    by (auto simp: clear_row_def load_locked [OF assms(1,3)] split: if_splits)
  obtain S' where "load_state env f' = Inr S'" "map_of S' = map_of S \<or> map_of S' = (map_of S)(k := None)" "map_of S' k = None"
    using clear_row_step [OF assms(3) clear] \<open>r = Inr ()\<close> by blast
  then have "load_state env f' = Inr S' \<and> map_of S' = (map_of S)(k := None)" by (auto simp: fun_upd_idem_iff)
  with clear \<open>r = Inr ()\<close> show ?thesis by blast
qed

lemma record_row_succeeds:
  assumes "l_lock io = LockTaken" "l_write io = Written" "load_state env f = Inr S" "row_wf env k row"
    and room: "map_of S k \<noteq> None \<or> length S < MAX_RECIPES"
  shows "\<exists>f' S' r. record_row env io k row f = (f', Inr ()) \<and> load_state env f' = Inr S' \<and> map_of S' = (map_of S)(k := r) \<and>
    rel_option same_retry r (Some row)"
proof -
  obtain f' r where recorded: "record_row env io k row f = (f', r)" by fastforce
  have single: "validate_state env (state_json [(k, row)]) = Inr [(k, row)]"
    using assms(4) by (intro retry_doc.validate_render) (simp add: state_wf_def MAX_RECIPES_def)
  have "state_wf env (AList.update k row S)" using update_wf [OF retry_load_wf [OF assms(3)] assms(4)] room by auto
  then have "r = Inr ()"
    using recorded save_available [OF assms(2)] room unfolding record_row_def single sum.case load_locked [OF assms(1,3)]
    by (auto split: if_splits)
  obtain S' where "load_state env f' = Inr S'" "map_of S' = map_of S \<or> map_of S' = (map_of S)(k := Some row)"
      "up_to_date (map_of S' k) (Some row)"
    using record_row_step [OF assms(3) recorded] \<open>r = Inr ()\<close> by blast
  then have "load_state env f' = Inr S' \<and> map_of S' = (map_of S)(k := map_of S' k) \<and> rel_option same_retry (map_of S' k) (Some row)"
    by (auto simp: up_to_date_def)
  with recorded \<open>r = Inr ()\<close> show ?thesis by blast
qed

text \<open>C25: a failed automatic detection is remembered: with the mutation gate open, the lock and
  the storage available, a readable file with room for the Recipe and classification and diagnostic that are
  codes, the outcome succeeds and afterwards the file has, for this Recipe alone, the row of the failure (up to
  its update time), and a detection that yields an identity removes the row.\<close>

theorem outcome_remembered:
  assumes "l_lock io = LockTaken" "l_write io = Written" "load_state env f = Inr S"
    and "matches is_name_char 1 128 k" "\<And>t. time_wf env (iso_of clock t)"
    and "matches is_code_char 1 80 (rr_classification (outcome_row env clock k result (map_of S k)))"
    and "matches is_code_char 1 80 (rr_diagnostic (outcome_row env clock k result (map_of S k)))"
    and "map_of S k \<noteq> None \<or> length S < MAX_RECIPES"
    and "jget result ''classification'' \<notin> {JStr ''observed'', JStr ''shutting_down''}"
    and "jget result ''diagnostic'' \<noteq> JStr ''automation_shutting_down''"
    and "jget result ''automation_eligible'' \<noteq> JBool False"
  shows "\<exists>f' S' r. record_outcome env clock io None k result (map_of S k) f = (f', Inr ()) \<and> load_state env f' = Inr S' \<and>
    map_of S' = (map_of S)(k := r) \<and>
    rel_option same_retry r (if jget result ''identity'' \<noteq> JNull then None else Some (outcome_row env clock k result (map_of S k)))"
proof (cases "jget result ''identity'' = JNull")
  case False
  then have "record_outcome env clock io None k result (map_of S k) f = clear_row env io k f"
    using assms(9) by (simp add: record_outcome_def)
  with False clear_row_succeeds [OF assms(1-3), of k] show ?thesis by (simp only: if_True not_False_eq_True) force
next
  case True
  have "row_wf env k (outcome_row env clock k result (map_of S k))"
  proof (rule outcome_row_wf [OF assms(4,5,6,7)])
    show "\<forall>r \<in> set_option (map_of S k). 1 \<le> rr_count r"
      using retry_load_wf [OF assms(3)] by (auto simp: state_wf_def row_wf_def dest!: map_of_SomeD)
  qed
  from record_row_succeeds [OF assms(1-3) this assms(8)]
  have "\<exists>f' S' r. record_outcome env clock io None k result (map_of S k) f = (f', Inr ()) \<and> load_state env f' = Inr S' \<and>
      map_of S' = (map_of S)(k := r) \<and> rel_option same_retry r (Some (outcome_row env clock k result (map_of S k)))"
    using True assms(9-11) by (simp add: record_outcome_def)
  with True show ?thesis by simp
qed

section \<open>A concrete Recipe\<close>

definition limited_env :: py_env where
  "limited_env = clock_env\<lparr>fromisoformat := \<lambda>_. Some (True, 1066000000)\<rparr>"

definition limited_clock :: scheduler_clock where
  "limited_clock = \<lparr>wall = \<lambda>_. 1000, iso_of = \<lambda>_. ''t''\<rparr>"

definition limited_result :: doc where
  "limited_result = [(''classification'', JStr ''rate_limited''), (''diagnostic'', JStr ''rate_limited''), (''identity'', JNull),
     (''recipe_sha256'', JStr (replicate 64 (CHR ''a''))), (''retry_after_seconds'', JInt 30)]"

definition limited_row :: retry_row where
  "limited_row = \<lparr>rr_sha256 = replicate 64 (CHR ''a''), rr_class = ''transient'', rr_classification = ''rate_limited'',
     rr_diagnostic = ''rate_limited'', rr_count = 1, rr_not_before = Some ''t'', rr_updated_at = ''t''\<rparr>"

lemma hex_a [simp]: "list_all is_hex (replicate n (CHR ''a''))" "hex_value (CHR ''a'') = 10"
  by (induction n) (simp_all add: char_defs hex_value_def)

lemma limited_jitter: "jitter limited_env k n = 10"
  by (simp add: jitter_def limited_env_def clock_env_def eval_nat_numeral)

lemma limited_outcome: "outcome_row limited_env limited_clock ''app'' limited_result None = limited_row"
  by (simp add: outcome_row_def Let_def limited_result_def limited_row_def limited_clock_def limited_env_def result_sha_def
      retry_class_of_def TRANSIENT_CLASSIFICATIONS_def str_or_def is_sha256_def matches_def MAX_RETRY_COUNT_def)

lemma limited_delay: "backoff_delay limited_env 1000 ''app'' 1 limited_result = 66"
  by (simp add: backoff_delay_def Let_def limited_jitter limited_result_def int_field_def MIN_BACKOFF_SECONDS_def MAX_BACKOFF_SECONDS_def)

lemma limited_row_wf: "row_wf limited_env ''app'' limited_row"
  by (simp add: row_wf_def limited_row_def is_sha256_def matches_def MAX_RETRY_COUNT_def time_wf_def limited_env_def is_name_char_def
      is_code_char_def is_lower_def is_dec_def is_upper_def in_range_def cord_def)

lemma limited_state_wf: "state_wf limited_env [(''app'', limited_row)]"
  by (simp add: state_wf_def limited_row_wf MAX_RECIPES_def)

theorem retry_state_fits_witness:
  "length (encoded_state [(''app'', limited_row)]) \<le> MAX_STATE_BYTES"
  using retry_state_fits [OF limited_state_wf] by blast

theorem retry_backoff_window_witness:
  "retry_waiting limited_env 1065 (replicate 64 (CHR ''a'')) (Some limited_row) \<and>
   \<not> retry_waiting limited_env 1066 (replicate 64 (CHR ''a'')) (Some limited_row)"
proof -
  have cls: "retry_class_of (jget limited_result ''classification'') \<noteq> ''operator''"
    by (simp add: limited_result_def retry_class_of_def TRANSIENT_CLASSIFICATIONS_def)
  have sha: "result_sha limited_result = replicate 64 (CHR ''a'')"
    by (simp add: limited_result_def result_sha_def is_sha256_def matches_def)
  have count: "rr_count limited_row = 1" and wall: "wall limited_clock n = 1000" for n
    by (simp_all add: limited_row_def limited_clock_def)
  show ?thesis
    using retry_backoff_window [OF cls limited_outcome [symmetric] refl, of 1066000000 0, unfolded sha count wall limited_delay]
    by (simp add: limited_env_def limited_clock_def)
qed

lemma empty_load: "load_state env Absent = Inr []"
  by (simp add: load_state_def)

theorem outcome_remembered_witness:
  "\<exists>f'. record_outcome limited_env limited_clock fine_ledger_io None ''app'' limited_result None Absent = (f', Inr ())"
proof -
  have names: "matches is_name_char 1 128 ''app''" "matches is_code_char 1 80 (rr_classification limited_row)"
    "matches is_code_char 1 80 (rr_diagnostic limited_row)"
    by (simp_all add: limited_row_def matches_def char_defs)
  have time: "time_wf limited_env (iso_of limited_clock t)" for t
    by (simp add: time_wf_def limited_env_def limited_clock_def)
  show ?thesis
    using outcome_remembered [OF _ _ empty_load names(1) time, of fine_ledger_io limited_result, unfolded map_of.simps limited_outcome]
      names(2,3) by (auto simp: fine_ledger_io_def limited_result_def MAX_RECIPES_def)
qed

theorem retry_store_refines_map_witness:
  "\<exists>S'. load_state limited_env (run_store limited_env [(fine_ledger_io, Record ''app'' limited_row), (fine_ledger_io, Clear ''b'')] Absent) = Inr S'"
  using retry_store_refines_map [OF empty_load, of limited_env "[(fine_ledger_io, Record ''app'' limited_row), (fine_ledger_io, Clear ''b'')]"]
  by blast

end
