(* ===== verification/Posix_Paths.thy ===== *)
theory Posix_Paths
  imports Prelude
begin

text \<open>
  POSIX paths as Python handles them: \<^verbatim>\<open>str.split("/")\<close>, \<^verbatim>\<open>posixpath.normpath\<close>,
  \<^verbatim>\<open>posixpath.join\<close>, \<^verbatim>\<open>posixpath.dirname\<close> and \<^verbatim>\<open>PurePosixPath\<close>, with what their results
  look like.
\<close>

section \<open>Operations\<close>

fun split_slash :: "string \<Rightarrow> string list" where
  "split_slash [] = [[]]"
| "split_slash (c # cs) =
     (if c = CHR ''/'' then [] # split_slash cs
      else case split_slash cs of [] \<Rightarrow> [[c]] | p # ps \<Rightarrow> (c # p) # ps)"

fun join_slash :: "string list \<Rightarrow> string" where
  "join_slash [] = []"
| "join_slash [p] = p"
| "join_slash (p # ps) = p @ CHR ''/'' # join_slash ps"

text \<open>Exactly two leading slashes are kept, three or more count as one.\<close>

definition initial_slashes :: "string \<Rightarrow> nat" where
  "initial_slashes s =
     (if starts_with ''//'' s \<and> \<not> starts_with ''///'' s then 2 else if starts_with ''/'' s then 1 else 0)"

fun norm_parts :: "bool \<Rightarrow> string list \<Rightarrow> string list \<Rightarrow> string list" where
  "norm_parts rooted new [] = rev new"
| "norm_parts rooted new (c # cs) =
     (if c = [] \<or> c = ''.'' then norm_parts rooted new cs
      else if c \<noteq> ''..'' \<or> (\<not> rooted \<and> new = []) \<or> (new \<noteq> [] \<and> hd new = ''..'')
      then norm_parts rooted (c # new) cs
      else norm_parts rooted (tl new) cs)"

definition normpath :: "string \<Rightarrow> string" where
  "normpath s =
     (if s = [] then ''.''
      else
        let n = initial_slashes s;
            p = replicate n (CHR ''/'') @ join_slash (norm_parts (n > 0) [] (split_slash s))
        in if p = [] then ''.'' else p)"

fun path_join :: "string \<Rightarrow> string list \<Rightarrow> string" where
  "path_join p [] = p"
| "path_join p (q # qs) =
     (if starts_with ''/'' q then path_join q qs
      else if p = [] \<or> ends_with ''/'' p then path_join (p @ q) qs
      else path_join (p @ ''/'' @ q) qs)"

text \<open>The part up to the last slash, without trailing slashes unless it has only slashes.\<close>

definition dirname :: "string \<Rightarrow> string" where
  "dirname s =
     (let head = rev (dropWhile (\<lambda>c. c \<noteq> CHR ''/'') (rev s)) in
      if list_all (\<lambda>c. c = CHR ''/'') head then head
      else rev (dropWhile (\<lambda>c. c = CHR ''/'') (rev head)))"

text \<open>\<^verbatim>\<open>PurePosixPath(s).parts\<close> without the root, and \<^verbatim>\<open>as_posix()\<close>.\<close>

definition pure_parts :: "string \<Rightarrow> string list" where
  "pure_parts s = filter (\<lambda>c. c \<noteq> [] \<and> c \<noteq> ''.'') (split_slash s)"

definition as_posix :: "string \<Rightarrow> string" where
  "as_posix s =
     (let p = replicate (initial_slashes s) (CHR ''/'') @ join_slash (pure_parts s) in
      if p = [] then ''.'' else p)"

section \<open>Splitting and joining\<close>

lemma split_slash_ne: "split_slash s \<noteq> []"
  by (induction s) (auto split: list.splits)

lemma split_slash_segment: "CHR ''/'' \<notin> set p \<Longrightarrow> split_slash p = [p]"
  by (induction p) auto

lemma split_slash_append: "CHR ''/'' \<notin> set p \<Longrightarrow> split_slash (p @ CHR ''/'' # q) = p # split_slash q"
  by (induction p) auto

lemma split_join_slash: "ps \<noteq> [] \<Longrightarrow> \<forall>p \<in> set ps. CHR ''/'' \<notin> set p \<Longrightarrow> split_slash (join_slash ps) = ps"
  by (induction ps rule: join_slash.induct) (auto simp: split_slash_append split_slash_segment)

lemma split_slash_no_slash: "p \<in> set (split_slash s) \<Longrightarrow> CHR ''/'' \<notin> set p"
  by (induction s arbitrary: p) (auto split: list.splits if_splits)

section \<open>Normal forms\<close>

text \<open>A component that is neither empty nor one of the two special ones.\<close>

definition plain_part :: "string \<Rightarrow> bool" where
  "plain_part c = (c \<noteq> [] \<and> c \<noteq> ''.'' \<and> c \<noteq> ''..'' \<and> CHR ''/'' \<notin> set c)"

lemma norm_parts_rooted:
  assumes "\<forall>c \<in> set new. plain_part c" "\<forall>c \<in> set cs. CHR ''/'' \<notin> set c"
  shows "\<forall>c \<in> set (norm_parts True new cs). plain_part c"
  using assms
proof (induction cs arbitrary: new)
  case (Cons c cs)
  show ?case
  proof (cases "c = [] \<or> c = ''.''")
    case False
    have up: "new \<noteq> [] \<and> hd new = ''..'' \<longleftrightarrow> False" using Cons.prems(1) by (cases new) (auto simp: plain_part_def)
    show ?thesis
    proof (cases "c = ''..''")
      case True
      have "\<forall>x \<in> set (tl new). plain_part x" using Cons.prems(1) by (cases new) auto
      with Cons.IH [of "tl new"] Cons.prems(2) True up show ?thesis by auto
    next
      case plain: False
      with False Cons.prems have "\<forall>x \<in> set (c # new). plain_part x" by (simp add: plain_part_def)
      with Cons.IH [of "c # new"] Cons.prems(2) False plain show ?thesis by simp
    qed
  qed (use Cons in auto)
qed simp

lemma plain_parts_fixed: "\<forall>c \<in> set cs. plain_part c \<Longrightarrow> filter (\<lambda>c. c \<noteq> [] \<and> c \<noteq> ''.'') cs = cs"
  by (rule filter_True) (auto simp: plain_part_def)

lemma split_replicate: "split_slash (replicate n (CHR ''/'') @ q) = replicate n [] @ split_slash q"
  by (induction n) auto

lemma initial_slashes_pos: "0 < initial_slashes s \<longleftrightarrow> starts_with ''/'' s"
  by (cases s) (auto simp: initial_slashes_def starts_with_def)

text \<open>The normal form of an absolute path: one or two slashes and plain components.\<close>

lemma normpath_absolute:
  assumes "starts_with ''/'' s"
  obtains cs where "normpath s = replicate (initial_slashes s) (CHR ''/'') @ join_slash cs" "\<forall>c \<in> set cs. plain_part c"
    "pure_parts (normpath s) = cs"
proof -
  let ?n = "initial_slashes s"
  let ?cs = "norm_parts True [] (split_slash s)"
  have n: "0 < ?n" using assms by (simp add: initial_slashes_pos)
  have s: "s \<noteq> []" using assms by (auto simp: starts_with_def)
  have eq: "normpath s = replicate ?n (CHR ''/'') @ join_slash ?cs"
    using n s by (simp add: normpath_def Let_def)
  have plain: "\<forall>c \<in> set ?cs. plain_part c"
    by (rule norm_parts_rooted) (auto dest: split_slash_no_slash)
  have "pure_parts (normpath s) = ?cs"
  proof (cases "?cs = []")
    case True
    then show ?thesis unfolding eq pure_parts_def split_replicate by (simp add: filter_replicate)
  next
    case False
    then have "split_slash (join_slash ?cs) = ?cs" using plain by (intro split_join_slash) (auto simp: plain_part_def)
    then show ?thesis unfolding eq pure_parts_def split_replicate
      using plain_parts_fixed [OF plain] by (simp add: filter_replicate)
  qed
  with eq plain that show thesis by blast
qed

lemma normpath_starts: "starts_with ''/'' s \<Longrightarrow> starts_with ''/'' (normpath s)"
  by (rule normpath_absolute [of s]) (use initial_slashes_pos [of s] in \<open>auto simp: starts_with_def gr0_conv_Suc\<close>)

lemma normpath_plain: "starts_with ''/'' s \<Longrightarrow> c \<in> set (pure_parts (normpath s)) \<Longrightarrow> plain_part c"
  by (rule normpath_absolute [of s]) auto

end
