(* ===== verification/Elf_Resolution.thy ===== *)
theory Elf_Resolution
  imports Posix_Paths Fallible_State "HOL-Library.AList"
begin

text \<open>
  \<^verbatim>\<open>src/debbuilder/elf_dependency_resolution.py\<close>: from the ELF files of a staged package to the
  Debian packages it depends on, with the control flow of \<^verbatim>\<open>inspect_elf\<close>
  (\<^verbatim>\<open>elf_inspection.py\<close>) and the overrides of the Recipe (\<^verbatim>\<open>recipe_schema.py\<close>).

  The staging tree is mounted read-only while the resolver runs: it is a function from the
  components below its root to what \<^verbatim>\<open>lstat\<close> shows.  The answers of the container's commands
  are a function of the number of the command and its arguments, so no two of them need agree.
  The local variables of \<^verbatim>\<open>resolve_elf_dependencies\<close> are the state \<open>resolver\<close>.
\<close>

section \<open>Constants and data\<close>

definition MAX_ELF_FILES :: nat where "MAX_ELF_FILES = 128"
definition MAX_REQUIREMENTS :: nat where "MAX_REQUIREMENTS = 512"
definition MAX_DEPTH :: nat where "MAX_DEPTH = 16"
definition MAX_COMMAND_BYTES :: int where "MAX_COMMAND_BYTES = 1024 * 1024"
definition MAX_LINKS :: nat where "MAX_LINKS = 16"
definition MAX_ELF_OVERRIDES :: nat where "MAX_ELF_OVERRIDES = 32"
definition MOUNT_ROOT :: string where "MOUNT_ROOT = ''/debbuilder-staging''"
definition WORK_ROOT :: string where "WORK_ROOT = ''/debbuilder-elf-work''"

record requirement =
  requester :: string
  r_soname :: string
  selected_library :: string
  r_status :: string
  r_package :: string
  version_constraint :: string
  metadata_source :: string
  operator_decision :: string

text \<open>\<^verbatim>\<open>Diverges\<close> stands for a call that does not return; no call has this outcome
  (\<open>Elf_Closure.bundled_path_returns\<close>).\<close>

datatype resolver_exn =
    ResolutionError string "requirement list"
  | ElfInspectionError string
  | Uncaught exn
  | Diverges

type_synonym 'a res = "resolver_exn + 'a"

abbreviation failed :: "string \<Rightarrow> resolver_exn" where
  "failed code \<equiv> ResolutionError code []"

record inspection =
  i_kind :: string
  i_sha256 :: string
  i_size :: int
  i_header :: "string \<times> string \<times> string \<times> string"
  i_architecture :: string
  linkage :: "string option"
  interpreter :: string
  i_soname :: string
  needed :: "string list"
  rpath :: "string list"
  runpath :: "string list"
  version_requirements :: "(string \<times> string) list"
  diagnostics :: "string list"

datatype node = Directory | Regular | Symlink string | OtherNode

record command_result =
  stdout :: string
  stderr :: string
  timed_out :: bool
  exit_code :: "int option"

text \<open>An ELF file as \<^verbatim>\<open>inspect_elf\<close> sees it: an error before its bytes were read, or their digest
  and what the inspection of the bytes gives.\<close>

type_synonym elf_file = "string + (string \<times> (string + inspection))"

record resolver_env =
  tree :: "string list \<Rightarrow> node option"
  elf_file :: "string list \<Rightarrow> elf_file"
  run_answer :: "nat \<Rightarrow> string list \<Rightarrow> exn + command_result"
  filtered_installed :: "string list"

record decision =
  d_action :: string
  d_reason :: string
  d_relation :: string

record resolver =
  r_tick :: nat
  rows :: "requirement list"
  depends :: "string list"
  visited :: "string list"
  active :: "string list"

type_synonym 'a rop = "resolver \<Rightarrow> resolver \<times> 'a res"

text \<open>\<^verbatim>\<open>Requirement(requester, soname, selected, status)\<close>\<close>

definition requirement :: "string \<Rightarrow> string \<Rightarrow> string \<Rightarrow> string \<Rightarrow> requirement" where
  "requirement r s l st = \<lparr>requester = r, r_soname = s, selected_library = l, r_status = st, r_package = [],
     version_constraint = [], metadata_source = [], operator_decision = []\<rparr>"

section \<open>Inspection\<close>

text \<open>\<^verbatim>\<open>inspect_elf\<close>: the digest is compared before the bytes are interpreted.\<close>

definition inspect_elf :: "resolver_env \<Rightarrow> string list \<Rightarrow> string option \<Rightarrow> string + inspection" where
  "inspect_elf env p expected =
     bind_r (elf_file env p) (\<lambda>(digest, result).
     if expected \<noteq> None \<and> digest \<noteq> lower (the expected) then Inl ''elf_identity_mismatch'' else result)"

section \<open>Debian relations\<close>

text \<open>\<^verbatim>\<open>DEPENDENCY.fullmatch\<close>: the package and the version, if any.\<close>

definition is_pkg_start :: "char \<Rightarrow> bool" where
  "is_pkg_start c = (is_lower c \<or> is_dec c)"

definition is_pkg_char :: "char \<Rightarrow> bool" where
  "is_pkg_char c = (is_pkg_start c \<or> c \<in> set ''+.-'')"

definition is_version_char :: "char \<Rightarrow> bool" where
  "is_version_char c = (is_lower c \<or> is_upper c \<or> is_dec c \<or> c \<in> set ''.+:~-'')"

definition is_package :: "string \<Rightarrow> bool" where
  "is_package s = (s \<noteq> [] \<and> is_pkg_start (hd s) \<and> list_all is_pkg_char s)"

text \<open>The text between a prefix and a suffix.\<close>

definition between :: "string \<Rightarrow> string \<Rightarrow> string \<Rightarrow> string option" where
  "between prefix suffix s =
     (if length prefix + length suffix \<le> length s \<and> starts_with prefix s \<and> ends_with suffix s
      then Some (take (length s - length prefix - length suffix) (drop (length prefix) s)) else None)"

definition dependency :: "string \<Rightarrow> (string \<times> string option) option" where
  "dependency s =
     (let name = takeWhile is_pkg_char s; rest = dropWhile is_pkg_char s in
      if \<not> is_package name then None
      else if rest = [] then Some (name, None)
      else case between '' (>= '' '')'' rest of
        None \<Rightarrow> None
      | Some v \<Rightarrow> if v \<noteq> [] \<and> list_all is_version_char v then Some (name, Some v) else None)"

section \<open>Overrides\<close>

text \<open>\<^verbatim>\<open>normalize_runtime_dependency_detection\<close>; \<^verbatim>\<open>DEBIAN_RELATION\<close> accepts what \<^verbatim>\<open>DEPENDENCY\<close> does.\<close>

definition is_soname_char :: "char \<Rightarrow> bool" where
  "is_soname_char c = (is_lower c \<or> is_upper c \<or> is_dec c \<or> c \<in> set ''_+.-'')"

abbreviation override_error :: exn where "override_error \<equiv> Exn ValueError [] []"

definition normalize_override :: "string list \<Rightarrow> json \<Rightarrow> (string \<times> decision) result" where
  "normalize_override seen row =
     (case row of
        JObj kvs \<Rightarrow>
          if \<not> set (jkeys kvs) \<subseteq> {''soname'', ''action'', ''reason'', ''relation''} then Inl override_error
          else (case jget kvs ''soname'' of
              JStr soname \<Rightarrow>
                if \<not> matches is_soname_char 1 128 soname \<or> soname \<in> set seen then Inl override_error
                else bind_r (str_in (jget kvs ''action'') [''ignore'', ''manual'']) (\<lambda>known.
                  case (jget kvs ''action'', jget kvs ''reason'') of
                    (JStr action, JStr reason) \<Rightarrow>
                      if \<not> known \<or> strip reason = [] \<or> length reason > 256 \<or> \<not> list_all (\<lambda>c. \<not> is_ctl c) reason
                      then Inl override_error
                      else (case if has_key kvs ''relation'' then jget kvs ''relation'' else JStr [] of
                          JStr relation \<Rightarrow>
                            if (action = ''manual'' \<and> dependency relation = None) \<or> (action = ''ignore'' \<and> relation \<noteq> [])
                            then Inl override_error
                            else Inr (soname, \<lparr>d_action = action, d_reason = strip reason, d_relation = relation\<rparr>)
                        | _ \<Rightarrow> Inl override_error)
                  | _ \<Rightarrow> Inl override_error)
            | _ \<Rightarrow> Inl override_error)
      | _ \<Rightarrow> Inl override_error)"

fun normalize_overrides :: "(string \<times> decision) list \<Rightarrow> json list \<Rightarrow> (string \<times> decision) list result" where
  "normalize_overrides seen [] = Inr (rev seen)"
| "normalize_overrides seen (row # others) =
     bind_r (normalize_override (map fst seen) row) (\<lambda>d. normalize_overrides (d # seen) others)"

definition normalize_runtime_dependency_detection :: "json \<Rightarrow> (bool \<times> (string \<times> decision) list) result" where
  "normalize_runtime_dependency_detection v =
     bind_r (case v of JNull \<Rightarrow> Inr [] | JObj kvs \<Rightarrow> Inr kvs | _ \<Rightarrow> Inl override_error) (\<lambda>policy.
     if \<not> set (jkeys policy) \<subseteq> {''enabled'', ''overrides''} then Inl override_error
     else case if has_key policy ''enabled'' then jget policy ''enabled'' else JBool False of
       JBool enabled \<Rightarrow>
         bind_r (case jget policy ''overrides'' of JNull \<Rightarrow> Inr [] | JArr xs \<Rightarrow> Inr xs | _ \<Rightarrow> Inl override_error) (\<lambda>xs.
         if length xs > MAX_ELF_OVERRIDES then Inl override_error
         else bind_r (normalize_overrides [] xs) (\<lambda>ds. Inr (enabled, ds)))
     | _ \<Rightarrow> Inl override_error)"

section \<open>Paths of the staging tree\<close>

text \<open>\<^verbatim>\<open>_relative\<close>\<close>

definition relative :: "string \<Rightarrow> string res" where
  "relative path =
     (if \<not> starts_with ''/'' path \<or> CHR 0x5C \<in> set path \<or> CHR 0x00 \<in> set path then Inl (failed ''unsafe_staging_path'')
      else if normpath path = ''/'' \<or> normpath path \<noteq> path \<or> (\<exists>c \<in> set (pure_parts path). c \<in> {''.'', ''..''})
      then Inl (failed ''unsafe_staging_path'')
      else Inr path)"

text \<open>\<^verbatim>\<open>_staged\<close>: the components of a regular file below the root, all but the last directories.\<close>

fun staged_parts :: "resolver_env \<Rightarrow> string list \<Rightarrow> string list \<Rightarrow> string list res" where
  "staged_parts env done_parts [] =
     (if done_parts \<noteq> [] \<and> tree env done_parts = Some Regular then Inr done_parts else Inl (failed ''unsafe_staging_path''))"
| "staged_parts env done_parts (c # cs) =
     (case tree env (done_parts @ [c]) of
        None \<Rightarrow> Inl (failed ''staged_elf_missing'')
      | Some (Symlink _) \<Rightarrow> Inl (failed ''unsafe_staging_path'')
      | Some node \<Rightarrow>
          if cs \<noteq> [] \<and> node \<noteq> Directory then Inl (failed ''unsafe_staging_path'')
          else staged_parts env (done_parts @ [c]) cs)"

definition staged :: "resolver_env \<Rightarrow> string \<Rightarrow> string list res" where
  "staged env installed = bind_r (relative installed) (\<lambda>path. staged_parts env [] (pure_parts path))"

text \<open>One pass of the loop of \<^verbatim>\<open>_staged_bundled\<close>: the path to go on with after the first link, or
  \<^verbatim>\<open>None\<close> when there is none.\<close>

definition redirected :: "string list \<Rightarrow> string \<Rightarrow> string list \<Rightarrow> string" where
  "redirected front link after =
     (let target = as_posix link;
          base = (if starts_with ''/'' target then target else path_join ''/'' (front @ [target]))
      in normpath (path_join base after))"

fun find_link :: "resolver_env \<Rightarrow> nat \<Rightarrow> string list \<Rightarrow> string list \<Rightarrow> string option res" where
  "find_link env followed front [] = Inr None"
| "find_link env followed front (c # after) =
     (case tree env (front @ [c]) of
        None \<Rightarrow> Inl (failed (if followed = 0 then ''staged_elf_missing'' else ''bundled_library_invalid''))
      | Some (Symlink link) \<Rightarrow>
          if followed + 1 > MAX_LINKS then Inl (failed ''bundled_library_invalid'')
          else Inr (Some (redirected front link after))
      | Some node \<Rightarrow>
          if after \<noteq> [] \<and> node \<noteq> Directory then Inl (failed ''bundled_library_invalid'')
          else find_link env followed (front @ [c]) after)"

text \<open>The loop itself: nothing in its shape makes it end.\<close>

partial_function (option) follow_links :: "resolver_env \<Rightarrow> nat \<Rightarrow> string \<Rightarrow> (string \<times> string list) res option" where
  "follow_links env followed current =
     (case find_link env followed [] (pure_parts current) of
        Inl e \<Rightarrow> Some (Inl e)
      | Inr (Some target) \<Rightarrow> follow_links env (followed + 1) target
      | Inr None \<Rightarrow> Some (bind_r (staged env current) (\<lambda>path. Inr (current, path))))"

declare follow_links.simps [code]

definition staged_bundled :: "resolver_env \<Rightarrow> string \<Rightarrow> (string \<times> string list) res option" where
  "staged_bundled env installed =
     (case relative installed of Inl e \<Rightarrow> Some (Inl e) | Inr current \<Rightarrow> follow_links env 0 current)"

section \<open>Bundled libraries\<close>

text \<open>The substitution of \<^verbatim>\<open>$ORIGIN\<close> and \<^verbatim>\<open>${ORIGIN}\<close> before a slash or the end.\<close>

definition at_boundary :: "string \<Rightarrow> bool" where
  "at_boundary s = (s = [] \<or> hd s = CHR ''/'' \<or> s = [CHR 0x0A])"

function expand_origin :: "string \<Rightarrow> string \<Rightarrow> string" where
  "expand_origin origin s =
     (if s = [] then []
      else if starts_with ''${ORIGIN}'' s \<and> at_boundary (drop 9 s) then origin @ expand_origin origin (drop 9 s)
      else if starts_with ''$ORIGIN'' s \<and> at_boundary (drop 7 s) then origin @ expand_origin origin (drop 7 s)
      else hd s # expand_origin origin (tl s))"
  by auto
termination by (relation "measure (\<lambda>(_, s). length s)") (auto simp: neq_Nil_conv)

text \<open>\<^verbatim>\<open>_private_search_paths\<close>\<close>

definition search_path :: "string \<Rightarrow> string \<Rightarrow> string option" where
  "search_path req entry =
     (let expanded = expand_origin (dirname req) entry; canonical = normpath expanded in
      if CHR ''$'' \<in> set expanded \<or> \<not> starts_with ''/'' expanded then None
      else if starts_with ''/'' canonical then Some canonical else None)"

definition private_search_paths :: "string \<Rightarrow> inspection \<Rightarrow> string list" where
  "private_search_paths req insp =
     fold (\<lambda>entry found. case search_path req entry of
         None \<Rightarrow> found
       | Some p \<Rightarrow> if p \<in> set found then found else found @ [p])
       (if runpath insp \<noteq> [] then runpath insp else rpath insp) []"

text \<open>\<^verbatim>\<open>_bundled\<close>: the first search path that has the library; the empty string when none has.\<close>

fun first_bundled :: "resolver_env \<Rightarrow> string \<Rightarrow> string list \<Rightarrow> string res" where
  "first_bundled env soname [] = Inr []"
| "first_bundled env soname (directory # others) =
     (case staged_bundled env (path_join directory [soname]) of
        None \<Rightarrow> Inl Diverges
      | Some (Inr (selected, _)) \<Rightarrow> Inr selected
      | Some (Inl (ResolutionError code reqs)) \<Rightarrow>
          if code = ''staged_elf_missing'' then first_bundled env soname others else Inl (ResolutionError code reqs)
      | Some (Inl e) \<Rightarrow> Inl e)"

definition bundled :: "resolver_env \<Rightarrow> string \<Rightarrow> inspection \<Rightarrow> string \<Rightarrow> string res" where
  "bundled env req insp soname =
     (if CHR ''/'' \<in> set soname \<or> soname \<in> {''.'', ''..''} then Inl (failed ''invalid_soname'')
      else first_bundled env soname (private_search_paths req insp))"

section \<open>Commands of the container\<close>

text \<open>\<^verbatim>\<open>str.splitlines\<close> below code point 256; \<^verbatim>\<open>line\<close> is the current line, reversed.\<close>

definition is_break :: "char \<Rightarrow> bool" where
  "is_break c = (in_range 10 13 c \<or> in_range 28 30 c \<or> cord c = 133)"

fun lines_from :: "string \<Rightarrow> string \<Rightarrow> string list" where
  "lines_from line [] = (if line = [] then [] else [rev line])"
| "lines_from line [c] = (if is_break c then [rev line] else [rev (c # line)])"
| "lines_from line (c # d # cs) =
     (if c = CHR 0x0D \<and> d = CHR 0x0A then rev line # lines_from [] cs
      else if is_break c then rev line # lines_from [] (d # cs)
      else lines_from (c # line) (d # cs))"

text \<open>The lines that \<^verbatim>\<open>^...$\<close> with \<^verbatim>\<open>re.M\<close> sees.\<close>

fun lines_of :: "string \<Rightarrow> string list" where
  "lines_of [] = [[]]"
| "lines_of (c # cs) =
     (if c = CHR 0x0A then [] # lines_of cs
      else case lines_of cs of [] \<Rightarrow> [[c]] | p # ps \<Rightarrow> (c # p) # ps)"

definition splitlines :: "string \<Rightarrow> string list" where
  "splitlines s = lines_from [] s"

definition utf8_length :: "string \<Rightarrow> int" where
  "utf8_length s = sum_list (map (\<lambda>c. if cord c < 128 then 1 else 2) s)"

text \<open>The diagnostic that a filtered snapshot may cause, \<^verbatim>\<open>.../filtered/[^\n]+ ... symbol [^\n]+: ...\<close>\<close>

definition plugin_warning :: "string \<Rightarrow> bool" where
  "plugin_warning line =
     (case between ''dpkg-shlibdeps: warning: /debbuilder-elf-work/filtered/'' (CHR '':'' # '' it'' @ CHR 0x27 # ''s probably a plugin'') line of
        None \<Rightarrow> False
      | Some middle \<Rightarrow> CHR 0x0A \<notin> set middle \<and>
          (\<exists>i \<in> {1..<length middle}. starts_with '' contains an unresolvable reference to symbol '' (drop i middle) \<and>
             i + length '' contains an unresolvable reference to symbol '' < length middle))"

text \<open>\<^verbatim>\<open>_run\<close>: a command is executed, then its answer is checked.  The execution itself may raise
  an exception, which no caller catches.\<close>

definition check_answer :: "bool \<Rightarrow> command_result \<Rightarrow> string res" where
  "check_answer filtered a =
     (if utf8_length (stdout a) + utf8_length (stderr a) > MAX_COMMAND_BYTES then Inl (failed ''resolver_output_limit'')
      else if timed_out a then Inl (failed ''resolver_timeout'')
      else if exit_code a \<noteq> Some 0 then Inl (failed ''resolver_command_failed'')
      else if strip (stderr a) \<noteq> [] \<and> \<not> (filtered \<and> list_all plugin_warning (splitlines (strip (stderr a))))
      then Inl (failed ''resolver_command_output_invalid'')
      else Inr (stdout a))"

definition execute :: "resolver_env \<Rightarrow> string list \<Rightarrow> command_result rop" where
  "execute env args s = (s\<lparr>r_tick := Suc (r_tick s)\<rparr>,
     (case run_answer env (r_tick s) args of Inl e \<Rightarrow> Inl (Uncaught e) | Inr a \<Rightarrow> Inr a))"

definition run_command :: "resolver_env \<Rightarrow> bool \<Rightarrow> string list \<Rightarrow> string rop" where
  "run_command env filtered args = bind_o (execute env args) (\<lambda>a. lift_r (check_answer filtered a))"

section \<open>The answer of dpkg-shlibdeps\<close>

text \<open>\<^verbatim>\<open>SYMBOLS\<close>, \<^verbatim>\<open>SHLIBS\<close> and \<^verbatim>\<open>FOUND\<close>: the two groups of a matching line.\<close>

definition solid :: "string \<Rightarrow> bool" where
  "solid s = (s \<noteq> [] \<and> list_all (\<lambda>c. \<not> is_space c) s)"

text \<open>The text before the first occurrence of \<^verbatim>\<open>sep\<close> and the text after it.\<close>

fun split_first :: "string \<Rightarrow> string \<Rightarrow> (string \<times> string) option" where
  "split_first sep [] = (if sep = [] then Some ([], []) else None)"
| "split_first sep (c # cs) =
     (if starts_with sep (c # cs) then Some ([], drop (length sep) (c # cs))
      else map_option (\<lambda>(a, b). (c # a, b)) (split_first sep cs))"

definition two_groups :: "string \<Rightarrow> string \<Rightarrow> string \<Rightarrow> (string \<Rightarrow> bool) \<Rightarrow> (string \<Rightarrow> bool) \<Rightarrow> string \<Rightarrow> (string \<times> string) option" where
  "two_groups prefix sep suffix p q line =
     (case between prefix suffix line of
        None \<Rightarrow> None
      | Some middle \<Rightarrow> (case split_first sep middle of
            None \<Rightarrow> None
          | Some (a, b) \<Rightarrow> if p a \<and> q b then Some (a, b) else None))"

definition package_text :: "string \<Rightarrow> bool" where
  "package_text s = (s \<noteq> [] \<and> list_all is_pkg_char s)"

definition path_text :: "string \<Rightarrow> bool" where
  "path_text s = (2 \<le> length s \<and> hd s = CHR ''/'' \<and> solid s)"

definition symbols_line :: "string \<Rightarrow> (string \<times> string) option" where
  "symbols_line = two_groups ''dpkg-shlibdeps: debug: Using symbols file /var/lib/dpkg/info/'' '':amd64.symbols for '' [] package_text solid"

definition shlibs_line :: "string \<Rightarrow> (string \<times> string) option" where
  "shlibs_line = two_groups ''dpkg-shlibdeps: debug: Using shlibs+objdump for '' '' (file '' '')'' solid path_text"

definition found_line :: "string \<Rightarrow> (string \<times> string) option" where
  "found_line = two_groups ''dpkg-shlibdeps: debug: Library '' '' found in '' [] solid path_text"

record shlibdeps =
  sources :: "string \<Rightarrow> (string \<times> string \<times> string) option"
  found :: "string \<Rightarrow> string list option"
  depends_line :: string

definition paths_found :: "shlibdeps \<Rightarrow> string \<Rightarrow> string list" where
  "paths_found d soname = (case found d soname of None \<Rightarrow> [] | Some ps \<Rightarrow> ps)"

definition add_found :: "string \<Rightarrow> shlibdeps \<Rightarrow> shlibdeps" where
  "add_found line d =
     (case found_line line of
        None \<Rightarrow> d
      | Some (soname, path) \<Rightarrow>
          d\<lparr>found := (found d)(soname \<mapsto>
            (if path \<in> set (paths_found d soname) then paths_found d soname else paths_found d soname @ [path]))\<rparr>)"

definition add_symbols :: "string \<Rightarrow> shlibdeps \<Rightarrow> shlibdeps res" where
  "add_symbols line d =
     (case symbols_line line of
        None \<Rightarrow> Inr d
      | Some (package, soname) \<Rightarrow>
          if (case sources d soname of None \<Rightarrow> False | Some (p, kind, _) \<Rightarrow> (p, kind) \<noteq> (package, ''symbols''))
          then Inl (failed ''resolver_mapping_ambiguous'')
          else Inr (d\<lparr>sources := (sources d)(soname \<mapsto>
            (package, ''symbols'', case paths_found d soname of [] \<Rightarrow> [] | path # _ \<Rightarrow> path))\<rparr>))"

definition add_shlibs :: "string \<Rightarrow> shlibdeps \<Rightarrow> shlibdeps res" where
  "add_shlibs line d =
     (case shlibs_line line of
        None \<Rightarrow> Inr d
      | Some (soname, path) \<Rightarrow>
          if (case sources d soname of None \<Rightarrow> False | Some src \<Rightarrow> src \<noteq> ([], ''shlibs'', path))
          then Inl (failed ''resolver_mapping_ambiguous'')
          else Inr (d\<lparr>sources := (sources d)(soname \<mapsto> ([], ''shlibs'', path))\<rparr>))"

definition add_depends :: "string \<Rightarrow> shlibdeps \<Rightarrow> shlibdeps res" where
  "add_depends line d =
     (if \<not> starts_with ''shlibs:Depends='' line then Inr d
      else if depends_line d \<noteq> [] then Inl (failed ''resolver_output_invalid'')
      else Inr (d\<lparr>depends_line := drop (length ''shlibs:Depends='') line\<rparr>))"

definition read_line :: "string \<Rightarrow> shlibdeps \<Rightarrow> shlibdeps res" where
  "read_line line d =
     (if \<not> (starts_with ''dpkg-shlibdeps: debug: '' line \<or> starts_with ''shlibs:Depends='' line)
      then Inl (failed ''resolver_output_invalid'')
      else bind_r (add_symbols line (add_found line d)) (\<lambda>d. bind_r (add_shlibs line d) (add_depends line)))"

fun read_lines :: "string list \<Rightarrow> shlibdeps \<Rightarrow> shlibdeps res" where
  "read_lines [] d = Inr d"
| "read_lines (line # others) d = bind_r (read_line line d) (read_lines others)"

text \<open>\<^verbatim>\<open>s.split(",")\<close>\<close>

fun split_comma :: "string \<Rightarrow> string list" where
  "split_comma [] = [[]]"
| "split_comma (c # cs) =
     (if c = CHR '','' then [] # split_comma cs
      else case split_comma cs of [] \<Rightarrow> [[c]] | p # ps \<Rightarrow> (c # p) # ps)"

text \<open>\<^verbatim>\<open>_parse_shlibdeps\<close>: what was read, and the relations.\<close>

definition parse_shlibdeps :: "string \<Rightarrow> string list \<Rightarrow> (shlibdeps \<times> string list) res" where
  "parse_shlibdeps output sonames =
     bind_r (read_lines (splitlines output) \<lparr>sources = (\<lambda>_. None), found = (\<lambda>_. None), depends_line = []\<rparr>) (\<lambda>d.
     if depends_line d = [] \<and> sonames \<noteq> [] then Inl (failed ''resolver_output_invalid'')
     else
       let relations = filter (\<lambda>p. p \<noteq> []) (map strip (split_comma (depends_line d))) in
       if \<exists>relation \<in> set relations. dependency relation = None then Inl (failed ''resolver_output_invalid'')
       else if \<exists>soname \<in> set sonames. case sources d soname of None \<Rightarrow> True | Some (_, _, path) \<Rightarrow> path = []
       then Inl (failed ''soname_unresolved'')
       else Inr (d, relations))"

text \<open>\<^verbatim>\<open>_dependency_for\<close>\<close>

definition dependency_for :: "string \<Rightarrow> string list \<Rightarrow> string res" where
  "dependency_for package relations =
     (case filter (\<lambda>row. map_option fst (dependency row) = Some package) relations of
        [row] \<Rightarrow> Inr row
      | _ \<Rightarrow> Inl (failed ''resolver_mapping_ambiguous''))"

text \<open>\<^verbatim>\<open>_resolve_one\<close>\<close>

definition resolve_one :: "resolver_env \<Rightarrow> string \<Rightarrow> string list \<Rightarrow> (shlibdeps \<times> string list) rop" where
  "resolve_one env installed sonames =
     (let filtered = (installed \<in> set (filtered_installed env));
          selected = (if filtered then WORK_ROOT @ ''/filtered'' @ installed else MOUNT_ROOT @ installed) in
      bind_o (run_command env filtered [''env'', ''-i'', ''-C'', WORK_ROOT, ''LC_ALL=C'', ''PATH=/usr/bin:/bin'', ''DEB_HOST_ARCH=amd64'',
          ''dpkg-shlibdeps'', ''-v'', ''-O'', ''-S'' @ MOUNT_ROOT, ''-e'' @ selected]) (\<lambda>output.
      lift_r (parse_shlibdeps output sonames)))"

text \<open>\<^verbatim>\<open>_canonical\<close> and \<^verbatim>\<open>_owner\<close>\<close>

definition canonical :: "resolver_env \<Rightarrow> string \<Rightarrow> string rop" where
  "canonical env path =
     bind_o (run_command env False [''realpath'', ''-e'', path]) (\<lambda>out.
     if \<not> starts_with ''/'' (strip out) \<or> CHR 0x0A \<in> set (strip out)
     then throw (failed ''resolver_mapping_ambiguous'') else ret (strip out))"

definition owner_of :: "string list \<Rightarrow> string res" where
  "owner_of ownership =
     (case ownership of
        [line] \<Rightarrow> (case split_first '': '' line of
            None \<Rightarrow> Inl (failed ''resolver_mapping_ambiguous'')
          | Some (owners, _) \<Rightarrow>
              let package = takeWhile (\<lambda>c. c \<noteq> CHR '':'') owners in
              if is_package package then Inr package else Inl (failed ''resolver_mapping_ambiguous''))
      | _ \<Rightarrow> Inl (failed ''resolver_mapping_ambiguous''))"

definition owner :: "resolver_env \<Rightarrow> string \<Rightarrow> string rop" where
  "owner env path =
     (if \<not> starts_with ''/'' path \<or> starts_with (MOUNT_ROOT @ ''/'') path \<or> CHR 0x0A \<in> set path
      then throw (failed ''resolver_mapping_ambiguous'')
      else
        bind_o (canonical env path) (\<lambda>real.
        bind_o (attempt (run_command env False [''dpkg-query'', ''-S'', path])) (\<lambda>first.
        bind_o (case first of
            Inr out \<Rightarrow> ret out
          | Inl (ResolutionError code reqs) \<Rightarrow>
              if path = real \<or> code \<noteq> ''resolver_command_failed'' then throw (ResolutionError code reqs)
              else run_command env False [''dpkg-query'', ''-S'', real]
          | Inl e \<Rightarrow> throw e) (\<lambda>out.
        lift_r (owner_of (splitlines (strip out)))))))"

section \<open>One Depends field\<close>

text \<open>\<^verbatim>\<open>_merge_depends\<close>: of the relations of a package the one with the highest version is kept.\<close>

definition newer :: "resolver_env \<Rightarrow> string \<Rightarrow> string \<Rightarrow> bool rop" where
  "newer env version old =
     bind_o (execute env [''dpkg'', ''--compare-versions'', version, ''gt'', old]) (\<lambda>a.
     if timed_out a \<or> exit_code a \<notin> {Some 0, Some 1} \<or> stdout a \<noteq> [] \<or> stderr a \<noteq> []
     then throw (failed ''resolver_command_failed'') else ret (exit_code a = Some 0))"

definition version_of :: "string \<Rightarrow> string option" where
  "version_of relation = (case dependency relation of None \<Rightarrow> None | Some (_, v) \<Rightarrow> v)"

definition package_of :: "string \<Rightarrow> string" where
  "package_of relation = (case dependency relation of None \<Rightarrow> [] | Some (p, _) \<Rightarrow> p)"

text \<open>Whether \<^verbatim>\<open>relation\<close> replaces \<^verbatim>\<open>previous\<close>.\<close>

definition replaces :: "resolver_env \<Rightarrow> string \<Rightarrow> string \<Rightarrow> bool rop" where
  "replaces env relation previous =
     (case version_of previous of
        None \<Rightarrow> ret True
      | Some old \<Rightarrow> (case version_of relation of None \<Rightarrow> ret False | Some version \<Rightarrow> newer env version old))"

fun select_relations :: "resolver_env \<Rightarrow> string list \<Rightarrow> (string \<times> string) list \<Rightarrow> (string \<times> string) list rop" where
  "select_relations env [] selected = ret selected"
| "select_relations env (relation # others) selected =
     (case map_of selected (package_of relation) of
        None \<Rightarrow> select_relations env others (selected @ [(package_of relation, relation)])
      | Some previous \<Rightarrow>
          bind_o (replaces env relation previous) (\<lambda>better.
          select_relations env others
            (if better then AList.update (package_of relation) relation selected else selected)))"

definition merge_depends :: "resolver_env \<Rightarrow> string list \<Rightarrow> string list rop" where
  "merge_depends env relations =
     bind_o (select_relations env (sort (remdups relations)) []) (\<lambda>selected.
     ret (map (\<lambda>package. the (map_of selected package)) (sort (map fst selected))))"

section \<open>The traversal\<close>

definition add_row :: "requirement \<Rightarrow> unit rop" where
  "add_row row = modify_s (\<lambda>s. s\<lparr>rows := rows s @ [row]\<rparr>)"

text \<open>A soname that no bundled library provides and no override decides.\<close>

definition external_row ::
  "resolver_env \<Rightarrow> string \<Rightarrow> shlibdeps \<Rightarrow> string list \<Rightarrow> string \<Rightarrow> unit rop" where
  "external_row env installed found_in proposed soname =
     (case sources found_in soname of
        None \<Rightarrow>
          bind_o (get_s rows) (\<lambda>so_far.
          throw (ResolutionError ''soname_unresolved'' (so_far @ [requirement installed soname [] ''unresolved''])))
      | Some (package, metadata, path) \<Rightarrow>
          bind_o (canonical env path) (\<lambda>selected.
          bind_o (for_each (\<lambda>candidate. bind_o (canonical env candidate) (\<lambda>other.
              if other \<noteq> selected then throw (failed ''resolver_mapping_ambiguous'') else ret ()))
            (paths_found found_in soname)) (\<lambda>_.
          bind_o (owner env path) (\<lambda>own.
          if metadata \<noteq> ''shlibs'' \<and> package \<noteq> own then throw (failed ''resolver_mapping_ambiguous'')
          else
            bind_o (lift_r (dependency_for own proposed)) (\<lambda>relation.
            add_row ((requirement installed soname path ''resolved_external'')
              \<lparr>r_package := own, version_constraint := relation, metadata_source := metadata\<rparr>))))))"

text \<open>The loop over \<^verbatim>\<open>inspection.needed\<close>; \<^verbatim>\<open>walk\<close> is the recursive call.\<close>

definition needed_row ::
  "(string \<Rightarrow> inspection \<Rightarrow> unit rop) \<Rightarrow> resolver_env \<Rightarrow> (string \<times> decision) list \<Rightarrow> string \<Rightarrow> (string \<Rightarrow> string) \<Rightarrow>
   shlibdeps \<Rightarrow> string list \<Rightarrow> string \<Rightarrow> unit rop" where
  "needed_row walk env decisions installed local found_in proposed soname =
     bind_o (get_s rows) (\<lambda>so_far.
     if length so_far \<ge> MAX_REQUIREMENTS then throw (failed ''resolver_traversal_limit'')
     else if local soname \<noteq> [] then
       (if map_of decisions soname \<noteq> None then throw (failed ''invalid_dependency_override'')
        else
          bind_o (lift_r (staged env (local soname))) (\<lambda>path.
          case inspect_elf env path None of
            Inl code \<Rightarrow> throw (ElfInspectionError code)
          | Inr child \<Rightarrow>
              if i_kind child \<noteq> ''elf'' \<or> i_soname child \<noteq> soname then throw (failed ''bundled_library_invalid'')
              else
                bind_o (add_row (requirement installed soname (local soname) ''bundled'')) (\<lambda>_.
                walk (local soname) child)))
     else case map_of decisions soname of
       None \<Rightarrow> external_row env installed found_in proposed soname
     | Some d \<Rightarrow>
         if d_action d = ''ignore''
         then add_row ((requirement installed soname [] ''ignored_explicitly'')\<lparr>operator_decision := d_reason d\<rparr>)
         else
           bind_o (modify_s (\<lambda>s. s\<lparr>depends := List.insert (d_relation d) (depends s)\<rparr>)) (\<lambda>_.
           add_row ((requirement installed soname [] ''manually_resolved'')
             \<lparr>r_package := package_of (d_relation d), version_constraint := d_relation d,
               metadata_source := ''operator_mapping'', operator_decision := d_reason d\<rparr>)))"

text \<open>The part of \<^verbatim>\<open>walk\<close> between \<^verbatim>\<open>active.add\<close> and \<^verbatim>\<open>active.remove\<close>.\<close>

definition resolve_external :: "resolver_env \<Rightarrow> string \<Rightarrow> string list \<Rightarrow> (shlibdeps \<times> string list) rop" where
  "resolve_external env installed external =
     bind_o (attempt (resolve_one env installed external)) (\<lambda>r.
     case r of
       Inr found_in \<Rightarrow> ret found_in
     | Inl (ResolutionError code reqs) \<Rightarrow>
         bind_o (get_s rows) (\<lambda>so_far.
         throw (ResolutionError code
           (if code \<in> {''soname_unresolved'', ''resolver_command_failed'', ''resolver_mapping_ambiguous''}
            then so_far @ map (\<lambda>soname. requirement installed soname [] ''unresolved'') external else reqs)))
     | Inl e \<Rightarrow> throw e)"

definition walk_needed ::
  "(string \<Rightarrow> inspection \<Rightarrow> unit rop) \<Rightarrow> resolver_env \<Rightarrow> (string \<times> decision) list \<Rightarrow> string \<Rightarrow> inspection \<Rightarrow> unit rop" where
  "walk_needed walk env decisions installed insp =
     bind_o (get_s rows) (\<lambda>so_far.
     if length so_far + length (needed insp) > MAX_REQUIREMENTS then throw (failed ''resolver_traversal_limit'')
     else
     bind_o (lift_r (map_r (bundled env installed insp) (needed insp))) (\<lambda>selected.
     let local = (\<lambda>soname. case map_of (zip (needed insp) selected) soname of None \<Rightarrow> [] | Some p \<Rightarrow> p);
         external = filter (\<lambda>soname. local soname = [] \<and> map_of decisions soname = None) (needed insp) in
     bind_o (if linkage insp = Some ''dynamic''
        then
          bind_o (resolve_external env installed external) (\<lambda>(found_in, proposed).
          bind_o (modify_s (\<lambda>s. s\<lparr>depends := fold List.insert proposed (depends s)\<rparr>)) (\<lambda>_.
          ret (found_in, proposed)))
        else ret (\<lparr>sources = (\<lambda>_. None), found = (\<lambda>_. None), depends_line = []\<rparr>, [])) (\<lambda>(found_in, proposed).
     bind_o (if interpreter insp \<noteq> []
        then bind_o (owner env (interpreter insp)) (\<lambda>own. bind_o (lift_r (dependency_for own proposed)) (\<lambda>_. ret ()))
        else ret ()) (\<lambda>_.
     for_each (needed_row walk env decisions installed local found_in proposed) (needed insp)))))"

text \<open>\<^verbatim>\<open>try ... finally: active.remove(installed)\<close>\<close>

definition with_active :: "string \<Rightarrow> unit rop \<Rightarrow> unit rop" where
  "with_active installed m s =
     (case m (s\<lparr>active := installed # active s\<rparr>) of (s', r) \<Rightarrow> (s'\<lparr>active := removeAll installed (active s')\<rparr>, r))"

text \<open>\<^verbatim>\<open>walk\<close>; the first argument is \<^verbatim>\<open>MAX_DEPTH + 1 - depth\<close>.\<close>

definition walk_file ::
  "(string \<Rightarrow> inspection \<Rightarrow> unit rop) \<Rightarrow> resolver_env \<Rightarrow> (string \<times> decision) list \<Rightarrow> string \<Rightarrow> inspection \<Rightarrow> unit rop" where
  "walk_file walk env decisions installed insp =
     bind_o (lift_r (staged env installed)) (\<lambda>path.
     case inspect_elf env path (Some (i_sha256 insp)) of
       Inl code \<Rightarrow> throw (failed code)
     | Inr verified \<Rightarrow>
         if verified \<noteq> insp then throw (failed ''elf_identity_mismatch'')
         else
         bind_o (modify_s (\<lambda>s. s\<lparr>visited := installed # visited s\<rparr>)) (\<lambda>_.
         if i_kind insp = ''not_elf'' then ret ()
         else if i_kind insp \<noteq> ''elf'' then throw (failed ''malformed_elf'')
         else if i_architecture insp \<noteq> ''amd64'' then throw (failed ''elf_architecture_mismatch'')
         else with_active installed (walk_needed walk env decisions installed insp)))"

primrec walk :: "nat \<Rightarrow> resolver_env \<Rightarrow> (string \<times> decision) list \<Rightarrow> string \<Rightarrow> inspection \<Rightarrow> unit rop" where
  "walk 0 env decisions installed insp =
     bind_o (lift_r (relative installed)) (\<lambda>_.
     bind_o (get_s (\<lambda>s. installed \<in> set (active s) \<or> installed \<in> set (visited s))) (\<lambda>known.
     if known then ret () else throw (failed ''resolver_traversal_limit'')))"
| "walk (Suc deeper) env decisions installed insp =
     bind_o (lift_r (relative installed)) (\<lambda>_.
     bind_o (get_s (\<lambda>s. installed \<in> set (active s) \<or> installed \<in> set (visited s))) (\<lambda>known.
     if known then ret ()
     else
       bind_o (get_s (\<lambda>s. length (visited s))) (\<lambda>n.
       if n \<ge> MAX_ELF_FILES then throw (failed ''resolver_traversal_limit'')
       else walk_file (walk deeper env decisions) env decisions installed insp)))"

section \<open>resolve_elf_dependencies\<close>

record resolution =
  result_status :: string
  distribution :: string
  architecture :: string
  result_depends :: "string list"
  requirements :: "requirement list"

text \<open>What the checks of the staging root and its mount find, in their order.\<close>

record staging =
  is_real_directory :: bool
  mounted_here :: bool
  has_control :: bool

definition prepared :: "resolver_env \<Rightarrow> unit rop" where
  "prepared env =
     bind_o (run_command env False [''cat'', ''/etc/os-release'']) (\<lambda>release.
     if ''VERSION_CODENAME=bookworm'' \<notin> set (lines_of release) then throw (failed ''resolver_environment_mismatch'')
     else
     bind_o (run_command env False [''dpkg'', ''--print-architecture'']) (\<lambda>arch.
     if strip arch \<noteq> ''amd64'' then throw (failed ''resolver_environment_mismatch'')
     else
     bind_o (attempt (bind_o (run_command env False [''test'', ''-x'', ''/usr/bin/dpkg-shlibdeps'']) (\<lambda>_.
       run_command env False [''test'', ''-f'', WORK_ROOT @ ''/debian/control'']))) (\<lambda>r.
     case r of
       Inr _ \<Rightarrow> ret ()
     | Inl (ResolutionError code reqs) \<Rightarrow>
         throw (ResolutionError (if code = ''resolver_command_failed'' then ''resolver_environment_incomplete'' else code)
           (if code = ''resolver_command_failed'' then [] else reqs))
     | Inl e \<Rightarrow> throw e)))"

definition initial_resolver :: resolver where
  "initial_resolver = \<lparr>r_tick = 0, rows = [], depends = [], visited = [], active = []\<rparr>"

text \<open>The part of \<^verbatim>\<open>resolve_elf_dependencies\<close> after its checks of the arguments.\<close>

definition resolve_prepared :: "resolver_env \<Rightarrow> (string \<times> decision) list \<Rightarrow> (string \<times> inspection) list \<Rightarrow> resolution rop" where
  "resolve_prepared env decisions entrypoints =
     bind_o (prepared env) (\<lambda>_.
     bind_o (for_each (\<lambda>e. walk (MAX_DEPTH + 1) env decisions (fst e) (snd e)) (sort_key fst entrypoints)) (\<lambda>_.
     bind_o (get_s rows) (\<lambda>found_rows.
     if \<not> fst ` set decisions \<subseteq> r_soname ` set found_rows
     then throw (failed ''invalid_dependency_override'')
     else
       bind_o (get_s depends) (\<lambda>relations.
       bind_o (merge_depends env relations) (\<lambda>final.
       ret \<lparr>result_status = ''success'', distribution = ''bookworm'', architecture = ''amd64'', result_depends = final,
         requirements = found_rows\<rparr>)))))"

definition resolve_elf_dependencies ::
  "staging \<Rightarrow> (string \<times> inspection) list \<Rightarrow> string \<Rightarrow> string \<Rightarrow> resolver_env option \<Rightarrow> json list \<Rightarrow> resolution res" where
  "resolve_elf_dependencies st entrypoints distro arch environment overrides =
     (if distro \<noteq> ''bookworm'' \<or> arch \<noteq> ''amd64''
      then Inr \<lparr>result_status = ''unsupported'', distribution = distro, architecture = arch, result_depends = [], requirements = []\<rparr>
      else case environment of
        None \<Rightarrow> Inl (failed ''resolver_environment_missing'')
      | Some env \<Rightarrow>
          (case normalize_runtime_dependency_detection (JObj [(''enabled'', JBool True), (''overrides'', JArr overrides)]) of
             Inl e \<Rightarrow> Inl (if exn_class e = ValueError then failed ''invalid_dependency_override'' else Uncaught e)
           | Inr (_, decisions) \<Rightarrow>
               if \<not> is_real_directory st then Inl (failed ''unsafe_staging_path'')
               else if \<not> mounted_here st then Inl (failed ''resolver_environment_mismatch'')
               else if \<not> has_control st then Inl (failed ''resolver_environment_incomplete'')
               else if length entrypoints > MAX_ELF_FILES then Inl (failed ''resolver_traversal_limit'')
               else snd (resolve_prepared env decisions entrypoints initial_resolver)))"

end
