(* ===== verification/Elf_Closure.thy ===== *)
theory Elf_Closure
  imports Elf_Resolution
begin

text \<open>
  What the resolution of ELF dependencies guarantees: following links ends, in a regular file
  of the staging tree; a successful resolution explains the requirements of exactly the
  libraries that the entry points reach; the Depends field keeps the strictest relation of
  every package.
\<close>

section \<open>Links\<close>

lemma find_link_bound:
  "find_link env followed before parts = Inr (Some target) \<Longrightarrow> followed < MAX_LINKS"
  by (induction env followed before parts rule: find_link.induct) (auto split: option.splits node.splits if_splits)

lemma follow_links_returns:
  assumes "followed \<le> MAX_LINKS"
  shows "\<exists>r. follow_links env followed current = Some r"
  using assms
proof (induction "MAX_LINKS - followed" arbitrary: followed current rule: less_induct)
  case less
  show ?case
  proof (cases "find_link env followed [] (pure_parts current)")
    case (Inr link)
    show ?thesis
    proof (cases link)
      case (Some target)
      with Inr have "followed < MAX_LINKS" by (auto dest: find_link_bound)
      then have "MAX_LINKS - (followed + 1) < MAX_LINKS - followed" "followed + 1 \<le> MAX_LINKS" by simp_all
      then obtain r where "follow_links env (followed + 1) target = Some r" using less.hyps by blast
      with Inr Some show ?thesis by (subst follow_links.simps) simp
    qed (subst follow_links.simps, simp add: Inr)
  qed (subst follow_links.simps, simp)
qed

lemma staged_bundled_returns: "\<exists>r. staged_bundled env installed = Some r"
  by (auto simp: staged_bundled_def follow_links_returns split: sum.split)

text \<open>A regular file of the tree, reached through directories only.\<close>

definition plain_file :: "resolver_env \<Rightarrow> string list \<Rightarrow> bool" where
  "plain_file env path =
     (path \<noteq> [] \<and> tree env path = Some Regular \<and> (\<forall>k. 0 < k \<and> k < length path \<longrightarrow> tree env (take k path) = Some Directory))"

lemma staged_parts_step:
  assumes "staged_parts env before (c # cs) = Inr path"
  shows "\<exists>node. tree env (before @ [c]) = Some node \<and> (cs = [] \<or> node = Directory)"
    and "staged_parts env (before @ [c]) cs = Inr path"
  using assms by (cases "tree env (before @ [c])"; cases "the (tree env (before @ [c]))"; simp split: if_splits)+

lemma staged_parts_file:
  assumes "staged_parts env before parts = Inr path"
    and "\<forall>k. 0 < k \<and> k < length (before @ parts) \<and> k \<le> length before \<longrightarrow> tree env (take k before) = Some Directory"
  shows "path = before @ parts \<and> plain_file env path"
  using assms
proof (induction parts arbitrary: before)
  case Nil
  then show ?case by (auto simp: plain_file_def split: if_splits)
next
  case (Cons c cs)
  note step = staged_parts_step [OF Cons.prems(1)]
  have "tree env (take k (before @ [c])) = Some Directory"
    if "0 < k" "k < length ((before @ [c]) @ cs)" "k \<le> length (before @ [c])" for k
  proof (cases "k \<le> length before")
    case True
    with Cons.prems(2) that(1) show ?thesis by simp
  next
    case False
    with that step(1) show ?thesis by auto
  qed
  with Cons.IH [OF step(2)] show ?case by auto
qed

lemma relative_ok:
  assumes "relative path = Inr p"
  shows "p = path" "starts_with ''/'' path" "\<forall>c \<in> set (pure_parts path). plain_part c"
proof -
  from assms have p: "p = path" "starts_with ''/'' path" "normpath path = path" by (auto simp: relative_def split: if_splits)
  then show "p = path" "starts_with ''/'' path" by simp_all
  show "\<forall>c \<in> set (pure_parts path). plain_part c" using normpath_plain [OF p(2)] p(3) by simp
qed

lemma staged_file:
  assumes "staged env installed = Inr path"
  shows "path = pure_parts installed" "plain_file env path" "\<forall>c \<in> set path. plain_part c"
proof -
  from assms obtain p where p: "relative installed = Inr p" "staged_parts env [] (pure_parts p) = Inr path"
    by (auto simp: staged_def result_simps)
  have "path = [] @ pure_parts p \<and> plain_file env path" by (rule staged_parts_file [OF p(2)]) auto
  then show "path = pure_parts installed" "plain_file env path" "\<forall>c \<in> set path. plain_part c"
    using relative_ok [OF p(1)] by auto
qed

lemma follow_links_file:
  assumes "follow_links env followed current = Some (Inr (final, path))"
  shows "staged env final = Inr path"
proof -
  have "\<forall>f p. r = Inr (f, p) \<longrightarrow> staged env f = Inr p" if "follow_links env followed current = Some r" for r
  proof (rule follow_links.raw_induct [where P = "\<lambda>env _ _ r. \<forall>f p. r = Inr (f, p) \<longrightarrow> staged env f = Inr p", OF _ that])
    fix loop env followed current r
    assume IH: "\<And>env followed current r. loop env followed current = Some r \<Longrightarrow> \<forall>f p. r = Inr (f, p) \<longrightarrow> staged env f = Inr p"
      and eq: "(case find_link env followed [] (pure_parts current) of
          Inl e \<Rightarrow> Some (Inl e)
        | Inr None \<Rightarrow> Some (bind_r (staged env current) (\<lambda>path. Inr (current, path)))
        | Inr (Some target) \<Rightarrow> loop env (followed + 1) target) = Some r"
    show "\<forall>f p. r = Inr (f, p) \<longrightarrow> staged env f = Inr p"
    proof (cases "find_link env followed [] (pure_parts current)")
      case (Inr link)
      then show ?thesis using eq IH by (cases link) (auto simp: result_simps)
    qed (use eq in auto)
  qed
  then show ?thesis using assms by blast
qed

lemma staged_bundled_file: "staged_bundled env installed = Some (Inr (final, path)) \<Longrightarrow> staged env final = Inr path"
  by (auto simp: staged_bundled_def split: sum.splits dest: follow_links_file)

section \<open>Commands leave the traversal alone\<close>

definition frame :: "resolver \<Rightarrow> resolver \<Rightarrow> bool" where
  "frame s s' = (rows s' = rows s \<and> depends s' = depends s \<and> visited s' = visited s \<and> active s' = active s)"

lemma frame_refl: "frame s s"
  by (simp add: frame_def)

lemma frame_trans: "frame s s1 \<Longrightarrow> frame s1 s2 \<Longrightarrow> frame s s2"
  by (simp add: frame_def)

lemma run_command_frame: "run_command env f args s = (s', r) \<Longrightarrow> frame s s'"
  by (auto simp: run_command_def bind_o_def execute_def lift_r_def frame_def split: sum.splits)

lemma canonical_frame: "canonical env path s = (s', Inr x) \<Longrightarrow> frame s s'"
  by (auto simp: canonical_def result_simps split: if_splits dest: run_command_frame)

lemma owner_frame:
  assumes "owner env path s = (s', Inr x)"
  shows "frame s s'"
proof -
  obtain real s1 first s2 out where step: "canonical env path s = (s1, Inr real)"
      "run_command env False [''dpkg-query'', ''-S'', path] s1 = (s2, first)"
      "(case first of
          Inr out \<Rightarrow> ret out
        | Inl (ResolutionError code reqs) \<Rightarrow>
            if path = real \<or> code \<noteq> ''resolver_command_failed'' then throw (ResolutionError code reqs)
            else run_command env False [''dpkg-query'', ''-S'', real]
        | Inl e \<Rightarrow> throw e) s2 = (s', Inr out)"
    using assms by (auto simp: owner_def result_simps)
  have "frame s2 s'"
    using step(3) by (auto simp: result_simps frame_refl split: sum.splits resolver_exn.splits if_splits dest: run_command_frame)
  with canonical_frame [OF step(1)] run_command_frame [OF step(2)] show ?thesis by (blast intro: frame_trans)
qed

lemma resolve_one_frame: "resolve_one env x sonames s = (s', Inr d) \<Longrightarrow> frame s s'"
  by (auto simp: resolve_one_def Let_def result_simps dest: run_command_frame)

lemma resolve_external_success:
  assumes "resolve_external env x external s = (s', Inr d)"
  shows "resolve_one env x external s = (s', Inr d)" "frame s s'"
proof -
  obtain s1 r where r: "resolve_one env x external s = (s1, r)" by fastforce
  have "s1 = s' \<and> r = Inr d"
    using assms by (auto simp: resolve_external_def result_simps r split: sum.splits resolver_exn.splits)
  with r show "resolve_one env x external s = (s', Inr d)" "frame s s'" by (auto dest: resolve_one_frame)
qed

lemma agreeing_frame:
  assumes "for_each (\<lambda>candidate. bind_o (canonical env candidate) (\<lambda>other.
      if other \<noteq> selected then throw (failed ''resolver_mapping_ambiguous'') else ret ())) candidates s = (s', Inr u)"
  shows "frame s s'"
  using assms by (rule for_each_success) (auto simp: frame_refl result_simps split: if_splits intro: frame_trans dest: canonical_frame)

lemma dependency_for_member: "dependency_for package relations = Inr r \<Longrightarrow> r \<in> set relations \<and> package_of r = package"
proof -
  assume r: "dependency_for package relations = Inr r"
  then have "filter (\<lambda>row. map_option fst (dependency row) = Some package) relations = [r]"
    by (auto simp: dependency_for_def split: list.splits)
  then have "r \<in> set (filter (\<lambda>row. map_option fst (dependency row) = Some package) relations)" by simp
  then show ?thesis by (auto simp: package_of_def)
qed

text \<open>An external row: of the library that needs it, resolved to a relation that was proposed.\<close>

lemma external_row_success:
  assumes "external_row env x d proposed soname s = (s', Inr u)"
  obtains row s1 where "frame s s1" "s' = s1\<lparr>rows := rows s1 @ [row]\<rparr>" "requester row = x" "r_soname row = soname"
    "r_status row = ''resolved_external''" "version_constraint row \<in> set proposed"
    "package_of (version_constraint row) = r_package row"
proof -
  obtain package metadata path where src: "sources d soname = Some (package, metadata, path)"
    using assms by (cases "sources d soname") (auto simp: external_row_def result_simps)
  obtain s1 selected s2 s3 own relation where step: "canonical env path s = (s1, Inr selected)"
      "for_each (\<lambda>candidate. bind_o (canonical env candidate) (\<lambda>other.
         if other \<noteq> selected then throw (failed ''resolver_mapping_ambiguous'') else ret ())) (paths_found d soname) s1 = (s2, Inr ())"
      "owner env path s2 = (s3, Inr own)" "dependency_for own proposed = Inr relation"
      "s' = s3\<lparr>rows := rows s3 @ [(requirement x soname path ''resolved_external'')
         \<lparr>r_package := own, version_constraint := relation, metadata_source := metadata\<rparr>]\<rparr>"
    using assms by (auto simp: external_row_def src result_simps add_row_def)
  have "frame s s3"
    using canonical_frame [OF step(1)] agreeing_frame [OF step(2)] owner_frame [OF step(3)] by (blast intro: frame_trans)
  moreover note step(5)
  ultimately show thesis
    by (rule that) (use dependency_for_member [OF step(4)] in \<open>simp_all add: requirement_def\<close>)
qed

section \<open>The traversal\<close>

text \<open>The inspection of a file of the tree, and the libraries that the entry points reach.\<close>

definition file_of :: "resolver_env \<Rightarrow> string \<Rightarrow> inspection option" where
  "file_of env x =
     (case staged env x of Inl _ \<Rightarrow> None | Inr p \<Rightarrow> (case inspect_elf env p None of Inl _ \<Rightarrow> None | Inr i \<Rightarrow> Some i))"

inductive reached :: "resolver_env \<Rightarrow> string list \<Rightarrow> string \<Rightarrow> bool" for env :: resolver_env and entries :: "string list" where
  entry: "x \<in> set entries \<Longrightarrow> reached env entries x"
| linked: "reached env entries x \<Longrightarrow> file_of env x = Some i \<Longrightarrow> i_kind i = ''elf'' \<Longrightarrow> soname \<in> set (needed i) \<Longrightarrow>
    bundled env x i soname = Inr y \<Longrightarrow> y \<noteq> [] \<Longrightarrow> reached env entries y"

definition rows_of :: "string \<Rightarrow> resolver \<Rightarrow> requirement list" where
  "rows_of x s = filter (\<lambda>r. requester r = x) (rows s)"

text \<open>A library whose requirements are all explained and whose bundled libraries were visited.\<close>

definition explained :: "resolver_env \<Rightarrow> resolver \<Rightarrow> string \<Rightarrow> bool" where
  "explained env s x =
     (\<exists>i. file_of env x = Some i \<and> i_kind i \<in> {''elf'', ''not_elf''} \<and>
       (i_kind i = ''elf'' \<longrightarrow> i_architecture i = ''amd64'' \<and> map r_soname (rows_of x s) = needed i \<and>
         (\<forall>soname \<in> set (needed i). \<forall>y. bundled env x i soname = Inr y \<and> y \<noteq> [] \<longrightarrow> y \<in> set (visited s))))"

definition row_sound :: "resolver_env \<Rightarrow> string list \<Rightarrow> requirement \<Rightarrow> bool" where
  "row_sound env relations r =
     (\<exists>i. file_of env (requester r) = Some i \<and> i_kind i = ''elf'' \<and> r_soname r \<in> set (needed i) \<and>
       (if r_status r = ''bundled''
        then selected_library r \<noteq> [] \<and> bundled env (requester r) i (r_soname r) = Inr (selected_library r)
        else r_status r = ''ignored_explicitly'' \<or>
          r_status r \<in> {''resolved_external'', ''manually_resolved''} \<and> version_constraint r \<in> set relations \<and>
          package_of (version_constraint r) = r_package r))"

definition traversal :: "resolver_env \<Rightarrow> string list \<Rightarrow> resolver \<Rightarrow> bool" where
  "traversal env entries s =
     (set (active s) \<subseteq> set (visited s) \<and> distinct (visited s) \<and> length (visited s) \<le> MAX_ELF_FILES \<and>
      length (rows s) \<le> MAX_REQUIREMENTS \<and>
      (\<forall>x \<in> set (visited s). reached env entries x) \<and>
      (\<forall>x \<in> set (visited s) - set (active s). explained env s x) \<and>
      (\<forall>r \<in> set (rows s). requester r \<in> set (visited s) \<and> row_sound env (depends s) r))"

text \<open>What a call may change: it keeps the rows of the libraries that were visited before.\<close>

definition extends :: "resolver \<Rightarrow> resolver \<Rightarrow> bool" where
  "extends s s' =
     (active s' = active s \<and> set (visited s) \<subseteq> set (visited s') \<and> set (depends s) \<subseteq> set (depends s') \<and>
      (\<forall>x \<in> set (visited s). rows_of x s' = rows_of x s))"

lemma extends_refl: "extends s s"
  by (simp add: extends_def)

lemma extends_trans: "extends s s1 \<Longrightarrow> extends s1 s2 \<Longrightarrow> extends s s2"
  by (auto simp: extends_def)

lemma frame_extends: "frame s s' \<Longrightarrow> extends s s'"
  by (simp add: frame_def extends_def rows_of_def)

lemma frame_traversal: "frame s s' \<Longrightarrow> traversal env entries s' = traversal env entries s"
  by (simp add: frame_def traversal_def explained_def rows_of_def)

lemma row_sound_mono: "row_sound env ds r \<Longrightarrow> set ds \<subseteq> set ds' \<Longrightarrow> row_sound env ds' r"
  unfolding row_sound_def by (elim exE) (rule exI, auto split: if_splits)

lemma explained_visited: "explained env s x \<Longrightarrow> set (visited s) \<subseteq> set (visited s') \<Longrightarrow> rows_of x s' = rows_of x s \<Longrightarrow> explained env s' x"
  unfolding explained_def by (elim exE) (rule exI, auto)

text \<open>A new row of a library that is being walked.\<close>

lemma traversal_add_row:
  assumes "traversal env entries s" "length (rows s) < MAX_REQUIREMENTS" "requester row \<in> set (active s)" "row_sound env (depends s) row"
  shows "traversal env entries (s\<lparr>rows := rows s @ [row]\<rparr>)"
proof -
  have "explained env (s\<lparr>rows := rows s @ [row]\<rparr>) x" if "x \<in> set (visited s) - set (active s)" for x
  proof (rule explained_visited)
    show "explained env s x" using assms(1) that by (simp add: traversal_def)
    show "rows_of x (s\<lparr>rows := rows s @ [row]\<rparr>) = rows_of x s" using assms(3) that by (auto simp: rows_of_def)
  qed simp
  then show ?thesis using assms by (auto simp: traversal_def)
qed

lemma traversal_add_depends:
  assumes "traversal env entries s" "set (depends s) \<subseteq> set ds"
  shows "traversal env entries (s\<lparr>depends := ds\<rparr>)"
proof -
  have "explained env (s\<lparr>depends := ds\<rparr>) x" if "explained env s x" for x
    using that by (rule explained_visited) (simp_all add: rows_of_def)
  then show ?thesis using assms row_sound_mono by (fastforce simp: traversal_def)
qed

text \<open>The steps of one library: the state while its first requirements are done.\<close>

definition walking ::
  "resolver_env \<Rightarrow> string list \<Rightarrow> string \<Rightarrow> inspection \<Rightarrow> string list \<Rightarrow> resolver \<Rightarrow> string list \<Rightarrow> resolver \<Rightarrow> bool" where
  "walking env entries x i proposed s0 before s =
     (traversal env entries s \<and> active s = active s0 \<and> set (visited s0) \<subseteq> set (visited s) \<and>
      set (depends s0) \<subseteq> set (depends s) \<and> set proposed \<subseteq> set (depends s) \<and>
      (\<forall>z \<in> set (visited s0) - {x}. rows_of z s = rows_of z s0) \<and> map r_soname (rows_of x s) = before \<and>
      (\<forall>soname \<in> set before. \<forall>y. bundled env x i soname = Inr y \<and> y \<noteq> [] \<longrightarrow> y \<in> set (visited s)))"

lemma walking_frame:
  assumes "walking env entries x i proposed s0 before s" "frame s s1"
  shows "walking env entries x i proposed s0 before s1"
  using assms unfolding walking_def frame_traversal [OF assms(2)] by (simp add: frame_def rows_of_def)

lemma walking_add_row:
  assumes "walking env entries x i proposed s0 before s" "x \<in> set (active s0)" "length (rows s) < MAX_REQUIREMENTS"
    and "requester row = x" "r_soname row = soname" "row_sound env (depends s) row"
    and "\<And>y. bundled env x i soname = Inr y \<Longrightarrow> y = []"
  shows "walking env entries x i proposed s0 (before @ [soname]) (s\<lparr>rows := rows s @ [row]\<rparr>)"
proof -
  have "traversal env entries (s\<lparr>rows := rows s @ [row]\<rparr>)"
    by (rule traversal_add_row) (use assms in \<open>auto simp: walking_def\<close>)
  then show ?thesis using assms unfolding walking_def by (auto simp: rows_of_def)
qed

text \<open>The row of a bundled library, and the walk into it.\<close>

lemma walking_bundled:
  assumes w: "walking env entries x i proposed s0 before s" and x: "x \<in> set (active s0)" "x \<in> set (visited s0)"
    and len: "length (rows s) < MAX_REQUIREMENTS"
    and row: "requester row = x" "r_soname row = soname" "row_sound env (depends s) row" "bundled env x i soname = Inr y"
    and child: "traversal env entries s2" "extends (s\<lparr>rows := rows s @ [row]\<rparr>) s2" "y \<in> set (visited s2)"
  shows "walking env entries x i proposed s0 (before @ [soname]) s2"
proof -
  let ?s1 = "s\<lparr>rows := rows s @ [row]\<rparr>"
  have "rows_of z s2 = rows_of z s0" if "z \<in> set (visited s0)" "z \<noteq> x" for z
  proof -
    have "rows_of z s2 = rows_of z ?s1" using child(2) w that(1) by (auto simp: extends_def walking_def)
    also have "\<dots> = rows_of z s" using that row(1) by (simp add: rows_of_def)
    finally show ?thesis using w that by (simp add: walking_def)
  qed
  moreover have "map r_soname (rows_of x s2) = before @ [soname]"
  proof -
    have "rows_of x s2 = rows_of x ?s1" using child(2) w x(2) by (auto simp: extends_def walking_def)
    then show ?thesis using w row(1,2) by (simp add: rows_of_def walking_def)
  qed
  moreover have "z \<in> set (visited s2)"
    if "a \<in> set (before @ [soname])" "bundled env x i a = Inr z" "z \<noteq> []" for a z
  proof (cases "a \<in> set before")
    case True
    then have "z \<in> set (visited s)" using w that unfolding walking_def by blast
    then show ?thesis using child(2) by (auto simp: extends_def)
  qed (use that row(4) child(3) in simp)
  ultimately show ?thesis using w child(1,2) unfolding walking_def by (simp add: extends_def) blast
qed

lemma local_bundled:
  assumes "map_r f xs = Inr ys" "x \<in> set xs"
  shows "f x = Inr (case map_of (zip xs ys) x of None \<Rightarrow> [] | Some p \<Rightarrow> p)"
  using assms
proof (induction xs arbitrary: ys)
  case (Cons a xs)
  then obtain y ys' where "f a = Inr y" "map_r f xs = Inr ys'" "ys = y # ys'" by (auto simp: result_simps)
  with Cons show ?case by auto
qed simp

lemma needed_row_walking:
  assumes into: "\<And>y c s s'. traversal env entries s \<Longrightarrow> reached env entries y \<Longrightarrow> deeper y c s = (s', Inr ()) \<Longrightarrow>
      traversal env entries s' \<and> extends s s' \<and> y \<in> set (visited s')"
    and info: "file_of env x = Some i" "i_kind i = ''elf''" "reached env entries x"
    and x: "x \<in> set (active s0)" "x \<in> set (visited s0)"
    and soname: "soname \<in> set (needed i)" "bundled env x i soname = Inr (local soname)"
    and w: "walking env entries x i proposed s0 before s"
    and step: "needed_row deeper env decisions x local d proposed soname s = (s', Inr ())"
  shows "walking env entries x i proposed s0 (before @ [soname]) s'"
proof -
  have len: "length (rows s) < MAX_REQUIREMENTS"
    using step by (auto simp: needed_row_def result_simps)
  show ?thesis
  proof (cases "local soname = []")
    case False
    obtain path where path: "staged env (local soname) = Inr path"
      using step False by (cases "staged env (local soname)") (auto simp: needed_row_def result_simps split: if_splits)
    with False step obtain child where child: "inspect_elf env path None = Inr child"
        "deeper (local soname) child (s\<lparr>rows := rows s @ [requirement x soname (local soname) ''bundled'']\<rparr>) = (s', Inr ())"
      by (cases "inspect_elf env path None") (auto simp: needed_row_def result_simps add_row_def split: if_splits)
    let ?row = "requirement x soname (local soname) ''bundled''"
    have row: "requester ?row = x" "r_soname ?row = soname" "row_sound env (depends s) ?row"
      using info soname False by (auto simp: row_sound_def requirement_def)
    have "reached env entries (local soname)"
      using reached.linked [OF info(3) info(1,2) soname False] .
    moreover have "traversal env entries (s\<lparr>rows := rows s @ [?row]\<rparr>)"
      by (rule traversal_add_row) (use w x(1) len row in \<open>auto simp: walking_def\<close>)
    ultimately have "traversal env entries s' \<and> extends (s\<lparr>rows := rows s @ [?row]\<rparr>) s' \<and> local soname \<in> set (visited s')"
      using into child(2) by blast
    then show ?thesis using walking_bundled [OF w x len row soname(2)] by blast
  next
    case True
    have no: "\<And>y. bundled env x i soname = Inr y \<Longrightarrow> y = []" using soname(2) True by simp
    show ?thesis
    proof (cases "map_of decisions soname")
      case None
      then have "external_row env x d proposed soname s = (s', Inr ())"
        using step True len by (simp add: needed_row_def result_simps)
      then obtain row s1 where row: "frame s s1" "s' = s1\<lparr>rows := rows s1 @ [row]\<rparr>" "requester row = x" "r_soname row = soname"
          "r_status row = ''resolved_external''" "version_constraint row \<in> set proposed"
          "package_of (version_constraint row) = r_package row"
        by (rule external_row_success)
      have w1: "walking env entries x i proposed s0 before s1" using w row(1) by (rule walking_frame)
      have "row_sound env (depends s1) row"
        using info soname row(3-7) w1 by (auto simp: row_sound_def walking_def)
      with walking_add_row [OF w1 x(1) _ row(3,4) _ no] len row(1,2) show ?thesis by (simp add: frame_def)
    next
      case (Some dec)
      show ?thesis
      proof (cases "d_action dec = ''ignore''")
        case ignored: True
        let ?row = "(requirement x soname [] ''ignored_explicitly'')\<lparr>operator_decision := d_reason dec\<rparr>"
        have "s' = s\<lparr>rows := rows s @ [?row]\<rparr>"
          using step True len Some ignored by (simp add: needed_row_def result_simps add_row_def)
        moreover have "row_sound env (depends s) ?row" using info soname by (auto simp: row_sound_def requirement_def)
        ultimately show ?thesis using walking_add_row [OF w x(1) len _ _ _ no, where row = ?row] by (simp add: requirement_def)
      next
        case manual: False
        let ?ds = "List.insert (d_relation dec) (depends s)"
        let ?row = "(requirement x soname [] ''manually_resolved'')\<lparr>r_package := package_of (d_relation dec),
            version_constraint := d_relation dec, metadata_source := ''operator_mapping'', operator_decision := d_reason dec\<rparr>"
        have s': "s' = (s\<lparr>depends := ?ds\<rparr>)\<lparr>rows := rows (s\<lparr>depends := ?ds\<rparr>) @ [?row]\<rparr>"
          using step True len Some manual by (simp add: needed_row_def result_simps add_row_def)
        have "traversal env entries (s\<lparr>depends := ?ds\<rparr>)"
          by (rule traversal_add_depends) (use w in \<open>auto simp: walking_def\<close>)
        then have w1: "walking env entries x i proposed s0 before (s\<lparr>depends := ?ds\<rparr>)"
          using w by (auto simp: walking_def rows_of_def)
        have "row_sound env ?ds ?row" using info soname by (auto simp: row_sound_def requirement_def)
        then show ?thesis
          unfolding s' using walking_add_row [OF w1 x(1) _ _ _ _ no, where row = ?row] len by (simp add: requirement_def)
      qed
    qed
  qed
qed

lemma walk_needed_walking:
  assumes into: "\<And>y c s s'. traversal env entries s \<Longrightarrow> reached env entries y \<Longrightarrow> deeper y c s = (s', Inr ()) \<Longrightarrow>
      traversal env entries s' \<and> extends s s' \<and> y \<in> set (visited s')"
    and info: "file_of env x = Some i" "i_kind i = ''elf''" "reached env entries x"
    and x: "x \<in> set (active s0)" "x \<in> set (visited s0)"
    and start: "traversal env entries s0" "rows_of x s0 = []"
    and step: "walk_needed deeper env decisions x i s0 = (s', Inr ())"
  shows "\<exists>proposed. walking env entries x i proposed s0 (needed i) s'"
proof -
  obtain selected where selected: "map_r (bundled env x i) (needed i) = Inr selected"
    using step by (auto simp: walk_needed_def result_simps)
  define local where "local = (\<lambda>soname. case map_of (zip (needed i) selected) soname of None \<Rightarrow> [] | Some p \<Rightarrow> p)"
  define external where "external = filter (\<lambda>soname. local soname = [] \<and> map_of decisions soname = None) (needed i)"
  define resolving where "resolving = (if linkage i = Some ''dynamic''
        then
          bind_o (resolve_external env x external) (\<lambda>(found_in, proposed).
          bind_o (modify_s (\<lambda>s. s\<lparr>depends := fold List.insert proposed (depends s)\<rparr>)) (\<lambda>_.
          ret (found_in, proposed)))
        else ret (\<lparr>sources = (\<lambda>_. None), found = (\<lambda>_. None), depends_line = []\<rparr>, []))"
  obtain s1 d proposed s2 where run: "resolving s0 = (s1, Inr (d, proposed))"
      "(if interpreter i \<noteq> []
        then bind_o (owner env (interpreter i)) (\<lambda>own. bind_o (lift_r (dependency_for own proposed)) (\<lambda>_. ret ()))
        else ret ()) s1 = (s2, Inr ())"
      "for_each (needed_row deeper env decisions x local d proposed) (needed i) s2 = (s', Inr ())"
    using step unfolding walk_needed_def result_simps selected resolving_def external_def local_def Let_def
    by (auto simp: result_simps)
  have "walking env entries x i proposed s0 [] s1"
  proof (cases "linkage i = Some ''dynamic''")
    case True
    then obtain s3 where s3: "resolve_external env x external s0 = (s3, Inr (d, proposed))"
        "s1 = s3\<lparr>depends := fold List.insert proposed (depends s3)\<rparr>"
      using run(1) by (auto simp: resolving_def result_simps)
    have grow: "set (fold List.insert proposed (depends s3)) = set (depends s3) \<union> set proposed"
      by (induction proposed arbitrary: s3 rule: rev_induct) auto
    have "frame s0 s3" by (rule resolve_external_success [OF s3(1)])
    then have "traversal env entries s1"
      unfolding s3(2) using start(1) grow frame_traversal by (intro traversal_add_depends) auto
    then show ?thesis
      using \<open>frame s0 s3\<close> start grow unfolding s3(2) walking_def by (auto simp: frame_def rows_of_def)
  next
    case False
    then show ?thesis using run(1) start by (auto simp: resolving_def result_simps walking_def)
  qed
  moreover have "frame s1 s2"
    using run(2) by (auto simp: result_simps frame_refl split: if_splits dest: owner_frame)
  ultimately have first: "walking env entries x i proposed s0 [] s2" by (rule walking_frame)
  have "walking env entries x i proposed s0 (needed i) s'"
  proof (rule for_each_success [where P = "walking env entries x i proposed s0", OF run(3) first])
    fix before soname after s1 s2 u
    assume split: "needed i = before @ soname # after" and w: "walking env entries x i proposed s0 before s1"
      and row: "needed_row deeper env decisions x local d proposed soname s1 = (s2, Inr u)"
    have soname: "soname \<in> set (needed i)" using split by simp
    have "bundled env x i soname = Inr (local soname)"
      unfolding local_def using local_bundled [OF selected soname] .
    then show "walking env entries x i proposed s0 (before @ [soname]) s2"
      using needed_row_walking [where deeper = deeper and env = env and entries = entries, OF into info x soname _ w] row by simp
  qed
  then show ?thesis by blast
qed

lemma inspect_verified: "inspect_elf env p (Some h) = Inr i \<Longrightarrow> inspect_elf env p None = Inr i"
  by (auto simp: inspect_elf_def result_simps split: if_splits)

lemma walk_file_traversal:
  assumes into: "\<And>y c s s'. traversal env entries s \<Longrightarrow> reached env entries y \<Longrightarrow> deeper y c s = (s', Inr ()) \<Longrightarrow>
      traversal env entries s' \<and> extends s s' \<and> y \<in> set (visited s')"
    and s: "traversal env entries s" "x \<notin> set (visited s)" "length (visited s) < MAX_ELF_FILES"
    and x: "reached env entries x"
    and step: "walk_file deeper env decisions x i s = (s', Inr ())"
  shows "traversal env entries s' \<and> extends s s' \<and> x \<in> set (visited s')"
proof -
  obtain p where p: "staged env x = Inr p" using step by (auto simp: walk_file_def result_simps)
  let ?s1 = "s\<lparr>visited := x # visited s\<rparr>"
  obtain verified where v: "inspect_elf env p (Some (i_sha256 i)) = Inr verified"
    using step p by (cases "inspect_elf env p (Some (i_sha256 i))") (auto simp: walk_file_def result_simps)
  have eq: "verified = i" and rest: "(if i_kind i = ''not_elf'' then ret ()
         else if i_kind i \<noteq> ''elf'' then throw (failed ''malformed_elf'')
         else if i_architecture i \<noteq> ''amd64'' then throw (failed ''elf_architecture_mismatch'')
         else with_active x (walk_needed deeper env decisions x i)) ?s1 = (s', Inr ())"
    using step p v by (auto simp: walk_file_def result_simps)
  have info: "file_of env x = Some i" using p v eq inspect_verified by (simp add: file_of_def)
  have none: "rows_of x s = []" using s(1,2) by (auto simp: rows_of_def traversal_def filter_empty_conv)
  have same: "explained env s' z" if "explained env s z" "set (visited s) \<subseteq> set (visited s')" "rows_of z s' = rows_of z s" for z s'
    using that by (rule explained_visited)
  show ?thesis
  proof (cases "i_kind i = ''not_elf''")
    case True
    then have s': "s' = ?s1" using rest by (simp add: result_simps)
    have "explained env ?s1 x" using info True by (simp add: explained_def)
    moreover have "explained env ?s1 z" if "explained env s z" for z using same [OF that, of ?s1] by (auto simp: rows_of_def)
    ultimately show ?thesis unfolding s' using s x by (auto simp: traversal_def extends_def rows_of_def)
  next
    case False
    then have elf: "i_kind i = ''elf''" "i_architecture i = ''amd64''"
      and act: "with_active x (walk_needed deeper env decisions x i) ?s1 = (s', Inr ())"
      using rest by (auto simp: result_simps split: if_splits)
    let ?s2 = "?s1\<lparr>active := x # active ?s1\<rparr>"
    obtain s3 where s3: "walk_needed deeper env decisions x i ?s2 = (s3, Inr ())" "s' = s3\<lparr>active := removeAll x (active s3)\<rparr>"
      using act by (auto simp: with_active_def split: prod.splits)
    have x_new: "x \<notin> set (active s)" using s(1,2) by (auto simp: traversal_def)
    have "explained env ?s2 z" if "explained env s z" for z using same [OF that, of ?s2] by (auto simp: rows_of_def)
    then have start: "traversal env entries ?s2" using s x by (auto simp: traversal_def)
    have none2: "rows_of x ?s2 = []" using none by (simp add: rows_of_def)
    have "\<exists>proposed. walking env entries x i proposed ?s2 (needed i) s3"
      by (rule walk_needed_walking [where deeper = deeper, OF into info elf(1) x _ _ start none2 s3(1)]) simp_all
    then obtain proposed where w: "walking env entries x i proposed ?s2 (needed i) s3" by blast
    have act3: "active s' = active s" using w s3(2) x_new by (simp add: walking_def removeAll_id)
    have fields: "visited s' = visited s3" "rows s' = rows s3" "depends s' = depends s3" using s3(2) by simp_all
    have "explained env s3 x" using w info elf by (auto simp: explained_def walking_def)
    then have "\<forall>z \<in> set (visited s3) - set (active s). explained env s3 z"
      using w by (auto simp: walking_def traversal_def)
    then have "\<forall>z \<in> set (visited s') - set (active s'). explained env s' z"
      unfolding act3 fields using same [of _ s'] by (auto simp: explained_def rows_of_def fields)
    then have "traversal env entries s'"
      using w unfolding traversal_def act3 fields by (auto simp: walking_def traversal_def)
    moreover have "extends s s'"
      using w s(2) unfolding extends_def act3 fields by (auto simp: walking_def rows_of_def fields)
    moreover have "x \<in> set (visited s')" using w unfolding fields by (auto simp: walking_def)
    ultimately show ?thesis by blast
  qed
qed

lemma walk_traversal:
  assumes "traversal env entries s" "reached env entries x" "walk n env decisions x i s = (s', Inr ())"
  shows "traversal env entries s' \<and> extends s s' \<and> x \<in> set (visited s')"
  using assms
proof (induction n arbitrary: x i s s')
  case 0
  then have "s' = s" "x \<in> set (active s) \<or> x \<in> set (visited s)" by (auto simp: result_simps split: if_splits)
  then show ?case using 0(1) extends_refl by (auto simp: traversal_def)
next
  case (Suc n)
  show ?case
  proof (cases "x \<in> set (active s) \<or> x \<in> set (visited s)")
    case True
    then have "s' = s" using Suc.prems(3) by (auto simp: result_simps)
    then show ?thesis using True Suc.prems(1) extends_refl by (auto simp: traversal_def)
  next
    case False
    then have len: "length (visited s) < MAX_ELF_FILES"
      and run: "walk_file (walk n env decisions) env decisions x i s = (s', Inr ())"
      using Suc.prems(3) by (auto simp: result_simps split: if_splits)
    show ?thesis
      by (rule walk_file_traversal [where deeper = "walk n env decisions", OF _ Suc.prems(1) _ len Suc.prems(2) run])
        (use Suc.IH False in blast)+
  qed
qed

section \<open>The Depends field\<close>

text \<open>A relation is at least as strict as another one on the same package; \<open>rank\<close> is the order of
  Debian versions.\<close>

definition covers :: "(string \<Rightarrow> rat) \<Rightarrow> string \<Rightarrow> string \<Rightarrow> bool" where
  "covers rank r r' =
     (package_of r = package_of r' \<and>
      (version_of r' = None \<or> (\<exists>v v'. version_of r = Some v \<and> version_of r' = Some v' \<and> rank v' \<le> rank v)))"

text \<open>\<^verbatim>\<open>dpkg --compare-versions\<close> as documented: when it exits with status 0 or 1 and prints no warning
  about the syntax of a version, the status tells the order.  Of an answer with a warning, or with
  another status, nothing is said.\<close>

definition silent_verdict :: "command_result \<Rightarrow> bool" where
  "silent_verdict a = (\<not> timed_out a \<and> exit_code a \<in> {Some 0, Some 1} \<and> stdout a = [] \<and> stderr a = [])"

definition compares_by :: "(string \<Rightarrow> rat) \<Rightarrow> resolver_env \<Rightarrow> bool" where
  "compares_by rank env =
     (\<forall>t v w a. run_answer env t [''dpkg'', ''--compare-versions'', v, ''gt'', w] = Inr a \<and> silent_verdict a \<longrightarrow>
        (exit_code a = Some 0 \<longleftrightarrow> rank w < rank v))"

definition selection :: "(string \<times> string) list \<Rightarrow> bool" where
  "selection selected = (distinct (map fst selected) \<and> (\<forall>(p, r) \<in> set selected. package_of r = p))"

lemma covers_refl: "covers rank r r"
  by (cases "version_of r") (auto simp: covers_def)

lemma covers_trans: "covers rank a b \<Longrightarrow> covers rank b c \<Longrightarrow> covers rank a c"
  by (auto simp: covers_def)

lemma replaces_covers:
  assumes "replaces env r prev s = (s', Inr better)" "package_of r = package_of prev" "compares_by rank env"
  shows "covers rank (if better then r else prev) r \<and> covers rank (if better then r else prev) prev"
proof (cases "version_of prev")
  case None
  with assms show ?thesis by (auto simp: replaces_def result_simps covers_refl covers_def)
next
  case (Some old)
  show ?thesis
  proof (cases "version_of r")
    case None
    with Some assms show ?thesis by (auto simp: replaces_def result_simps covers_refl covers_def)
  next
    case r: (Some v)
    have "better = (rank old < rank v)"
      using assms(1) assms(3) [unfolded compares_by_def silent_verdict_def] Some r
      by (auto simp: replaces_def newer_def result_simps execute_def split: sum.splits if_splits)
    then show ?thesis using Some r assms(2) by (auto simp: covers_def)
  qed
qed

lemma update_subset: "set (AList.update k v al) \<subseteq> insert (k, v) (set al)"
  by (induction al) auto

lemma select_relations_success:
  assumes "select_relations env relations selected s = (s', Inr final)" "selection selected"
  shows "selection final \<and> fst ` set final = fst ` set selected \<union> package_of ` set relations \<and>
    snd ` set final \<subseteq> snd ` set selected \<union> set relations"
  using assms
proof (induction relations arbitrary: selected s)
  case (Cons r relations)
  show ?case
  proof (cases "map_of selected (package_of r)")
    case None
    then have "package_of r \<notin> fst ` set selected" by (simp add: map_of_eq_None_iff)
    then have "selection (selected @ [(package_of r, r)])" using Cons.prems(2) by (auto simp: selection_def)
    from Cons.IH [OF _ this] Cons.prems(1) None show ?thesis by auto
  next
    case (Some prev)
    then have mem: "(package_of r, prev) \<in> set selected" by (rule map_of_SomeD)
    obtain better s1 where step: "replaces env r prev s = (s1, Inr better)"
        "select_relations env relations (if better then AList.update (package_of r) r selected else selected) s1 = (s', Inr final)"
      using Cons.prems(1) Some by (auto simp: result_simps)
    let ?next = "if better then AList.update (package_of r) r selected else selected"
    have upd: "set (AList.update (package_of r) r selected) \<subseteq> insert (package_of r, r) (set selected)"
      by (rule update_subset)
    then have sel: "selection ?next" using Cons.prems(2) by (auto simp: selection_def distinct_update)
    have keys: "fst ` set ?next = fst ` set selected" "package_of r \<in> fst ` set selected"
      using mem by (auto simp: dom_update insert_absorb rev_image_eqI)
    have vals: "snd ` set ?next \<subseteq> insert r (snd ` set selected)" using upd by auto
    have IH: "selection final" "fst ` set final = fst ` set ?next \<union> package_of ` set relations"
        "snd ` set final \<subseteq> snd ` set ?next \<union> set relations"
      using Cons.IH [OF step(2) sel] by (simp_all only: simp_thms)
    have "fst ` set final = fst ` set selected \<union> package_of ` set (r # relations)"
      unfolding IH(2) keys(1) using keys(2) by auto
    moreover have "snd ` set final \<subseteq> snd ` set selected \<union> set (r # relations)"
      using IH(3) vals by (simp only: list.set) blast
    ultimately show ?thesis using IH(1) by blast
  qed
qed (auto simp: result_simps)

lemma select_relations_strictest:
  assumes "select_relations env relations selected s = (s', Inr final)" "selection selected" "compares_by rank env"
    and "\<forall>q \<in> Q. \<exists>r. map_of selected (package_of q) = Some r \<and> covers rank r q"
  shows "\<forall>q \<in> Q \<union> set relations. \<exists>r. map_of final (package_of q) = Some r \<and> covers rank r q"
  using assms
proof (induction relations arbitrary: selected s Q)
  case (Cons r relations)
  show ?case
  proof (cases "map_of selected (package_of r)")
    case None
    then have new: "package_of r \<notin> fst ` set selected" by (simp add: map_of_eq_None_iff)
    then have sel: "selection (selected @ [(package_of r, r)])" using Cons.prems(2) by (auto simp: selection_def)
    have "\<exists>f. map_of (selected @ [(package_of r, r)]) (package_of q) = Some f \<and> covers rank f q" if "q \<in> insert r Q" for q
    proof (cases "q = r")
      case False
      with that Cons.prems(4) obtain f where "map_of selected (package_of q) = Some f" "covers rank f q" by blast
      then show ?thesis by simp
    qed (use None covers_refl in \<open>simp add: map_add_def\<close>)
    then have "\<forall>q \<in> insert r Q \<union> set relations. \<exists>f. map_of final (package_of q) = Some f \<and> covers rank f q"
      using Cons.IH [OF _ sel Cons.prems(3), of _ "insert r Q"] Cons.prems(1) None by simp
    then show ?thesis by simp
  next
    case (Some prev)
    obtain better s1 where step: "replaces env r prev s = (s1, Inr better)"
        "select_relations env relations (if better then AList.update (package_of r) r selected else selected) s1 = (s', Inr final)"
      using Cons.prems(1) Some by (auto simp: result_simps)
    let ?next = "if better then AList.update (package_of r) r selected else selected"
    have pkg: "package_of r = package_of prev"
      using Cons.prems(2) map_of_SomeD [OF Some] by (auto simp: selection_def)
    note cov = replaces_covers [OF step(1) pkg Cons.prems(3)]
    have upd: "set (AList.update (package_of r) r selected) \<subseteq> insert (package_of r, r) (set selected)"
      by (rule update_subset)
    then have sel: "selection ?next" using Cons.prems(2) by (auto simp: selection_def distinct_update)
    have "\<exists>f. map_of ?next (package_of q) = Some f \<and> covers rank f q" if "q \<in> insert r Q" for q
    proof (cases "package_of q = package_of r")
      case True
      have "covers rank prev q \<or> q = r" using that Cons.prems(4) True Some by auto
      then have "covers rank (if better then r else prev) q" using cov covers_trans by blast
      then show ?thesis using True Some by (auto simp: update_conv' split: if_splits)
    next
      case False
      with that Cons.prems(4) obtain f where "map_of selected (package_of q) = Some f" "covers rank f q" by blast
      then show ?thesis using False by (auto simp: update_conv' split: if_splits)
    qed
    then have "\<forall>q \<in> insert r Q \<union> set relations. \<exists>f. map_of final (package_of q) = Some f \<and> covers rank f q"
      using Cons.IH [OF step(2) sel Cons.prems(3), of "insert r Q"] by simp
    then show ?thesis by simp
  qed
qed (auto simp: result_simps)

lemma merge_depends_success:
  assumes "merge_depends env relations s = (s', Inr final)"
  obtains selected where "select_relations env (sort (remdups relations)) [] s = (s', Inr selected)" "selection selected"
    "map package_of final = sort (map fst selected)" "set final = snd ` set selected"
    "fst ` set selected = package_of ` set relations" "snd ` set selected \<subseteq> set relations"
proof -
  obtain selected where sel: "select_relations env (sort (remdups relations)) [] s = (s', Inr selected)"
      "final = map (\<lambda>package. the (map_of selected package)) (sort (map fst selected))"
    using assms by (auto simp: merge_depends_def result_simps)
  have ok: "selection selected \<and> fst ` set selected = package_of ` set relations \<and> snd ` set selected \<subseteq> set relations"
    using select_relations_success [OF sel(1)] by (simp add: selection_def)
  have get: "the (map_of selected p) = r" if "(p, r) \<in> set selected" for p r
    using ok that by (simp add: selection_def)
  have "package_of (the (map_of selected p)) = p" if "p \<in> fst ` set selected" for p
  proof -
    from that obtain r where "(p, r) \<in> set selected" by auto
    with ok get show ?thesis by (auto simp: selection_def)
  qed
  then have "map package_of final = map id (sort (map fst selected))"
    unfolding sel(2) map_map by (intro map_cong) auto
  moreover have "set final = snd ` set selected"
    unfolding sel(2) using get by (auto simp: image_iff) force+
  ultimately show thesis using that sel(1) ok by auto
qed

section \<open>A successful resolution\<close>

lemma run_commands_frame: "prepared env s = (s', Inr u) \<Longrightarrow> frame s s'"
proof -
  assume "prepared env s = (s', Inr u)"
  then obtain s1 a s2 b s3 r where step: "run_command env False [''cat'', ''/etc/os-release''] s = (s1, Inr a)"
      "run_command env False [''dpkg'', ''--print-architecture''] s1 = (s2, Inr b)"
      "bind_o (run_command env False [''test'', ''-x'', ''/usr/bin/dpkg-shlibdeps'']) (\<lambda>_.
         run_command env False [''test'', ''-f'', WORK_ROOT @ ''/debian/control'']) s2 = (s3, r)"
      "(case r of Inr _ \<Rightarrow> ret ()
        | Inl (ResolutionError code reqs) \<Rightarrow>
            throw (ResolutionError (if code = ''resolver_command_failed'' then ''resolver_environment_incomplete'' else code)
              (if code = ''resolver_command_failed'' then [] else reqs))
        | Inl e \<Rightarrow> throw e) s3 = (s', Inr u)"
    by (auto simp: prepared_def result_simps)
  obtain s4 q where first: "run_command env False [''test'', ''-x'', ''/usr/bin/dpkg-shlibdeps''] s2 = (s4, q)" by fastforce
  have "frame s2 s3"
  proof (cases q)
    case (Inl e)
    then have "s3 = s4" using step(3) first by (simp add: bind_o_def)
    then show ?thesis using first run_command_frame by blast
  next
    case (Inr x)
    then have "run_command env False [''test'', ''-f'', WORK_ROOT @ ''/debian/control''] s4 = (s3, r)"
      using step(3) first by (simp add: bind_o_def)
    then show ?thesis using first run_command_frame frame_trans by blast
  qed
  moreover have "s' = s3" using step(4) by (auto simp: result_simps split: sum.splits resolver_exn.splits)
  ultimately show "frame s s'" using run_command_frame [OF step(1)] run_command_frame [OF step(2)] by (blast intro: frame_trans)
qed

lemma resolve_success:
  assumes "resolve_elf_dependencies st entrypoints ''bookworm'' ''amd64'' (Some env) overrides = Inr res"
  obtains s s' where "traversal env (map fst entrypoints) s" "active s = []"
    "\<forall>x. x \<in> set (visited s) \<longleftrightarrow> reached env (map fst entrypoints) x"
    "merge_depends env (depends s) s = (s', Inr (result_depends res))"
    "requirements res = rows s" "result_status res = ''success''"
proof -
  let ?entries = "map fst entrypoints"
  obtain decisions where "snd (resolve_prepared env decisions entrypoints initial_resolver) = Inr res"
    using assms unfolding resolve_elf_dependencies_def by (auto split: sum.splits if_splits prod.splits)
  then obtain s' where "resolve_prepared env decisions entrypoints initial_resolver = (s', Inr res)"
    by (cases "resolve_prepared env decisions entrypoints initial_resolver") simp
  then obtain s0 s final where step: "prepared env initial_resolver = (s0, Inr ())"
      "for_each (\<lambda>e. walk (MAX_DEPTH + 1) env decisions (fst e) (snd e)) (sort_key fst entrypoints) s0 = (s, Inr ())"
      "merge_depends env (depends s) s = (s', Inr final)"
      "res = \<lparr>result_status = ''success'', distribution = ''bookworm'', architecture = ''amd64'', result_depends = final,
          requirements = rows s\<rparr>"
    by (auto simp: resolve_prepared_def result_simps)
  have "traversal env ?entries initial_resolver" by (simp add: traversal_def initial_resolver_def)
  then have start: "traversal env ?entries s0 \<and> active s0 = []"
    using run_commands_frame [OF step(1)] by (simp add: frame_traversal) (simp add: frame_def initial_resolver_def)
  have walked: "traversal env ?entries s \<and> active s = [] \<and> fst ` set (sort_key fst entrypoints) \<subseteq> set (visited s)"
  proof (rule for_each_success [where P = "\<lambda>before s. traversal env ?entries s \<and> active s = [] \<and> fst ` set before \<subseteq> set (visited s)",
        OF step(2)])
    fix before e after s1 s2 u
    assume split: "sort_key fst entrypoints = before @ e # after"
      and inv: "traversal env ?entries s1 \<and> active s1 = [] \<and> fst ` set before \<subseteq> set (visited s1)"
      and walk: "walk (MAX_DEPTH + 1) env decisions (fst e) (snd e) s1 = (s2, Inr u)"
    obtain x i where e: "e = (x, i)" by (cases e)
    have "e \<in> set (sort_key fst entrypoints)" unfolding split by simp
    then have "reached env ?entries x" unfolding e by (intro reached.entry) force
    then have "traversal env ?entries s2 \<and> extends s1 s2 \<and> x \<in> set (visited s2)"
      using walk_traversal [of env ?entries s1 x "MAX_DEPTH + 1" decisions i s2] inv walk e by simp
    with inv e show "traversal env ?entries s2 \<and> active s2 = [] \<and> fst ` set (before @ [e]) \<subseteq> set (visited s2)"
      by (auto simp: extends_def)
  qed (use start in simp)
  have "x \<in> set (visited s)" if "reached env ?entries x" for x
    using that
  proof (induction rule: reached.induct)
    case (entry x)
    then show ?case using walked by auto
  next
    case (linked x i soname y)
    then have "explained env s x" using walked by (auto simp: traversal_def)
    then show ?case using linked by (auto simp: explained_def)
  qed
  then have "x \<in> set (visited s) \<longleftrightarrow> reached env ?entries x" for x
    using walked by (auto simp: traversal_def)
  with walked step(3,4) that show thesis by auto
qed

section \<open>A concrete package\<close>

text \<open>A program with a private library, reached through a link, and the C library.\<close>

definition sample_tree :: "string list \<Rightarrow> node option" where
  "sample_tree = map_of [
     ([''u''], Directory), ([''u'', ''b''], Directory), ([''u'', ''l''], Directory), ([''u'', ''b'', ''app''], Regular),
     ([''u'', ''l'', ''libx''], Symlink ''libx.1''), ([''u'', ''l'', ''libx.1''], Regular)]"

definition sample_inspection :: "string \<Rightarrow> string list \<Rightarrow> string list \<Rightarrow> inspection" where
  "sample_inspection soname libs paths = \<lparr>i_kind = ''elf'', i_sha256 = ''a'', i_size = 1, i_header = ([], [], [], []),
     i_architecture = ''amd64'', linkage = Some ''dynamic'', interpreter = [], i_soname = soname, needed = libs, rpath = [],
     runpath = paths, version_requirements = [], diagnostics = []\<rparr>"

definition sample_app :: inspection where
  "sample_app = sample_inspection [] [''libx'', ''libc.so.6''] [''$ORIGIN/../l'']"

definition sample_file :: "string list \<Rightarrow> elf_file" where
  "sample_file path = Inr (''a'', Inr (if path = [''u'', ''b'', ''app''] then sample_app else sample_inspection ''libx'' [] []))"

definition sample_answer :: "nat \<Rightarrow> string list \<Rightarrow> exn + command_result" where
  "sample_answer t args = Inr
     \<lparr>stdout =
        (if hd args = ''cat'' then ''VERSION_CODENAME=bookworm''
         else if hd args = ''dpkg'' then ''amd64''
         else if hd args = ''test'' then []
         else if hd args = ''realpath'' then args ! 2
         else if hd args = ''dpkg-query'' then ''libc6:amd64: /c''
         else if last args = ''-e/debbuilder-staging/u/b/app''
         then ''dpkg-shlibdeps: debug: Library libc.so.6 found in /c'' @ CHR 0x0A #
           ''dpkg-shlibdeps: debug: Using symbols file /var/lib/dpkg/info/libc6:amd64.symbols for libc.so.6'' @ CHR 0x0A #
           ''shlibs:Depends=libc6 (>= 2.36)''
         else ''shlibs:Depends=''),
      stderr = [], timed_out = False, exit_code = Some 0\<rparr>"

definition sample_resolver :: resolver_env where
  "sample_resolver = \<lparr>tree = sample_tree, elf_file = sample_file, run_answer = sample_answer, filtered_installed = []\<rparr>"

definition sample_staging :: staging where
  "sample_staging = \<lparr>is_real_directory = True, mounted_here = True, has_control = True\<rparr>"

definition sample_resolution :: resolution where
  "sample_resolution = \<lparr>result_status = ''success'', distribution = ''bookworm'', architecture = ''amd64'',
     result_depends = [''libc6 (>= 2.36)''],
     requirements = [requirement ''/u/b/app'' ''libx'' ''/u/l/libx.1'' ''bundled'',
       (requirement ''/u/b/app'' ''libc.so.6'' ''/c'' ''resolved_external'')
         \<lparr>r_package := ''libc6'', version_constraint := ''libc6 (>= 2.36)'', metadata_source := ''symbols''\<rparr>]\<rparr>"

lemma sample_resolved:
  "resolve_elf_dependencies sample_staging [(''/u/b/app'', sample_app)] ''bookworm'' ''amd64'' (Some sample_resolver) [] =
     Inr sample_resolution"
  by code_simp

text \<open>Every package that a relation names is in the Depends field.\<close>

lemma depends_packages:
  assumes "merge_depends env relations s = (s', Inr final)" "q \<in> set relations"
  shows "\<exists>d \<in> set final. package_of d = package_of q"
proof -
  obtain selected where "select_relations env (sort (remdups relations)) [] s = (s', Inr selected)" "selection selected"
    and sel: "map package_of final = sort (map fst selected)"
    and "set final = snd ` set selected" and keys: "fst ` set selected = package_of ` set relations"
    and "snd ` set selected \<subseteq> set relations"
    using assms(1) by (rule merge_depends_success)
  have "package_of ` set final = set (sort (map fst selected))" unfolding sel [symmetric] by simp
  also have "\<dots> = package_of ` set relations" unfolding keys [symmetric] by simp
  finally have "package_of q \<in> package_of ` set final" using assms(2) by blast
  then show ?thesis by auto
qed

text \<open>What a row of a reached library says, once its relations are in the Depends field.\<close>

lemma sound_row_explained:
  assumes "reached env entries (requester r)" "row_sound env relations r"
    and "\<forall>q \<in> set relations. \<exists>d \<in> set final. package_of d = package_of q"
  shows "r_status r = ''bundled'' \<and> reached env entries (selected_library r) \<or> r_status r = ''ignored_explicitly'' \<or>
    r_status r \<in> {''resolved_external'', ''manually_resolved''} \<and> (\<exists>d \<in> set final. package_of d = r_package r)"
proof -
  from assms(2) obtain i where i: "file_of env (requester r) = Some i" "i_kind i = ''elf''" "r_soname r \<in> set (needed i)"
      "if r_status r = ''bundled''
      then selected_library r \<noteq> [] \<and> bundled env (requester r) i (r_soname r) = Inr (selected_library r)
      else r_status r = ''ignored_explicitly'' \<or>
        r_status r \<in> {''resolved_external'', ''manually_resolved''} \<and> version_constraint r \<in> set relations \<and>
        package_of (version_constraint r) = r_package r"
    unfolding row_sound_def by blast
  show ?thesis
  proof (cases "r_status r = ''bundled''")
    case True
    then have "reached env entries (selected_library r)"
      using reached.linked [OF assms(1) i(1-3)] i(4) by simp
    with True show ?thesis by simp
  next
    case False
    with i(4) assms(3) show ?thesis by (metis (no_types, lifting))
  qed
qed

section \<open>Properties\<close>

text \<open>C28: following the links of a bundled library always ends: the loop returns for every tree,
  links in a circle included, and a path it returns is a regular file of the staging tree,
  reached through directories only, none of whose components is special.\<close>

theorem bundled_path_returns:
  shows "\<exists>r. staged_bundled env installed = Some r \<and>
    (\<forall>final path. r = Inr (final, path) \<longrightarrow> path = pure_parts final \<and> path \<noteq> [] \<and> tree env path = Some Regular \<and>
       (\<forall>k. 0 < k \<and> k < length path \<longrightarrow> tree env (take k path) = Some Directory) \<and> (\<forall>c \<in> set path. plain_part c))"
proof -
  obtain r where r: "staged_bundled env installed = Some r" using staged_bundled_returns by blast
  have "path = pure_parts final \<and> path \<noteq> [] \<and> tree env path = Some Regular \<and>
      (\<forall>k. 0 < k \<and> k < length path \<longrightarrow> tree env (take k path) = Some Directory) \<and> (\<forall>c \<in> set path. plain_part c)"
    if "r = Inr (final, path)" for final path
  proof -
    have "staged env final = Inr path" using r that by (auto dest: staged_bundled_file)
    then show ?thesis using staged_file by (simp add: plain_file_def)
  qed
  with r show ?thesis by blast
qed

theorem bundled_path_returns_witness:
  "staged_bundled sample_resolver ''/u/l/libx'' = Some (Inr (''/u/l/libx.1'', [''u'', ''l'', ''libx.1''])) \<and>
   tree sample_resolver [''u'', ''l'', ''libx.1''] = Some Regular"
proof -
  have "staged_bundled sample_resolver ''/u/l/libx'' = Some (Inr (''/u/l/libx.1'', [''u'', ''l'', ''libx.1'']))"
    by code_simp
  with bundled_path_returns [of sample_resolver "''/u/l/libx''"] show ?thesis
    by (simp only: option.inject) blast
qed

text \<open>C23: a successful resolution explains exactly the libraries that the entry points reach
  through bundled libraries: each of them is an ELF file for amd64 (or no ELF file) and has one
  row for each library it needs, in that order; each row belongs to one of them, and is bundled
  (then the selected library is reached too), ignored by an override, or resolved to a package
  of the Depends field.  At most 128 libraries and 512 rows are involved.\<close>

theorem resolution_explains_closure:
  assumes "resolve_elf_dependencies st entrypoints ''bookworm'' ''amd64'' (Some env) overrides = Inr res"
  shows "result_status res = ''success'' \<and>
    (\<forall>x. reached env (map fst entrypoints) x \<longrightarrow> (\<exists>i. file_of env x = Some i \<and> (i_kind i = ''not_elf'' \<or>
       i_kind i = ''elf'' \<and> i_architecture i = ''amd64'' \<and>
       map r_soname (filter (\<lambda>r. requester r = x) (requirements res)) = needed i))) \<and>
    (\<forall>r \<in> set (requirements res). reached env (map fst entrypoints) (requester r) \<and>
       (r_status r = ''bundled'' \<and> reached env (map fst entrypoints) (selected_library r) \<or>
        r_status r = ''ignored_explicitly'' \<or>
        r_status r \<in> {''resolved_external'', ''manually_resolved''} \<and>
          (\<exists>d \<in> set (result_depends res). package_of d = r_package r))) \<and>
    card {x. reached env (map fst entrypoints) x} \<le> 128 \<and> length (requirements res) \<le> 512"
proof -
  obtain s s' where s: "traversal env (map fst entrypoints) s" "active s = []"
    and visited: "\<forall>x. x \<in> set (visited s) \<longleftrightarrow> reached env (map fst entrypoints) x"
    and merged: "merge_depends env (depends s) s = (s', Inr (result_depends res))"
    and res: "requirements res = rows s" "result_status res = ''success''"
    using assms by (rule resolve_success)
  have "\<exists>i. file_of env x = Some i \<and> (i_kind i = ''not_elf'' \<or> i_kind i = ''elf'' \<and> i_architecture i = ''amd64'' \<and>
       map r_soname (filter (\<lambda>r. requester r = x) (requirements res)) = needed i)"
    if "reached env (map fst entrypoints) x" for x
  proof -
    have "explained env s x" using s that visited by (simp add: traversal_def)
    then show ?thesis unfolding explained_def res rows_of_def by (elim exE) (rule exI, auto)
  qed
  moreover have "reached env (map fst entrypoints) (requester r) \<and>
       (r_status r = ''bundled'' \<and> reached env (map fst entrypoints) (selected_library r) \<or>
        r_status r = ''ignored_explicitly'' \<or>
        r_status r \<in> {''resolved_external'', ''manually_resolved''} \<and>
          (\<exists>d \<in> set (result_depends res). package_of d = r_package r))"
    if "r \<in> set (requirements res)" for r
  proof -
    have r: "reached env (map fst entrypoints) (requester r)" "row_sound env (depends s) r"
      using that s(1) visited unfolding res traversal_def by auto
    then show ?thesis using sound_row_explained depends_packages [OF merged] by blast
  qed
  moreover have "{x. reached env (map fst entrypoints) x} = set (visited s)" using visited by blast
  then have "card {x. reached env (map fst entrypoints) x} \<le> 128"
    using s(1) card_length [of "visited s"] by (simp add: traversal_def MAX_ELF_FILES_def)
  moreover have "length (requirements res) \<le> 512" using s(1) res by (simp add: traversal_def MAX_REQUIREMENTS_def)
  ultimately show ?thesis using res(2) by blast
qed

theorem resolution_explains_closure_witness:
  "result_status sample_resolution = ''success'' \<and> reached sample_resolver [''/u/b/app''] ''/u/l/libx.1''"
proof -
  from resolution_explains_closure [OF sample_resolved] show ?thesis
    by (simp add: sample_resolution_def requirement_def)
qed

text \<open>C27: the Depends field has one relation per package, sorted by package, each of them required
  by some library or override, and for every required relation one on the same package that is
  at least as strict in the order of Debian versions.  It is built only from comparisons that
  \<^verbatim>\<open>dpkg\<close> makes without complaint: a warning, another exit status or a timeout is an error, and the
  order is known of the other answers only.\<close>

theorem merged_depends_strictest:
  assumes "merge_depends env relations s = (s', Inr final)" "compares_by rank env"
  shows "sorted (map package_of final) \<and> distinct (map package_of final) \<and> set final \<subseteq> set relations \<and>
    (\<forall>q \<in> set relations. \<exists>r \<in> set final. package_of r = package_of q \<and>
       (\<forall>v. version_of q = Some v \<longrightarrow> (\<exists>w. version_of r = Some w \<and> rank v \<le> rank w)))"
proof -
  obtain selected where sel: "select_relations env (sort (remdups relations)) [] s = (s', Inr selected)" "selection selected"
    "map package_of final = sort (map fst selected)" "set final = snd ` set selected"
    "fst ` set selected = package_of ` set relations" "snd ` set selected \<subseteq> set relations"
    using assms(1) by (rule merge_depends_success)
  have empty: "selection []" by (simp add: selection_def)
  have "\<exists>r \<in> set final. covers rank r q" if "q \<in> set relations" for q
  proof -
    have "\<exists>r. map_of selected (package_of q) = Some r \<and> covers rank r q"
      using select_relations_strictest [OF sel(1) empty assms(2), of "{}"] that by simp
    then show ?thesis unfolding sel(4) by (force dest: map_of_SomeD)
  qed
  then have "\<forall>q \<in> set relations. \<exists>r \<in> set final. package_of r = package_of q \<and>
       (\<forall>v. version_of q = Some v \<longrightarrow> (\<exists>w. version_of r = Some w \<and> rank v \<le> rank w))"
    by (fastforce simp: covers_def)
  moreover have "distinct (map package_of final)" using sel(2,3) by (simp add: selection_def)
  ultimately show ?thesis using sel(3,4,6) by simp
qed

text \<open>A comparison by length of the versions that begin with a digit; of any other version
  \<^verbatim>\<open>dpkg\<close> complains.\<close>

definition comparing :: resolver_env where
  "comparing = sample_resolver\<lparr>run_answer := (\<lambda>_ args. Inr
     \<lparr>stdout = [], stderr = (if is_dec (hd (args ! 2)) \<and> is_dec (hd (args ! 4)) then []
          else ''dpkg: warning: version has bad syntax: version number does not start with digit''),
      timed_out = False, exit_code = Some (if length (args ! 4) < length (args ! 2) then 0 else 1)\<rparr>)\<rparr>"

theorem merged_depends_strictest_witness:
  "\<exists>s' final. merge_depends comparing [''a (>= 1)'', ''b'', ''a (>= 10)'', ''a''] initial_resolver = (s', Inr final) \<and>
     final = [''a (>= 10)'', ''b''] \<and> sorted (map package_of final) \<and>
     snd (merge_depends comparing [''a (>= 1)'', ''a (>= x)''] initial_resolver) = Inl (failed ''resolver_command_failed'')"
proof -
  have "compares_by (\<lambda>v. of_nat (length v)) comparing" by (simp add: compares_by_def comparing_def)
  moreover obtain s' where "merge_depends comparing [''a (>= 1)'', ''b'', ''a (>= 10)'', ''a''] initial_resolver = (s', Inr [''a (>= 10)'', ''b''])"
  proof -
    have "merge_depends comparing [''a (>= 1)'', ''b'', ''a (>= 10)'', ''a''] initial_resolver =
        (initial_resolver\<lparr>r_tick := 1\<rparr>, Inr [''a (>= 10)'', ''b''])" by code_simp
    then show thesis by (rule that)
  qed
  moreover have "snd (merge_depends comparing [''a (>= 1)'', ''a (>= x)''] initial_resolver) =
      Inl (failed ''resolver_command_failed'')" by code_simp
  ultimately show ?thesis using merged_depends_strictest by blast
qed

end
