(* ===== verification/Api_Routes.thy ===== *)
theory Api_Routes
  imports Lifecycle Posix_Paths
begin

text \<open>
  \<^verbatim>\<open>src/debbuilder/api_routes.py\<close>: the registry of the admin API, its start-up check and
  the matching of a request, with the classification of durable mutations from
  \<^verbatim>\<open>src/debbuilder/lifecycle.py\<close>.  \<^verbatim>\<open>urllib.parse.unquote\<close> is an argument.
\<close>

section \<open>Routes\<close>

datatype route_effect = READ_ONLY | EPHEMERAL_ACTION | DURABLE_MUTATION

record api_route =
  r_method :: string
  path_template :: string
  operation_id :: string
  r_handler :: string
  r_effect :: route_effect
  r_tags :: "string list"
  r_summary :: string
  error_schemas :: "string list"

definition route :: "string \<Rightarrow> string \<Rightarrow> string \<Rightarrow> string \<Rightarrow> route_effect \<Rightarrow> string \<Rightarrow> string \<Rightarrow> api_route" where
  "route m template oid h e tag s = \<lparr>r_method = m, path_template = template, operation_id = oid, r_handler = h,
     r_effect = e, r_tags = [tag], r_summary = s, error_schemas = [''ApiError'']\<rparr>"

definition ADMIN_API_ROUTES :: "api_route list" where
  "ADMIN_API_ROUTES = [
     route ''GET'' ''/api/status'' ''system.status'' ''_get_status'' READ_ONLY ''system'' ''Get application status'',
     route ''GET'' ''/api/system/diagnostics'' ''system.diagnostics'' ''_get_system_diagnostics'' READ_ONLY ''system'' ''Get bounded system diagnostics'',
     route ''GET'' ''/api/support-bundle'' ''support_bundle.get'' ''_get_support_bundle'' READ_ONLY ''system'' ''Download a bounded support bundle'',
     route ''GET'' ''/api/openapi.json'' ''system.openapi'' ''_get_openapi'' READ_ONLY ''system'' ''Get the OpenAPI contract'',
     route ''GET'' ''/api/auth/status'' ''auth.status'' ''_get_auth_status'' READ_ONLY ''authentication'' ''Get authentication status'',
     route ''GET'' ''/api/dashboard'' ''dashboard.get'' ''_get_dashboard'' READ_ONLY ''dashboard'' ''Get dashboard summary'',
     route ''GET'' ''/api/packages'' ''packages.list'' ''_get_packages'' READ_ONLY ''packages'' ''List packages'',
     route ''GET'' ''/api/repository/inventory'' ''repository.inventory'' ''_get_repository_inventory'' READ_ONLY ''repository'' ''List exact reprepro inventory'',
     route ''GET'' ''/api/packages/{name}'' ''packages.get'' ''_get_package'' READ_ONLY ''packages'' ''Get a package'',
     route ''GET'' ''/api/recipes'' ''recipes.list'' ''_get_recipes'' READ_ONLY ''recipes'' ''List recipes'',
     route ''GET'' ''/api/recipes/{recipe_id}/inspect'' ''recipes.inspect'' ''_get_recipe_inspection'' READ_ONLY ''recipes'' ''Inspect one Recipe safely'',
     route ''GET'' ''/api/recipes/{recipe_id}/automation'' ''automation.get'' ''_get_automation'' READ_ONLY ''automation'' ''Get recipe automation status'',
     route ''GET'' ''/api/executions'' ''executions.list'' ''_get_executions'' READ_ONLY ''executions'' ''List executions'',
     route ''GET'' ''/api/executions/{run_id}'' ''executions.get'' ''_get_execution'' READ_ONLY ''executions'' ''Get an execution'',
     route ''GET'' ''/api/executions/{run_id}/inspect'' ''executions.inspect'' ''_get_run_inspection'' READ_ONLY ''executions'' ''Inspect one Run safely'',
     route ''GET'' ''/api/executions/{run_id}/logs'' ''executions.logs.get'' ''_get_execution_log'' READ_ONLY ''executions'' ''Get execution logs'',
     route ''GET'' ''/api/executions/{run_id}/validations/{attempt_id}'' ''validation.get'' ''_get_validation'' READ_ONLY ''validation'' ''Get a validation attempt'',
     route ''GET'' ''/api/settings'' ''settings.get'' ''_get_settings'' READ_ONLY ''settings'' ''Get settings'',
     route ''GET'' ''/api/storage'' ''storage.get'' ''_get_storage'' READ_ONLY ''storage'' ''Get storage inventory'',
     route ''GET'' ''/api/workflows'' ''workflows.list'' ''_get_workflows'' READ_ONLY ''workflows'' ''List workflows'',
     route ''GET'' ''/api/workflows/{workflow_id}'' ''workflows.get'' ''_get_workflow'' READ_ONLY ''workflows'' ''Get a workflow'',
     route ''POST'' ''/api/recipes/{recipe_id}/observation/refresh'' ''observations.refresh'' ''_post_observation_refresh'' DURABLE_MUTATION ''observations'' ''Refresh upstream observation'',
     route ''POST'' ''/api/recipes/{recipe_id}/automation/check'' ''automation.check'' ''_post_automation_check'' DURABLE_MUTATION ''automation'' ''Check recipe automation now'',
     route ''POST'' ''/api/recipes/{recipe_id}/automation/retry'' ''automation.retry'' ''_post_automation_retry'' DURABLE_MUTATION ''automation'' ''Retry recipe automation'',
     route ''POST'' ''/api/executions/{run_id}/validations/{attempt_id}/cancel'' ''validation.cancel'' ''_post_validation_cancel'' DURABLE_MUTATION ''validation'' ''Cancel a validation attempt'',
     route ''POST'' ''/api/executions/{run_id}/cancel'' ''executions.cancel'' ''_post_execution_cancel'' DURABLE_MUTATION ''executions'' ''Cancel an execution'',
     route ''POST'' ''/api/recipes/validate'' ''recipes.validate'' ''_post_recipe_validate'' EPHEMERAL_ACTION ''recipes'' ''Validate recipe JSON'',
     route ''POST'' ''/api/recipes/draft'' ''recipes.draft'' ''_post_recipe_draft'' EPHEMERAL_ACTION ''recipes'' ''Project a new canonical Recipe draft'',
     route ''POST'' ''/api/recipes/import'' ''recipes.import'' ''_post_recipe_import'' DURABLE_MUTATION ''recipes'' ''Import a recipe'',
     route ''POST'' ''/api/run'' ''executions.run'' ''_post_run'' DURABLE_MUTATION ''executions'' ''Start a recipe run'',
     route ''POST'' ''/api/upstream-archive/inspect'' ''archives.inspect'' ''_post_archive_inspect'' EPHEMERAL_ACTION ''archives'' ''Inspect an upstream archive'',
     route ''POST'' ''/api/executions/{run_id}/validate'' ''validation.start'' ''_post_validation_start'' DURABLE_MUTATION ''validation'' ''Start artifact validation'',
     route ''POST'' ''/api/executions/{run_id}/publish'' ''publication.publish'' ''_post_publication_publish'' DURABLE_MUTATION ''publication'' ''Publish a build artifact'',
     route ''POST'' ''/api/executions/{run_id}/reconcile-publication'' ''publication.reconcile'' ''_post_publication_reconcile'' DURABLE_MUTATION ''publication'' ''Reconcile artifact publication'',
     route ''POST'' ''/api/notifications/test'' ''notifications.test'' ''_post_notification_test'' DURABLE_MUTATION ''notifications'' ''Send a test notification'',
     route ''POST'' ''/api/settings'' ''settings.update'' ''_post_settings'' DURABLE_MUTATION ''settings'' ''Update settings'',
     route ''POST'' ''/api/executions/delete-logs'' ''executions.logs.delete_many'' ''_post_execution_logs_delete'' DURABLE_MUTATION ''executions'' ''Delete execution logs'',
     route ''POST'' ''/api/packages'' ''packages.create'' ''_post_package_create'' DURABLE_MUTATION ''packages'' ''Create a package'',
     route ''POST'' ''/api/packages/{name}'' ''packages.update'' ''_post_package_update'' DURABLE_MUTATION ''packages'' ''Update a package'',
     route ''POST'' ''/api/workflows/{workflow_id}'' ''workflows.save'' ''_post_workflow_save'' DURABLE_MUTATION ''workflows'' ''Save a workflow'',
     route ''DELETE'' ''/api/workflows/{workflow_id}'' ''workflows.delete'' ''_delete_workflow'' DURABLE_MUTATION ''workflows'' ''Delete a workflow'',
     route ''DELETE'' ''/api/executions/{run_id}/logs'' ''executions.logs.delete'' ''_delete_execution_log'' DURABLE_MUTATION ''executions'' ''Delete execution logs'',
     route ''DELETE'' ''/api/packages/{name}'' ''packages.delete'' ''_delete_package'' DURABLE_MUTATION ''packages'' ''Remove a package publication'']"

text \<open>\<^verbatim>\<open>path.lstrip("/").split("/")\<close>\<close>

definition template_parts :: "string \<Rightarrow> string list" where
  "template_parts path = split_slash (dropWhile (\<lambda>c. c = CHR ''/'') path)"

text \<open>\<^verbatim>\<open>_VARIABLE.fullmatch(part)\<close>, the name of the variable.\<close>

definition is_word_start :: "char \<Rightarrow> bool" where
  "is_word_start c = (is_lower c \<or> is_upper c \<or> c = CHR ''_'')"

definition path_variable :: "string \<Rightarrow> string option" where
  "path_variable part =
     (case part of
        [] \<Rightarrow> None
      | c # cs \<Rightarrow>
          if c = CHR ''{'' \<and> cs \<noteq> [] \<and> last cs = CHR ''}'' \<and> butlast cs \<noteq> [] \<and> is_word_start (hd (butlast cs)) \<and>
            list_all (\<lambda>x. is_word_start x \<or> is_dec x) (tl (butlast cs))
          then Some (butlast cs) else None)"

section \<open>The start-up check\<close>

text \<open>The variables of one template, lines 149 to 160.\<close>

fun check_parts :: "string list \<Rightarrow> string list \<Rightarrow> bool" where
  "check_parts seen [] = True"
| "check_parts seen (p # ps) =
     (if CHR ''{'' \<notin> set p \<and> CHR ''}'' \<notin> set p then check_parts seen ps
      else case path_variable p of
        None \<Rightarrow> False
      | Some name \<Rightarrow> name \<notin> set seen \<and> check_parts (name # seen) ps)"

definition METHODS :: "string list" where "METHODS = [''GET'', ''POST'', ''DELETE'']"

definition route_checks :: "(string \<Rightarrow> bool) \<Rightarrow> (string \<times> string) list \<Rightarrow> string list \<Rightarrow> api_route \<Rightarrow> (bool \<times> exn) list" where
  "route_checks callable paths ids r = [
     (r_method r \<notin> set METHODS, Exn ValueError [] []),
     (\<not> starts_with ''/api/'' (path_template r) \<or> ends_with ''/'' (path_template r), Exn ValueError [] []),
     (has_sub ''//'' (path_template r) \<or> has_sub ''?'' (path_template r) \<or> has_sub ''#'' (path_template r), Exn ValueError [] []),
     (\<not> check_parts [] (template_parts (path_template r)), Exn ValueError [] []),
     ((r_method r, path_template r) \<in> set paths, Exn ValueError [] []),
     (operation_id r \<in> set ids, Exn ValueError [] []),
     (operation_id r = [] \<or> r_handler r = [], Exn ValueError [] []),
     (r_method r = ''GET'' \<and> r_effect r \<noteq> READ_ONLY, Exn ValueError [] []),
     (r_method r \<noteq> ''GET'' \<and> r_effect r = READ_ONLY, Exn ValueError [] []),
     (r_effect r = EPHEMERAL_ACTION \<and> r_method r \<noteq> ''POST'', Exn ValueError [] []),
     (\<not> callable (r_handler r), Exn ValueError [] [])]"

text \<open>\<^verbatim>\<open>validate_routes(routes, handler_owner)\<close>; \<^verbatim>\<open>callable\<close> is true everywhere when there
  is no owner.\<close>

fun validate_routes_from :: "(string \<Rightarrow> bool) \<Rightarrow> (string \<times> string) list \<Rightarrow> string list \<Rightarrow> api_route list \<Rightarrow> unit result" where
  "validate_routes_from callable paths ids [] = Inr ()"
| "validate_routes_from callable paths ids (r # rs) =
     bind_r (raise_first (route_checks callable paths ids r)) (\<lambda>_.
     validate_routes_from callable ((r_method r, path_template r) # paths) (operation_id r # ids) rs)"

definition validate_routes :: "(string \<Rightarrow> bool) \<Rightarrow> api_route list \<Rightarrow> unit result" where
  "validate_routes callable routes = validate_routes_from callable [] [] routes"

section \<open>Matching\<close>

text \<open>The inner loop: the variables when every segment fits, in order of first binding.\<close>

fun bind_variables :: "(string \<Rightarrow> string) \<Rightarrow> string list \<Rightarrow> string list \<Rightarrow> (string \<times> string) list \<Rightarrow> (string \<times> string) list option" where
  "bind_variables unquote (t # ts) (p # ps) vars =
     (case path_variable t of
        None \<Rightarrow> if t \<noteq> p then None else bind_variables unquote ts ps vars
      | Some name \<Rightarrow> bind_variables unquote ts ps (filter (\<lambda>kv. fst kv \<noteq> name) vars @ [(name, unquote p)]))"
| "bind_variables unquote _ _ vars = Some vars"

definition route_matches ::
  "(string \<Rightarrow> string) \<Rightarrow> string \<Rightarrow> string \<Rightarrow> api_route \<Rightarrow> (string \<times> string) list option" where
  "route_matches unquote m path r =
     (if r_method r \<noteq> m \<or> length (template_parts (path_template r)) \<noteq> length (template_parts path) then None
      else bind_variables unquote (template_parts (path_template r)) (template_parts path) [])"

fun match_route ::
  "(string \<Rightarrow> string) \<Rightarrow> string \<Rightarrow> string \<Rightarrow> api_route list \<Rightarrow> (api_route \<times> (string \<times> string) list) option" where
  "match_route unquote m path [] = None"
| "match_route unquote m path (r # rs) =
     (case route_matches unquote m path r of
        Some vars \<Rightarrow> Some (r, vars)
      | None \<Rightarrow> match_route unquote m path rs)"

definition is_durable_mutation_route :: "(string \<Rightarrow> string) \<Rightarrow> string \<Rightarrow> string \<Rightarrow> bool" where
  "is_durable_mutation_route unquote m path =
     (case match_route unquote m path ADMIN_API_ROUTES of
        None \<Rightarrow> False
      | Some (r, _) \<Rightarrow> r_effect r = DURABLE_MUTATION)"

section \<open>Lemmas\<close>

text \<open>Segments of a template against a request, without the variables.\<close>

definition segment_fits :: "string \<Rightarrow> string \<Rightarrow> bool" where
  "segment_fits t p = (path_variable t \<noteq> None \<or> t = p)"

lemma bind_variables_None:
  "length ts = length ps \<Longrightarrow> bind_variables unquote ts ps vars \<noteq> None \<longleftrightarrow> list_all2 segment_fits ts ps"
  by (induction ts ps arbitrary: vars rule: list_induct2) (auto simp: segment_fits_def split: option.splits)

definition template_fits :: "string \<Rightarrow> string \<Rightarrow> api_route \<Rightarrow> bool" where
  "template_fits m path r = (r_method r = m \<and> list_all2 segment_fits (template_parts (path_template r)) (template_parts path))"

lemma route_matches_iff: "route_matches unquote m path r \<noteq> None \<longleftrightarrow> template_fits m path r"
  using bind_variables_None [of "template_parts (path_template r)" "template_parts path" unquote "[]"]
  by (auto simp: route_matches_def template_fits_def dest: list_all2_lengthD)

lemma match_route_find:
  "map_option fst (match_route unquote m path rs) = List.find (template_fits m path) rs"
proof (induction rs)
  case (Cons r rs)
  then show ?case
    using route_matches_iff [of unquote m path r] by (cases "route_matches unquote m path r") auto
qed simp

text \<open>The shape of a route: its method and its segments, a variable being \<^verbatim>\<open>None\<close>.  Two shapes
  meet when some request could fit both.\<close>

definition shape :: "api_route \<Rightarrow> string \<times> string option list" where
  "shape r = (r_method r, map (\<lambda>t. if path_variable t = None then Some t else None) (template_parts (path_template r)))"

fun segments_meet :: "string option list \<Rightarrow> string option list \<Rightarrow> bool" where
  "segments_meet [] [] = True"
| "segments_meet (a # as) (b # bs) = ((a = None \<or> b = None \<or> a = b) \<and> segments_meet as bs)"
| "segments_meet _ _ = False"

fun apart :: "(string \<times> string option list) list \<Rightarrow> bool" where
  "apart [] = True"
| "apart ((m, as) # shapes) = (list_all (\<lambda>(m', bs). \<not> (segments_meet as bs \<and> m = m')) shapes \<and> apart shapes)"

lemma fits_meet:
  assumes "template_fits m path r" "template_fits m path s"
  shows "segments_meet (snd (shape r)) (snd (shape s)) \<and> fst (shape r) = fst (shape s)"
proof -
  let ?f = "\<lambda>t. if path_variable t = None then Some t else None"
  have "segments_meet (map ?f ts) (map ?f us)"
    if "list_all2 segment_fits ts ps" "list_all2 segment_fits us ps" for ts us ps
    using that
  proof (induction ts ps arbitrary: us rule: list_all2_induct)
    case (Cons t ts p ps)
    then obtain u us' where us: "us = u # us'" "segment_fits u p" "list_all2 segment_fits us' ps"
      by (auto simp: list_all2_Cons2)
    with Cons show ?case by (auto simp: segment_fits_def)
  qed simp
  from this [of "template_parts (path_template r)" "template_parts path"] assms
  show ?thesis by (simp add: template_fits_def shape_def)
qed

lemma apart_unique:
  assumes "apart (map shape rs)" "r \<in> set rs" "s \<in> set rs" "template_fits m path r" "template_fits m path s"
  shows "r = s"
  using assms
proof (induction rs)
  case (Cons x rs)
  obtain n as where x: "shape x = (n, as)" by (cases "shape x")
  from Cons.prems(1) have far: "\<And>y. y \<in> set rs \<Longrightarrow> \<not> (segments_meet as (snd (shape y)) \<and> n = fst (shape y))"
    and rest: "apart (map shape rs)"
    by (auto simp: x list_all_iff case_prod_beta)
  have no: "\<not> template_fits m path y" if "y \<in> set rs" "template_fits m path x" for y
    using far [OF that(1)] fits_meet [OF that(2), of y] by (auto simp: x)
  consider "r = x" "s = x" | "r = x" "s \<in> set rs" | "r \<in> set rs" "s = x" | "r \<in> set rs" "s \<in> set rs"
    using Cons.prems(2,3) by auto
  then show ?case
    using no Cons.IH [OF rest _ _ Cons.prems(4,5)] Cons.prems(4,5) by cases blast+
qed simp

lemma registry_valid: "validate_routes (\<lambda>_. True) ADMIN_API_ROUTES = Inr ()"
  by code_simp

lemma registry_apart: "apart (map shape ADMIN_API_ROUTES)"
  by code_simp

lemma match_route_Some:
  assumes "apart (map shape rs)"
  shows "match_route unquote m path rs = Some (r, vars) \<longleftrightarrow> r \<in> set rs \<and> route_matches unquote m path r = Some vars"
proof
  show "match_route unquote m path rs = Some (r, vars) \<Longrightarrow> r \<in> set rs \<and> route_matches unquote m path r = Some vars"
    by (induction rs) (auto split: option.splits)
  assume r: "r \<in> set rs \<and> route_matches unquote m path r = Some vars"
  then have fits: "template_fits m path r" using route_matches_iff [of unquote m path r] by simp
  have "List.find (template_fits m path) rs \<noteq> None" using r fits by (auto simp: find_None_iff)
  then obtain s vars' where s: "match_route unquote m path rs = Some (s, vars')"
    using match_route_find [of unquote m path rs] by (cases "match_route unquote m path rs") auto
  then have "s \<in> set rs" "route_matches unquote m path s = Some vars'"
    by (induction rs) (auto split: option.splits)
  moreover from this have "template_fits m path s" using route_matches_iff [of unquote m path s] by simp
  ultimately have "s = r" using apart_unique [OF assms, of s r m path] r fits by blast
  with s r \<open>route_matches unquote m path s = Some vars'\<close> show "match_route unquote m path rs = Some (r, vars)" by simp
qed

text \<open>What the start-up check establishes for every route.\<close>

lemma validate_routes_from_ok:
  "validate_routes_from callable paths ids rs = Inr () \<Longrightarrow>
     (\<forall>r \<in> set rs. r_method r \<in> set METHODS \<and> callable (r_handler r) \<and> check_parts [] (template_parts (path_template r)) \<and>
        (r_method r = ''GET'' \<longleftrightarrow> r_effect r = READ_ONLY) \<and> (r_effect r = EPHEMERAL_ACTION \<longrightarrow> r_method r = ''POST'')) \<and>
     distinct (map operation_id rs) \<and> set (map operation_id rs) \<inter> set ids = {} \<and>
     distinct (map (\<lambda>r. (r_method r, path_template r)) rs) \<and> set (map (\<lambda>r. (r_method r, path_template r)) rs) \<inter> set paths = {}"
proof (induction callable paths ids rs rule: validate_routes_from.induct)
  case (2 callable paths ids r rs)
  from "2.prems" obtain u where ok: "raise_first (route_checks callable paths ids r) = Inr u"
    and rest: "validate_routes_from callable ((r_method r, path_template r) # paths) (operation_id r # ids) rs = Inr ()"
    by (auto elim!: bind_r_InrE)
  have c: "\<forall>c \<in> set (route_checks callable paths ids r). \<not> fst c" using ok unfolding raise_first_ok .
  have r: "r_method r \<in> set METHODS" "callable (r_handler r)" "check_parts [] (template_parts (path_template r))"
    "r_method r = ''GET'' \<longleftrightarrow> r_effect r = READ_ONLY" "r_effect r = EPHEMERAL_ACTION \<longrightarrow> r_method r = ''POST''"
    "(r_method r, path_template r) \<notin> set paths" "operation_id r \<notin> set ids"
    using c unfolding route_checks_def by (simp_all, metis)
  from "2.IH" [OF rest] r show ?case by auto
qed simp

lemma registry_ok: "r \<in> set ADMIN_API_ROUTES \<Longrightarrow> r_method r \<in> set METHODS \<and> check_parts [] (template_parts (path_template r)) \<and>
    (r_method r = ''GET'' \<longleftrightarrow> r_effect r = READ_ONLY)"
  using validate_routes_from_ok [OF registry_valid [unfolded validate_routes_def]] by blast

lemma registry_effects:
  "\<forall>r \<in> set ADMIN_API_ROUTES. r_effect r = DURABLE_MUTATION \<longleftrightarrow>
     r_method r \<noteq> ''GET'' \<and> operation_id r \<notin> {''recipes.validate'', ''recipes.draft'', ''archives.inspect''}"
  by code_simp

section \<open>Building a path\<close>

text \<open>The request path of a template with values for its variables.\<close>

definition fill_part :: "(string \<Rightarrow> string) \<Rightarrow> string \<Rightarrow> string" where
  "fill_part values t = (case path_variable t of None \<Rightarrow> t | Some name \<Rightarrow> values name)"

definition fill :: "(string \<Rightarrow> string) \<Rightarrow> api_route \<Rightarrow> string" where
  "fill values r = CHR ''/'' # join_slash (map (fill_part values) (template_parts (path_template r)))"

definition route_variables :: "api_route \<Rightarrow> string list" where
  "route_variables r = List.map_filter path_variable (template_parts (path_template r))"

lemma split_slash_clean: "p \<in> set (split_slash s) \<Longrightarrow> CHR ''/'' \<notin> set p"
  by (induction s arbitrary: p) (auto split: list.splits if_splits)

lemma hd_join_slash: "ps \<noteq> [] \<Longrightarrow> hd ps \<noteq> [] \<Longrightarrow> join_slash ps \<noteq> [] \<and> hd (join_slash ps) = hd (hd ps)"
  by (induction ps rule: join_slash.induct) auto

lemma template_parts_fill:
  assumes "\<And>name. CHR ''/'' \<notin> set (values name)" "hd (template_parts (path_template r)) = ''api''"
  shows "template_parts (fill values r) = map (fill_part values) (template_parts (path_template r))"
proof -
  let ?ps = "map (fill_part values) (template_parts (path_template r))"
  have ne: "?ps \<noteq> []" by (simp add: template_parts_def split_slash_ne)
  have clean: "\<forall>p \<in> set ?ps. CHR ''/'' \<notin> set p"
    using assms(1) split_slash_clean by (auto simp: fill_part_def template_parts_def split: option.splits)
  have "hd ?ps = ''api''"
    using ne assms(2) by (simp add: hd_map fill_part_def path_variable_def)
  then have "join_slash ?ps \<noteq> []" "hd (join_slash ?ps) = CHR ''a''" using hd_join_slash [OF ne] by simp_all
  then have "dropWhile (\<lambda>c. c = CHR ''/'') (join_slash ?ps) = join_slash ?ps" by (simp add: dropWhile_fixed)
  then show ?thesis using split_join_slash [OF ne clean] by (simp add: template_parts_def fill_def)
qed

lemma bind_variables_fill:
  "check_parts seen ts \<Longrightarrow> \<forall>kv \<in> set vars. fst kv \<in> set seen \<Longrightarrow> set seen = fst ` set vars \<Longrightarrow>
     bind_variables unquote ts (map (fill_part values) ts) vars =
       Some (vars @ map (\<lambda>name. (name, unquote (values name))) (List.map_filter path_variable ts))"
proof (induction ts arbitrary: seen vars)
  case (Cons t ts)
  show ?case
  proof (cases "path_variable t")
    case None
    have "check_parts seen ts"
      using Cons.prems(1) None by (auto split: if_splits)
    with Cons None show ?thesis by (simp add: fill_part_def List.map_filter_simps)
  next
    case (Some name)
    have brace: "CHR ''{'' \<in> set t" using Some by (auto simp: path_variable_def split: list.splits if_splits)
    then have name: "name \<notin> set seen" "check_parts (name # seen) ts" using Cons.prems(1) Some by (auto split: if_splits)
    have fresh: "filter (\<lambda>kv. fst kv \<noteq> name) vars = vars"
      using name(1) Cons.prems(3) by (auto simp: filter_id_conv)
    from Cons.IH [OF name(2), of "vars @ [(name, unquote (values name))]"] Cons.prems(2,3) Some fresh show ?thesis
      by (auto simp: fill_part_def List.map_filter_simps)
  qed
qed (simp add: List.map_filter_simps)

lemma registry_api: "\<forall>r \<in> set ADMIN_API_ROUTES. hd (template_parts (path_template r)) = ''api''"
  by code_simp

lemma route_matches_fill:
  assumes "r \<in> set ADMIN_API_ROUTES" "\<And>name. CHR ''/'' \<notin> set (values name)"
  shows "route_matches unquote (r_method r) (fill values r) r =
    Some (map (\<lambda>name. (name, unquote (values name))) (route_variables r))"
proof -
  have parts: "template_parts (fill values r) = map (fill_part values) (template_parts (path_template r))"
    using assms registry_api by (intro template_parts_fill) auto
  have "check_parts [] (template_parts (path_template r))" using registry_ok [OF assms(1)] by simp
  from bind_variables_fill [OF this, of "[]"] show ?thesis
    by (simp add: route_matches_def parts route_variables_def)
qed

section \<open>Properties\<close>

text \<open>C36: the registry is unambiguous.  A request is matched to a route exactly when the
  route belongs to the registry and its template fits the request; at most one route fits,
  so the order of the registry does not matter.\<close>

theorem registry_matches_one_route:
  "(match_route unquote m path ADMIN_API_ROUTES = Some (r, vars) \<longleftrightarrow>
      r \<in> set ADMIN_API_ROUTES \<and> route_matches unquote m path r = Some vars) \<and>
   (\<forall>s t. s \<in> set ADMIN_API_ROUTES \<and> t \<in> set ADMIN_API_ROUTES \<and> route_matches unquote m path s \<noteq> None \<and>
      route_matches unquote m path t \<noteq> None \<longrightarrow> s = t)"
  using match_route_Some [OF registry_apart, of unquote m path r vars] apart_unique [OF registry_apart, of _ _ m path]
  unfolding route_matches_iff by blast

theorem registry_matches_one_route_witness:
  "\<exists>r vars. match_route id ''GET'' ''/api/packages/app'' ADMIN_API_ROUTES = Some (r, vars) \<and> operation_id r = ''packages.get'' \<and>
     vars = [(''name'', ''app'')] \<and> route_matches id ''GET'' ''/api/packages/app'' r = Some vars"
proof -
  obtain r vars where "match_route id ''GET'' ''/api/packages/app'' ADMIN_API_ROUTES = Some (r, vars)"
    "operation_id r = ''packages.get''" "vars = [(''name'', ''app'')]"
    by (simp add: ADMIN_API_ROUTES_def route_def route_matches_def template_parts_def path_variable_def is_word_start_def char_defs)
  with registry_matches_one_route [of id "''GET''" "''/api/packages/app''" r vars] show ?thesis by blast
qed

text \<open>A request built from a route reaches that route.  For every route of the
  registry and values without a slash for its variables, the path made from the template is
  matched to that route and the handler receives exactly those values, unquoted.\<close>

theorem route_path_roundtrip:
  assumes "r \<in> set ADMIN_API_ROUTES" "\<And>name. CHR ''/'' \<notin> set (values name)"
  shows "match_route unquote (r_method r) (fill values r) ADMIN_API_ROUTES =
    Some (r, map (\<lambda>name. (name, unquote (values name))) (route_variables r))"
  unfolding match_route_Some [OF registry_apart] using route_matches_fill [of r "values"] assms by blast

theorem route_path_roundtrip_witness:
  "\<exists>r. operation_id r = ''packages.delete'' \<and>
     match_route id (r_method r) (fill (\<lambda>_. ''app'') r) ADMIN_API_ROUTES = Some (r, [(''name'', ''app'')])"
proof -
  let ?r = "route ''DELETE'' ''/api/packages/{name}'' ''packages.delete'' ''_delete_package'' DURABLE_MUTATION ''packages''
    ''Remove a package publication''"
  have r: "?r \<in> set ADMIN_API_ROUTES" by (simp add: ADMIN_API_ROUTES_def)
  have "route_variables ?r = [''name'']"
    by (simp add: route_variables_def route_def template_parts_def path_variable_def is_word_start_def char_defs List.map_filter_simps)
  with route_path_roundtrip [OF r, of "\<lambda>_. ''app''" id] show ?thesis by (intro exI [of _ ?r]) (simp add: route_def)
qed

text \<open>The mutation gate sees every durable mutation.  A matched request is read-only
  exactly when its method is GET; every other request to the registry is classified as a
  durable mutation except the three ephemeral actions, whichever path variables it has.\<close>

theorem mutation_classification:
  assumes "match_route unquote m path ADMIN_API_ROUTES = Some (r, vars)"
  shows "(r_effect r = READ_ONLY \<longleftrightarrow> m = ''GET'') \<and> m \<in> {''GET'', ''POST'', ''DELETE''} \<and>
    (is_durable_mutation_route unquote m path \<longleftrightarrow>
       m \<noteq> ''GET'' \<and> operation_id r \<notin> {''recipes.validate'', ''recipes.draft'', ''archives.inspect''})"
proof -
  have r: "r \<in> set ADMIN_API_ROUTES" "r_method r = m"
    using assms match_route_Some [OF registry_apart] by (auto simp: route_matches_def split: if_splits)
  have e: "r_effect r = DURABLE_MUTATION \<longleftrightarrow>
      r_method r \<noteq> ''GET'' \<and> operation_id r \<notin> {''recipes.validate'', ''recipes.draft'', ''archives.inspect''}"
    using registry_effects r(1) by blast
  have "is_durable_mutation_route unquote m path \<longleftrightarrow> r_effect r = DURABLE_MUTATION"
    using assms by (simp add: is_durable_mutation_route_def)
  with registry_ok [OF r(1)] r(2) e show ?thesis by (simp add: METHODS_def) blast
qed

theorem mutation_classification_witness:
  "is_durable_mutation_route id ''POST'' ''/api/run''"
proof -
  obtain r vars where m: "match_route id ''POST'' ''/api/run'' ADMIN_API_ROUTES = Some (r, vars)"
    "operation_id r = ''executions.run''"
    by (simp add: ADMIN_API_ROUTES_def route_def route_matches_def template_parts_def path_variable_def is_word_start_def char_defs)
  from mutation_classification [OF m(1)] m(2) show ?thesis by simp
qed

end
