(* ===== verification/Storage_Pressure.thy ===== *)
theory Storage_Pressure
  imports Run_Document
begin

text \<open>
  Filesystem capacity and admission: \<^verbatim>\<open>validate_policy\<close> of
  \<^verbatim>\<open>src/debbuilder/workspace_cleanup.py\<close>, the measurements, thresholds and pressure states of
  \<^verbatim>\<open>src/debbuilder/storage_inventory.py\<close> with the state that \<^verbatim>\<open>StorageInventory\<close> keeps, and
  the guard of \<^verbatim>\<open>src/debbuilder/app.py\<close> that admits or refuses a Run.

  What \<^verbatim>\<open>fstat\<close> and \<^verbatim>\<open>fstatvfs\<close> return is an argument; \<^verbatim>\<open>None\<close> stands for an
  \<^verbatim>\<open>OSError\<close>.  The two rounded percentages of a measurement are display values and are
  left out.
\<close>

section \<open>The policy\<close>

definition MAX_SAFE_JSON_INTEGER :: int where "MAX_SAFE_JSON_INTEGER = 2 ^ 53 - 1"

record cleanup_policy =
  cp_enabled :: bool
  failed_workspaces_to_retain :: int
  pressure_minimum_free_bytes :: int
  pressure_minimum_free_percent :: int
  pressure_target_free_bytes :: int
  pressure_target_free_percent :: int

definition DEFAULT_POLICY :: cleanup_policy where
  "DEFAULT_POLICY = \<lparr>cp_enabled = True, failed_workspaces_to_retain = 5, pressure_minimum_free_bytes = 536870912,
     pressure_minimum_free_percent = 10, pressure_target_free_bytes = 1073741824, pressure_target_free_percent = 15\<rparr>"

definition cleanup_items :: "cleanup_policy \<Rightarrow> doc" where
  "cleanup_items p = [
     (''enabled'', JBool (cp_enabled p)),
     (''failed_workspaces_to_retain'', JInt (failed_workspaces_to_retain p)),
     (''pressure_minimum_free_bytes'', JInt (pressure_minimum_free_bytes p)),
     (''pressure_minimum_free_percent'', JInt (pressure_minimum_free_percent p)),
     (''pressure_target_free_bytes'', JInt (pressure_target_free_bytes p)),
     (''pressure_target_free_percent'', JInt (pressure_target_free_percent p))]"

definition cleanup_json :: "cleanup_policy \<Rightarrow> json" where
  "cleanup_json p = JObj (cleanup_items p)"

text \<open>\<^verbatim>\<open>{**DEFAULT_POLICY, **policy}[field]\<close>\<close>

definition policy_field :: "doc \<Rightarrow> string \<Rightarrow> json" where
  "policy_field kvs k = (if has_key kvs k then jget kvs k else jget (cleanup_items DEFAULT_POLICY) k)"

definition int_between :: "int \<Rightarrow> int \<Rightarrow> json \<Rightarrow> bool" where
  "int_between lo hi v = (case v of JInt n \<Rightarrow> lo \<le> n \<and> n \<le> hi | _ \<Rightarrow> False)"

fun json_int :: "json \<Rightarrow> int" where
  "json_int (JInt n) = n"
| "json_int _ = 0"

definition policy_checks :: "(string \<Rightarrow> json) \<Rightarrow> (bool \<times> exn) list" where
  "policy_checks f = [
     (\<forall>b \<in> {True, False}. f ''enabled'' \<noteq> JBool b, val_err),
     (\<not> int_between 0 1000 (f ''failed_workspaces_to_retain''), val_err),
     (\<not> int_between 1 MAX_SAFE_JSON_INTEGER (f ''pressure_minimum_free_bytes''), val_err),
     (\<not> int_between 1 MAX_SAFE_JSON_INTEGER (f ''pressure_target_free_bytes''), val_err),
     (\<not> int_between 1 99 (f ''pressure_minimum_free_percent''), val_err),
     (\<not> int_between 1 99 (f ''pressure_target_free_percent''), val_err),
     (json_int (f ''pressure_target_free_bytes'') \<le> json_int (f ''pressure_minimum_free_bytes''), val_err),
     (json_int (f ''pressure_target_free_percent'') \<le> json_int (f ''pressure_minimum_free_percent''), val_err)]"

definition validate_policy :: "json \<Rightarrow> cleanup_policy result" where
  "validate_policy pdoc =
     (case pdoc of
        JObj kvs \<Rightarrow>
          let f = policy_field kvs in
          bind_r (raise_first (policy_checks f)) (\<lambda>_.
          Inr \<lparr>cp_enabled = truthy (f ''enabled''),
            failed_workspaces_to_retain = json_int (f ''failed_workspaces_to_retain''),
            pressure_minimum_free_bytes = json_int (f ''pressure_minimum_free_bytes''),
            pressure_minimum_free_percent = json_int (f ''pressure_minimum_free_percent''),
            pressure_target_free_bytes = json_int (f ''pressure_target_free_bytes''),
            pressure_target_free_percent = json_int (f ''pressure_target_free_percent'')\<rparr>)
      | _ \<Rightarrow> Inl val_err)"

section \<open>Measurements\<close>

record statvfs =
  f_frsize :: int
  f_blocks :: int
  f_bfree :: int
  f_bavail :: int
  st_dev :: int

record fs_bytes =
  measured_scope :: string
  device_id :: int
  total_bytes :: int
  used_bytes :: int
  free_bytes :: int
  available_bytes :: int

definition filesystem_measurement :: "statvfs \<Rightarrow> string \<Rightarrow> fs_bytes result" where
  "filesystem_measurement s scope =
     (if f_frsize s \<le> 0 \<or> f_blocks s \<le> 0
        \<or> \<not> (0 \<le> f_bavail s \<and> f_bavail s \<le> f_bfree s \<and> f_bfree s \<le> f_blocks s)
        \<or> \<not> (0 \<le> st_dev s \<and> st_dev s \<le> MAX_SAFE_JSON_INTEGER)
      then Inl val_err
      else
        let total = f_blocks s * f_frsize s; free = f_bfree s * f_frsize s; available = f_bavail s * f_frsize s;
            used = total - free in
        if (\<exists>v \<in> set [total, used, free, available]. v > MAX_SAFE_JSON_INTEGER) then Inl val_err
        else Inr \<lparr>measured_scope = scope, device_id = st_dev s, total_bytes = total, used_bytes = used,
          free_bytes = free, available_bytes = available\<rparr>)"

datatype measurement = Ready fs_bytes | MeasurementError

text \<open>\<^verbatim>\<open>_measure_builds_filesystem\<close>: the arguments say whether the data directory opens and whether
  the Builds directory exists in it, otherwise the data directory itself is measured; an exception
  becomes an error measurement.\<close>

definition measured :: "statvfs option \<Rightarrow> string \<Rightarrow> measurement" where
  "measured s scope =
     (case s of
        None \<Rightarrow> MeasurementError
      | Some s \<Rightarrow> (case filesystem_measurement s scope of Inl _ \<Rightarrow> MeasurementError | Inr m \<Rightarrow> Ready m))"

definition measure_builds :: "bool \<Rightarrow> bool \<Rightarrow> statvfs option \<Rightarrow> measurement" where
  "measure_builds data_opens builds_exists s =
     (if \<not> data_opens then MeasurementError
      else if builds_exists then measured s ''builds'' else measured s ''data_parent'')"

definition measure_repository :: "bool \<Rightarrow> statvfs option \<Rightarrow> measurement" where
  "measure_repository opens s = (if \<not> opens then MeasurementError else measured s ''repository'')"

section \<open>Thresholds and pressure states\<close>

definition effective_pressure_thresholds :: "int \<Rightarrow> cleanup_policy \<Rightarrow> int \<times> int" where
  "effective_pressure_thresholds size_total p =
     (max (pressure_minimum_free_bytes p) ((size_total * pressure_minimum_free_percent p + 99) div 100),
      max (pressure_target_free_bytes p) ((size_total * pressure_target_free_percent p + 99) div 100))"

definition pressure_state_for_measurement ::
  "string \<Rightarrow> measurement \<Rightarrow> cleanup_policy \<Rightarrow> string \<times> int option \<times> int option" where
  "pressure_state_for_measurement previous_state m p =
     (case m of
        MeasurementError \<Rightarrow> (''measurement_error'', None, None)
      | Ready b \<Rightarrow>
          let (start, target) = effective_pressure_thresholds (total_bytes b) p;
              state = (if previous_state = ''pressure''
                then (if available_bytes b \<ge> target then ''normal'' else ''pressure'')
                else (if available_bytes b < start then ''pressure'' else ''normal'')) in
          (state, Some start, Some target))"

record capacity =
  c_measurement :: measurement
  c_state :: string
  c_start :: "int option"
  c_target :: "int option"
  c_same_as_builds :: bool

definition scope_capacity :: "string \<Rightarrow> measurement \<Rightarrow> cleanup_policy \<Rightarrow> capacity" where
  "scope_capacity previous m p =
     (case pressure_state_for_measurement previous m p of
        (state, start, target) \<Rightarrow>
          \<lparr>c_measurement = m, c_state = state, c_start = start, c_target = target, c_same_as_builds = False\<rparr>)"

text \<open>\<^verbatim>\<open>collect_filesystem_capacity\<close>; a repository on the same device takes over the state
  of Builds and carries no byte values of its own.\<close>

definition collect_filesystem_capacity ::
  "string \<times> string \<Rightarrow> measurement \<Rightarrow> measurement \<Rightarrow> cleanup_policy \<Rightarrow> capacity \<times> capacity" where
  "collect_filesystem_capacity previous builds_m repository_m p =
     (let builds = scope_capacity (fst previous) builds_m p;
          same = (case (builds_m, repository_m) of
            (Ready b, Ready r) \<Rightarrow> device_id r = device_id b
          | _ \<Rightarrow> False) in
      (builds,
       if same
       then \<lparr>c_measurement = repository_m, c_state = c_state builds, c_start = None, c_target = None, c_same_as_builds = True\<rparr>
       else scope_capacity (snd previous) repository_m p))"

section \<open>The inventory\<close>

record inventory =
  pressure_states :: "string \<times> string"
  pressure_policy :: "(int \<times> int \<times> int \<times> int) option"
  filesystems :: "(capacity \<times> capacity) option"

definition new_inventory :: inventory where
  "new_inventory = \<lparr>pressure_states = (''unknown'', ''unknown''), pressure_policy = None, filesystems = None\<rparr>"

definition policy_identity :: "cleanup_policy \<Rightarrow> int \<times> int \<times> int \<times> int" where
  "policy_identity p = (pressure_minimum_free_bytes p, pressure_minimum_free_percent p,
     pressure_target_free_bytes p, pressure_target_free_percent p)"

definition keep_state :: "string \<Rightarrow> capacity \<Rightarrow> string" where
  "keep_state old c = (if c_state c \<in> {''normal'', ''pressure''} then c_state c else old)"

text \<open>\<^verbatim>\<open>StorageInventory.collect_capacity\<close>: the capacity lock makes it one step.\<close>

definition collect_capacity ::
  "json \<Rightarrow> measurement \<Rightarrow> measurement \<Rightarrow> inventory \<Rightarrow> inventory \<times> (capacity \<times> capacity) result" where
  "collect_capacity pdoc builds_m repository_m state =
     (case validate_policy pdoc of
        Inl e \<Rightarrow> (state, Inl e)
      | Inr p \<Rightarrow>
          let previous = (if pressure_policy state = Some (policy_identity p) then pressure_states state
                else (''unknown'', ''unknown''));
              fs = collect_filesystem_capacity previous builds_m repository_m p in
          (\<lparr>pressure_states = (keep_state (fst previous) (fst fs), keep_state (snd previous) (snd fs)),
            pressure_policy = Some (policy_identity p), filesystems = Some fs\<rparr>, Inr fs))"

text \<open>\<^verbatim>\<open>_storage_guard_failure\<close> and \<^verbatim>\<open>_require_storage_admission_clear\<close> of
  \<^verbatim>\<open>app.py\<close>: the code of the failure, and whether maintenance is requested.\<close>

definition storage_guard_failure :: "string \<Rightarrow> (capacity \<times> capacity) result option \<Rightarrow> string option \<times> bool" where
  "storage_guard_failure pressure_code collected =
     (let state = (case collected of Some (Inr fs) \<Rightarrow> c_state (fst fs) | _ \<Rightarrow> ''measurement_error'') in
      if state = ''normal'' then (None, False)
      else if state = ''pressure'' then (Some pressure_code, True)
      else (Some ''storage_measurement_unavailable'', True))"

definition require_storage_admission_clear :: "(capacity \<times> capacity) result option \<Rightarrow> unit result" where
  "require_storage_admission_clear collected =
     (case fst (storage_guard_failure ''storage_pressure_admission_blocked'' collected) of
        None \<Rightarrow> Inr ()
      | Some code \<Rightarrow> Inl (Exn RuntimeError code []))"

section \<open>The canonical policy\<close>

definition policy_wf :: "cleanup_policy \<Rightarrow> bool" where
  "policy_wf p =
     (0 \<le> failed_workspaces_to_retain p \<and> failed_workspaces_to_retain p \<le> 1000 \<and>
      1 \<le> pressure_minimum_free_bytes p \<and> pressure_minimum_free_bytes p < pressure_target_free_bytes p \<and>
      pressure_target_free_bytes p \<le> MAX_SAFE_JSON_INTEGER \<and>
      1 \<le> pressure_minimum_free_percent p \<and> pressure_minimum_free_percent p < pressure_target_free_percent p \<and>
      pressure_target_free_percent p \<le> 99)"

lemma int_between_iff: "int_between lo hi v \<longleftrightarrow> (\<exists>n. v = JInt n \<and> lo \<le> n \<and> n \<le> hi)"
  by (auto simp: int_between_def split: json.splits)

lemma policy_field_items [simp]: "policy_field (cleanup_items p) k = jget (cleanup_items p) k"
  by (auto simp: policy_field_def cleanup_items_def has_key_def)

lemma cleanup_items_get [simp]:
  "jget (cleanup_items p) ''enabled'' = JBool (cp_enabled p)"
  "jget (cleanup_items p) ''failed_workspaces_to_retain'' = JInt (failed_workspaces_to_retain p)"
  "jget (cleanup_items p) ''pressure_minimum_free_bytes'' = JInt (pressure_minimum_free_bytes p)"
  "jget (cleanup_items p) ''pressure_minimum_free_percent'' = JInt (pressure_minimum_free_percent p)"
  "jget (cleanup_items p) ''pressure_target_free_bytes'' = JInt (pressure_target_free_bytes p)"
  "jget (cleanup_items p) ''pressure_target_free_percent'' = JInt (pressure_target_free_percent p)"
  by (simp_all add: cleanup_items_def)

lemma validate_policy_fixed: "policy_wf p \<Longrightarrow> validate_policy (cleanup_json p) = Inr p"
  by (simp add: validate_policy_def cleanup_json_def Let_def policy_checks_def policy_wf_def int_between_def)

lemma validate_policy_wf:
  assumes "validate_policy j = Inr p"
  shows "policy_wf p"
proof -
  obtain kvs where j: "j = JObj kvs" using assms by (simp add: validate_policy_def split: json.splits)
  note r = assms [unfolded validate_policy_def j json.case Let_def]
  then obtain u where ok: "raise_first (policy_checks (policy_field kvs)) = Inr u" by (rule bind_r_InrE)
  from ok have "\<forall>c \<in> set (policy_checks (policy_field kvs)). \<not> fst c" unfolding raise_first_ok .
  then show ?thesis
    using r unfolding ok by (auto simp: policy_checks_def policy_wf_def int_between_iff)
qed

interpretation policy_doc: canonical_document validate_policy cleanup_json policy_wf
  by unfold_locales (rule validate_policy_fixed validate_policy_wf, assumption)+

section \<open>Thresholds are exact\<close>

lemma ceil_percent: "(a :: int) < (t * q + 99) div 100 \<longleftrightarrow> 100 * a < t * q"
  by linarith

lemma below_start_iff:
  "a < fst (effective_pressure_thresholds t p) \<longleftrightarrow>
     a < pressure_minimum_free_bytes p \<or> 100 * a < t * pressure_minimum_free_percent p"
  by (simp add: effective_pressure_thresholds_def less_max_iff_disj ceil_percent)

lemma below_target_iff:
  "a < snd (effective_pressure_thresholds t p) \<longleftrightarrow>
     a < pressure_target_free_bytes p \<or> 100 * a < t * pressure_target_free_percent p"
  by (simp add: effective_pressure_thresholds_def less_max_iff_disj ceil_percent)

lemma start_le_target:
  assumes "policy_wf p" "0 \<le> t"
  shows "fst (effective_pressure_thresholds t p) \<le> snd (effective_pressure_thresholds t p)"
proof -
  have "t * pressure_minimum_free_percent p \<le> t * pressure_target_free_percent p"
    using assms by (intro mult_left_mono) (simp_all add: policy_wf_def)
  then have "(t * pressure_minimum_free_percent p + 99) div 100 \<le> (t * pressure_target_free_percent p + 99) div 100"
    by (intro zdiv_mono1) simp_all
  with assms(1) show ?thesis by (auto simp: effective_pressure_thresholds_def policy_wf_def)
qed

lemma pressure_state_ready:
  "pressure_state_for_measurement prev (Ready b) p =
     (if available_bytes b < (if prev = ''pressure'' then snd (effective_pressure_thresholds (total_bytes b) p)
         else fst (effective_pressure_thresholds (total_bytes b) p)) then ''pressure'' else ''normal'',
      Some (fst (effective_pressure_thresholds (total_bytes b) p)), Some (snd (effective_pressure_thresholds (total_bytes b) p)))"
  by (simp add: pressure_state_for_measurement_def case_prod_beta Let_def)

lemma pressure_state_error: "pressure_state_for_measurement prev MeasurementError p = (''measurement_error'', None, None)"
  by (simp add: pressure_state_for_measurement_def)

lemma scope_capacity_state: "c_state (scope_capacity prev m p) = fst (pressure_state_for_measurement prev m p)"
  by (simp add: scope_capacity_def case_prod_beta)

lemma measure_builds_bytes:
  assumes "measure_builds d e s = Ready b"
  shows "0 \<le> available_bytes b" "available_bytes b \<le> free_bytes b" "used_bytes b + free_bytes b = total_bytes b"
    "0 < total_bytes b" "total_bytes b \<le> MAX_SAFE_JSON_INTEGER"
proof -
  obtain v scope where v: "filesystem_measurement v scope = Inr b"
    using assms by (auto simp: measure_builds_def measured_def split: if_splits option.splits sum.splits)
  note m = v [unfolded filesystem_measurement_def Let_def]
  from m show "0 \<le> available_bytes b" "available_bytes b \<le> free_bytes b" "used_bytes b + free_bytes b = total_bytes b"
    "0 < total_bytes b" "total_bytes b \<le> MAX_SAFE_JSON_INTEGER"
    by (auto simp: mult_right_mono split: if_splits)
qed

text \<open>A history of the inventory: each refresh reads its own cleanup policy and measures Builds and the
  repository afresh; the newest refresh comes last.\<close>

type_synonym refresh = "json \<times> (bool \<times> bool \<times> statvfs option) \<times> (bool \<times> statvfs option)"

definition refresh :: "refresh \<Rightarrow> inventory \<Rightarrow> inventory \<times> (capacity \<times> capacity) result" where
  "refresh = (\<lambda>(pdoc, (d, e, s), (rd, rs)) state.
     collect_capacity pdoc (measure_builds d e s) (measure_repository rd rs) state)"

definition refreshes :: "refresh list \<Rightarrow> inventory" where
  "refreshes h = fold (\<lambda>x state. fst (refresh x state)) h new_inventory"

lemma refreshes_simps [simp]:
  "refreshes [] = new_inventory" "refreshes (h @ [x]) = fst (refresh x (refreshes h))"
  by (simp_all add: refreshes_def)

text \<open>Below the minimum and below the target, compared without rounding.\<close>

definition below_minimum :: "cleanup_policy \<Rightarrow> fs_bytes \<Rightarrow> bool" where
  "below_minimum p b \<longleftrightarrow> available_bytes b < pressure_minimum_free_bytes p \<or>
     100 * available_bytes b < total_bytes b * pressure_minimum_free_percent p"

definition below_target :: "cleanup_policy \<Rightarrow> fs_bytes \<Rightarrow> bool" where
  "below_target p b \<longleftrightarrow> available_bytes b < pressure_target_free_bytes p \<or>
     100 * available_bytes b < total_bytes b * pressure_target_free_percent p"

text \<open>A refresh starts the pressure of a policy, or does not end it.\<close>

definition starts :: "cleanup_policy \<Rightarrow> refresh \<Rightarrow> bool" where
  "starts p = (\<lambda>(pdoc, (d, e, s), _).
     (case validate_policy pdoc of
        Inr q \<Rightarrow> policy_identity q = policy_identity p \<and>
          (case measure_builds d e s of Ready b \<Rightarrow> below_minimum p b | MeasurementError \<Rightarrow> False)
      | Inl _ \<Rightarrow> False))"

definition holds :: "cleanup_policy \<Rightarrow> refresh \<Rightarrow> bool" where
  "holds p = (\<lambda>(pdoc, (d, e, s), _).
     (case validate_policy pdoc of
        Inr q \<Rightarrow> policy_identity q = policy_identity p \<and>
          (case measure_builds d e s of Ready b \<Rightarrow> below_target p b | MeasurementError \<Rightarrow> True)
      | Inl _ \<Rightarrow> True))"

text \<open>A history leaves Builds under the pressure of a policy: some refresh started it, and no later
  one ended it.\<close>

definition under_pressure :: "cleanup_policy \<Rightarrow> refresh list \<Rightarrow> bool" where
  "under_pressure p h \<longleftrightarrow> (\<exists>h1 x h2. h = h1 @ x # h2 \<and> starts p x \<and> (\<forall>y \<in> set h2. holds p y))"

lemma under_pressure_snoc: "under_pressure p (h @ [x]) \<longleftrightarrow> starts p x \<or> holds p x \<and> under_pressure p h"
proof
  assume "under_pressure p (h @ [x])"
  then obtain h1 y h2 where split: "h @ [x] = h1 @ y # h2" "starts p y" "\<forall>z \<in> set h2. holds p z"
    unfolding under_pressure_def by blast
  show "starts p x \<or> holds p x \<and> under_pressure p h"
  proof (cases h2 rule: rev_cases)
    case Nil
    with split show ?thesis by simp
  next
    case (snoc ys y')
    with split(1) have "h = h1 @ y # ys" "x = y'" by simp_all
    with split snoc have "holds p x \<and> (h = h1 @ y # ys \<and> starts p y \<and> (\<forall>z \<in> set ys. holds p z))" by simp
    then show ?thesis unfolding under_pressure_def by blast
  qed
next
  assume "starts p x \<or> holds p x \<and> under_pressure p h"
  then show "under_pressure p (h @ [x])"
  proof
    assume "starts p x"
    then have "h @ [x] = h @ x # [] \<and> starts p x \<and> (\<forall>y \<in> set []. holds p y)" by simp
    then show ?thesis unfolding under_pressure_def by blast
  next
    assume "holds p x \<and> under_pressure p h"
    then obtain h1 y h2 where "h = h1 @ y # h2" "starts p y" "\<forall>z \<in> set (h2 @ [x]). holds p z"
      unfolding under_pressure_def by auto
    then show ?thesis
      unfolding under_pressure_def by (intro exI [of _ h1] exI [of _ y] exI [of _ "h2 @ [x]"]) simp
  qed
qed

lemma same_identity:
  assumes "policy_identity q = policy_identity p"
  shows "effective_pressure_thresholds t q = effective_pressure_thresholds t p"
  using assms by (simp add: policy_identity_def effective_pressure_thresholds_def)

lemma pressure_state_bytes:
  "fst (pressure_state_for_measurement prev (Ready b) p) =
     (if (if prev = ''pressure'' then below_target p b else below_minimum p b) then ''pressure'' else ''normal'')"
  by (simp add: pressure_state_ready below_start_iff below_target_iff below_target_def below_minimum_def)

lemma below_minimum_target:
  assumes "policy_wf p" "0 \<le> total_bytes b" "below_minimum p b"
  shows "below_target p b"
  using start_le_target [OF assms(1,2)] assms(3)
  unfolding below_minimum_def below_target_def below_start_iff [symmetric] below_target_iff [symmetric] by linarith

lemma same_identity_bytes:
  assumes "policy_identity q = policy_identity p"
  shows "below_target q b = below_target p b" "below_minimum q b = below_minimum p b"
  using assms by (simp_all add: policy_identity_def below_target_def below_minimum_def)

text \<open>What the inventory remembers is a function of the history.\<close>

lemma refreshes_pressure:
  assumes "policy_wf p"
  shows "pressure_policy (refreshes h) = Some (policy_identity p) \<and> fst (pressure_states (refreshes h)) = ''pressure'' \<longleftrightarrow>
    under_pressure p h"
proof (induction h rule: rev_induct)
  case Nil
  show ?case by (simp add: new_inventory_def under_pressure_def)
next
  case (snoc x h)
  obtain pdoc d e s rd rs where x: "x = (pdoc, (d, e, s), (rd, rs))" by (metis prod.exhaust)
  show ?case
  proof (cases "validate_policy pdoc")
    case (Inl err)
    with snoc show ?thesis
      by (simp add: under_pressure_snoc x refresh_def collect_capacity_def starts_def holds_def)
  next
    case (Inr q)
    show ?thesis
    proof (cases "policy_identity q = policy_identity p")
      case False
      then show ?thesis
        by (simp add: under_pressure_snoc x refresh_def collect_capacity_def starts_def holds_def Inr Let_def)
    next
      case True
      show ?thesis
      proof (cases "measure_builds d e s")
        case MeasurementError
        with True Inr snoc show ?thesis
          by (auto simp: under_pressure_snoc x refresh_def collect_capacity_def starts_def holds_def Let_def
              collect_filesystem_capacity_def keep_state_def scope_capacity_state pressure_state_error)
      next
        case (Ready b)
        have "below_minimum p b \<Longrightarrow> below_target p b"
          using measure_builds_bytes [OF Ready] assms by (intro below_minimum_target) simp_all
        with True Inr snoc Ready show ?thesis
          by (auto simp: under_pressure_snoc x refresh_def collect_capacity_def starts_def holds_def Let_def
              collect_filesystem_capacity_def keep_state_def scope_capacity_state pressure_state_bytes
              same_identity_bytes [OF True])
      qed
    qed
  qed
qed

section \<open>Properties\<close>

text \<open>C34: the pressure state machine is exact.  For a valid policy and a successful
  measurement, Builds turns to pressure from any other state exactly when fewer bytes are
  available than the minimum or than the minimum percentage of the total, compared without
  rounding; it leaves pressure exactly when both targets are met; and the start threshold
  is positive and at most the target, so the two never contradict each other.\<close>

theorem pressure_state_exact:
  assumes "validate_policy pdoc = Inr p" "0 \<le> total_bytes b"
  shows "pressure_state_for_measurement prev (Ready b) p =
      ((if (if prev = ''pressure''
            then available_bytes b < pressure_target_free_bytes p \<or> 100 * available_bytes b < total_bytes b * pressure_target_free_percent p
            else available_bytes b < pressure_minimum_free_bytes p \<or> 100 * available_bytes b < total_bytes b * pressure_minimum_free_percent p)
        then ''pressure'' else ''normal''),
       Some (fst (effective_pressure_thresholds (total_bytes b) p)), Some (snd (effective_pressure_thresholds (total_bytes b) p))) \<and>
    0 < fst (effective_pressure_thresholds (total_bytes b) p) \<and>
    fst (effective_pressure_thresholds (total_bytes b) p) \<le> snd (effective_pressure_thresholds (total_bytes b) p)"
proof -
  have wf: "policy_wf p" using assms(1) by (rule validate_policy_wf)
  then have "0 < fst (effective_pressure_thresholds (total_bytes b) p)"
    by (simp add: effective_pressure_thresholds_def policy_wf_def less_max_iff_disj)
  with start_le_target [OF wf assms(2)] show ?thesis
    by (simp add: pressure_state_ready below_start_iff below_target_iff)
qed

theorem pressure_state_exact_witness:
  "pressure_state_for_measurement ''normal'' (Ready \<lparr>measured_scope = ''builds'', device_id = 1, total_bytes = 100000000000,
     used_bytes = 95000000000, free_bytes = 5000000000, available_bytes = 5000000000\<rparr>) DEFAULT_POLICY =
     (''pressure'', Some 10000000000, Some 15000000000)"
proof -
  let ?b = "\<lparr>measured_scope = ''builds'', device_id = 1, total_bytes = 100000000000,
     used_bytes = 95000000000, free_bytes = 5000000000, available_bytes = 5000000000\<rparr>"
  have valid: "validate_policy (cleanup_json DEFAULT_POLICY) = Inr DEFAULT_POLICY"
    by (rule validate_policy_fixed) (simp add: policy_wf_def DEFAULT_POLICY_def MAX_SAFE_JSON_INTEGER_def)
  from pressure_state_exact [OF valid, of ?b "''normal''"] show ?thesis
    by (simp add: effective_pressure_thresholds_def DEFAULT_POLICY_def)
qed

text \<open>A disk of a hundred gigabytes of which a number of gigabytes is available.\<close>

definition sample_disk :: "int \<Rightarrow> bool \<times> bool \<times> statvfs option" where
  "sample_disk n = (True, True, Some \<lparr>f_frsize = 1000000, f_blocks = 100000, f_bfree = 1000 * n, f_bavail = 1000 * n, st_dev = 1\<rparr>)"

text \<open>C35: admission follows the history of the measurements exactly.  After any history of refreshes, each
  with its own policy and measurement, a refresh with a valid policy refuses a Run for lack of a
  measurement exactly when Builds cannot be measured, refuses it for pressure exactly when Builds is
  below the minimum, or is below the target and the history left it under the pressure of this
  policy, and admits it otherwise.  The history left it under pressure when some earlier refresh with
  the same thresholds found Builds below the minimum and every refresh since then failed on an
  invalid policy, could not measure Builds, or found it below the target, with the same
  thresholds; a refresh with other thresholds, or one at the target, ends the pressure.\<close>

theorem admission_follows_history:
  assumes "validate_policy pdoc = Inr p"
  shows "require_storage_admission_clear (Some (snd (refresh (pdoc, (d, e, s), repo) (refreshes h)))) =
    (case measure_builds d e s of
       MeasurementError \<Rightarrow> Inl (Exn RuntimeError ''storage_measurement_unavailable'' [])
     | Ready b \<Rightarrow>
         if below_minimum p b \<or> below_target p b \<and> under_pressure p h
         then Inl (Exn RuntimeError ''storage_pressure_admission_blocked'' [])
         else Inr ())"
proof -
  have wf: "policy_wf p" using assms by (rule validate_policy_wf)
  obtain rd rs where r: "repo = (rd, rs)" by (metis prod.exhaust)
  note refuse = require_storage_admission_clear_def storage_guard_failure_def Let_def refresh_def r
    collect_capacity_def assms collect_filesystem_capacity_def scope_capacity_state
  show ?thesis
  proof (cases "measure_builds d e s")
    case MeasurementError
    then show ?thesis by (simp add: refuse pressure_state_error)
  next
    case (Ready b)
    have "below_minimum p b \<Longrightarrow> below_target p b"
      using measure_builds_bytes [OF Ready] wf by (intro below_minimum_target) simp_all
    with Ready refreshes_pressure [OF wf, of h] show ?thesis
      by (auto simp: refuse pressure_state_bytes)
  qed
qed

text \<open>Builds falls below the minimum, cannot be measured once, and recovers to between minimum and
  target: still refused.\<close>

theorem admission_follows_history_witness:
  "require_storage_admission_clear (Some (snd (refresh (cleanup_json DEFAULT_POLICY, sample_disk 12, False, None)
     (refreshes [(cleanup_json DEFAULT_POLICY, sample_disk 5, False, None),
       (cleanup_json DEFAULT_POLICY, (False, False, None), False, None)])))) =
     Inl (Exn RuntimeError ''storage_pressure_admission_blocked'' []) \<and>
   require_storage_admission_clear (Some (snd (refresh (cleanup_json DEFAULT_POLICY, sample_disk 12, False, None)
     (refreshes [])))) = Inr ()"
proof -
  have valid: "validate_policy (cleanup_json DEFAULT_POLICY) = Inr DEFAULT_POLICY"
    by (rule validate_policy_fixed) (simp add: policy_wf_def DEFAULT_POLICY_def MAX_SAFE_JSON_INTEGER_def)
  let ?x = "(cleanup_json DEFAULT_POLICY, sample_disk 5, False, None)"
  let ?y = "(cleanup_json DEFAULT_POLICY, (False, False, None), False, None)"
  note eval = sample_disk_def measure_builds_def measured_def filesystem_measurement_def MAX_SAFE_JSON_INTEGER_def Let_def
    below_minimum_def below_target_def DEFAULT_POLICY_def
  have "starts DEFAULT_POLICY ?x" "holds DEFAULT_POLICY ?y"
    by (simp_all add: starts_def holds_def valid, simp_all add: eval)
  then have "under_pressure DEFAULT_POLICY [?x, ?y]"
    using under_pressure_snoc [of DEFAULT_POLICY "[?x]" ?y] under_pressure_snoc [of DEFAULT_POLICY "[]" ?x] by simp
  moreover have "\<not> under_pressure DEFAULT_POLICY []" by (simp add: under_pressure_def)
  ultimately show ?thesis
    using admission_follows_history [OF valid, where h = "[?x, ?y]"] admission_follows_history [OF valid, where h = "[]"]
    by (simp add: sample_disk_def, simp add: eval)
qed

text \<open>Admission means free space.  When the guard admits a Run, the measurement it was
  based on succeeded with consistent byte counts below 2 to the 53, and at least the minimum
  bytes and the minimum percentage of the Builds filesystem were available.\<close>

theorem admission_means_free_space:
  assumes "collect_capacity pdoc (measure_builds d e s) r state = (state', fs)"
    and "require_storage_admission_clear (Some fs) = Inr ()"
  shows "\<exists>p b. validate_policy pdoc = Inr p \<and> measure_builds d e s = Ready b \<and>
    pressure_minimum_free_bytes p \<le> available_bytes b \<and>
    total_bytes b * pressure_minimum_free_percent p \<le> 100 * available_bytes b \<and>
    0 \<le> available_bytes b \<and> available_bytes b \<le> free_bytes b \<and> used_bytes b + free_bytes b = total_bytes b \<and>
    0 < total_bytes b \<and> total_bytes b \<le> MAX_SAFE_JSON_INTEGER"
proof -
  obtain p where p: "validate_policy pdoc = Inr p"
    using assms by (cases "validate_policy pdoc")
      (auto simp: collect_capacity_def require_storage_admission_clear_def storage_guard_failure_def)
  obtain prev where fs: "fs = Inr (collect_filesystem_capacity prev (measure_builds d e s) r p)"
    using assms(1) unfolding collect_capacity_def p sum.case Let_def prod.inject by blast
  have normal: "c_state (scope_capacity (fst prev) (measure_builds d e s) p) = ''normal''"
    using assms(2) by (simp add: fs require_storage_admission_clear_def storage_guard_failure_def
        collect_filesystem_capacity_def Let_def split: if_splits)
  then obtain b where b: "measure_builds d e s = Ready b"
    by (cases "measure_builds d e s") (simp_all add: scope_capacity_state pressure_state_error)
  note bytes = measure_builds_bytes [OF b]
  have wf: "policy_wf p" using p by (rule validate_policy_wf)
  have "\<not> available_bytes b < fst (effective_pressure_thresholds (total_bytes b) p)"
    using normal start_le_target [OF wf, of "total_bytes b"] bytes
    by (auto simp: b scope_capacity_state pressure_state_ready split: if_splits)
  with p b bytes show ?thesis by (auto simp: below_start_iff)
qed

theorem admission_means_free_space_witness:
  "\<exists>state' fs. collect_capacity (cleanup_json DEFAULT_POLICY)
       (measure_builds True True (Some \<lparr>f_frsize = 4096, f_blocks = 1000000, f_bfree = 600000, f_bavail = 500000, st_dev = 1\<rparr>))
       MeasurementError new_inventory = (state', fs) \<and> require_storage_admission_clear (Some fs) = Inr () \<and>
     pressure_minimum_free_bytes DEFAULT_POLICY \<le> 2048000000"
proof -
  let ?s = "Some \<lparr>f_frsize = 4096, f_blocks = 1000000, f_bfree = 600000, f_bavail = 500000, st_dev = 1\<rparr>"
  let ?c = "collect_capacity (cleanup_json DEFAULT_POLICY) (measure_builds True True ?s) MeasurementError new_inventory"
  have valid: "validate_policy (cleanup_json DEFAULT_POLICY) = Inr DEFAULT_POLICY"
    by (rule validate_policy_fixed) (simp add: policy_wf_def DEFAULT_POLICY_def MAX_SAFE_JSON_INTEGER_def)
  have m: "measure_builds True True ?s = Ready \<lparr>measured_scope = ''builds'', device_id = 1, total_bytes = 4096000000,
      used_bytes = 1638400000, free_bytes = 2457600000, available_bytes = 2048000000\<rparr>"
    by (simp add: measure_builds_def measured_def filesystem_measurement_def MAX_SAFE_JSON_INTEGER_def Let_def)
  have ok: "require_storage_admission_clear (Some (snd ?c)) = Inr ()"
    by (simp add: collect_capacity_def valid m collect_filesystem_capacity_def require_storage_admission_clear_def
        storage_guard_failure_def scope_capacity_state pressure_state_ready effective_pressure_thresholds_def
        new_inventory_def Let_def) (simp add: DEFAULT_POLICY_def)
  have c: "?c = (fst ?c, snd ?c)" by simp
  from admission_means_free_space [OF c ok] m valid have "pressure_minimum_free_bytes DEFAULT_POLICY \<le> 2048000000" by auto
  with ok c show ?thesis by blast
qed

end
