(* ===== verification/Workspace_Cleanup.thy ===== *)
theory Workspace_Cleanup
  imports Storage_Pressure Run_Store "HOL-Library.Sublist"
begin

text \<open>
  \<^verbatim>\<open>src/debbuilder/workspace_cleanup.py\<close>: the destructive authorization of a Run, the removal
  of disposable workspace data, age-ordered retention and the reclamation under storage
  pressure.

  Both passes look at a workspace twice: while they select it and, later and under its lock
  again, when they may delete from it.  What a holder of the lock finds is an
  \<^verbatim>\<open>observation\<close>; the two observations of one workspace are independent.  Facts about the
  host that the code asks other modules for (command units, process references, the
  projection of a Run, the validation inventory) are fields of the observation.
\<close>

section \<open>Observations\<close>

text \<open>Taking the lock of a workspace: held by another, no such workspace, another \<^verbatim>\<open>OSError\<close> (a
  symbolic link, no permission, no descriptors), or no safe lock file.\<close>

datatype lock_try = Locked | LockBusy | LockMissing | LockFailed | LockInvalid

text \<open>Failures as the callers tell them apart: \<^verbatim>\<open>WorkspaceBusyError\<close>,
  \<^verbatim>\<open>FileNotFoundError\<close>, another \<^verbatim>\<open>OSError\<close>, a \<^verbatim>\<open>ValueError\<close>, and an exception nobody
  catches (a \<^verbatim>\<open>TypeError\<close> or \<^verbatim>\<open>AttributeError\<close> from a malformed document).\<close>

datatype refusal = Busy | Missing | OsFailure | Invalid | Crash

record observation =
  ob_lock :: lock_try
  ob_file :: run_file
  ob_read_failed :: bool
  ob_read_unsafe :: bool
  ob_entries :: "string list"
  ob_attempts :: "doc list option"
  ob_lifecycle_active :: bool
  ob_history_marker :: bool
  ob_mtime :: int
  ob_identity_clear :: bool
  ob_units_clear :: bool
  ob_unused :: bool
  ob_targets_safe :: "string list \<Rightarrow> bool"
  ob_artifact_inside :: "string list \<Rightarrow> bool"
  ob_removal_ok :: bool

record host =
  global_blocker :: bool
  probe_blocker :: bool
  runtime_blocker :: bool

definition RETENTION_DISPOSABLE_DIRECTORIES :: "string list" where
  "RETENTION_DISPOSABLE_DIRECTORIES = [''source'', ''staging'', ''downloads'']"

definition TERMINAL_DISPOSABLE_DIRECTORIES :: "string list" where
  "TERMINAL_DISPOSABLE_DIRECTORIES = [''toolchain'']"

definition DISPOSABLE_DIRECTORIES :: "string list" where
  "DISPOSABLE_DIRECTORIES = RETENTION_DISPOSABLE_DIRECTORIES @ TERMINAL_DISPOSABLE_DIRECTORIES"

definition DISPOSABLE_FILES :: "string list" where
  "DISPOSABLE_FILES = [''source.tar.gz'']"

section \<open>Authorization\<close>

definition require_global :: "host \<Rightarrow> refusal + unit" where
  "require_global h = (if global_blocker h then Inl Busy else Inr ())"

text \<open>\<^verbatim>\<open>CleanupAuthorization.require_run\<close>\<close>

definition recovery_resolved :: "json \<Rightarrow> bool" where
  "recovery_resolved v =
     (case v of
        JObj r \<Rightarrow> jget r ''status'' = JStr ''resolved'' \<and> jget r ''code'' = JStr ''execution_interrupted'' \<and>
          truthy (jget r ''backend'') \<and> truthy (jget r ''reason'') \<and> truthy (jget r ''resolved_at'')
      | _ \<Rightarrow> False)"

definition require_run :: "host \<Rightarrow> doc \<Rightarrow> refusal + unit" where
  "require_run h run =
     bind_r (require_global h) (\<lambda>_.
     if jget run ''recovery'' \<noteq> JNull \<and> \<not> recovery_resolved (jget run ''recovery'') then Inl Busy else Inr ())"

text \<open>\<^verbatim>\<open>locked_workspace(..., blocking=False)\<close> and \<^verbatim>\<open>read_run\<close>; \<^verbatim>\<open>expected\<close> is the
  canonical workspace path of the Run.  An \<^verbatim>\<open>OSError\<close> of either ends the pressure pass.\<close>

definition take_lock :: "observation \<Rightarrow> refusal + unit" where
  "take_lock ob =
     (case ob_lock ob of Locked \<Rightarrow> Inr () | LockBusy \<Rightarrow> Inl Busy | LockMissing \<Rightarrow> Inl Missing
      | LockFailed \<Rightarrow> Inl OsFailure | LockInvalid \<Rightarrow> Inl Invalid)"

definition read_run :: "py_env \<Rightarrow> string \<Rightarrow> string \<Rightarrow> observation \<Rightarrow> refusal + doc" where
  "read_run env expected rid ob =
     (if ob_read_failed ob then Inl OsFailure
      else if ob_read_unsafe ob then Inl Invalid
      else case ob_file ob of
        Parsed (JObj kvs) \<Rightarrow>
          (case validate_run env (JObj kvs) of
             Inl e \<Rightarrow> Inl (if exn_class e \<in> {TypeError, KeyError, AttributeError, IndexError} then Crash else Invalid)
           | Inr run \<Rightarrow>
               if jget run ''id'' \<noteq> JStr rid \<or> py_str env (if has_key run ''workspace'' then jget run ''workspace'' else JStr []) \<noteq> expected
               then Inl Invalid else Inr run)
      | Unreadable \<Rightarrow> Inl Invalid
      | _ \<Rightarrow> Inl Missing)"

definition ACTIVE_STATUSES :: "string list" where
  "ACTIVE_STATUSES = [''queued'', ''running'', ''cancelling'']"

fun record_status :: "json \<Rightarrow> json" where
  "record_status (JObj kvs) = jget kvs ''status''"
| "record_status _ = JNull"

definition records_of :: "doc \<Rightarrow> string \<Rightarrow> json list" where
  "records_of run k = (case jget run k of JArr xs \<Rightarrow> xs | _ \<Rightarrow> [])"

text \<open>Whether \<^verbatim>\<open>run.get("publications") or []\<close> can be iterated, whether every member is a
  dictionary, and whether the last one is.\<close>

fun is_object :: "json \<Rightarrow> bool" where
  "is_object (JObj _) = True"
| "is_object _ = False"

definition publications_iterable :: "doc \<Rightarrow> bool" where
  "publications_iterable run =
     (case jget run ''publications'' of JArr _ \<Rightarrow> True | JObj _ \<Rightarrow> True | JStr _ \<Rightarrow> True | v \<Rightarrow> \<not> truthy v)"

definition publications_readable :: "doc \<Rightarrow> bool" where
  "publications_readable run =
     (case jget run ''publications'' of JArr xs \<Rightarrow> list_all is_object xs | v \<Rightarrow> \<not> truthy v)"

definition last_publication_readable :: "doc \<Rightarrow> bool" where
  "last_publication_readable run =
     (case jget run ''publications'' of JArr xs \<Rightarrow> xs = [] \<or> is_object (last xs) | v \<Rightarrow> \<not> truthy v)"

text \<open>\<^verbatim>\<open>require_finished\<close>: the validation inventory must be readable and idle.\<close>

definition require_finished :: "observation \<Rightarrow> doc \<Rightarrow> refusal + unit" where
  "require_finished ob run =
     (case ob_attempts ob of
        None \<Rightarrow> Inl Busy
      | Some attempts \<Rightarrow>
          if \<not> publications_iterable run then Inl Crash
          else if ob_lifecycle_active ob
            \<or> (\<exists>s \<in> set (records_of run ''steps''). record_status s = JStr ''running'')
            \<or> (\<exists>p \<in> set (records_of run ''publications''). record_status p = JStr ''running'')
            \<or> (\<exists>a \<in> set attempts. \<exists>s \<in> set ACTIVE_STATUSES. jget a ''status'' = JStr s)
          then Inl Busy else Inr ())"

text \<open>The opening of every locked section: lock, read, authorize, finished.\<close>

definition open_run :: "py_env \<Rightarrow> host \<Rightarrow> (string \<Rightarrow> string) \<Rightarrow> string \<Rightarrow> observation \<Rightarrow> refusal + doc" where
  "open_run env h path rid ob =
     bind_r (take_lock ob) (\<lambda>_.
     bind_r (read_run env (path rid) rid ob) (\<lambda>run.
     bind_r (require_run h run) (\<lambda>_.
     bind_r (require_finished ob run) (\<lambda>_. Inr run))))"

section \<open>Deleting\<close>

text \<open>\<^verbatim>\<open>require_destructive_run_safe\<close>\<close>

definition require_destructive_run_safe :: "host \<Rightarrow> observation \<Rightarrow> doc \<Rightarrow> refusal + unit" where
  "require_destructive_run_safe h ob run =
     (if probe_blocker h then Inl Busy
      else if runtime_blocker h then Inl Busy
      else
        bind_r (require_run h run) (\<lambda>_.
        bind_r (require_finished ob run) (\<lambda>_.
        if \<not> ob_identity_clear ob then Inl Busy
        else if \<not> ob_units_clear ob then Inl Busy
        else if \<not> ob_unused ob then Inl Busy
        else Inr ())))"

text \<open>\<^verbatim>\<open>_clean_locked\<close>: the names removed; the removal or the marker may fail with an
  \<^verbatim>\<open>OSError\<close>.\<close>

definition clean_locked :: "host \<Rightarrow> observation \<Rightarrow> doc \<Rightarrow> string list \<Rightarrow> string list \<Rightarrow> refusal + string list" where
  "clean_locked h ob run directories files =
     bind_r (require_destructive_run_safe h ob run) (\<lambda>_.
     if ob_artifact_inside ob (directories @ files) then Inl Invalid
     else if \<not> ob_targets_safe ob (directories @ files) then Inl Invalid
     else if \<not> ob_removal_ok ob then Inl OsFailure
     else Inr (filter (\<lambda>name. name \<in> set (ob_entries ob)) (directories @ files)))"

section \<open>Ordering and classification\<close>

text \<open>A timezone-aware date as seconds since the epoch; the double of \<^verbatim>\<open>timestamp()\<close> is the exact
  rational here.\<close>

definition timestamp :: "py_env \<Rightarrow> json \<Rightarrow> rat option" where
  "timestamp env v =
     (case v of
        JStr s \<Rightarrow>
          if s = [] then None
          else (case fromisoformat env s of Some (True, t) \<Rightarrow> Some (of_int t / 1000000) | _ \<Rightarrow> None)
      | _ \<Rightarrow> None)"

fun record_finished :: "json \<Rightarrow> json" where
  "record_finished (JObj kvs) = jget kvs ''finished_at''"
| "record_finished _ = JNull"

text \<open>\<^verbatim>\<open>_completion_time\<close>; \<^verbatim>\<open>None\<close> is its \<^verbatim>\<open>ValueError\<close>.\<close>

definition completion_time :: "py_env \<Rightarrow> doc \<Rightarrow> doc list \<Rightarrow> rat option" where
  "completion_time env run attempts =
     (let dates = jget run ''finished_at'' # map (\<lambda>a. jget a ''finished_at'') attempts
            @ map record_finished (records_of run ''publications'');
          completed = List.map_filter (timestamp env) dates in
      if completed \<noteq> [] then Some (Max (set completed))
      else case jget run ''created_at_epoch'' of
        JInt n \<Rightarrow> Some (of_int n)
      | JFloat r \<Rightarrow> Some r
      | _ \<Rightarrow> timestamp env (jget run ''created_at''))"

definition failed_status :: "json \<Rightarrow> bool" where
  "failed_status v = (v = JStr ''failed'' \<or> v = JStr ''cancelled'')"

text \<open>\<^verbatim>\<open>_retention_failed\<close>\<close>

definition retention_failed :: "doc \<Rightarrow> doc list \<Rightarrow> bool" where
  "retention_failed run attempts =
     (failed_status (jget run ''status'')
      \<or> (attempts \<noteq> [] \<and> failed_status (jget (last attempts) ''status''))
      \<or> (records_of run ''publications'' \<noteq> [] \<and> failed_status (record_status (last (records_of run ''publications'')))))"

text \<open>It raises when the last publication is no dictionary and, where its status is asked for,
  when that is a list or a dictionary, which no set can contain.\<close>

definition retention_readable :: "doc \<Rightarrow> doc list \<Rightarrow> bool" where
  "retention_readable run attempts =
     (last_publication_readable run \<and>
      (failed_status (jget run ''status'')
       \<or> (attempts \<noteq> [] \<and> failed_status (jget (last attempts) ''status''))
       \<or> records_of run ''publications'' = []
       \<or> (case record_status (last (records_of run ''publications'')) of JArr _ \<Rightarrow> False | JObj _ \<Rightarrow> False | _ \<Rightarrow> True)))"

section \<open>Retention\<close>

record candidate =
  cand_id :: string
  cand_time :: rat
  cand_failed :: bool
  cand_deleted :: bool
  cand_revision :: int
  cand_terminal :: bool

datatype 'c scan = ScanSkip | ScanError | ScanNone | ScanCrash | ScanFound 'c

fun refused :: "refusal \<Rightarrow> 'c scan" where
  "refused Busy = ScanSkip"
| "refused Missing = ScanSkip"
| "refused OsFailure = ScanError"
| "refused Invalid = ScanError"
| "refused Crash = ScanCrash"

definition has_any :: "observation \<Rightarrow> string list \<Rightarrow> bool" where
  "has_any ob names = (\<exists>n \<in> set names. n \<in> set (ob_entries ob))"

definition scan_retention :: "py_env \<Rightarrow> host \<Rightarrow> (string \<Rightarrow> string) \<Rightarrow> string \<Rightarrow> observation \<Rightarrow> candidate scan" where
  "scan_retention env h path rid ob =
     (case open_run env h path rid ob of
        Inl r \<Rightarrow> refused r
      | Inr run \<Rightarrow>
          if \<not> has_any ob (DISPOSABLE_DIRECTORIES @ DISPOSABLE_FILES) then ScanNone
          else if \<not> retention_readable run (case ob_attempts ob of None \<Rightarrow> [] | Some as \<Rightarrow> as) then ScanCrash
          else if \<not> publications_readable run then ScanCrash
          else
            (case completion_time env run (case ob_attempts ob of None \<Rightarrow> [] | Some as \<Rightarrow> as) of
               None \<Rightarrow> ScanError
             | Some t \<Rightarrow> ScanFound \<lparr>cand_id = rid, cand_time = t,
                 cand_failed = retention_failed run (case ob_attempts ob of None \<Rightarrow> [] | Some as \<Rightarrow> as),
                 cand_deleted = (ob_history_marker ob \<or> truthy (jget run ''log_deleted'')),
                 cand_revision = ob_mtime ob, cand_terminal = has_any ob TERMINAL_DISPOSABLE_DIRECTORIES\<rparr>))"

record cleanup_result =
  cleaned :: "(string \<times> string \<times> string list) list"
  retained :: "string list"
  pressure_candidates :: "string list"
  skipped :: "string list"
  errors :: "string list"
  blocked :: bool

definition no_result :: cleanup_result where
  "no_result = \<lparr>cleaned = [], retained = [], pressure_candidates = [], skipped = [], errors = [], blocked = False\<rparr>"

text \<open>The scan loop.  \<^verbatim>\<open>stop k\<close> is the answer to the \<^verbatim>\<open>k\<close>-th call of \<^verbatim>\<open>should_stop\<close>; the
  result is \<^verbatim>\<open>None\<close> for the candidates when the pass is stopped.\<close>

fun scan_all ::
  "(nat \<Rightarrow> bool) \<Rightarrow> (string \<Rightarrow> candidate scan) \<Rightarrow> nat \<Rightarrow> string list \<Rightarrow> candidate list \<Rightarrow> cleanup_result \<Rightarrow>
   (candidate list option \<times> nat \<times> cleanup_result) result" where
  "scan_all stop scan k [] found res = Inr (Some found, k, res)"
| "scan_all stop scan k (rid # rids) found res =
     (if stop k then Inr (None, Suc k, res)
      else case scan rid of
        ScanSkip \<Rightarrow> scan_all stop scan (Suc k) rids found (res\<lparr>skipped := skipped res @ [rid]\<rparr>)
      | ScanError \<Rightarrow> scan_all stop scan (Suc k) rids found (res\<lparr>errors := errors res @ [rid]\<rparr>)
      | ScanNone \<Rightarrow> scan_all stop scan (Suc k) rids found res
      | ScanCrash \<Rightarrow> Inl type_err
      | ScanFound c \<Rightarrow> scan_all stop scan (Suc k) rids (found @ [c]) res)"

text \<open>\<^verbatim>\<open>candidates.sort(key=lambda row: (row[1], row[0]), reverse=True)\<close>\<close>

definition newest_first :: "candidate list \<Rightarrow> candidate list" where
  "newest_first cs = rev (sort_key (\<lambda>c. (cand_time c, cand_id c)) cs)"

text \<open>The section of one candidate that holds its lock.\<close>

definition retention_delete ::
  "py_env \<Rightarrow> host \<Rightarrow> (string \<Rightarrow> string) \<Rightarrow> candidate \<Rightarrow> bool \<Rightarrow> observation \<Rightarrow> refusal + (string \<times> string list) option" where
  "retention_delete env h path c retain ob =
     bind_r (open_run env h path (cand_id c) ob) (\<lambda>run.
     if ob_mtime ob \<noteq> cand_revision c then Inr None
     else if \<not> retention_readable run (case ob_attempts ob of None \<Rightarrow> [] | Some as \<Rightarrow> as) then Inl Crash
     else if retention_failed run (case ob_attempts ob of None \<Rightarrow> [] | Some as \<Rightarrow> as) \<noteq> cand_failed c then Inr None
     else
       bind_r (clean_locked h ob run
           (if retain then TERMINAL_DISPOSABLE_DIRECTORIES else DISPOSABLE_DIRECTORIES)
           (if retain then [] else DISPOSABLE_FILES)) (\<lambda>removed.
       Inr (Some (if retain then ''terminal_run'' else ''retention'', removed))))"

text \<open>One turn of a loop: it ends the loop with a result, raises, or goes on with the counters
  and the result.\<close>

datatype 'a turn = Halt 'a | Abort | Next nat nat 'a

text \<open>The body of the loop over the candidates.  The second \<^verbatim>\<open>should_stop\<close> is asked inside the
  lock, so only when the lock is taken.\<close>

definition retention_turn ::
  "py_env \<Rightarrow> host \<Rightarrow> (string \<Rightarrow> string) \<Rightarrow> int \<Rightarrow> (nat \<Rightarrow> bool) \<Rightarrow> (string \<Rightarrow> observation) \<Rightarrow> nat \<Rightarrow> nat \<Rightarrow>
   candidate \<Rightarrow> cleanup_result \<Rightarrow> cleanup_result turn" where
  "retention_turn env h path limit stop obs k kept c res =
     (if stop k then Halt res
      else
        let rid = cand_id c;
            retain = (cand_failed c \<and> \<not> cand_deleted c \<and> int kept < limit);
            res1 = (if retain then res\<lparr>retained := retained res @ [rid]\<rparr> else res);
            kept1 = (if retain then Suc kept else kept) in
        if retain \<and> \<not> cand_terminal c
        then Next (Suc k) kept1 (res1\<lparr>pressure_candidates := pressure_candidates res1 @ [rid]\<rparr>)
        else
          let locked = (take_lock (obs rid) = Inr ()); k1 = (if locked then Suc (Suc k) else Suc k) in
          if locked \<and> stop (Suc k) then Halt res1
          else
            (case retention_delete env h path c retain (obs rid) of
               Inl r \<Rightarrow>
                 (if r = Busy \<or> r = Missing then Next k1 kept1 (res1\<lparr>skipped := skipped res1 @ [rid]\<rparr>)
                  else if r = Crash then Abort
                  else Next k1 kept1 (res1\<lparr>errors := errors res1 @ [rid]\<rparr>))
             | Inr None \<Rightarrow> Next k1 kept1 (res1\<lparr>skipped := skipped res1 @ [rid]\<rparr>)
             | Inr (Some (why, removed)) \<Rightarrow>
                 let res2 = (if removed \<noteq> [] then res1\<lparr>cleaned := cleaned res1 @ [(rid, why, removed)]\<rparr> else res1) in
                 Next k1 kept1 (if retain then res2\<lparr>pressure_candidates := pressure_candidates res2 @ [rid]\<rparr> else res2)))"

fun retention_loop ::
  "py_env \<Rightarrow> host \<Rightarrow> (string \<Rightarrow> string) \<Rightarrow> int \<Rightarrow> (nat \<Rightarrow> bool) \<Rightarrow> (string \<Rightarrow> observation) \<Rightarrow> nat \<Rightarrow> nat \<Rightarrow>
   candidate list \<Rightarrow> cleanup_result \<Rightarrow> cleanup_result result" where
  "retention_loop env h path limit stop obs k kept [] res = Inr res"
| "retention_loop env h path limit stop obs k kept (c # cs) res =
     (case retention_turn env h path limit stop obs k kept c res of
        Halt r \<Rightarrow> Inr r
      | Abort \<Rightarrow> Inl type_err
      | Next k' kept' r \<Rightarrow> retention_loop env h path limit stop obs k' kept' cs r)"

text \<open>\<^verbatim>\<open>apply_retention\<close>: \<^verbatim>\<open>ids\<close> are the directories of the builds root, \<^verbatim>\<open>None\<close> when it
  does not exist; \<^verbatim>\<open>seen\<close> and \<^verbatim>\<open>obs\<close> are the two rounds of observations.\<close>

definition apply_retention ::
  "py_env \<Rightarrow> host \<Rightarrow> (string \<Rightarrow> string) \<Rightarrow> json \<Rightarrow> (nat \<Rightarrow> bool) \<Rightarrow> string list option \<Rightarrow> (string \<Rightarrow> observation) \<Rightarrow>
   (string \<Rightarrow> observation) \<Rightarrow> cleanup_result result" where
  "apply_retention env h path pdoc stop ids seen obs =
     bind_r (validate_policy pdoc) (\<lambda>p.
     if \<not> cp_enabled p then Inr no_result
     else if stop 0 then Inr no_result
     else if require_global h \<noteq> Inr () then Inr (no_result\<lparr>blocked := True\<rparr>)
     else case ids of
       None \<Rightarrow> Inr no_result
     | Some rids \<Rightarrow>
         bind_r (scan_all stop (\<lambda>rid. scan_retention env h path rid (seen rid)) 1 rids [] no_result) (\<lambda>(found, k, res).
         case found of
           None \<Rightarrow> Inr res
         | Some cs \<Rightarrow> retention_loop env h path (failed_workspaces_to_retain p) stop obs k 0 (newest_first cs) res))"

section \<open>Reclamation under pressure\<close>

record pressure_result =
  p_initial :: string
  p_considered :: nat
  p_cleaned :: "(string \<times> string list) list"
  p_skipped :: "string list"
  p_errors :: "string list"
  p_target_reached :: bool
  p_final :: string
  p_blocked :: bool

text \<open>A selected Run: whether its age is unknown, its completion time, its identifier and the
  revision of its document.\<close>

type_synonym selected = "nat \<times> rat \<times> string \<times> int"

definition scan_pressure :: "py_env \<Rightarrow> host \<Rightarrow> (string \<Rightarrow> string) \<Rightarrow> string \<Rightarrow> observation \<Rightarrow> selected scan" where
  "scan_pressure env h path rid ob =
     (case open_run env h path rid ob of
        Inl r \<Rightarrow> refused r
      | Inr run \<Rightarrow>
          let attempts = (case ob_attempts ob of None \<Rightarrow> [] | Some as \<Rightarrow> as) in
          if \<not> has_any ob (RETENTION_DISPOSABLE_DIRECTORIES @ DISPOSABLE_FILES) then ScanNone
          else if \<not> retention_readable run attempts then ScanCrash
          else if \<not> retention_failed run attempts then ScanSkip
          else if \<not> publications_readable run then ScanCrash
          else
            (case completion_time env run attempts of
               None \<Rightarrow> ScanFound (1, 0, rid, ob_mtime ob)
             | Some t \<Rightarrow> ScanFound (0, t, rid, ob_mtime ob)))"

fun select_all ::
  "(nat \<Rightarrow> bool) \<Rightarrow> (string \<Rightarrow> selected scan) \<Rightarrow> nat \<Rightarrow> string list \<Rightarrow> selected list \<Rightarrow> pressure_result \<Rightarrow>
   (selected list option \<times> nat \<times> pressure_result) result" where
  "select_all stop scan k [] found res = Inr (Some found, k, res)"
| "select_all stop scan k (rid # rids) found res =
     (if stop k then Inr (None, Suc k, res)
      else case scan rid of
        ScanSkip \<Rightarrow> select_all stop scan (Suc k) rids found (res\<lparr>p_skipped := p_skipped res @ [rid]\<rparr>)
      | ScanError \<Rightarrow> select_all stop scan (Suc k) rids found (res\<lparr>p_errors := p_errors res @ [rid]\<rparr>)
      | ScanNone \<Rightarrow> select_all stop scan (Suc k) rids found res
      | ScanCrash \<Rightarrow> Inl type_err
      | ScanFound c \<Rightarrow> select_all stop scan (Suc k) rids (found @ [c]) res)"

text \<open>\<^verbatim>\<open>selected.sort(key=lambda row: (row[0], row[1], row[2]))\<close>: known ages first, oldest
  first.\<close>

definition oldest_first :: "selected list \<Rightarrow> selected list" where
  "oldest_first cs = sort_key (\<lambda>(u, t, rid, _). (u, t, rid)) cs"

definition pressure_delete ::
  "py_env \<Rightarrow> host \<Rightarrow> (string \<Rightarrow> string) \<Rightarrow> string \<Rightarrow> int \<Rightarrow> observation \<Rightarrow> refusal + string list option" where
  "pressure_delete env h path rid revision ob =
     bind_r (open_run env h path rid ob) (\<lambda>run.
     if ob_mtime ob \<noteq> revision then Inr None
     else if \<not> retention_readable run (case ob_attempts ob of None \<Rightarrow> [] | Some as \<Rightarrow> as) then Inl Crash
     else if \<not> retention_failed run (case ob_attempts ob of None \<Rightarrow> [] | Some as \<Rightarrow> as) then Inr None
     else bind_r (clean_locked h ob run RETENTION_DISPOSABLE_DIRECTORIES DISPOSABLE_FILES) (\<lambda>removed. Inr (Some removed)))"

text \<open>What a capacity says about the target: the state, and whether the target is reached.\<close>

definition target_met :: "capacity \<Rightarrow> bool" where
  "target_met c =
     (case (c_measurement c, c_target c) of
        (Ready b, Some target) \<Rightarrow> available_bytes b \<ge> target
      | _ \<Rightarrow> False)"

text \<open>The loop of \<^verbatim>\<open>apply_storage_pressure\<close>; \<^verbatim>\<open>measurements n\<close> is the \<^verbatim>\<open>n\<close>-th result of
  \<^verbatim>\<open>measure_capacity()["builds"]\<close>.\<close>

definition pressure_turn ::
  "py_env \<Rightarrow> host \<Rightarrow> (string \<Rightarrow> string) \<Rightarrow> (nat \<Rightarrow> bool) \<Rightarrow> (nat \<Rightarrow> capacity) \<Rightarrow> (string \<Rightarrow> observation) \<Rightarrow> nat \<Rightarrow> nat \<Rightarrow>
   selected \<Rightarrow> pressure_result \<Rightarrow> pressure_result turn" where
  "pressure_turn env h path stop measurements obs k n c res =
     (if stop k then Halt res
      else
        let rid = fst (snd (snd c)); revision = snd (snd (snd c));
            res1 = res\<lparr>p_considered := Suc (p_considered res)\<rparr>;
            locked = (take_lock (obs rid) = Inr ()); k1 = (if locked then Suc (Suc k) else Suc k) in
        if locked \<and> stop (Suc k) then Halt res1
        else case pressure_delete env h path rid revision (obs rid) of
          Inl r \<Rightarrow>
            (if r = Busy \<or> r = Missing then Next k1 n (res1\<lparr>p_skipped := p_skipped res1 @ [rid]\<rparr>)
             else if r = OsFailure then Halt (res1\<lparr>p_errors := p_errors res1 @ [rid]\<rparr>)
             else if r = Crash then Abort
             else Next k1 n (res1\<lparr>p_errors := p_errors res1 @ [rid]\<rparr>))
        | Inr None \<Rightarrow> Next k1 n (res1\<lparr>p_skipped := p_skipped res1 @ [rid]\<rparr>)
        | Inr (Some removed) \<Rightarrow>
            if removed = [] then Next k1 n res1
            else
              let m = measurements n;
                  res2 = res1\<lparr>p_cleaned := p_cleaned res1 @ [(rid, removed)], p_final := c_state m\<rparr> in
              if target_met m then Halt (res2\<lparr>p_target_reached := True\<rparr>)
              else if c_state m \<noteq> ''pressure'' then Halt res2
              else Next k1 (Suc n) res2)"

fun pressure_loop ::
  "py_env \<Rightarrow> host \<Rightarrow> (string \<Rightarrow> string) \<Rightarrow> (nat \<Rightarrow> bool) \<Rightarrow> (nat \<Rightarrow> capacity) \<Rightarrow> (string \<Rightarrow> observation) \<Rightarrow> nat \<Rightarrow> nat \<Rightarrow>
   selected list \<Rightarrow> pressure_result \<Rightarrow> pressure_result result" where
  "pressure_loop env h path stop measurements obs k n [] res = Inr res"
| "pressure_loop env h path stop measurements obs k n (c # cs) res =
     (case pressure_turn env h path stop measurements obs k n c res of
        Halt r \<Rightarrow> Inr r
      | Abort \<Rightarrow> Inl type_err
      | Next k' n' r \<Rightarrow> pressure_loop env h path stop measurements obs k' n' cs r)"

definition apply_storage_pressure ::
  "py_env \<Rightarrow> host \<Rightarrow> (string \<Rightarrow> string) \<Rightarrow> json \<Rightarrow> (nat \<Rightarrow> bool) \<Rightarrow> string list \<Rightarrow> capacity \<Rightarrow> (nat \<Rightarrow> capacity) \<Rightarrow>
   (string \<Rightarrow> observation) \<Rightarrow> (string \<Rightarrow> observation) \<Rightarrow> pressure_result result" where
  "apply_storage_pressure env h path pdoc stop candidates builds measurements seen obs =
     bind_r (validate_policy pdoc) (\<lambda>p.
     let res = \<lparr>p_initial = c_state builds, p_considered = 0, p_cleaned = [], p_skipped = [], p_errors = [],
           p_target_reached = False, p_final = c_state builds, p_blocked = False\<rparr> in
     if c_state builds \<noteq> ''pressure'' \<or> c_measurement builds = MeasurementError \<or> c_target builds = None \<or> \<not> cp_enabled p
     then Inr res
     else if stop 0 then Inr res
     else if require_global h \<noteq> Inr () then Inr (res\<lparr>p_blocked := True\<rparr>)
     else
       bind_r (select_all stop (\<lambda>rid. scan_pressure env h path rid (seen rid)) 1 (rev (remdups (rev candidates))) [] res)
         (\<lambda>(found, k, res1).
         case found of
           None \<Rightarrow> Inr res1
         | Some cs \<Rightarrow> pressure_loop env h path stop measurements obs k 0 (oldest_first cs) res1))"

section \<open>What a deletion needs\<close>

text \<open>The state in which a workspace may lose data: nothing blocks cleanup, the document is
  valid and belongs to the directory, recovery is resolved, no build, step, publication or
  validation is active, and no command, unit or process uses the workspace.\<close>

definition idle_workspace :: "py_env \<Rightarrow> host \<Rightarrow> (string \<Rightarrow> string) \<Rightarrow> string \<Rightarrow> observation \<Rightarrow> doc \<Rightarrow> bool" where
  "idle_workspace env h path rid ob run =
     (\<not> global_blocker h \<and> \<not> probe_blocker h \<and> \<not> runtime_blocker h \<and> ob_lock ob = Locked \<and>
      read_run env (path rid) rid ob = Inr run \<and>
      (jget run ''recovery'' = JNull \<or> recovery_resolved (jget run ''recovery'')) \<and>
      \<not> ob_lifecycle_active ob \<and>
      (\<forall>s \<in> set (records_of run ''steps'') \<union> set (records_of run ''publications''). record_status s \<noteq> JStr ''running'') \<and>
      (\<exists>attempts. ob_attempts ob = Some attempts \<and>
         (\<forall>a \<in> set attempts. \<forall>s \<in> set ACTIVE_STATUSES. jget a ''status'' \<noteq> JStr s)) \<and>
      ob_identity_clear ob \<and> ob_units_clear ob \<and> ob_unused ob)"

lemma take_lock_ok: "take_lock ob = Inr u \<longleftrightarrow> ob_lock ob = Locked"
  by (simp add: take_lock_def split: lock_try.split)

lemma require_run_ok:
  "require_run h run = Inr u \<longleftrightarrow> \<not> global_blocker h \<and> (jget run ''recovery'' = JNull \<or> recovery_resolved (jget run ''recovery''))"
  by (auto simp: require_run_def require_global_def)

lemma require_finished_ok:
  "require_finished ob run = Inr u \<longleftrightarrow> publications_iterable run \<and> \<not> ob_lifecycle_active ob \<and>
     (\<forall>s \<in> set (records_of run ''steps''). record_status s \<noteq> JStr ''running'') \<and>
     (\<forall>s \<in> set (records_of run ''publications''). record_status s \<noteq> JStr ''running'') \<and>
     (\<exists>attempts. ob_attempts ob = Some attempts \<and>
        (\<forall>a \<in> set attempts. \<forall>s \<in> set ACTIVE_STATUSES. jget a ''status'' \<noteq> JStr s))"
  by (auto simp: require_finished_def split: option.split)

lemma open_runE:
  assumes "open_run env h path rid ob = Inr run"
  obtains "ob_lock ob = Locked" "read_run env (path rid) rid ob = Inr run" "require_run h run = Inr ()" "require_finished ob run = Inr ()"
  using assms by (auto simp: open_run_def take_lock_ok elim!: bind_r_InrE)

lemma clean_locked_idle:
  assumes "open_run env h path rid ob = Inr run" "clean_locked h ob run ds fs = Inr removed"
  shows "idle_workspace env h path rid ob run \<and> set removed \<subseteq> set (ds @ fs) \<inter> set (ob_entries ob) \<and>
    ob_targets_safe ob (ds @ fs) \<and> \<not> ob_artifact_inside ob (ds @ fs)"
proof -
  from assms(1) have o: "ob_lock ob = Locked" "read_run env (path rid) rid ob = Inr run" by (auto elim: open_runE)
  from assms(2) obtain u where safe: "require_destructive_run_safe h ob run = Inr u"
    and rest: "\<not> ob_artifact_inside ob (ds @ fs)" "ob_targets_safe ob (ds @ fs)"
      "removed = filter (\<lambda>name. name \<in> set (ob_entries ob)) (ds @ fs)"
    unfolding clean_locked_def by (elim bind_r_InrE) (simp split: if_splits)
  from safe have "\<not> probe_blocker h" "\<not> runtime_blocker h" "require_run h run = Inr ()" "require_finished ob run = Inr ()"
    "ob_identity_clear ob" "ob_units_clear ob" "ob_unused ob"
    by (auto simp: require_destructive_run_safe_def split: if_splits elim!: bind_r_InrE)
  with o rest show ?thesis
    unfolding idle_workspace_def require_run_ok require_finished_ok by auto
qed

lemma retention_delete_idle:
  assumes "retention_delete env h path c retain ob = Inr (Some (why, removed))"
  shows "\<exists>run. idle_workspace env h path (cand_id c) ob run \<and> ob_mtime ob = cand_revision c \<and>
    set removed \<subseteq> set (DISPOSABLE_DIRECTORIES @ DISPOSABLE_FILES) \<inter> set (ob_entries ob) \<and>
    why = (if retain then ''terminal_run'' else ''retention'') \<and>
    (retain \<longrightarrow> set removed \<subseteq> set TERMINAL_DISPOSABLE_DIRECTORIES)"
proof -
  from assms [unfolded retention_delete_def] obtain run where run: "open_run env h path (cand_id c) ob = Inr run"
    and rest: "(if ob_mtime ob \<noteq> cand_revision c then Inr None
     else if \<not> retention_readable run (case ob_attempts ob of None \<Rightarrow> [] | Some as \<Rightarrow> as) then Inl Crash
     else if retention_failed run (case ob_attempts ob of None \<Rightarrow> [] | Some as \<Rightarrow> as) \<noteq> cand_failed c then Inr None
     else
       bind_r (clean_locked h ob run
           (if retain then TERMINAL_DISPOSABLE_DIRECTORIES else DISPOSABLE_DIRECTORIES)
           (if retain then [] else DISPOSABLE_FILES)) (\<lambda>removed.
       Inr (Some (if retain then ''terminal_run'' else ''retention'', removed)))) = Inr (Some (why, removed))"
    by (elim bind_r_InrE)
  then have mtime: "ob_mtime ob = cand_revision c" and why: "why = (if retain then ''terminal_run'' else ''retention'')"
    and clean: "clean_locked h ob run (if retain then TERMINAL_DISPOSABLE_DIRECTORIES else DISPOSABLE_DIRECTORIES)
      (if retain then [] else DISPOSABLE_FILES) = Inr removed"
    by (auto split: if_splits elim!: bind_r_InrE)
  from clean_locked_idle [OF run clean] mtime why show ?thesis
    by (intro exI [of _ run]) (auto simp: DISPOSABLE_DIRECTORIES_def split: if_splits)
qed

text \<open>The result of a turn and, when the loop goes on, the number of retained workspaces.\<close>

fun turn_result :: "'a turn \<Rightarrow> 'a option" where
  "turn_result (Halt r) = Some r"
| "turn_result Abort = None"
| "turn_result (Next k n r) = Some r"

definition wants_retention :: "candidate \<Rightarrow> bool" where
  "wants_retention c = (cand_failed c \<and> \<not> cand_deleted c)"

lemma retention_turn_cleaned:
  assumes "turn_result (retention_turn env h path limit stop obs k kept c res) = Some r"
  shows "cleaned r = cleaned res \<or>
    (\<exists>why removed. cleaned r = cleaned res @ [(cand_id c, why, removed)] \<and>
       retention_delete env h path c (wants_retention c \<and> int kept < limit) (obs (cand_id c)) = Inr (Some (why, removed)))"
proof -
  have retain: "(cand_failed c \<and> \<not> cand_deleted c \<and> int kept < limit) = (wants_retention c \<and> int kept < limit)"
    by (auto simp: wants_retention_def)
  show ?thesis
    using assms unfolding retention_turn_def retain
    by (auto simp: Let_def split: if_splits sum.splits option.splits)
qed

lemma retention_turn_retained:
  assumes "retention_turn env h path limit stop obs k kept c res = t"
  shows "t = Next k' kept' r \<Longrightarrow> retained r = retained res @ (if wants_retention c \<and> int kept < limit then [cand_id c] else []) \<and>
      kept' = (if wants_retention c \<and> int kept < limit then Suc kept else kept)"
    and "t = Halt r \<Longrightarrow> retained r = retained res \<or> retained r = retained res @ (if wants_retention c \<and> int kept < limit then [cand_id c] else [])"
proof -
  have retain: "(cand_failed c \<and> \<not> cand_deleted c \<and> int kept < limit) = (wants_retention c \<and> int kept < limit)"
    by (auto simp: wants_retention_def)
  show "t = Next k' kept' r \<Longrightarrow> retained r = retained res @ (if wants_retention c \<and> int kept < limit then [cand_id c] else []) \<and>
      kept' = (if wants_retention c \<and> int kept < limit then Suc kept else kept)"
    using assms unfolding retention_turn_def retain
    by (auto simp: Let_def split: if_splits sum.splits option.splits)
  show "t = Halt r \<Longrightarrow> retained r = retained res \<or> retained r = retained res @ (if wants_retention c \<and> int kept < limit then [cand_id c] else [])"
    using assms unfolding retention_turn_def retain
    by (auto simp: Let_def split: if_splits sum.splits option.splits)
qed

lemma retention_turn_stops:
  assumes "retention_turn env h path limit stop obs k kept c res = Halt r"
  shows "\<exists>k. stop k"
  using assms unfolding retention_turn_def
  by (auto simp: Let_def split: if_splits sum.splits option.splits)

lemma retention_loop_cleaned:
  "retention_loop env h path limit stop obs k kept cs res = Inr res' \<Longrightarrow> x \<in> set (cleaned res') \<Longrightarrow>
     x \<in> set (cleaned res) \<or>
     (\<exists>c \<in> set cs. \<exists>retain why removed. x = (cand_id c, why, removed) \<and>
        retention_delete env h path c retain (obs (cand_id c)) = Inr (Some (why, removed)))"
proof (induction cs arbitrary: k kept res)
  case (Cons c cs)
  let ?t = "retention_turn env h path limit stop obs k kept c res"
  obtain r where r: "turn_result ?t = Some r" "x \<in> set (cleaned r) \<or>
     (\<exists>c \<in> set cs. \<exists>retain why removed. x = (cand_id c, why, removed) \<and>
        retention_delete env h path c retain (obs (cand_id c)) = Inr (Some (why, removed)))"
    using Cons by (cases ?t) fastforce+
  from retention_turn_cleaned [OF r(1)] r(2) show ?case by auto
qed simp

lemma retention_loop_retained:
  assumes "retention_loop env h path limit stop obs k kept cs res = Inr res'" "int kept \<le> limit"
  shows "\<exists>m. retained res' = retained res @ map cand_id (take m (filter wants_retention cs)) \<and> int kept + int m \<le> limit \<and>
    ((\<forall>k. \<not> stop k) \<longrightarrow> retained res' = retained res @ map cand_id (take (nat (limit - int kept)) (filter wants_retention cs)))"
  using assms
proof (induction cs arbitrary: k kept res)
  case Nil
  then show ?case by (intro exI [of _ 0]) simp
next
  case (Cons c cs)
  let ?t = "retention_turn env h path limit stop obs k kept c res"
  let ?w = "wants_retention c \<and> int kept < limit"
  show ?case
  proof (cases ?t)
    case (Halt r)
    then have "res' = r" using Cons.prems by simp
    have stopped: "\<not> (\<forall>k. \<not> stop k)" using retention_turn_stops [OF Halt] by blast
    have "retained r = retained res \<or> ?w \<and> retained r = retained res @ [cand_id c]"
      using retention_turn_retained(2) [OF Halt refl] by (auto split: if_splits)
    then show ?thesis
    proof
      assume "retained r = retained res"
      with stopped \<open>res' = r\<close> Cons.prems(2) show ?thesis by (intro exI [of _ 0]) auto
    next
      assume "?w \<and> retained r = retained res @ [cand_id c]"
      with stopped \<open>res' = r\<close> Cons.prems(2) show ?thesis by (intro exI [of _ 1]) auto
    qed
  next
    case Abort
    with Cons.prems show ?thesis by simp
  next
    case (Next k' kept' r)
    note step = retention_turn_retained(1) [OF Next refl]
    have "int kept' \<le> limit" using step Cons.prems(2) by auto
    then obtain m where m: "retained res' = retained r @ map cand_id (take m (filter wants_retention cs))" "int kept' + int m \<le> limit"
      "(\<forall>k. \<not> stop k) \<longrightarrow> retained res' = retained r @ map cand_id (take (nat (limit - int kept')) (filter wants_retention cs))"
      using Cons.IH [of k' kept' r] Cons.prems(1) Next by auto
    show ?thesis
    proof (cases ?w)
      case True
      then have "nat (limit - int kept) = Suc (nat (limit - int kept'))" using step by auto
      with True m step show ?thesis by (intro exI [of _ "Suc m"]) auto
    next
      case False
      show ?thesis
      proof (cases "wants_retention c")
        case True
        with False have "limit = int kept" using Cons.prems(2) by simp
        with True False m step show ?thesis by (intro exI [of _ m]) auto
      next
        case False
        with m step show ?thesis by (intro exI [of _ m]) auto
      qed
    qed
  qed
qed

text \<open>The candidates of a complete scan, in the order of the directory.\<close>

definition found_candidates :: "(string \<Rightarrow> candidate scan) \<Rightarrow> string list \<Rightarrow> candidate list" where
  "found_candidates scan rids = List.map_filter (\<lambda>rid. case scan rid of ScanFound c \<Rightarrow> Some c | _ \<Rightarrow> None) rids"

lemma scan_all_found:
  "scan_all stop scan k rids found res = Inr (cs, k', res') \<Longrightarrow>
     (cs = None \<or> cs = Some (found @ found_candidates scan rids)) \<and> ((\<forall>k. \<not> stop k) \<longrightarrow> cs \<noteq> None) \<and>
     cleaned res' = cleaned res \<and> retained res' = retained res"
  by (induction stop scan k rids found res rule: scan_all.induct)
    (auto simp: found_candidates_def List.map_filter_simps split: if_splits scan.splits)

text \<open>How a pass that got to its loop went.\<close>

lemma apply_retention_cases:
  assumes "apply_retention env h path pdoc stop ids seen obs = Inr res"
  obtains (nothing) "cleaned res = []" "retained res = []"
  | (loop) p rids k res1 where "validate_policy pdoc = Inr p" "ids = Some rids" "cleaned res1 = []" "retained res1 = []"
      "retention_loop env h path (failed_workspaces_to_retain p) stop obs k 0
         (newest_first (found_candidates (\<lambda>rid. scan_retention env h path rid (seen rid)) rids)) res1 = Inr res"
proof -
  from assms [unfolded apply_retention_def] obtain p where p: "validate_policy pdoc = Inr p"
    and rest: "(if \<not> cp_enabled p then Inr no_result
     else if stop 0 then Inr no_result
     else if require_global h \<noteq> Inr () then Inr (no_result\<lparr>blocked := True\<rparr>)
     else case ids of
       None \<Rightarrow> Inr no_result
     | Some rids \<Rightarrow>
         bind_r (scan_all stop (\<lambda>rid. scan_retention env h path rid (seen rid)) 1 rids [] no_result) (\<lambda>(found, k, res).
         case found of
           None \<Rightarrow> Inr res
         | Some cs \<Rightarrow> retention_loop env h path (failed_workspaces_to_retain p) stop obs k 0 (newest_first cs) res)) = Inr res"
    by (elim bind_r_InrE)
  have empty: "cleaned no_result = []" "retained no_result = []" by (simp_all add: no_result_def)
  show ?thesis
  proof (cases "\<not> cp_enabled p \<or> stop 0 \<or> require_global h \<noteq> Inr () \<or> ids = None")
    case True
    with rest have "res = no_result \<or> res = no_result\<lparr>blocked := True\<rparr>" by (auto split: if_splits)
    with empty have "cleaned res = []" "retained res = []" by auto
    then show ?thesis by (rule nothing)
  next
    case False
    then obtain rids where rids: "ids = Some rids" by auto
    with rest False obtain found k res1 where scan: "scan_all stop (\<lambda>rid. scan_retention env h path rid (seen rid)) 1 rids [] no_result = Inr (found, k, res1)"
      and fin: "(case found of None \<Rightarrow> Inr res1 | Some cs \<Rightarrow>
        retention_loop env h path (failed_workspaces_to_retain p) stop obs k 0 (newest_first cs) res1) = Inr res"
      by (auto elim!: bind_r_InrE)
    note sc = scan_all_found [OF scan]
    show ?thesis
    proof (cases found)
      case None
      with fin sc empty have "cleaned res = []" "retained res = []" by auto
      then show ?thesis by (rule nothing)
    next
      case (Some cs)
      with fin sc empty p rids show ?thesis by (intro loop [of p rids res1 k]) simp_all
    qed
  qed
qed

lemma scan_retention_found:
  "scan_retention env h path rid ob = ScanFound c \<Longrightarrow> cand_id c = rid \<and> cand_revision c = ob_mtime ob"
  by (cases "open_run env h path rid ob")
    (auto simp: scan_retention_def split: if_splits option.splits elim: refused.elims)

lemma found_candidatesE:
  assumes "c \<in> set (found_candidates (\<lambda>rid. scan_retention env h path rid (seen rid)) rids)"
  obtains "cand_id c \<in> set rids" "cand_revision c = ob_mtime (seen (cand_id c))"
proof -
  obtain rid where "rid \<in> set rids" "scan_retention env h path rid (seen rid) = ScanFound c"
    using assms by (auto simp: found_candidates_def List.map_filter_def split: scan.splits)
  with scan_retention_found [of env h path rid "seen rid" c] that show ?thesis by auto
qed

section \<open>Reclamation: lemmas\<close>

lemma pressure_delete_idle:
  assumes "pressure_delete env h path rid revision ob = Inr (Some removed)"
  shows "\<exists>run attempts. idle_workspace env h path rid ob run \<and> ob_mtime ob = revision \<and> ob_attempts ob = Some attempts \<and>
    retention_failed run attempts \<and>
    set removed \<subseteq> set (RETENTION_DISPOSABLE_DIRECTORIES @ DISPOSABLE_FILES) \<inter> set (ob_entries ob)"
proof -
  from assms [unfolded pressure_delete_def] obtain run where run: "open_run env h path rid ob = Inr run"
    and rest: "(if ob_mtime ob \<noteq> revision then Inr None
     else if \<not> retention_readable run (case ob_attempts ob of None \<Rightarrow> [] | Some as \<Rightarrow> as) then Inl Crash
     else if \<not> retention_failed run (case ob_attempts ob of None \<Rightarrow> [] | Some as \<Rightarrow> as) then Inr None
     else bind_r (clean_locked h ob run RETENTION_DISPOSABLE_DIRECTORIES DISPOSABLE_FILES) (\<lambda>removed. Inr (Some removed))) =
       Inr (Some removed)"
    by (elim bind_r_InrE)
  then have "ob_mtime ob = revision" and failed: "retention_failed run (case ob_attempts ob of None \<Rightarrow> [] | Some as \<Rightarrow> as)"
    and clean: "clean_locked h ob run RETENTION_DISPOSABLE_DIRECTORIES DISPOSABLE_FILES = Inr removed"
    by (auto split: if_splits elim!: bind_r_InrE)
  moreover note clean_locked_idle [OF run clean]
  moreover obtain attempts where "ob_attempts ob = Some attempts"
    using run by (auto elim!: open_runE simp: require_finished_ok)
  ultimately show ?thesis by (intro exI [of _ run] exI [of _ attempts]) auto
qed

text \<open>Measurements that keep the loop going.\<close>

definition still_pressed :: "capacity \<Rightarrow> bool" where
  "still_pressed c = (\<not> target_met c \<and> c_state c = ''pressure'')"

lemma pressure_turn_effect:
  assumes "pressure_turn env h path stop measurements obs k n c res = t" "turn_result t = Some r"
  shows "p_cleaned r = p_cleaned res \<and> p_target_reached r = p_target_reached res \<and> (\<forall>k' n'. t = Next k' n' r \<longrightarrow> n' = n) \<or>
    (\<exists>removed. p_cleaned r = p_cleaned res @ [(fst (snd (snd c)), removed)] \<and>
       pressure_delete env h path (fst (snd (snd c))) (snd (snd (snd c))) (obs (fst (snd (snd c)))) = Inr (Some removed) \<and>
       (if target_met (measurements n) then t = Halt r \<and> p_target_reached r
        else p_target_reached r = p_target_reached res \<and>
          (if still_pressed (measurements n) then \<exists>k'. t = Next k' (Suc n) r else t = Halt r)))"
  using assms unfolding pressure_turn_def still_pressed_def
  by (auto simp: Let_def split: if_splits sum.splits option.splits)

text \<open>A loop that starts with nothing cleaned and measured.  Every cleaned Run was deleted under
  its lock; each but the last was followed by a measurement still under pressure; and the
  target counts as reached exactly when the measurement after the last one met it.\<close>

definition pressure_trace ::
  "py_env \<Rightarrow> host \<Rightarrow> (string \<Rightarrow> string) \<Rightarrow> (nat \<Rightarrow> capacity) \<Rightarrow> (string \<Rightarrow> observation) \<Rightarrow> selected list \<Rightarrow> nat \<Rightarrow> pressure_result \<Rightarrow>
   pressure_result \<Rightarrow> bool" where
  "pressure_trace env h path measurements obs cs n res res' =
     (\<exists>new. p_cleaned res' = p_cleaned res @ new \<and> subseq (map fst new) (map (\<lambda>c. fst (snd (snd c))) cs) \<and>
        (\<forall>(rid, removed) \<in> set new. \<exists>c \<in> set cs. rid = fst (snd (snd c)) \<and>
           pressure_delete env h path rid (snd (snd (snd c))) (obs rid) = Inr (Some removed)) \<and>
        (\<forall>i. Suc i < length new \<longrightarrow> still_pressed (measurements (n + i))) \<and>
        (\<not> p_target_reached res \<longrightarrow>
           (p_target_reached res' \<longleftrightarrow> new \<noteq> [] \<and> target_met (measurements (n + (length new - 1))))))"

lemma pressure_loop_trace:
  "pressure_loop env h path stop measurements obs k n cs res = Inr res' \<Longrightarrow>
     pressure_trace env h path measurements obs cs n res res'"
proof (induction cs arbitrary: k n res)
  case Nil
  then show ?case by (simp add: pressure_trace_def)
next
  case (Cons c cs)
  let ?t = "pressure_turn env h path stop measurements obs k n c res"
  let ?rid = "fst (snd (snd c))"
  obtain r where r: "turn_result ?t = Some r" "?t = Halt r \<and> res' = r \<or>
      (\<exists>k' n'. ?t = Next k' n' r \<and> pressure_trace env h path measurements obs cs n' r res')"
    using Cons by (cases ?t) auto
  from pressure_turn_effect [OF refl r(1)] show ?case
  proof
    assume same: "p_cleaned r = p_cleaned res \<and> p_target_reached r = p_target_reached res \<and> (\<forall>k' n'. ?t = Next k' n' r \<longrightarrow> n' = n)"
    from r(2) show ?thesis
    proof
      assume "?t = Halt r \<and> res' = r"
      with same show ?thesis by (simp add: pressure_trace_def)
    next
      assume "\<exists>k' n'. ?t = Next k' n' r \<and> pressure_trace env h path measurements obs cs n' r res'"
      with same have "pressure_trace env h path measurements obs cs n r res'" by blast
      with same show ?thesis
        unfolding pressure_trace_def by (elim exE conjE, intro exI conjI) (auto intro: list_emb_Cons)
    qed
  next
    assume "\<exists>removed. p_cleaned r = p_cleaned res @ [(?rid, removed)] \<and>
       pressure_delete env h path ?rid (snd (snd (snd c))) (obs ?rid) = Inr (Some removed) \<and>
       (if target_met (measurements n) then ?t = Halt r \<and> p_target_reached r
        else p_target_reached r = p_target_reached res \<and>
          (if still_pressed (measurements n) then \<exists>k'. ?t = Next k' (Suc n) r else ?t = Halt r))"
    then obtain removed where new: "p_cleaned r = p_cleaned res @ [(?rid, removed)]"
      "pressure_delete env h path ?rid (snd (snd (snd c))) (obs ?rid) = Inr (Some removed)"
      and next_turn: "if target_met (measurements n) then ?t = Halt r \<and> p_target_reached r
        else p_target_reached r = p_target_reached res \<and>
          (if still_pressed (measurements n) then \<exists>k'. ?t = Next k' (Suc n) r else ?t = Halt r)" by blast
    show ?thesis
    proof (cases "?t = Halt r")
      case True
      with r(2) have "res' = r" by auto
      moreover have "p_target_reached r \<longleftrightarrow> target_met (measurements n)" if "\<not> p_target_reached res"
        using next_turn that by (auto split: if_splits)
      ultimately show ?thesis using new unfolding pressure_trace_def
        by (intro exI [of _ "[(?rid, removed)]"]) auto
    next
      case False
      with next_turn have go: "\<not> target_met (measurements n)" "still_pressed (measurements n)" "p_target_reached r = p_target_reached res"
        and nxt: "\<exists>k'. ?t = Next k' (Suc n) r" by (auto split: if_splits)
      with r(2) False have "pressure_trace env h path measurements obs cs (Suc n) r res'" by auto
      then obtain more where more: "p_cleaned res' = p_cleaned r @ more" "subseq (map fst more) (map (\<lambda>c. fst (snd (snd c))) cs)"
        "\<forall>(rid, removed) \<in> set more. \<exists>c \<in> set cs. rid = fst (snd (snd c)) \<and>
           pressure_delete env h path rid (snd (snd (snd c))) (obs rid) = Inr (Some removed)"
        "\<forall>i. Suc i < length more \<longrightarrow> still_pressed (measurements (Suc n + i))"
        "\<not> p_target_reached r \<longrightarrow> (p_target_reached res' \<longleftrightarrow> more \<noteq> [] \<and> target_met (measurements (Suc n + (length more - 1))))"
        unfolding pressure_trace_def by blast
      have pressed: "still_pressed (measurements (n + i))" if "Suc i < length ((?rid, removed) # more)" for i
        using that go(2) more(4) by (cases i) auto
      have reach: "p_target_reached res' \<longleftrightarrow> target_met (measurements (n + (length ((?rid, removed) # more) - 1)))"
        if "\<not> p_target_reached res"
        using more(5) that go by (cases more) auto
      show ?thesis
        unfolding pressure_trace_def
        using more(1-3) new pressed reach by (intro exI [of _ "(?rid, removed) # more"]) auto
    qed
  qed
qed

lemma select_all_found:
  "select_all stop scan k rids found res = Inr (cs, k', res') \<Longrightarrow>
     p_cleaned res' = p_cleaned res \<and> p_target_reached res' = p_target_reached res \<and>
     (\<forall>xs. cs = Some xs \<longrightarrow> (\<forall>c \<in> set xs. c \<in> set found \<or> (\<exists>rid \<in> set rids. scan rid = ScanFound c)))"
  by (induction stop scan k rids found res rule: select_all.induct)
    (auto split: if_splits scan.splits)

lemma scan_pressure_found:
  "scan_pressure env h path rid ob = ScanFound c \<Longrightarrow> fst (snd (snd c)) = rid \<and> snd (snd (snd c)) = ob_mtime ob"
  by (cases "open_run env h path rid ob")
    (auto simp: scan_pressure_def Let_def split: if_splits option.splits elim: refused.elims)

lemma apply_storage_pressure_cases:
  assumes "apply_storage_pressure env h path pdoc stop candidates builds measurements seen obs = Inr res"
  obtains (nothing) "p_cleaned res = []" "\<not> p_target_reached res"
  | (loop) cs res1 where "c_state builds = ''pressure''" "p_cleaned res1 = []" "\<not> p_target_reached res1"
      "\<forall>c \<in> set cs. fst (snd (snd c)) \<in> set candidates \<and>
         scan_pressure env h path (fst (snd (snd c))) (seen (fst (snd (snd c)))) = ScanFound c"
      "pressure_trace env h path measurements obs (oldest_first cs) 0 res1 res"
proof -
  let ?res = "\<lparr>p_initial = c_state builds, p_considered = 0, p_cleaned = [], p_skipped = [], p_errors = [],
           p_target_reached = False, p_final = c_state builds, p_blocked = False\<rparr>"
  from assms [unfolded apply_storage_pressure_def Let_def] obtain p where "validate_policy pdoc = Inr p"
    and rest: "(if c_state builds \<noteq> ''pressure'' \<or> c_measurement builds = MeasurementError \<or> c_target builds = None \<or> \<not> cp_enabled p
     then Inr ?res
     else if stop 0 then Inr ?res
     else if require_global h \<noteq> Inr () then Inr (?res\<lparr>p_blocked := True\<rparr>)
     else
       bind_r (select_all stop (\<lambda>rid. scan_pressure env h path rid (seen rid)) 1 (rev (remdups (rev candidates))) [] ?res)
         (\<lambda>(found, k, res1).
         case found of
           None \<Rightarrow> Inr res1
         | Some cs \<Rightarrow> pressure_loop env h path stop measurements obs k 0 (oldest_first cs) res1)) = Inr res"
    by (elim bind_r_InrE)
  show ?thesis
  proof (cases "c_state builds \<noteq> ''pressure'' \<or> c_measurement builds = MeasurementError \<or> c_target builds = None \<or> \<not> cp_enabled p \<or>
      stop 0 \<or> require_global h \<noteq> Inr ()")
    case True
    with rest have "res = ?res \<or> res = ?res\<lparr>p_blocked := True\<rparr>" by (auto split: if_splits)
    then have "p_cleaned res = []" "\<not> p_target_reached res" by auto
    then show ?thesis by (rule nothing)
  next
    case False
    with rest obtain found k res1 where sel: "select_all stop (\<lambda>rid. scan_pressure env h path rid (seen rid)) 1
        (rev (remdups (rev candidates))) [] ?res = Inr (found, k, res1)"
      and fin: "(case found of None \<Rightarrow> Inr res1 | Some cs \<Rightarrow>
        pressure_loop env h path stop measurements obs k 0 (oldest_first cs) res1) = Inr res"
      by (auto elim!: bind_r_InrE)
    note se = select_all_found [OF sel]
    show ?thesis
    proof (cases found)
      case None
      with fin se have "p_cleaned res = []" "\<not> p_target_reached res" by auto
      then show ?thesis by (rule nothing)
    next
      case (Some cs)
      have ids: "\<forall>c \<in> set cs. fst (snd (snd c)) \<in> set candidates \<and>
          scan_pressure env h path (fst (snd (snd c))) (seen (fst (snd (snd c)))) = ScanFound c"
        using se Some scan_pressure_found by fastforce
      have "pressure_loop env h path stop measurements obs k 0 (oldest_first cs) res1 = Inr res" using fin Some by simp
      from pressure_loop_trace [OF this] ids se False show ?thesis by (intro loop [of res1 cs]) auto
    qed
  qed
qed

section \<open>A retained workspace keeps its data\<close>

text \<open>No workspace is both retained and cleaned for retention.\<close>

definition kept_apart :: "cleanup_result \<Rightarrow> bool" where
  "kept_apart res = (\<forall>(rid, why, removed) \<in> set (cleaned res). why = ''retention'' \<longrightarrow> rid \<notin> set (retained res))"

definition untouched :: "candidate list \<Rightarrow> cleanup_result \<Rightarrow> bool" where
  "untouched cs res = ((\<forall>c \<in> set cs. cand_id c \<notin> set (retained res) \<and> cand_id c \<notin> fst ` set (cleaned res)) \<and> distinct (map cand_id cs))"

lemma retention_turn_apart:
  assumes "turn_result (retention_turn env h path limit stop obs k kept c res) = Some r"
    and "kept_apart res" "untouched (c # cs) res"
  shows "kept_apart r \<and> untouched cs r"
proof -
  let ?w = "wants_retention c \<and> int kept < limit"
  let ?t = "retention_turn env h path limit stop obs k kept c res"
  have ret: "retained r = retained res \<or> ?w \<and> retained r = retained res @ [cand_id c]"
    using assms(1) retention_turn_retained [of env h path limit stop obs k kept c res ?t, OF refl]
    by (cases ?t) (auto split: if_splits)
  have cl: "cleaned r = cleaned res \<or> (\<exists>why removed. cleaned r = cleaned res @ [(cand_id c, why, removed)] \<and>
      why = (if ?w then ''terminal_run'' else ''retention''))"
    using retention_turn_cleaned [OF assms(1)] by (elim disjE exE conjE) (auto dest!: retention_delete_idle)
  from assms(3) have new: "cand_id c \<notin> set (retained res)" "cand_id c \<notin> fst ` set (cleaned res)" "cand_id c \<notin> cand_id ` set cs"
    "\<forall>d \<in> set cs. cand_id d \<notin> set (retained res) \<and> cand_id d \<notin> fst ` set (cleaned res)" "distinct (map cand_id cs)"
    unfolding untouched_def by simp_all
  from new(3) have other: "cand_id d \<noteq> cand_id c" if "d \<in> set cs" for d
    using that by (metis imageI)
  have "kept_apart r"
  proof (unfold kept_apart_def, clarify)
    fix rid why removed
    assume x: "(rid, ''retention'', removed) \<in> set (cleaned r)" and y: "rid \<in> set (retained r)"
    show False
    proof (cases "(rid, ''retention'', removed) \<in> set (cleaned res)")
      case True
      then have "rid \<noteq> cand_id c" "rid \<notin> set (retained res)"
        using new(2) assms(2) by (force, auto simp: kept_apart_def)
      with ret y show False by auto
    next
      case False
      with cl x have "rid = cand_id c" "\<not> ?w" by (auto split: if_splits)
      with ret y new(1) show False by auto
    qed
  qed
  moreover have "untouched cs r"
    using ret cl new(4,5) other unfolding untouched_def by (elim disjE exE conjE) auto
  ultimately show ?thesis ..
qed

lemma retention_loop_apart:
  "retention_loop env h path limit stop obs k kept cs res = Inr res' \<Longrightarrow> kept_apart res \<Longrightarrow> untouched cs res \<Longrightarrow> kept_apart res'"
proof (induction cs arbitrary: k kept res)
  case (Cons c cs)
  let ?t = "retention_turn env h path limit stop obs k kept c res"
  show ?case
  proof (cases ?t)
    case (Halt r)
    with retention_turn_apart [of env h path limit stop obs k kept c res r cs] Cons.prems show ?thesis by simp
  next
    case (Next k' kept' r)
    with retention_turn_apart [of env h path limit stop obs k kept c res r cs] Cons.prems Cons.IH [of k' kept' r] show ?thesis by simp
  qed (use Cons.prems in simp)
qed simp

lemma found_candidates_ids:
  "map cand_id (found_candidates (\<lambda>rid. scan_retention env h path rid (seen rid)) rids) =
     filter (\<lambda>rid. \<exists>c. scan_retention env h path rid (seen rid) = ScanFound c) rids"
proof (induction rids)
  case (Cons rid rids)
  then show ?case
    using scan_retention_found [of env h path rid "seen rid"]
    by (cases "scan_retention env h path rid (seen rid)") (auto simp: found_candidates_def List.map_filter_simps)
qed (simp add: found_candidates_def List.map_filter_simps)

lemma newest_first_set [simp]: "set (newest_first cs) = set cs"
  by (simp add: newest_first_def)

lemma newest_first_distinct: "distinct (map cand_id cs) \<Longrightarrow> distinct (map cand_id (newest_first cs))"
  unfolding newest_first_def by (simp add: distinct_map rev_map)

section \<open>The order of reclamation\<close>

definition age_key :: "(string \<Rightarrow> selected scan) \<Rightarrow> string \<Rightarrow> nat \<times> rat \<times> string" where
  "age_key scan rid = (case scan rid of ScanFound (u, t, _) \<Rightarrow> (u, t, rid) | _ \<Rightarrow> (0, 0, rid))"

lemma sorted_subseq: "subseq xs ys \<Longrightarrow> sorted ys \<Longrightarrow> sorted (xs :: 'a :: linorder list)"
  by (induction xs ys rule: list_emb.induct) (auto dest: list_emb_set)

lemma oldest_first_ages:
  assumes "\<forall>c \<in> set cs. scan (fst (snd (snd c))) = ScanFound c"
    and "subseq rids (map (\<lambda>c. fst (snd (snd c))) (oldest_first cs))"
  shows "sorted (map (age_key scan) rids)"
proof -
  have "map (age_key scan) (map (\<lambda>c. fst (snd (snd c))) (oldest_first cs)) =
      map (\<lambda>(u, t, rid, _). (u, t, rid)) (oldest_first cs)"
    using assms(1) by (auto simp: oldest_first_def age_key_def)
  moreover have "sorted (map (\<lambda>(u, t, rid, _). (u, t, rid)) (oldest_first cs))"
    by (simp add: oldest_first_def)
  ultimately show ?thesis
    using subseq_map [OF assms(2), of "age_key scan"] sorted_subseq by metis
qed

section \<open>A failed Run\<close>

lemma new_run_fields:
  assumes "new_run env now epoch run_id recipe_id mode workspace sha contract od ad pd = Inr kvs"
  shows "jget kvs ''workspace'' = JStr workspace" "has_key kvs ''workspace''" "jget kvs ''recovery'' = JNull" "jget kvs ''publications'' = JNull"
    "jget kvs ''log_deleted'' = JNull" "jget kvs ''finished_at'' = JNull" "jget kvs ''created_at_epoch'' = JFloat epoch"
    "\<forall>s \<in> set (records_of kvs ''steps''). record_status s = JStr ''pending''"
proof -
  from assms [unfolded new_run_def] obtain steps o' a m limits where steps: "map_r new_step STEP_NAMES = Inr steps"
    and kvs: "kvs = [
          (''schema_version'', JInt 4), (''id'', JStr run_id), (''recipe_id'', JStr recipe_id),
          (''recipe_sha256'', JStr sha), (''mode'', JStr mode), (''status'', JStr ''pending''),
          (''created_at'', JStr now), (''created_at_epoch'', JFloat epoch), (''started_at'', JNull),
          (''finished_at'', JNull), (''duration'', JNull), (''workspace'', JStr workspace),
          (''version'', JObj [(''upstream'', JStr []), (''debian'', JStr [])]),
          (''steps'', JArr steps), (''artifact'', JNull), (''toolchain'', JNull), (''error'', JNull),
          (''events'', JArr []), (''resource_limits'', limits), (''origin'', origin_json o'),
          (''automation'', opt_json automation_json a),
          (''manual_source_provenance'', opt_json identity_json m),
          (''admission_sha256'', JStr (admission_metadata_sha256 env recipe_id sha mode o' a m))]"
    by (auto split: if_splits elim!: bind_r_InrE)
  show "jget kvs ''workspace'' = JStr workspace" "has_key kvs ''workspace''" "jget kvs ''recovery'' = JNull" "jget kvs ''publications'' = JNull"
    "jget kvs ''log_deleted'' = JNull" "jget kvs ''finished_at'' = JNull" "jget kvs ''created_at_epoch'' = JFloat epoch"
    by (simp_all add: kvs has_key_def)
  have "\<forall>s \<in> set steps. record_status s = JStr ''pending''"
    using steps by (auto simp: STEP_NAMES_def new_step_def)
  moreover have "records_of kvs ''steps'' = steps" by (simp add: kvs records_of_def)
  ultimately show "\<forall>s \<in> set (records_of kvs ''steps''). record_status s = JStr ''pending''" by simp
qed

definition quiet_host :: host where
  "quiet_host = \<lparr>global_blocker = False, probe_blocker = False, runtime_blocker = False\<rparr>"

definition idle_observation :: "doc \<Rightarrow> string list \<Rightarrow> observation" where
  "idle_observation run entries = \<lparr>ob_lock = Locked, ob_file = Parsed (JObj run), ob_read_failed = False, ob_read_unsafe = False, ob_entries = entries,
     ob_attempts = Some [], ob_lifecycle_active = False, ob_history_marker = False, ob_mtime = 7, ob_identity_clear = True,
     ob_units_clear = True, ob_unused = True, ob_targets_safe = (\<lambda>_. True), ob_artifact_inside = (\<lambda>_. False), ob_removal_ok = True\<rparr>"

definition under_w :: "string \<Rightarrow> string" where "under_w rid = ''/w/'' @ rid"

text \<open>What the two passes ask about a failed Run with no attempts and no publications.\<close>

definition failed_sample :: "doc \<Rightarrow> bool" where
  "failed_sample run =
     ((\<forall>es. open_run sample_env quiet_host under_w ''run-1'' (idle_observation run es) = Inr run) \<and>
      (\<forall>es ds fs. clean_locked quiet_host (idle_observation run es) run ds fs = Inr (filter (\<lambda>name. name \<in> set es) (ds @ fs))) \<and>
      retention_failed run [] \<and> completion_time sample_env run [] = Some 0 \<and> publications_readable run \<and>
      retention_readable run [] \<and> jget run ''log_deleted'' = JNull)"

lemma sample_failed: "\<exists>run. failed_sample run"
proof -
  from sample_run obtain c where made: "new_run sample_env ''2026-01-01T00:00:00+00:00'' 0 ''run-1'' ''app'' ''build'' ''/w/run-1''
     (replicate 64 CHR ''a'') JNull JNull JNull JNull = Inr c" ..
  let ?run = "jset c ''status'' (JStr ''failed'')"
  note wf = new_run_wf [OF made] and f = new_run_fields [OF made]
  have wf': "run_wf sample_env ?run" using wf by (intro run_wf_status) (simp_all add: RUN_STATUSES_def)
  have steps: "records_of ?run ''steps'' = records_of c ''steps''" by (simp add: records_of_def)
  have g: "jget ?run ''workspace'' = JStr ''/w/run-1''" "has_key ?run ''workspace''" "jget ?run ''recovery'' = JNull"
      "jget ?run ''publications'' = JNull" "jget ?run ''log_deleted'' = JNull" "jget ?run ''finished_at'' = JNull"
      "jget ?run ''created_at_epoch'' = JFloat 0" "jget ?run ''id'' = JStr ''run-1''" "jget ?run ''status'' = JStr ''failed''"
    using f wf by simp_all
  have pubs: "records_of ?run ''publications'' = []" using g by (simp add: records_of_def)
  have rd: "read_run sample_env (under_w ''run-1'') ''run-1'' (idle_observation ?run es) = Inr ?run" for es
    using run_doc.validate_render [OF wf'] g by (simp add: read_run_def idle_observation_def under_w_def)
  have auth: "require_run quiet_host ?run = Inr ()" using g by (simp add: require_run_ok quiet_host_def)
  have idle: "require_finished (idle_observation ?run es) ?run = Inr ()" for es
    using f(8) steps pubs g by (simp add: require_finished_ok publications_iterable_def idle_observation_def)
  show ?thesis unfolding failed_sample_def
  proof (intro exI [of _ ?run] conjI allI)
    show "open_run sample_env quiet_host under_w ''run-1'' (idle_observation ?run es) = Inr ?run" for es
      using rd auth idle by (simp add: open_run_def take_lock_def idle_observation_def)
    show "clean_locked quiet_host (idle_observation ?run es) ?run ds fs = Inr (filter (\<lambda>name. name \<in> set es) (ds @ fs))" for es ds fs
      using auth idle [of es] by (simp add: clean_locked_def require_destructive_run_safe_def quiet_host_def idle_observation_def)
    show "retention_failed ?run []" "publications_readable ?run" "retention_readable ?run []" "jget ?run ''log_deleted'' = JNull"
      using g pubs by (simp_all add: retention_failed_def failed_status_def publications_readable_def retention_readable_def
          last_publication_readable_def)
    show "completion_time sample_env ?run [] = Some 0"
      using g pubs by (simp add: completion_time_def timestamp_def List.map_filter_simps)
  qed
qed

lemma idle_observation_simps [simp]:
  "ob_attempts (idle_observation run es) = Some []" "ob_mtime (idle_observation run es) = 7" "take_lock (idle_observation run es) = Inr ()"
  "ob_entries (idle_observation run es) = es" "\<not> ob_history_marker (idle_observation run es)"
  by (simp_all add: idle_observation_def take_lock_def)

lemmas disposable_names = DISPOSABLE_DIRECTORIES_def RETENTION_DISPOSABLE_DIRECTORIES_def TERMINAL_DISPOSABLE_DIRECTORIES_def
  DISPOSABLE_FILES_def

lemma sample_policy:
  "cp_enabled DEFAULT_POLICY" "failed_workspaces_to_retain DEFAULT_POLICY = 5" "require_global quiet_host = Inr ()"
  by (simp_all add: DEFAULT_POLICY_def require_global_def quiet_host_def)

lemma failed_sample_scan:
  assumes "failed_sample run"
  shows "scan_retention sample_env quiet_host under_w ''run-1'' (idle_observation run [''source'', ''logs'']) =
      ScanFound \<lparr>cand_id = ''run-1'', cand_time = 0, cand_failed = True, cand_deleted = False, cand_revision = 7, cand_terminal = False\<rparr>"
    "scan_pressure sample_env quiet_host under_w ''run-1'' (idle_observation run [''source'', ''logs'']) = ScanFound (0, 0, ''run-1'', 7)"
  using assms unfolding failed_sample_def
  by (simp_all add: scan_retention_def scan_pressure_def has_any_def DISPOSABLE_DIRECTORIES_def RETENTION_DISPOSABLE_DIRECTORIES_def
      TERMINAL_DISPOSABLE_DIRECTORIES_def)

lemma apply_retention_runs:
  assumes "apply_retention env h path pdoc stop (Some rids) seen obs = Inr res" "validate_policy pdoc = Inr p"
    and "\<forall>k. \<not> stop k" "cp_enabled p" "\<not> global_blocker h"
  shows "\<exists>k res1. retained res1 = [] \<and> retention_loop env h path (failed_workspaces_to_retain p) stop obs k 0
    (newest_first (found_candidates (\<lambda>rid. scan_retention env h path rid (seen rid)) rids)) res1 = Inr res"
proof -
  from assms have "bind_r (scan_all stop (\<lambda>rid. scan_retention env h path rid (seen rid)) 1 rids [] no_result) (\<lambda>(found, k, res).
         case found of
           None \<Rightarrow> Inr res
         | Some cs \<Rightarrow> retention_loop env h path (failed_workspaces_to_retain p) stop obs k 0 (newest_first cs) res) = Inr res"
    by (simp add: apply_retention_def require_global_def)
  then obtain found k res1 where scan: "scan_all stop (\<lambda>rid. scan_retention env h path rid (seen rid)) 1 rids [] no_result = Inr (found, k, res1)"
      and fin: "(case found of None \<Rightarrow> Inr res1 | Some cs \<Rightarrow>
        retention_loop env h path (failed_workspaces_to_retain p) stop obs k 0 (newest_first cs) res1) = Inr res"
      by (auto elim!: bind_r_InrE)
  from scan_all_found [OF scan] fin assms(3) show ?thesis
    by (intro exI [of _ k] exI [of _ res1]) (auto simp: no_result_def)
qed

section \<open>Properties\<close>

text \<open>C32: retention deletes from a workspace only while it holds the workspace lock, nothing
  blocks cleanup globally, the stored Run is valid, belongs to the directory, is recovered and
  idle, no recorded command, command unit or process uses it, and its document has not
  changed since the scan selected it.  It removes only disposable names that exist, and only
  the toolchain from a workspace that it retains; no retained workspace is cleaned for
  retention.\<close>

theorem retention_deletes_only_idle:
  assumes "apply_retention env h path pdoc stop ids seen obs = Inr res" "distinct (case ids of None \<Rightarrow> [] | Some rids \<Rightarrow> rids)"
    and "(rid, why, removed) \<in> set (cleaned res)"
  shows "\<exists>run. idle_workspace env h path rid (obs rid) run \<and> ob_mtime (obs rid) = ob_mtime (seen rid) \<and>
    set removed \<subseteq> set (DISPOSABLE_DIRECTORIES @ DISPOSABLE_FILES) \<inter> set (ob_entries (obs rid)) \<and>
    (why = ''terminal_run'' \<and> set removed \<subseteq> {''toolchain''} \<or> why = ''retention'' \<and> rid \<notin> set (retained res))"
  using assms(1)
proof (cases rule: apply_retention_cases)
  case nothing
  with assms(3) show ?thesis by simp
next
  case (loop p rids k res1)
  let ?cs = "found_candidates (\<lambda>rid. scan_retention env h path rid (seen rid)) rids"
  obtain c retain where c: "c \<in> set ?cs" "cand_id c = rid"
    and del: "retention_delete env h path c retain (obs (cand_id c)) = Inr (Some (why, removed))"
    using retention_loop_cleaned [OF loop(5) assms(3)] loop(3) by auto
  have seen: "cand_revision c = ob_mtime (seen rid)" using c(1) c(2) by (auto elim: found_candidatesE)
  have "distinct rids" using assms(2) loop(2) by simp
  then have "distinct (map cand_id ?cs)" unfolding found_candidates_ids by (rule distinct_filter)
  then have "untouched (newest_first ?cs) res1"
    using loop(3,4) newest_first_distinct by (simp add: untouched_def)
  from retention_loop_apart [OF loop(5) _ this] have apart: "kept_apart res"
    using loop(3) by (simp add: kept_apart_def)
  from retention_delete_idle [OF del] obtain run where run: "idle_workspace env h path rid (obs rid) run"
      "ob_mtime (obs rid) = ob_mtime (seen rid)" "why = (if retain then ''terminal_run'' else ''retention'')"
      "set removed \<subseteq> set (DISPOSABLE_DIRECTORIES @ DISPOSABLE_FILES) \<inter> set (ob_entries (obs rid))"
      "retain \<Longrightarrow> set removed \<subseteq> set TERMINAL_DISPOSABLE_DIRECTORIES"
    using c(2) seen by auto
  show ?thesis
    using run apart assms(3) by (intro exI [of _ run]) (auto simp: kept_apart_def TERMINAL_DISPOSABLE_DIRECTORIES_def)
qed

theorem retention_deletes_only_idle_witness:
  "\<exists>run res. apply_retention sample_env quiet_host under_w (cleanup_json (DEFAULT_POLICY\<lparr>failed_workspaces_to_retain := 0\<rparr>))
       (\<lambda>_. False) (Some [''run-1'']) (\<lambda>_. idle_observation run [''source'', ''logs'']) (\<lambda>_. idle_observation run [''source'', ''logs'']) = Inr res \<and>
     cleaned res = [(''run-1'', ''retention'', [''source''])] \<and>
     (\<exists>run'. idle_workspace sample_env quiet_host under_w ''run-1'' (idle_observation run [''source'', ''logs'']) run')"
proof -
  obtain run where run: "failed_sample run" using sample_failed ..
  let ?ob = "idle_observation run [''source'', ''logs'']"
  let ?p = "DEFAULT_POLICY\<lparr>failed_workspaces_to_retain := 0\<rparr>"
  have policy: "validate_policy (cleanup_json ?p) = Inr ?p"
    by (rule validate_policy_fixed) (simp add: policy_wf_def DEFAULT_POLICY_def MAX_SAFE_JSON_INTEGER_def)
  have res: "apply_retention sample_env quiet_host under_w (cleanup_json ?p) (\<lambda>_. False) (Some [''run-1''])
      (\<lambda>_. ?ob) (\<lambda>_. ?ob) = Inr (no_result\<lparr>cleaned := [(''run-1'', ''retention'', [''source''])]\<rparr>)"
    using failed_sample_scan(1) [OF run] run [unfolded failed_sample_def]
    by (simp add: apply_retention_def policy newest_first_def retention_turn_def retention_delete_def sample_policy no_result_def
        disposable_names)
  from retention_deletes_only_idle [OF res, of "''run-1''" "''retention''" "[''source'']"]
  have "\<exists>run'. idle_workspace sample_env quiet_host under_w ''run-1'' ?ob run'" by auto
  with res show ?thesis by (intro exI) (rule conjI, assumption, simp)
qed

text \<open>The workspaces that retention keeps are the first of the failed Runs with history in
  the order newest first, at most as many as the policy allows, and as many as the policy
  allows when the pass is neither stopped, disabled nor blocked.\<close>

theorem retention_keeps_newest_failed:
  assumes "apply_retention env h path pdoc stop (Some rids) seen obs = Inr res" "validate_policy pdoc = Inr p"
  shows "\<exists>m. retained res = map cand_id (take m (filter wants_retention
      (newest_first (found_candidates (\<lambda>rid. scan_retention env h path rid (seen rid)) rids)))) \<and>
    int m \<le> failed_workspaces_to_retain p \<and>
    ((\<forall>k. \<not> stop k) \<and> cp_enabled p \<and> \<not> global_blocker h \<longrightarrow> int m = failed_workspaces_to_retain p)"
proof -
  let ?cs = "filter wants_retention (newest_first (found_candidates (\<lambda>rid. scan_retention env h path rid (seen rid)) rids))"
  let ?n = "failed_workspaces_to_retain p"
  have pos: "0 \<le> ?n" using policy_doc.validate_wf [OF assms(2)] by (simp add: policy_wf_def)
  show ?thesis
  proof (cases "(\<forall>k. \<not> stop k) \<and> cp_enabled p \<and> \<not> global_blocker h")
    case True
    with apply_retention_runs [OF assms] obtain k res1 where "retained res1 = []"
      and loop: "retention_loop env h path ?n stop obs k 0
        (newest_first (found_candidates (\<lambda>rid. scan_retention env h path rid (seen rid)) rids)) res1 = Inr res" by auto
    then have "retained res = map cand_id (take (nat ?n) ?cs)"
      using retention_loop_retained [OF loop] pos True by auto
    with pos show ?thesis by (intro exI [of _ "nat ?n"]) simp
  next
    case False
    from assms(1) show ?thesis
    proof (cases rule: apply_retention_cases)
      case nothing
      with False pos show ?thesis by (intro exI [of _ 0]) auto
    next
      case (loop p' rids' k res1)
      with assms(2) have same: "p' = p" "rids' = rids" by simp_all
      obtain m where "retained res = map cand_id (take m ?cs)" "int m \<le> ?n"
        using retention_loop_retained [OF loop(5)] loop(4) same pos by auto
      with False show ?thesis by (intro exI [of _ m]) auto
    qed
  qed
qed

theorem retention_keeps_newest_failed_witness:
  "\<exists>run res. apply_retention sample_env quiet_host under_w (cleanup_json DEFAULT_POLICY) (\<lambda>_. False) (Some [''run-1''])
       (\<lambda>_. idle_observation run [''source'', ''logs'']) (\<lambda>_. idle_observation run [''source'', ''logs'']) = Inr res \<and>
     retained res = [''run-1''] \<and>
     (\<exists>m. retained res = map cand_id (take m (filter wants_retention (newest_first (found_candidates
        (\<lambda>rid. scan_retention sample_env quiet_host under_w rid (idle_observation run [''source'', ''logs''])) [''run-1''])))) \<and> int m \<le> 5)"
proof -
  obtain run where run: "failed_sample run" using sample_failed ..
  let ?ob = "idle_observation run [''source'', ''logs'']"
  let ?res = "no_result\<lparr>retained := [''run-1''], pressure_candidates := [''run-1'']\<rparr>"
  have policy: "validate_policy (cleanup_json DEFAULT_POLICY) = Inr DEFAULT_POLICY"
    by (rule validate_policy_fixed) (simp add: policy_wf_def DEFAULT_POLICY_def MAX_SAFE_JSON_INTEGER_def)
  have res: "apply_retention sample_env quiet_host under_w (cleanup_json DEFAULT_POLICY) (\<lambda>_. False) (Some [''run-1''])
      (\<lambda>_. ?ob) (\<lambda>_. ?ob) = Inr ?res"
    using failed_sample_scan(1) [OF run]
    by (simp add: apply_retention_def policy newest_first_def retention_turn_def sample_policy no_result_def Let_def)
  from retention_keeps_newest_failed [OF res policy] obtain m where
    m: "retained ?res = map cand_id (take m (filter wants_retention (newest_first (found_candidates
        (\<lambda>rid. scan_retention sample_env quiet_host under_w rid ?ob) [''run-1'']))))"
      "int m \<le> failed_workspaces_to_retain DEFAULT_POLICY"
    by blast
  show ?thesis
  proof (intro exI conjI)
    show "int m \<le> 5" using m(2) by (simp add: sample_policy)
  qed (rule res, simp, rule m(1))
qed

text \<open>C33: reclamation under storage pressure deletes only from workspaces of its candidates that
  are idle, have failed and have not changed since they were selected, never their toolchain,
  and the ones it deletes from come in the order known ages first, oldest first.  It goes on
  after a deletion only while the measurement that follows is still under pressure and below
  the target, and reports the target as reached exactly when the measurement after the last
  deletion meets it.\<close>

theorem pressure_reclaims_oldest_failed:
  assumes "apply_storage_pressure env h path pdoc stop candidates builds measurements seen obs = Inr res"
  shows "(\<forall>(rid, removed) \<in> set (p_cleaned res). rid \<in> set candidates \<and> ob_mtime (obs rid) = ob_mtime (seen rid) \<and>
      set removed \<subseteq> {''source'', ''staging'', ''downloads'', ''source.tar.gz''} \<and>
      (\<exists>run attempts. idle_workspace env h path rid (obs rid) run \<and> ob_attempts (obs rid) = Some attempts \<and> retention_failed run attempts)) \<and>
    sorted (map (age_key (\<lambda>rid. scan_pressure env h path rid (seen rid))) (map fst (p_cleaned res))) \<and>
    (\<forall>i. Suc i < length (p_cleaned res) \<longrightarrow> still_pressed (measurements i)) \<and>
    (p_target_reached res \<longleftrightarrow> p_cleaned res \<noteq> [] \<and> target_met (measurements (length (p_cleaned res) - 1)))"
  using assms
proof (cases rule: apply_storage_pressure_cases)
  case nothing
  then show ?thesis by simp
next
  case (loop cs res1)
  let ?scan = "\<lambda>rid. scan_pressure env h path rid (seen rid)"
  from loop(5) [unfolded pressure_trace_def] loop(2,3) have trace:
    "subseq (map fst (p_cleaned res)) (map (\<lambda>c. fst (snd (snd c))) (oldest_first cs))"
    "\<forall>(rid, removed) \<in> set (p_cleaned res). \<exists>c \<in> set (oldest_first cs). rid = fst (snd (snd c)) \<and>
       pressure_delete env h path rid (snd (snd (snd c))) (obs rid) = Inr (Some removed)"
    "\<forall>i. Suc i < length (p_cleaned res) \<longrightarrow> still_pressed (measurements i)"
    "p_target_reached res \<longleftrightarrow> p_cleaned res \<noteq> [] \<and> target_met (measurements (length (p_cleaned res) - 1))"
    by auto
  have each: "rid \<in> set candidates \<and> ob_mtime (obs rid) = ob_mtime (seen rid) \<and>
      set removed \<subseteq> {''source'', ''staging'', ''downloads'', ''source.tar.gz''} \<and>
      (\<exists>run attempts. idle_workspace env h path rid (obs rid) run \<and> ob_attempts (obs rid) = Some attempts \<and> retention_failed run attempts)"
    if x: "(rid, removed) \<in> set (p_cleaned res)" for rid removed
  proof -
    from trace(2) x obtain c where c: "c \<in> set cs" "rid = fst (snd (snd c))"
      and del: "pressure_delete env h path rid (snd (snd (snd c))) (obs rid) = Inr (Some removed)"
      by (auto simp: oldest_first_def)
    from c loop(4) have found: "rid \<in> set candidates" "scan_pressure env h path rid (seen rid) = ScanFound c" by auto
    from pressure_delete_idle [OF del] scan_pressure_found [OF found(2)] found(1) show ?thesis
      by (auto simp: RETENTION_DISPOSABLE_DIRECTORIES_def DISPOSABLE_FILES_def)
  qed
  have "sorted (map (age_key ?scan) (map fst (p_cleaned res)))"
    using loop(4) trace(1) by (intro oldest_first_ages [of cs]) auto
  with each trace(3,4) show ?thesis by blast
qed

theorem pressure_reclaims_oldest_failed_witness:
  "\<exists>run res b. let builds = \<lparr>c_measurement = Ready b, c_state = ''pressure'', c_start = Some 10, c_target = Some 20, c_same_as_builds = False\<rparr>;
       freed = builds\<lparr>c_measurement := Ready (b\<lparr>available_bytes := 20\<rparr>), c_state := ''normal''\<rparr> in
     apply_storage_pressure sample_env quiet_host under_w (cleanup_json DEFAULT_POLICY) (\<lambda>_. False) [''run-1''] builds (\<lambda>_. freed)
       (\<lambda>_. idle_observation run [''source'', ''logs'']) (\<lambda>_. idle_observation run [''source'', ''logs'']) = Inr res \<and>
     p_cleaned res = [(''run-1'', [''source''])] \<and> p_target_reached res"
proof -
  obtain run where run: "failed_sample run" using sample_failed ..
  let ?ob = "idle_observation run [''source'', ''logs'']"
  define b where "b = \<lparr>measured_scope = ''builds'', device_id = 1, total_bytes = 100, used_bytes = 95, free_bytes = 5, available_bytes = (5 :: int)\<rparr>"
  define builds where "builds = \<lparr>c_measurement = Ready b, c_state = ''pressure'', c_start = Some 10, c_target = Some 20, c_same_as_builds = False\<rparr>"
  define freed where "freed = builds\<lparr>c_measurement := Ready (b\<lparr>available_bytes := 20\<rparr>), c_state := ''normal''\<rparr>"
  have policy: "validate_policy (cleanup_json DEFAULT_POLICY) = Inr DEFAULT_POLICY"
    by (rule validate_policy_fixed) (simp add: policy_wf_def DEFAULT_POLICY_def MAX_SAFE_JSON_INTEGER_def)
  have met: "target_met freed" by (simp add: target_met_def freed_def builds_def)
  define res where "res = \<lparr>p_initial = ''pressure'', p_considered = 1, p_cleaned = [(''run-1'', [''source''])], p_skipped = [], p_errors = [],
           p_target_reached = True, p_final = ''normal'', p_blocked = False\<rparr>"
  have c: "c_state builds = ''pressure''" "c_measurement builds = Ready b" "c_target builds = Some 20" "c_state freed = ''normal''"
    by (simp_all add: builds_def freed_def)
  have ok: "apply_storage_pressure sample_env quiet_host under_w (cleanup_json DEFAULT_POLICY) (\<lambda>_. False) [''run-1''] builds (\<lambda>_. freed)
       (\<lambda>_. ?ob) (\<lambda>_. ?ob) = Inr res"
    using failed_sample_scan(2) [OF run] run [unfolded failed_sample_def]
    by (simp add: apply_storage_pressure_def policy oldest_first_def pressure_turn_def pressure_delete_def sample_policy met c res_def
        disposable_names)
  from pressure_reclaims_oldest_failed [OF ok] have "p_target_reached res" by (simp add: met res_def)
  with ok show ?thesis unfolding builds_def freed_def by (intro exI [of _ run] exI [of _ res] exI [of _ b]) (simp add: Let_def res_def)
qed

end
