(* ===== verification/Command_Identity.thy ===== *)
theory Command_Identity
  imports Run_Store
begin

text \<open>
  \<^verbatim>\<open>src/debbuilder/command_identity.py\<close> with \<^verbatim>\<open>terminate_process_group\<close> of
  \<^verbatim>\<open>command_runner.py\<close>: the durable record of the one command a Run executes, its file in the
  workspace, its verification against \<^verbatim>\<open>/proc\<close>, and the signals that a verified identity
  authorizes.

  What the kernel answers (the texts of \<^verbatim>\<open>/proc\<close>, the replies of \<^verbatim>\<open>killpg\<close>) is an argument;
  each read of one call has an answer of its own.
\<close>

section \<open>Texts\<close>

text \<open>\<^verbatim>\<open>int(s)\<close>: white space around, a sign, digits with single underscores between them.\<close>

fun digit_groups :: "string \<Rightarrow> bool" where
  "digit_groups [] = False"
| "digit_groups [c] = is_dec c"
| "digit_groups (c # d # s) =
     (is_dec c \<and> (if d = CHR ''_'' then digit_groups s else digit_groups (d # s)))"

definition digits_value :: "string \<Rightarrow> int" where
  "digits_value s = foldl (\<lambda>n c. 10 * n + (int (cord c) - 48)) 0 (filter (\<lambda>c. c \<noteq> CHR ''_'') s)"

definition py_int :: "string \<Rightarrow> int option" where
  "py_int text =
     (case strip text of
        [] \<Rightarrow> None
      | c # s \<Rightarrow>
          if c = CHR ''-'' then (if digit_groups s then Some (- digits_value s) else None)
          else if c = CHR ''+'' then (if digit_groups s then Some (digits_value s) else None)
          else if digit_groups (c # s) then Some (digits_value (c # s)) else None)"

text \<open>\<^verbatim>\<open>s.split()\<close>\<close>

fun split_words :: "string \<Rightarrow> string \<Rightarrow> string list" where
  "split_words word [] = (if word = [] then [] else [word])"
| "split_words word (c # s) =
     (if is_space c then (if word = [] then split_words [] s else word # split_words [] s)
      else split_words (word @ [c]) s)"

text \<open>\<^verbatim>\<open>text.find(c)\<close> and \<^verbatim>\<open>text.rfind(c)\<close>\<close>

definition find_char :: "char \<Rightarrow> string \<Rightarrow> int" where
  "find_char c s = (if c \<in> set s then int (length (takeWhile (\<lambda>d. d \<noteq> c) s)) else -1)"

definition rfind_char :: "char \<Rightarrow> string \<Rightarrow> int" where
  "rfind_char c s = (if c \<in> set s then int (length s) - 1 - int (length (takeWhile (\<lambda>d. d \<noteq> c) (rev s))) else -1)"

text \<open>Groups of hexadecimal digits of given lengths with a minus sign between them.\<close>

fun hex_groups :: "nat list \<Rightarrow> string \<Rightarrow> bool" where
  "hex_groups [] s = (s = [])"
| "hex_groups [n] s = matches is_hex n n s"
| "hex_groups (n # ns) s =
     (matches is_hex n n (take n s) \<and> (case drop n s of [] \<Rightarrow> False | c # rest \<Rightarrow> c = CHR ''-'' \<and> hex_groups ns rest))"

definition is_boot_id :: "string \<Rightarrow> bool" where
  "is_boot_id s = hex_groups [8, 4, 4, 4, 12] s"

definition is_command_id :: "string \<Rightarrow> bool" where
  "is_command_id s =
     (case s of [] \<Rightarrow> False
      | c # rest \<Rightarrow> (is_lower c \<or> is_upper c \<or> is_dec c) \<and> matches is_name_char 0 127 rest)"

definition is_unit_name :: "string \<Rightarrow> bool" where
  "is_unit_name s =
     (starts_with ''debbuilder-command-'' s \<and> hex_groups [16, 32] (take 49 (drop 19 s)) \<and> drop 68 s = ''.service'')"

definition is_control_group :: "string \<Rightarrow> bool" where
  "is_control_group s = (starts_with ''/system.slice/'' s \<and> is_unit_name (drop 14 s))"

section \<open>The record\<close>

definition IDENTITY_SCHEMA_VERSION :: int where "IDENTITY_SCHEMA_VERSION = 3"

abbreviation ident_err :: exn where "ident_err \<equiv> Exn CommandIdentityError [] []"

text \<open>\<^verbatim>\<open>isinstance(exc, ValueError)\<close> and \<^verbatim>\<open>isinstance(exc, OSError)\<close>\<close>

definition is_value_error :: "exn \<Rightarrow> bool" where
  "is_value_error e = (exn_class e \<in> {ValueError, ResourceLimitError, UpstreamIdentityError, RunDocumentError})"

definition is_os_error :: "exn \<Rightarrow> bool" where
  "is_os_error e = (exn_class e \<in> {OSError, FileNotFoundError})"

text \<open>The exceptions that the callers of the identity functions expect.\<close>

definition expected_failure :: "exn \<Rightarrow> bool" where
  "expected_failure e =
     (exn_class e = CommandIdentityError \<or> is_os_error e \<or> exn_class e = TypeError \<or> is_value_error e)"

text \<open>\<^verbatim>\<open>require_safe_name(value)\<close> for any value\<close>

definition require_safe_name :: "json \<Rightarrow> string result" where
  "require_safe_name v =
     (if \<not> truthy v then Inl val_err
      else case v of JStr s \<Rightarrow> if safe_name s then Inr s else Inl val_err | _ \<Rightarrow> Inl type_err)"

definition process_group_fields :: "string list" where
  "process_group_fields = [''schema_version'', ''pid'', ''pgid'', ''start_time_ticks'', ''boot_id'', ''run_id'', ''command_id'',
     ''backend'', ''containment_state'', ''resource_limits'', ''resource_io_targets'']"

definition systemd_starting_fields :: "string list" where
  "systemd_starting_fields = [''schema_version'', ''backend'', ''boot_id'', ''run_id'', ''command_id'', ''unit_name'',
     ''containment_state'', ''resource_limits'', ''resource_io_targets'']"

definition systemd_active_required :: "string list" where
  "systemd_active_required = systemd_starting_fields @ [''invocation_id'', ''control_group'']"

text \<open>A field that must be a string with a property.\<close>

definition text_field :: "(string \<Rightarrow> bool) \<Rightarrow> json \<Rightarrow> bool" where
  "text_field P v = (case v of JStr s \<Rightarrow> P s | _ \<Rightarrow> False)"

definition int_from :: "int \<Rightarrow> json \<Rightarrow> bool" where
  "int_from lo v = (case v of JInt n \<Rightarrow> lo \<le> n | _ \<Rightarrow> False)"

definition group_checks :: "doc \<Rightarrow> (bool \<times> exn) list" where
  "group_checks kvs = [
     (jget kvs ''containment_state'' \<noteq> JStr ''active'', ident_err),
     (\<not> int_from 1 (jget kvs ''pid''), ident_err),
     (\<not> int_from 1 (jget kvs ''pgid''), ident_err),
     (\<not> int_from 0 (jget kvs ''start_time_ticks''), ident_err)]"

definition systemd_checks :: "doc \<Rightarrow> unit result" where
  "systemd_checks kvs =
     bind_r (str_in (jget kvs ''containment_state'') [''starting'', ''active'', ''stopping'']) (\<lambda>known.
     if \<not> known then Inl ident_err
     else if \<not> text_field is_unit_name (jget kvs ''unit_name'') then Inl ident_err
     else if jget kvs ''containment_state'' = JStr ''starting''
     then (if \<not> same_keys kvs systemd_starting_fields then Inl ident_err else Inr ())
     else if \<not> text_field (matches is_hex 32 32) (jget kvs ''invocation_id'') then Inl ident_err
     else if \<not> text_field is_control_group (jget kvs ''control_group'') then Inl ident_err
     else Inr ())"

definition check_policy :: "json \<Rightarrow> unit result" where
  "check_policy v =
     (case v of
        JObj _ \<Rightarrow>
          (case normalize_policy ''$.resource_limits'' v of
             Inl e \<Rightarrow> Inl (if is_value_error e then ident_err else e)
           | Inr _ \<Rightarrow> Inr ())
      | _ \<Rightarrow> Inl ident_err)"

definition targets_ok :: "json \<Rightarrow> bool" where
  "targets_ok v =
     (case v of JArr xs \<Rightarrow> length xs \<le> 2 \<and> (\<forall>x \<in> set xs. text_field (starts_with ''/'') x) | _ \<Rightarrow> False)"

text \<open>\<^verbatim>\<open>validated_identity\<close>: the accepted record is a copy of the document.\<close>

definition validated_identity :: "string option \<Rightarrow> json \<Rightarrow> doc result" where
  "validated_identity expected v =
     (case v of
        JObj kvs \<Rightarrow>
          if \<not> py_eq (jget kvs ''schema_version'') (JInt IDENTITY_SCHEMA_VERSION) then Inl ident_err
          else if jget kvs ''backend'' = JStr ''process_group'' \<and> \<not> same_keys kvs process_group_fields \<or>
            jget kvs ''backend'' = JStr ''systemd_cgroup'' \<and> \<not> same_keys kvs systemd_starting_fields \<and>
              \<not> same_keys kvs systemd_active_required
          then Inl ident_err
          else
            bind_r (str_in (jget kvs ''backend'') [''process_group'', ''systemd_cgroup'']) (\<lambda>known.
            if \<not> known then Inl ident_err
            else
              bind_r (if jget kvs ''backend'' = JStr ''process_group'' then raise_first (group_checks kvs) else systemd_checks kvs) (\<lambda>_.
              bind_r (check_policy (jget kvs ''resource_limits'')) (\<lambda>_.
              if \<not> targets_ok (jget kvs ''resource_io_targets'') then Inl ident_err
              else if \<not> text_field is_boot_id (jget kvs ''boot_id'') then Inl ident_err
              else
                bind_r (require_safe_name (jget kvs ''run_id'')) (\<lambda>_.
                bind_r (case expected of None \<Rightarrow> Inr ()
                    | Some r \<Rightarrow> bind_r (require_safe_name (JStr r)) (\<lambda>r.
                        if jget kvs ''run_id'' \<noteq> JStr r then Inl ident_err else Inr ())) (\<lambda>_.
                if \<not> text_field is_command_id (jget kvs ''command_id'') then Inl ident_err else Inr kvs)))))
      | _ \<Rightarrow> Inl ident_err)"

section \<open>The file\<close>

text \<open>The number of bytes of \<^verbatim>\<open>json.dump(value, handle, indent=2, ensure_ascii=False)\<close> at
  indentation \<open>n\<close>.  The only float of an accepted record is a schema version \<^verbatim>\<open>3.0\<close>.\<close>

definition quoted_bytes :: "string \<Rightarrow> nat" where
  "quoted_bytes s = length (utf8 (quote s))"

fun json_bytes :: "nat \<Rightarrow> json \<Rightarrow> nat" where
  "json_bytes n JNull = 4"
| "json_bytes n (JBool b) = (if b then 4 else 5)"
| "json_bytes n (JInt i) = length (str_int i)"
| "json_bytes n (JFloat q) = 3"
| "json_bytes n (JStr s) = quoted_bytes s"
| "json_bytes n (JArr xs) =
     (if xs = [] then 2 else n + 2 + sum_list (map (\<lambda>x. n + 4 + json_bytes (n + 2) x) xs))"
| "json_bytes n (JObj kvs) =
     (if kvs = [] then 2
      else n + 2 + sum_list (map (\<lambda>kv. n + 6 + quoted_bytes (fst kv) + json_bytes (n + 2) (snd kv)) kvs))"

definition MAX_IDENTITY_BYTES :: nat where "MAX_IDENTITY_BYTES = 4096"

text \<open>What \<^verbatim>\<open>read_persisted_identity\<close> meets in the workspace: no file; an \<^verbatim>\<open>OSError\<close>; a file that it
  refuses, being no regular file, or linked twice, or larger than \<^verbatim>\<open>MAX_IDENTITY_BYTES\<close>, or no JSON
  text; or a regular file within the bound and its value.  \<^verbatim>\<open>write_json\<close> knows no bound: the file
  it leaves ends with a line feed and may be too large to be read again.\<close>

datatype id_file = NoIdentity | IdentityFailed | IdentityUnsafe | StoredIdentity json

definition identity_file :: "doc \<Rightarrow> id_file" where
  "identity_file kvs =
     (if json_bytes 0 (JObj kvs) + 1 \<le> MAX_IDENTITY_BYTES then StoredIdentity (JObj kvs) else IdentityUnsafe)"

definition read_persisted_identity :: "id_file \<Rightarrow> json result" where
  "read_persisted_identity f =
     (case f of NoIdentity \<Rightarrow> Inr JNull | IdentityFailed \<Rightarrow> Inl os_err | IdentityUnsafe \<Rightarrow> Inl ident_err
      | StoredIdentity v \<Rightarrow> Inr v)"

definition write_identity :: "write_outcome \<Rightarrow> doc \<Rightarrow> id_file \<Rightarrow> id_file \<times> unit result" where
  "write_identity w kvs f =
     (case w of Written \<Rightarrow> (identity_file kvs, Inr ()) | FailedBefore \<Rightarrow> (f, Inl os_err)
      | FailedAfter \<Rightarrow> (identity_file kvs, Inl os_err))"

definition persist_identity :: "write_outcome \<Rightarrow> json \<Rightarrow> id_file \<Rightarrow> id_file \<times> unit result" where
  "persist_identity w v f =
     (case bind_r (validated_identity None v) (\<lambda>valid. bind_r (read_persisted_identity f) (\<lambda>present.
         if present \<noteq> JNull then Inl ident_err else Inr valid)) of
        Inl e \<Rightarrow> (f, Inl e)
      | Inr valid \<Rightarrow> write_identity w valid f)"

text \<open>The common part of \<^verbatim>\<open>clear_identity\<close> and \<^verbatim>\<open>update_identity\<close>: the record that is there,
  when it is the expected one.\<close>

definition owned_identity :: "json \<Rightarrow> id_file \<Rightarrow> doc result" where
  "owned_identity v f =
     bind_r (validated_identity None v) (\<lambda>expected.
     bind_r (read_persisted_identity f) (\<lambda>present.
     bind_r (validated_identity (Some (case jget expected ''run_id'' of JStr r \<Rightarrow> r | _ \<Rightarrow> [])) present) (\<lambda>current.
     if \<not> py_eq (JObj current) (JObj expected) then Inl ident_err else Inr current)))"

definition clear_identity :: "write_outcome \<Rightarrow> json \<Rightarrow> id_file \<Rightarrow> id_file \<times> bool result" where
  "clear_identity w v f =
     (case owned_identity v f of
        Inl e \<Rightarrow> (f, if expected_failure e then Inr False else Inl e)
      | Inr _ \<Rightarrow> (case w of Written \<Rightarrow> (NoIdentity, Inr True) | FailedBefore \<Rightarrow> (f, Inl os_err)
          | FailedAfter \<Rightarrow> (NoIdentity, Inl os_err)))"

definition invariant_fields :: "string list" where
  "invariant_fields = [''backend'', ''boot_id'', ''run_id'', ''command_id'', ''unit_name'']"

definition allowed_transition :: "doc \<Rightarrow> doc \<Rightarrow> bool" where
  "allowed_transition current updated =
     ((\<forall>k \<in> set invariant_fields. py_eq (jget updated k) (jget current k)) \<and>
      jget current ''backend'' = JStr ''systemd_cgroup'' \<and>
      (jget current ''containment_state'', jget updated ''containment_state'') \<in>
        {(JStr ''starting'', JStr ''active''), (JStr ''active'', JStr ''stopping'')})"

definition update_identity :: "write_outcome \<Rightarrow> json \<Rightarrow> json \<Rightarrow> id_file \<Rightarrow> id_file \<times> bool result" where
  "update_identity w v v' f =
     (case bind_r (validated_identity None v) (\<lambda>expected.
         bind_r (validated_identity (Some (case jget expected ''run_id'' of JStr r \<Rightarrow> r | _ \<Rightarrow> [])) v') (\<lambda>updated.
         bind_r (owned_identity v f) (\<lambda>current. Inr (expected, updated)))) of
        Inl e \<Rightarrow> (f, if expected_failure e then Inr False else Inl e)
      | Inr (expected, updated) \<Rightarrow>
          if \<not> allowed_transition expected updated then (f, Inr False)
          else (case write_identity w updated f of
              (f', Inl e) \<Rightarrow> (f', Inl e) | (f', Inr _) \<Rightarrow> (f', Inr True)))"

section \<open>The live process\<close>

datatype 'a read = ReadOk 'a | ReadMissing | ReadNoProcess | ReadFailed | ReadUndecodable

definition read_result :: "'a read \<Rightarrow> 'a result" where
  "read_result r =
     (case r of ReadOk x \<Rightarrow> Inr x | ReadMissing \<Rightarrow> Inl (Exn FileNotFoundError [] []) | ReadUndecodable \<Rightarrow> Inl val_err
      | _ \<Rightarrow> Inl os_err)"

text \<open>The text after the name of the command, which stands in parentheses.\<close>

definition stat_parts :: "string \<Rightarrow> (string \<times> string) result" where
  "stat_parts text =
     (let opening = find_char (CHR ''('') text; closing = rfind_char (CHR '')'') text in
      if opening \<le> 0 \<or> closing \<le> opening \<or> take 1 (drop (nat (closing + 1)) text) \<noteq> '' '' then Inl ident_err
      else Inr (take (nat opening) text, drop (nat (closing + 2)) text))"

definition opt_result :: "exn \<Rightarrow> 'a option \<Rightarrow> 'a result" where
  "opt_result e x = (case x of None \<Rightarrow> Inl e | Some y \<Rightarrow> Inr y)"

definition nth_word :: "string list \<Rightarrow> nat \<Rightarrow> string result" where
  "nth_word ws i = (if i < length ws then Inr (ws ! i) else Inl ident_err)"

text \<open>\<^verbatim>\<open>_read_proc_stat\<close>: process group and start time.\<close>

definition read_proc_stat :: "int \<Rightarrow> string read \<Rightarrow> (int \<times> int) result" where
  "read_proc_stat pid stat =
     (if pid \<le> 0 then Inl ident_err
      else
        bind_r (read_result stat) (\<lambda>text.
        bind_r (stat_parts text) (\<lambda>(head, rest).
        let suffix = split_words [] rest in
        bind_r (opt_result ident_err (py_int (strip head))) (\<lambda>recorded_pid.
        bind_r (nth_word suffix 2) (\<lambda>w. bind_r (opt_result ident_err (py_int w)) (\<lambda>pgid.
        bind_r (nth_word suffix 19) (\<lambda>w. bind_r (opt_result ident_err (py_int w)) (\<lambda>start.
        if recorded_pid \<noteq> pid \<or> pgid \<le> 0 \<or> start < 0 then Inl ident_err else Inr (pgid, start)))))))))"

definition process_is_terminal :: "string read \<Rightarrow> bool result" where
  "process_is_terminal stat =
     bind_r (read_result stat) (\<lambda>text.
     bind_r (stat_parts text) (\<lambda>(_, rest).
     bind_r (nth_word (split_words [] rest) 0) (\<lambda>w. Inr (w \<in> {''Z'', ''X'', ''x''}))))"

text \<open>\<^verbatim>\<open>_read_proc_identity_environment\<close>: the environment is the list of its NUL-separated
  items, each with its name and, when it is UTF-8, its value.\<close>

definition MAX_ENVIRON_BYTES :: int where "MAX_ENVIRON_BYTES = 1024 * 1024"

record environ =
  env_size :: int
  env_items :: "(string \<times> string option) list"

fun marker :: "string \<Rightarrow> (string \<times> string option) list \<Rightarrow> string \<Rightarrow> string result" where
  "marker name [] found = Inr found"
| "marker name ((k, v) # items) found =
     (if k = name then (case v of None \<Rightarrow> Inl ident_err | Some s \<Rightarrow> marker name items s) else marker name items found)"

definition RUN_ID_ENV :: string where "RUN_ID_ENV = ''DEBBUILDER_INTERNAL_RUN_ID''"
definition COMMAND_ID_ENV :: string where "COMMAND_ID_ENV = ''DEBBUILDER_INTERNAL_COMMAND_ID''"

definition read_markers :: "environ read \<Rightarrow> (string \<times> string) result" where
  "read_markers r =
     bind_r (read_result r) (\<lambda>e.
     if env_size e > MAX_ENVIRON_BYTES then Inl ident_err
     else bind_r (marker RUN_ID_ENV (env_items e) []) (\<lambda>run.
       bind_r (marker COMMAND_ID_ENV (env_items e) []) (\<lambda>command. Inr (run, command))))"

record proc_view =
  pv_boot :: "string read"
  pv_stat :: "string read"
  pv_environ :: "environ read"
  pv_final :: "string read"

definition read_boot_id :: "string read \<Rightarrow> string result" where
  "read_boot_id r =
     bind_r (read_result r) (\<lambda>text. let v = lower (strip text) in if is_boot_id v then Inr v else Inl ident_err)"

datatype verification = MATCH | NOT_RUNNING | MISMATCH | UNVERIFIABLE

definition int_of :: "json \<Rightarrow> int" where
  "int_of v = (case v of JInt n \<Rightarrow> n | _ \<Rightarrow> 0)"

text \<open>The outcome of a failed read of \<^verbatim>\<open>/proc\<close>: an undecodable text is not handled.\<close>

definition read_failure :: "exn \<Rightarrow> verification result" where
  "read_failure e =
     (if exn_class e = FileNotFoundError then Inr NOT_RUNNING
      else if exn_class e = CommandIdentityError \<or> is_os_error e then Inr UNVERIFIABLE
      else Inl e)"

definition verify_identity :: "proc_view \<Rightarrow> string option \<Rightarrow> json \<Rightarrow> verification result" where
  "verify_identity pv expected v =
     (case bind_r (validated_identity expected v) (\<lambda>i. bind_r (read_boot_id (pv_boot pv)) (\<lambda>b. Inr (i, b))) of
        Inl e \<Rightarrow> if expected_failure e then Inr UNVERIFIABLE else Inl e
      | Inr (i, boot) \<Rightarrow>
          if jget i ''backend'' \<noteq> JStr ''process_group'' then Inr UNVERIFIABLE
          else if jget i ''pid'' \<noteq> jget i ''pgid'' then Inr MISMATCH
          else if jget i ''boot_id'' \<noteq> JStr boot then Inr MISMATCH
          else (case read_proc_stat (int_of (jget i ''pid'')) (pv_stat pv) of
              Inl e \<Rightarrow> read_failure e
            | Inr (pgid, start) \<Rightarrow>
                if JInt pgid \<noteq> jget i ''pgid'' then Inr MISMATCH
                else if JInt start \<noteq> jget i ''start_time_ticks'' then Inr MISMATCH
                else (case read_markers (pv_environ pv) of
                    Inl e \<Rightarrow> read_failure e
                  | Inr (run, command) \<Rightarrow>
                      if JStr run \<noteq> jget i ''run_id'' \<or> JStr command \<noteq> jget i ''command_id'' then Inr MISMATCH
                      else (case read_proc_stat (int_of (jget i ''pid'')) (pv_final pv) of
                          Inl e \<Rightarrow> read_failure e
                        | Inr again \<Rightarrow> Inr (if again \<noteq> (pgid, start) then MISMATCH else MATCH)))))"

text \<open>\<^verbatim>\<open>capture_identity\<close>: \<^verbatim>\<open>exited\<close> is what \<^verbatim>\<open>process_exited()\<close> says (false without
  the callback), \<^verbatim>\<open>later\<close> the read of \<^verbatim>\<open>stat\<close> in \<^verbatim>\<open>_process_is_terminal\<close>.\<close>

definition markers_missing :: "environ read \<Rightarrow> bool \<Rightarrow> bool" where
  "markers_missing r allow_vanished = (allow_vanished \<and> (r = ReadMissing \<or> r = ReadNoProcess))"

definition check_markers :: "proc_view \<Rightarrow> string \<Rightarrow> string \<Rightarrow> bool \<Rightarrow> bool \<Rightarrow> string read \<Rightarrow> unit result" where
  "check_markers pv run_id command_id exited allow_vanished later =
     (if markers_missing (pv_environ pv) allow_vanished then Inr ()
      else
        bind_r (read_markers (pv_environ pv)) (\<lambda>found.
        if found = (run_id, command_id) \<or> exited then Inr ()
        else if \<not> allow_vanished then Inl ident_err
        else if later = ReadMissing then Inr ()
        else bind_r (process_is_terminal later) (\<lambda>terminal. if terminal then Inr () else Inl ident_err)))"

definition identity_doc :: "int \<Rightarrow> int \<Rightarrow> int \<Rightarrow> string \<Rightarrow> string \<Rightarrow> string \<Rightarrow> policy \<Rightarrow> doc" where
  "identity_doc pid pgid start boot run_id command_id p = [
     (''schema_version'', JInt IDENTITY_SCHEMA_VERSION), (''backend'', JStr ''process_group''),
     (''containment_state'', JStr ''active''), (''pid'', JInt pid), (''pgid'', JInt pgid),
     (''start_time_ticks'', JInt start), (''boot_id'', JStr boot), (''run_id'', JStr run_id),
     (''command_id'', JStr command_id), (''resource_limits'', policy_json p), (''resource_io_targets'', JArr [])]"

definition capture_identity ::
  "proc_view \<Rightarrow> int \<Rightarrow> string \<Rightarrow> string \<Rightarrow> bool \<Rightarrow> bool \<Rightarrow> string read \<Rightarrow> json \<Rightarrow> doc result" where
  "capture_identity pv pid run_id command_id exited allow_vanished later resource_policy =
     bind_r (require_safe_name (JStr run_id)) (\<lambda>_.
     if \<not> is_command_id command_id then Inl ident_err
     else
       bind_r (read_proc_stat pid (pv_stat pv)) (\<lambda>(pgid, start).
       if pgid \<noteq> pid then Inl ident_err
       else
         bind_r (check_markers pv run_id command_id exited allow_vanished later) (\<lambda>_.
         bind_r (read_boot_id (pv_boot pv)) (\<lambda>boot.
         bind_r (normalize_policy ''$.resource_limits'' (if resource_policy = JNull then policy_json empty_policy else resource_policy)) (\<lambda>p.
         Inr (identity_doc pid pgid start boot run_id command_id p))))))"

section \<open>Termination of a verified process group\<close>

text \<open>\<^verbatim>\<open>terminate_process_group\<close>: \<^verbatim>\<open>authorize\<close> is asked before each signal; the loops
  end at their deadline, after as many answers as the lists have, or at the first answer
  that is not a living group.  The result has the calls of \<^verbatim>\<open>killpg\<close>, group and signal.\<close>

datatype signal = SIGTERM | SIGKILL
datatype kill_reply = Delivered | NoProcess | KillFailed

record group_view =
  gv_term :: kill_reply
  gv_grace :: "kill_reply list"
  gv_alive :: kill_reply
  gv_kill :: kill_reply
  gv_reap :: "kill_reply list"
  gv_gone :: kill_reply

record group_termination =
  t_verification :: verification
  t_killed :: bool
  t_group_gone :: bool
  t_error :: bool

fun poll_failed :: "kill_reply list \<Rightarrow> bool" where
  "poll_failed [] = False"
| "poll_failed (r # rs) = (case r of Delivered \<Rightarrow> poll_failed rs | NoProcess \<Rightarrow> False | KillFailed \<Rightarrow> True)"

definition signal_group ::
  "int \<Rightarrow> (signal \<Rightarrow> bool result) \<Rightarrow> signal \<Rightarrow> kill_reply \<Rightarrow> (int \<times> signal) list \<times> (bool \<times> bool) result" where
  "signal_group pgid authorize sig reply =
     (case authorize sig of
        Inl e \<Rightarrow> ([], Inl e)
      | Inr False \<Rightarrow> ([], Inr (False, True))
      | Inr True \<Rightarrow> ([(pgid, sig)], Inr (reply = Delivered, reply = KillFailed)))"

definition finish_group :: "group_view \<Rightarrow> bool \<Rightarrow> bool \<Rightarrow> bool \<times> bool \<times> bool" where
  "finish_group gv killed failed =
     (let gone = (gv_gone gv = NoProcess) in (killed, gone, failed \<or> poll_failed (gv_reap gv) \<or> \<not> gone))"

definition terminate_process_group ::
  "int \<Rightarrow> (signal \<Rightarrow> bool result) \<Rightarrow> group_view \<Rightarrow> (int \<times> signal) list \<times> (bool \<times> bool \<times> bool) result" where
  "terminate_process_group pgid authorize gv =
     (case signal_group pgid authorize SIGTERM (gv_term gv) of
        (sent, Inl e) \<Rightarrow> (sent, Inl e)
      | (sent, Inr (_, failed)) \<Rightarrow>
          let failed = (failed \<or> poll_failed (gv_grace gv) \<or> gv_alive gv = KillFailed) in
          if gv_alive gv = NoProcess then (sent, Inr (finish_group gv False failed))
          else (case signal_group pgid authorize SIGKILL (gv_kill gv) of
              (sent', Inl e) \<Rightarrow> (sent @ sent', Inl e)
            | (sent', Inr (killed, failed')) \<Rightarrow> (sent @ sent', Inr (finish_group gv killed (failed \<or> failed')))))"

text \<open>\<^verbatim>\<open>identity["pgid"]\<close> of a value that was verified\<close>

definition group_of :: "json \<Rightarrow> int" where
  "group_of v = (case v of JObj kvs \<Rightarrow> int_of (jget kvs ''pgid'') | _ \<Rightarrow> 0)"

text \<open>\<^verbatim>\<open>terminate_verified_process_group\<close>: \<^verbatim>\<open>view\<close> is what \<^verbatim>\<open>/proc\<close> shows when a signal is
  about to be sent, \<^verbatim>\<open>pv'\<close> what it shows at the end.\<close>

definition authorize_signal :: "(signal \<Rightarrow> proc_view) \<Rightarrow> string \<Rightarrow> json \<Rightarrow> signal \<Rightarrow> bool result" where
  "authorize_signal view run_id v sig = bind_r (verify_identity (view sig) (Some run_id) v) (\<lambda>checked. Inr (checked = MATCH))"

definition terminate_verified ::
  "proc_view \<Rightarrow> (signal \<Rightarrow> proc_view) \<Rightarrow> proc_view \<Rightarrow> group_view \<Rightarrow> string \<Rightarrow> json \<Rightarrow>
   (int \<times> signal) list \<times> group_termination result" where
  "terminate_verified pv view pv' gv run_id v =
     (case verify_identity pv (Some run_id) v of
        Inl e \<Rightarrow> ([], Inl e)
      | Inr status \<Rightarrow>
          if status \<noteq> MATCH
          then ([], Inr \<lparr>t_verification = status, t_killed = False, t_group_gone = False, t_error = False\<rparr>)
          else (case terminate_process_group (group_of v) (authorize_signal view run_id v) gv of
              (sent, Inl e) \<Rightarrow> (sent, Inl e)
            | (sent, Inr (killed, gone, failed)) \<Rightarrow>
                (case verify_identity pv' (Some run_id) v of
                   Inl e \<Rightarrow> (sent, Inl e)
                 | Inr final \<Rightarrow> (sent, Inr \<lparr>t_verification = status, t_killed = killed,
                     t_group_gone = (gone \<and> final \<noteq> MATCH), t_error = (failed \<or> gone \<and> final = MATCH)\<rparr>))))"

section \<open>Accepted records\<close>

lemma require_safe_name_ok [result_simps]: "require_safe_name v = Inr s \<longleftrightarrow> v = JStr s \<and> safe_name s"
  by (cases v) (auto simp: require_safe_name_def safe_name_def)

lemma text_field_iff: "text_field P v \<longleftrightarrow> (\<exists>s. v = JStr s \<and> P s)"
  by (cases v) (auto simp: text_field_def)

lemma int_from_iff: "int_from lo v \<longleftrightarrow> (\<exists>n. v = JInt n \<and> lo \<le> n)"
  by (cases v) (auto simp: int_from_def)

text \<open>What every accepted record has.\<close>

definition identity_shape :: "doc \<Rightarrow> bool" where
  "identity_shape i =
     (jget i ''backend'' \<in> {JStr ''process_group'', JStr ''systemd_cgroup''} \<and>
      text_field is_boot_id (jget i ''boot_id'') \<and> text_field safe_name (jget i ''run_id'') \<and>
      text_field is_command_id (jget i ''command_id'') \<and>
      (jget i ''backend'' = JStr ''process_group'' \<longrightarrow>
         int_from 1 (jget i ''pid'') \<and> int_from 1 (jget i ''pgid'') \<and> int_from 0 (jget i ''start_time_ticks'')) \<and>
      (jget i ''backend'' = JStr ''systemd_cgroup'' \<longrightarrow> text_field is_unit_name (jget i ''unit_name'') \<and>
         jget i ''containment_state'' \<in> {JStr ''starting'', JStr ''active'', JStr ''stopping''}))"

lemma systemd_checks_ok:
  "systemd_checks i = Inr u \<Longrightarrow> text_field is_unit_name (jget i ''unit_name'') \<and>
     jget i ''containment_state'' \<in> {JStr ''starting'', JStr ''active'', JStr ''stopping''}"
  by (auto simp: systemd_checks_def result_simps split: if_splits)

lemma validated_identityE:
  assumes "validated_identity expected v = Inr i"
  obtains "v = JObj i" "validated_identity None (JObj i) = Inr i" "identity_shape i"
    "\<forall>r \<in> set_option expected. jget i ''run_id'' = JStr r \<and> safe_name r"
proof -
  obtain kvs where v: "v = JObj kvs" using assms by (cases v) (simp_all add: validated_identity_def)
  obtain known u p name e where
      "\<not> \<not> py_eq (jget kvs ''schema_version'') (JInt IDENTITY_SCHEMA_VERSION)"
      "\<not> (jget kvs ''backend'' = JStr ''process_group'' \<and> \<not> same_keys kvs process_group_fields \<or>
        jget kvs ''backend'' = JStr ''systemd_cgroup'' \<and> \<not> same_keys kvs systemd_starting_fields \<and>
          \<not> same_keys kvs systemd_active_required)"
      "str_in (jget kvs ''backend'') [''process_group'', ''systemd_cgroup''] = Inr known" "\<not> \<not> known"
      "(if jget kvs ''backend'' = JStr ''process_group'' then raise_first (group_checks kvs) else systemd_checks kvs) = Inr u"
      "check_policy (jget kvs ''resource_limits'') = Inr p" "\<not> \<not> targets_ok (jget kvs ''resource_io_targets'')"
      "\<not> \<not> text_field is_boot_id (jget kvs ''boot_id'')" "require_safe_name (jget kvs ''run_id'') = Inr name"
      "(case expected of None \<Rightarrow> Inr () | Some r \<Rightarrow> bind_r (require_safe_name (JStr r)) (\<lambda>r.
          if jget kvs ''run_id'' \<noteq> JStr r then Inl ident_err else Inr ())) = Inr e"
      "\<not> \<not> text_field is_command_id (jget kvs ''command_id'')" "Inr kvs = (Inr i :: doc result)"
    using assms unfolding v validated_identity_def json.case
    by (elim result_elims)
  note parts = this [unfolded not_not]
  have i: "i = kvs" using parts(12) by simp
  have "validated_identity None (JObj i) = Inr i"
    unfolding i validated_identity_def json.case
    by (simp only: parts(1,3-9,11) not_True_eq_False if_False option.case bind_r.simps parts(2))
  moreover have "identity_shape i"
    using parts(3-5,8,9,11) unfolding i identity_shape_def
    by (auto simp: result_simps group_checks_def text_field_iff dest: systemd_checks_ok split: if_splits)
  moreover have "\<forall>r \<in> set_option expected. jget i ''run_id'' = JStr r \<and> safe_name r"
    using parts(10) unfolding i by (cases expected) (auto simp: result_simps split: if_splits)
  ultimately show ?thesis using that v i by simp
qed

section \<open>The life of a record\<close>

text \<open>Operations on the file of one workspace, in the order of its lock.\<close>

datatype id_op = Persist write_outcome json | ClearRecord write_outcome json | Update write_outcome json json

fun apply_id :: "id_op \<Rightarrow> id_file \<Rightarrow> id_file" where
  "apply_id (Persist w v) f = fst (persist_identity w v f)"
| "apply_id (ClearRecord w v) f = fst (clear_identity w v f)"
| "apply_id (Update w v v') f = fst (update_identity w v v' f)"

definition same_command :: "doc \<Rightarrow> doc \<Rightarrow> bool" where
  "same_command i i' = (\<forall>k \<in> set invariant_fields. jget i' k = jget i k)"

definition stage_rank :: "doc \<Rightarrow> nat" where
  "stage_rank i =
     (if jget i ''containment_state'' = JStr ''starting'' then 0 else if jget i ''containment_state'' = JStr ''active'' then 1 else 2)"

lemma owned_identity_ok:
  assumes "owned_identity v f = Inr current"
  shows "f = StoredIdentity (JObj current) \<and> (\<exists>e. v = JObj e \<and> validated_identity None v = Inr e \<and> py_eq (JObj current) (JObj e))"
proof -
  obtain e present r where e: "validated_identity None v = Inr e" and present: "read_persisted_identity f = Inr present"
      "validated_identity r present = Inr current" and eq: "\<not> \<not> py_eq (JObj current) (JObj e)"
    using assms unfolding owned_identity_def by (elim result_elims) auto
  have "present = JObj current" "v = JObj e" using present(2) e by (auto elim: validated_identityE)
  with present(1) e eq show ?thesis
    by (cases f) (simp_all add: read_persisted_identity_def)
qed

lemma py_eq_field:
  assumes "py_eq (JObj a) (JObj b)" "jget a k = JStr s"
  shows "jget b k = JStr s"
proof -
  have "(k, JStr s) \<in> set a" using assms(2) by (auto simp: jget_def split: option.splits dest: map_of_SomeD)
  with assms(1) obtain w where "map_of b k = Some w" "py_eq (JStr s) w" by (auto split: option.splits)
  then show ?thesis by (simp add: jget_def)
qed

text \<open>One operation on a recorded command: nothing, the next state of the same command, or the
  removal of exactly this record.\<close>

definition still_recorded :: "doc \<Rightarrow> id_file \<Rightarrow> bool" where
  "still_recorded i f = (\<exists>i'. f = identity_file i' \<and> validated_identity None (JObj i') = Inr i' \<and>
     same_command i i' \<and> stage_rank i \<le> stage_rank i')"

lemma still_recorded_refl: "validated_identity None (JObj i) = Inr i \<Longrightarrow> still_recorded i (identity_file i)"
  by (auto simp: still_recorded_def same_command_def)

lemma clear_identity_cases:
  "fst (clear_identity w v f) = f \<or> fst (clear_identity w v f) = NoIdentity \<and> (\<exists>i. owned_identity v f = Inr i)"
  by (cases "owned_identity v f"; cases w) (simp_all add: clear_identity_def)

lemma update_identity_cases:
  "fst (update_identity w v v' f) = f \<or>
   (\<exists>e u r i. validated_identity None v = Inr e \<and> validated_identity r v' = Inr u \<and> owned_identity v f = Inr i \<and>
      allowed_transition e u \<and> fst (update_identity w v v' f) = identity_file u)"
proof (cases "bind_r (validated_identity None v) (\<lambda>expected.
    bind_r (validated_identity (Some (case jget expected ''run_id'' of JStr r \<Rightarrow> r | _ \<Rightarrow> [])) v') (\<lambda>updated.
    bind_r (owned_identity v f) (\<lambda>current. Inr (expected, updated))))")
  case (Inl e)
  then show ?thesis by (simp add: update_identity_def)
next
  case (Inr p)
  obtain e u where p: "p = (e, u)" by (cases p)
  have parts: "\<exists>r i. validated_identity None v = Inr e \<and> validated_identity r v' = Inr u \<and> owned_identity v f = Inr i"
    using Inr unfolding p by (auto simp: bind_r_Inr_iff)
  show ?thesis
  proof (cases "allowed_transition e u \<and> fst (update_identity w v v' f) \<noteq> f")
    case True
    then have "fst (update_identity w v v' f) = identity_file u"
      unfolding update_identity_def Inr p by (cases w) (auto simp: write_identity_def)
    with True parts show ?thesis by blast
  next
    case False
    then show ?thesis unfolding update_identity_def Inr p by auto
  qed
qed

lemma allowed_transition_same:
  assumes "allowed_transition e u" "py_eq (JObj i) (JObj e)" "identity_shape i"
  shows "same_command i u \<and> stage_rank i \<le> stage_rank u"
proof -
  have systemd: "jget e ''backend'' = JStr ''systemd_cgroup''" using assms(1) by (simp add: allowed_transition_def)
  have field: "jget u k = jget i k" if "k \<in> set invariant_fields" "jget i k = JStr s" for k s
  proof -
    have "py_eq (jget u k) (jget e k)" using assms(1) that(1) by (simp add: allowed_transition_def)
    with py_eq_field [OF assms(2) that(2)] that(2) show ?thesis by simp
  qed
  have "jget i ''backend'' = JStr ''systemd_cgroup''"
    using assms(3) systemd py_eq_field [OF assms(2), of "''backend''"] unfolding identity_shape_def by fastforce
  then have strs: "\<exists>s. jget i k = JStr s" if "k \<in> set invariant_fields" for k
    using assms(3) that unfolding identity_shape_def invariant_fields_def by (auto simp: text_field_iff)
  have "same_command i u" unfolding same_command_def using field strs by blast
  moreover have "stage_rank i \<le> stage_rank u"
  proof -
    obtain s where "jget i ''containment_state'' = JStr s"
      using assms(3) \<open>jget i ''backend'' = JStr ''systemd_cgroup''\<close> unfolding identity_shape_def by auto
    with py_eq_field [OF assms(2) this] assms(1) show ?thesis
      by (auto simp: allowed_transition_def stage_rank_def)
  qed
  ultimately show ?thesis by blast
qed

lemma owned_identity_file:
  assumes "owned_identity v (identity_file i) = Inr c"
  shows "c = i" "identity_file i = StoredIdentity (JObj i)" "\<exists>e. v = JObj e \<and> validated_identity None v = Inr e \<and> py_eq (JObj i) (JObj e)"
  using owned_identity_ok [OF assms] by (auto simp: identity_file_def split: if_splits)

lemma apply_id_step:
  assumes "validated_identity None (JObj i) = Inr i"
  shows "apply_id act (identity_file i) = NoIdentity \<and> identity_file i = StoredIdentity (JObj i) \<and>
      (\<exists>w e. act = ClearRecord w (JObj e) \<and> py_eq (JObj i) (JObj e)) \<or>
    still_recorded i (apply_id act (identity_file i))"
proof (cases act)
  case (Persist w v)
  then have "apply_id act (identity_file i) = identity_file i"
    by (cases "validated_identity None v") (simp_all add: persist_identity_def read_persisted_identity_def identity_file_def)
  with still_recorded_refl [OF assms] show ?thesis by simp
next
  case (ClearRecord w v)
  from clear_identity_cases [of w v "identity_file i"] show ?thesis
  proof (elim disjE conjE exE)
    fix c assume gone: "fst (clear_identity w v (identity_file i)) = NoIdentity" "owned_identity v (identity_file i) = Inr c"
    from owned_identity_file [OF gone(2)] gone(1) ClearRecord show ?thesis by auto
  qed (use ClearRecord still_recorded_refl [OF assms] in simp)
next
  case (Update w v v')
  from update_identity_cases [of w v v' "identity_file i"] show ?thesis
  proof (elim disjE conjE exE)
    fix e u r c
    assume e: "validated_identity None v = Inr e" and u: "validated_identity r v' = Inr u"
      and own: "owned_identity v (identity_file i) = Inr c" and ok: "allowed_transition e u"
      and res: "fst (update_identity w v v' (identity_file i)) = identity_file u"
    have "py_eq (JObj i) (JObj e)" using owned_identity_file(3) [OF own] e by auto
    moreover have "identity_shape i" using assms by (rule validated_identityE)
    ultimately have "same_command i u \<and> stage_rank i \<le> stage_rank u" using allowed_transition_same [OF ok] by blast
    moreover have "validated_identity None (JObj u) = Inr u" using u by (rule validated_identityE)
    ultimately show ?thesis using Update res by (auto simp: still_recorded_def)
  qed (use Update still_recorded_refl [OF assms] in simp)
qed

section \<open>Verification\<close>

text \<open>What \<^verbatim>\<open>/proc\<close> shows when an identity matches.\<close>

definition shows_process :: "proc_view \<Rightarrow> doc \<Rightarrow> bool" where
  "shows_process pv i =
     ((\<exists>boot. read_boot_id (pv_boot pv) = Inr boot \<and> jget i ''boot_id'' = JStr boot) \<and>
      (\<exists>pid start. jget i ''pid'' = JInt pid \<and> jget i ''pgid'' = JInt pid \<and> jget i ''start_time_ticks'' = JInt start \<and>
         read_proc_stat pid (pv_stat pv) = Inr (pid, start) \<and> read_proc_stat pid (pv_final pv) = Inr (pid, start)) \<and>
      (\<exists>run command. jget i ''run_id'' = JStr run \<and> jget i ''command_id'' = JStr command \<and>
         read_markers (pv_environ pv) = Inr (run, command)))"

lemma verify_match:
  assumes "verify_identity pv expected v = Inr MATCH"
  shows "\<exists>i. validated_identity expected v = Inr i \<and> jget i ''backend'' = JStr ''process_group'' \<and> shows_process pv i"
proof (cases "bind_r (validated_identity expected v) (\<lambda>i. bind_r (read_boot_id (pv_boot pv)) (\<lambda>b. Inr (i, b)))")
  case (Inl e)
  with assms show ?thesis by (simp add: verify_identity_def split: if_splits)
next
  case (Inr p)
  obtain i boot where p: "p = (i, boot)" by (cases p)
  then have parts: "validated_identity expected v = Inr i" "read_boot_id (pv_boot pv) = Inr boot"
    using Inr by (auto simp: bind_r_Inr_iff)
  note run = assms [unfolded verify_identity_def Inr p, simplified]
  have group: "jget i ''backend'' = JStr ''process_group''" "jget i ''pid'' = jget i ''pgid''" "jget i ''boot_id'' = JStr boot"
    using run by (auto split: if_splits)
  have "identity_shape i" using parts(1) by (rule validated_identityE)
  with group(1) obtain pid where pid: "jget i ''pid'' = JInt pid" by (auto simp: identity_shape_def int_from_iff)
  then have pgid: "jget i ''pgid'' = JInt pid" using group(2) by simp
  note run = run [unfolded group(1,3) pid pgid int_of_def, simplified]
  have fail [simp]: "read_failure e \<noteq> Inr MATCH" for e by (simp add: read_failure_def)
  obtain start where stat: "read_proc_stat pid (pv_stat pv) = Inr (pid, start)" "jget i ''start_time_ticks'' = JInt start"
    using run by (auto split: sum.splits if_splits)
  obtain marks where marks: "read_markers (pv_environ pv) = Inr marks" "jget i ''run_id'' = JStr (fst marks)"
      "jget i ''command_id'' = JStr (snd marks)"
    using run stat by (auto split: sum.splits if_splits)
  have "read_proc_stat pid (pv_final pv) = Inr (pid, start)"
    using run stat marks by (auto split: sum.splits if_splits prod.splits)
  then show ?thesis
    using parts group(1,3) pid pgid stat marks by (auto simp: shows_process_def)
qed

lemma signal_group_sent:
  "signal_group pgid authorize sig reply = (sent, r) \<Longrightarrow> s \<in> set sent \<Longrightarrow> s = (pgid, sig) \<and> authorize sig = Inr True"
  by (auto simp: signal_group_def split: sum.splits bool.splits)

lemma terminate_process_group_sent:
  assumes "terminate_process_group pgid authorize gv = (sent, r)" "s \<in> set sent"
  shows "fst s = pgid \<and> authorize (snd s) = Inr True"
proof -
  obtain sent1 r1 where first: "signal_group pgid authorize SIGTERM (gv_term gv) = (sent1, r1)" by fastforce
  obtain sent2 r2 where second: "signal_group pgid authorize SIGKILL (gv_kill gv) = (sent2, r2)" by fastforce
  have "s \<in> set sent1 \<or> s \<in> set sent2"
    using assms first second by (auto simp: terminate_process_group_def Let_def split: sum.splits if_splits)
  with signal_group_sent [OF first, of s] signal_group_sent [OF second, of s] show ?thesis by auto
qed

lemma terminate_verified_sent:
  assumes "terminate_verified pv view pv' gv run_id v = (sent, r)" "s \<in> set sent"
  shows "verify_identity pv (Some run_id) v = Inr MATCH \<and> verify_identity (view (snd s)) (Some run_id) v = Inr MATCH \<and>
    fst s = group_of v"
proof -
  obtain status where status: "verify_identity pv (Some run_id) v = Inr status"
    using assms by (cases "verify_identity pv (Some run_id) v") (auto simp: terminate_verified_def)
  then have "status = MATCH" using assms by (auto simp: terminate_verified_def split: if_splits)
  obtain sent' r' where sent': "terminate_process_group (group_of v) (authorize_signal view run_id v) gv = (sent', r')" by fastforce
  then have "sent = sent'"
    using assms(1) status \<open>status = MATCH\<close> by (auto simp: terminate_verified_def split: sum.splits)
  with terminate_process_group_sent [OF sent'] assms(2) have "fst s = group_of v \<and> authorize_signal view run_id v (snd s) = Inr True" by simp
  then show ?thesis using status \<open>status = MATCH\<close> by (auto simp: authorize_signal_def result_simps)
qed

section \<open>Captured records\<close>

lemma read_proc_stat_ok: "read_proc_stat pid stat = Inr (pgid, start) \<Longrightarrow> 0 < pid \<and> 0 < pgid \<and> 0 \<le> start"
  by (auto simp: read_proc_stat_def Let_def result_simps split: if_splits)

lemma read_boot_id_ok: "read_boot_id r = Inr boot \<Longrightarrow> is_boot_id boot"
  by (auto simp: read_boot_id_def Let_def result_simps split: if_splits)

lemma identity_doc_valid:
  assumes "0 < pid" "0 < pgid" "0 \<le> start" "is_boot_id boot" "safe_name run_id" "is_command_id command_id" "policy_wf p"
  shows "validated_identity (Some run_id) (JObj (identity_doc pid pgid start boot run_id command_id p)) =
    Inr (identity_doc pid pgid start boot run_id command_id p)"
proof -
  have "check_policy (policy_json p) = Inr ()"
    using normalize_policy_json [OF assms(7), of "''$.resource_limits''"]
    by (simp add: check_policy_def policy_json_def del: normalize_policy_json)
  moreover have "require_safe_name (JStr run_id) = Inr run_id" using assms(5) by (simp add: require_safe_name_ok)
  ultimately show ?thesis
    using assms(1-4,6)
    by (simp add: validated_identity_def identity_doc_def same_keys_def jkeys_def process_group_fields_def group_checks_def
        targets_ok_def text_field_def int_from_def IDENTITY_SCHEMA_VERSION_def) auto
qed

section \<open>The size of a captured record\<close>

text \<open>Texts that are written as they are, between two quotes.\<close>

definition plain_char :: "char \<Rightarrow> bool" where
  "plain_char c = (32 \<le> cord c \<and> cord c < 128 \<and> c \<noteq> CHR 0x22 \<and> c \<noteq> CHR 0x5C)"

lemma utf8_concat: "utf8 (s @ t) = utf8 s @ utf8 t"
  by (simp add: utf8_def)

lemma utf8_plain: "list_all plain_char s \<Longrightarrow> utf8 (concat (map esc_char s)) = s"
  by (induction s) (simp_all add: utf8_concat, simp_all add: utf8_def plain_char_def esc_char_def utf8_char_def char_defs)

lemma quoted_bytes_plain: "list_all plain_char s \<Longrightarrow> quoted_bytes s = length s + 2"
  using utf8_plain [of s] by (simp add: quoted_bytes_def quote_def utf8_def utf8_char_def char_defs)

lemma name_char_plain: "is_name_char c \<Longrightarrow> plain_char c"
  by (auto simp: is_name_char_def plain_char_def char_defs)

lemma hex_plain: "is_hex c \<Longrightarrow> plain_char c"
  by (auto simp: is_hex_def plain_char_def char_defs)

lemma digits_length_below: "0 < k \<Longrightarrow> n < 10 ^ k \<Longrightarrow> length (digits_of n) \<le> k"
proof (induction n arbitrary: k rule: digits_of.induct)
  case (1 n)
  show ?case
  proof (cases "n < 10")
    case False
    then obtain j where k: "k = Suc j" "0 < j" using "1.prems" by (cases k; cases "k - 1") auto
    have "n div 10 < 10 ^ j" using "1.prems"(2) by (simp add: k(1) less_mult_imp_div_less mult.commute)
    from "1.IH" [OF False k(2) this] show ?thesis using False by (subst digits_of.simps) (simp add: k(1))
  qed (use "1.prems" in \<open>subst digits_of.simps, simp\<close>)
qed

lemma str_int_length: "0 \<le> n \<Longrightarrow> n < 10 ^ 20 \<Longrightarrow> length (str_int n) \<le> 20"
  using digits_length_below [of 20 "nat n"] by (simp add: str_int_def nat_less_iff)

lemma hex_groups_plain: "hex_groups ns s \<Longrightarrow> list_all plain_char s \<and> length s \<le> sum_list ns + length ns"
proof (induction ns s rule: hex_groups.induct)
  case (2 n s)
  then show ?case using hex_plain by (auto simp: matches_def list_all_iff)
next
  case (3 n m ns s)
  obtain rest where rest: "drop n s = CHR ''-'' # rest" "matches is_hex n n (take n s)" "hex_groups (m # ns) rest"
    using "3.prems" by (auto split: list.splits)
  have s: "s = take n s @ CHR ''-'' # rest" using rest(1) by (metis append_take_drop_id)
  have "list_all plain_char (take n s)" using rest(2) hex_plain by (auto simp: matches_def list_all_iff)
  moreover have "plain_char CHR ''-''" by (simp add: plain_char_def char_defs)
  moreover have "length (take n s) = n" using rest(2) by (simp add: matches_def)
  ultimately show ?case using "3.IH" [OF rest(1,3)] by (subst (1 2) s) simp
qed simp

lemma command_id_plain: "is_command_id s \<Longrightarrow> list_all plain_char s \<and> length s \<le> 128"
  using name_char_plain
  by (cases s) (auto simp: is_command_id_def matches_def list_all_iff is_name_char_def)

lemma policy_bytes:
  assumes "policy_wf p"
  shows "json_bytes (Suc (Suc 0)) (policy_json p) \<le> 400"
proof -
  have value_bytes: "json_bytes (Suc (Suc (Suc (Suc 0)))) (opt_int (p f)) \<le> 20" for f
  proof (cases "p f")
    case (Some m)
    then have "0 \<le> m" "m \<le> MAXIMUMS f" using assms by (auto simp: policy_wf_def limit_ok_def dest: spec [of _ f])
    moreover have "MAXIMUMS f < 10 ^ 20" by (simp add: MAXIMUMS_def JS_SAFE_INTEGER_def DBUS_UINT64_MAX_def)
    ultimately show ?thesis using str_int_length [of m] Some by simp
  qed simp
  have name: "quoted_bytes (field_name f) \<le> 40" for f
    by (cases f) (simp_all add: quoted_bytes_plain plain_char_def char_defs)
  have each: "quoted_bytes (field_name f) + json_bytes (Suc (Suc (Suc (Suc 0)))) (opt_int (p f)) \<le> 60" for f
    using name [of f] value_bytes [of f] by linarith
  show ?thesis
    using each [of Memory_max_bytes] each [of Tasks_max] each [of Cpu_quota_percent]
      each [of Io_read_bandwidth_max_bytes_per_sec] each [of Io_write_bandwidth_max_bytes_per_sec]
    by (simp add: policy_json_def FIELDS_def)
qed

lemma identity_doc_small:
  assumes "0 < pid" "pid < 10 ^ 20" "0 \<le> start" "start < 10 ^ 20" "is_boot_id boot" "safe_name run_id" "length run_id \<le> 255"
    and "is_command_id command_id" "policy_wf p"
  shows "identity_file (identity_doc pid pid start boot run_id command_id p) =
    StoredIdentity (JObj (identity_doc pid pid start boot run_id command_id p))"
proof -
  have "list_all plain_char run_id" using assms(6) name_char_plain by (auto simp: safe_name_def list_all_iff)
  then have run: "quoted_bytes run_id \<le> 257" using assms(7) by (simp add: quoted_bytes_plain)
  have command: "quoted_bytes command_id \<le> 130" using command_id_plain [OF assms(8)] by (simp add: quoted_bytes_plain)
  have boot: "quoted_bytes boot \<le> 50"
    using hex_groups_plain [of "[8, 4, 4, 4, 12]" boot] assms(5) by (simp add: is_boot_id_def quoted_bytes_plain)
  have numbers: "length (str_int pid) \<le> 20" "length (str_int start) \<le> 20" "length (str_int IDENTITY_SCHEMA_VERSION) \<le> 20"
    using assms(1-4) by (simp_all add: str_int_length IDENTITY_SCHEMA_VERSION_def)
  have names: "quoted_bytes k = length k + 2" if "k \<in> set (process_group_fields @ [''process_group'', ''active''])" for k
    using that by (intro quoted_bytes_plain) (auto simp: process_group_fields_def plain_char_def char_defs)
  have "json_bytes 0 (JObj (identity_doc pid pid start boot run_id command_id p)) \<le> 2000"
    using run command boot numbers policy_bytes [OF assms(9)]
    by (simp add: identity_doc_def names process_group_fields_def)
  then show ?thesis by (simp add: identity_file_def MAX_IDENTITY_BYTES_def)
qed

section \<open>A concrete command\<close>

definition sample_boot :: string where "sample_boot = ''01234567-89ab-cdef-0123-456789abcdef''"

definition sample_view :: proc_view where
  "sample_view = \<lparr>pv_boot = ReadOk sample_boot, pv_stat = ReadOk ''42 (my (sh) x) S 1 42 0 0 0 0 0 0 0 0 0 0 0 0 0 0 0 0 777 0'',
     pv_environ = ReadOk \<lparr>env_size = 90, env_items = [(RUN_ID_ENV, Some ''run-1''), (''HOME'', None), (COMMAND_ID_ENV, Some ''c1'')]\<rparr>,
     pv_final = ReadOk ''42 (my (sh) x) S 1 42 0 0 0 0 0 0 0 0 0 0 0 0 0 0 0 0 777 0''\<rparr>"

definition sample_record :: doc where
  "sample_record = identity_doc 42 42 777 sample_boot ''run-1'' ''c1'' empty_policy"

definition sample_unit_record :: "string \<Rightarrow> doc" where
  "sample_unit_record state = [(''schema_version'', JInt 3), (''backend'', JStr ''systemd_cgroup''), (''boot_id'', JStr sample_boot),
     (''run_id'', JStr ''run-1''), (''command_id'', JStr ''c1''),
     (''unit_name'', JStr ''debbuilder-command-0123456789abcdef-0123456789abcdef0123456789abcdef.service''),
     (''containment_state'', JStr state), (''resource_limits'', JObj []), (''resource_io_targets'', JArr [])] @
     (if state = ''starting'' then [] else [(''invocation_id'', JStr (replicate 32 (CHR ''a''))),
       (''control_group'', JStr ''/system.slice/debbuilder-command-0123456789abcdef-0123456789abcdef0123456789abcdef.service'')])"

definition sample_group :: group_view where
  "sample_group = \<lparr>gv_term = Delivered, gv_grace = [Delivered, NoProcess], gv_alive = NoProcess, gv_kill = NoProcess,
     gv_reap = [NoProcess], gv_gone = NoProcess\<rparr>"

lemma sample_captured: "capture_identity sample_view 42 ''run-1'' ''c1'' False True ReadMissing JNull = Inr sample_record"
  by code_simp

lemma sample_verified: "verify_identity sample_view (Some ''run-1'') (JObj sample_record) = Inr MATCH"
  by code_simp

lemma sample_target: "group_of (JObj sample_record) = 42"
  by (simp add: group_of_def sample_record_def identity_doc_def int_of_def)

lemma sample_terminated:
  "fst (terminate_verified sample_view (\<lambda>_. sample_view) sample_view sample_group ''run-1'' (JObj sample_record)) = [(42, SIGTERM)]"
  by (simp add: terminate_verified_def sample_verified terminate_process_group_def signal_group_def authorize_signal_def
      sample_group_def finish_group_def sample_target)

lemma sample_unit_valid: "validated_identity None (JObj (sample_unit_record ''starting'')) = Inr (sample_unit_record ''starting'')"
  by code_simp

lemma sample_files:
  "identity_file (sample_unit_record ''starting'') = StoredIdentity (JObj (sample_unit_record ''starting''))"
  "identity_file (sample_unit_record ''active'') = StoredIdentity (JObj (sample_unit_record ''active''))"
  by code_simp+

lemma sample_update:
  "apply_id (Update Written (JObj (sample_unit_record ''starting'')) (JObj (sample_unit_record ''active'')))
     (identity_file (sample_unit_record ''starting'')) = identity_file (sample_unit_record ''active'')"
  unfolding sample_files by code_simp

section \<open>Properties\<close>

text \<open>C11: a recorded command is not forgotten: as long as no clear names exactly the record
  that is there, whatever else is attempted on the file and however the storage fails, the file
  is the file of a valid record of the same command (backend, boot, Run, command and unit), whose
  containment state never goes back.  The file is never absent; it can be read as long as the record takes
  at most 4096 bytes, and an accepted update beyond that leaves a file that no later operation
  reads, changes or removes.\<close>

theorem recorded_command_kept:
  assumes "validated_identity None (JObj i) = Inr i"
    and "\<forall>earlier w e later. acts = earlier @ ClearRecord w (JObj e) # later \<longrightarrow>
      (\<forall>c. fold apply_id earlier (identity_file i) = StoredIdentity (JObj c) \<longrightarrow> \<not> py_eq (JObj c) (JObj e))"
  shows "\<exists>i'. fold apply_id acts (identity_file i) = identity_file i' \<and> identity_file i' \<noteq> NoIdentity \<and>
    (read_persisted_identity (identity_file i') =
      (if json_bytes 0 (JObj i') + 1 \<le> 4096 then Inr (JObj i') else Inl ident_err)) \<and>
    validated_identity None (JObj i') = Inr i' \<and> (\<forall>k \<in> set invariant_fields. jget i' k = jget i k) \<and> stage_rank i \<le> stage_rank i'"
proof -
  have "still_recorded i (fold apply_id acts (identity_file i))"
    using assms(2)
  proof (induction acts rule: rev_induct)
    case Nil
    show ?case using still_recorded_refl [OF assms(1)] by simp
  next
    case (snoc act acts)
    have "still_recorded i (fold apply_id acts (identity_file i))"
    proof (rule snoc.IH, intro allI impI)
      fix earlier w e later c
      assume "acts = earlier @ ClearRecord w (JObj e) # later" "fold apply_id earlier (identity_file i) = StoredIdentity (JObj c)"
      then show "\<not> py_eq (JObj c) (JObj e)" using snoc.prems [rule_format, of earlier w e "later @ [act]" c] by simp
    qed
    then obtain c where c: "fold apply_id acts (identity_file i) = identity_file c"
        "validated_identity None (JObj c) = Inr c" "same_command i c" "stage_rank i \<le> stage_rank c"
      unfolding still_recorded_def by blast
    have "still_recorded c (apply_id act (identity_file c))"
      using apply_id_step [OF c(2), of act] snoc.prems [rule_format, of acts _ _ "[]" c] c(1) by auto
    with c show ?case by (fastforce simp: still_recorded_def same_command_def)
  qed
  then obtain i' where "fold apply_id acts (identity_file i) = identity_file i'" "validated_identity None (JObj i') = Inr i'"
    "same_command i i'" "stage_rank i \<le> stage_rank i'"
    unfolding still_recorded_def by blast
  then show ?thesis
    by (intro exI [of _ i']) (simp add: same_command_def identity_file_def read_persisted_identity_def MAX_IDENTITY_BYTES_def)
qed

text \<open>C10: signals reach only the recorded process: whenever a signal is sent to a process group, it is
  the group of the record, the record is valid for the Run and, when the signal is authorized and once before, the
  kernel shows the leader of that group, of the same boot, with the recorded start time before and after its
  environment was read, and with the markers of this Run and command in it.\<close>

theorem signals_only_to_recorded_process:
  assumes "terminate_verified pv view pv' gv run_id v = (sent, r)" "(target, sig) \<in> set sent"
  shows "\<exists>i. validated_identity (Some run_id) v = Inr i \<and> jget i ''backend'' = JStr ''process_group'' \<and>
    jget i ''run_id'' = JStr run_id \<and> jget i ''pid'' = JInt target \<and> jget i ''pgid'' = JInt target \<and>
    shows_process pv i \<and> shows_process (view sig) i"
proof -
  note sent = terminate_verified_sent [OF assms, simplified]
  obtain i where i: "validated_identity (Some run_id) v = Inr i" "jget i ''backend'' = JStr ''process_group''" "shows_process pv i"
    using verify_match [OF sent [THEN conjunct1]] by blast
  obtain i' where i': "validated_identity (Some run_id) v = Inr i'" "shows_process (view sig) i'"
    using verify_match [OF sent [THEN conjunct2, THEN conjunct1]] by blast
  have "i' = i" using i(1) i'(1) by simp
  moreover have "jget i ''run_id'' = JStr run_id" "v = JObj i" using i(1) by (rule validated_identityE, simp)+
  moreover from this have "jget i ''pid'' = JInt target \<and> jget i ''pgid'' = JInt target"
    using i(3) sent by (auto simp: shows_process_def group_of_def int_of_def)
  ultimately show ?thesis using i i' by blast
qed

text \<open>C12: every record that is captured is well formed: it is accepted for its Run, it is what
  the file holds after it was persisted, with a process id and a start time of at most twenty digits and
  a Run id of at most 255 characters it is small enough to be read again, and a later look at the process that
  shows the same boot, start time and markers verifies it.\<close>

theorem captured_identity_well_formed:
  assumes "capture_identity pv pid run_id command_id exited allow_vanished later resource_policy = Inr i"
  shows "validated_identity (Some run_id) (JObj i) = Inr i \<and>
    persist_identity Written (JObj i) NoIdentity = (identity_file i, Inr ()) \<and>
    (length run_id \<le> 255 \<and> pid < 10 ^ 20 \<and> int_of (jget i ''start_time_ticks'') < 10 ^ 20 \<longrightarrow>
       identity_file i = StoredIdentity (JObj i)) \<and>
    (read_markers (pv_environ pv') = Inr (run_id, command_id) \<and> pv_boot pv' = pv_boot pv \<and>
       pv_stat pv' = pv_stat pv \<and> pv_final pv' = pv_stat pv \<longrightarrow> verify_identity pv' (Some run_id) (JObj i) = Inr MATCH)"
proof -
  obtain start boot p where parts: "safe_name run_id" "is_command_id command_id" "read_proc_stat pid (pv_stat pv) = Inr (pid, start)"
      "read_boot_id (pv_boot pv) = Inr boot"
      "normalize_policy ''$.resource_limits'' (if resource_policy = JNull then policy_json empty_policy else resource_policy) = Inr p"
      "i = identity_doc pid pid start boot run_id command_id p"
    using assms unfolding capture_identity_def by (auto simp: result_simps simp del: normalize_policy_json split: if_splits)
  have "policy_wf p" using parts(5) by (rule normalize_policy_wf)
  have pos: "0 < pid" "0 \<le> start" using read_proc_stat_ok [OF parts(3)] by simp_all
  have valid: "validated_identity (Some run_id) (JObj i) = Inr i"
    unfolding parts(6) using pos parts(1,2) \<open>policy_wf p\<close> read_boot_id_ok [OF parts(4)] by (intro identity_doc_valid) simp_all
  have "validated_identity None (JObj i) = Inr i" using valid by (rule validated_identityE)
  moreover have "verify_identity pv' (Some run_id) (JObj i) = Inr MATCH"
    if "read_markers (pv_environ pv') = Inr (run_id, command_id)" "pv_boot pv' = pv_boot pv" "pv_stat pv' = pv_stat pv"
      "pv_final pv' = pv_stat pv"
    using that parts(3,4) by (simp add: verify_identity_def valid) (simp add: parts(6) identity_doc_def int_of_def)
  moreover have "identity_file i = StoredIdentity (JObj i)"
    if "length run_id \<le> 255" "pid < 10 ^ 20" "int_of (jget i ''start_time_ticks'') < 10 ^ 20"
  proof -
    have "start < 10 ^ 20" using that(3) unfolding parts(6) by (simp add: identity_doc_def int_of_def)
    then show ?thesis
      unfolding parts(6) using that(1,2) pos parts(1,2) \<open>policy_wf p\<close> read_boot_id_ok [OF parts(4)]
      by (intro identity_doc_small) simp_all
  qed
  ultimately show ?thesis
    using valid by (simp add: persist_identity_def read_persisted_identity_def write_identity_def)
qed

theorem recorded_command_kept_witness:
  "fold apply_id [Update Written (JObj (sample_unit_record ''starting'')) (JObj (sample_unit_record ''active''))]
     (identity_file (sample_unit_record ''starting'')) = StoredIdentity (JObj (sample_unit_record ''active'')) \<and>
   (\<exists>i'. identity_file (sample_unit_record ''active'') = identity_file i' \<and>
     stage_rank (sample_unit_record ''starting'') \<le> stage_rank i')"
proof -
  let ?acts = "[Update Written (JObj (sample_unit_record ''starting'')) (JObj (sample_unit_record ''active''))]"
  have "?acts \<noteq> earlier @ ClearRecord w (JObj e) # later" for earlier w e later
    by (cases earlier) auto
  then have "\<forall>earlier w e later. ?acts = earlier @ ClearRecord w (JObj e) # later \<longrightarrow>
      (\<forall>c. fold apply_id earlier (identity_file (sample_unit_record ''starting'')) = StoredIdentity (JObj c) \<longrightarrow>
        \<not> py_eq (JObj c) (JObj e))"
    by blast
  from recorded_command_kept [OF sample_unit_valid this] obtain i' where
      kept: "fold apply_id ?acts (identity_file (sample_unit_record ''starting'')) = identity_file i'"
        "stage_rank (sample_unit_record ''starting'') \<le> stage_rank i'"
    by blast
  have run: "fold apply_id ?acts (identity_file (sample_unit_record ''starting'')) = identity_file (sample_unit_record ''active'')"
    by (simp only: fold.simps o_apply id_apply sample_update)
  show ?thesis
  proof (intro conjI exI)
    show "fold apply_id ?acts (identity_file (sample_unit_record ''starting'')) = StoredIdentity (JObj (sample_unit_record ''active''))"
      using run sample_files(2) by (rule trans)
    show "identity_file (sample_unit_record ''active'') = identity_file i'"
      using run [symmetric] kept(1) by (rule trans)
  qed (rule kept(2))
qed

theorem signals_only_to_recorded_process_witness:
  "\<exists>i. validated_identity (Some ''run-1'') (JObj sample_record) = Inr i \<and> shows_process sample_view i \<and> jget i ''pgid'' = JInt 42"
proof -
  obtain sent r where run: "terminate_verified sample_view (\<lambda>_. sample_view) sample_view sample_group ''run-1'' (JObj sample_record) = (sent, r)"
    by fastforce
  then have "(42, SIGTERM) \<in> set sent" using sample_terminated by simp
  from signals_only_to_recorded_process [OF run this] show ?thesis by (elim exE conjE) (intro exI conjI)
qed

theorem captured_identity_well_formed_witness:
  "validated_identity (Some ''run-1'') (JObj sample_record) = Inr sample_record"
  by (rule captured_identity_well_formed [OF sample_captured, THEN conjunct1])

end
