(* ===== verification/Execution_Recovery.thy ===== *)
theory Execution_Recovery
  imports Command_Identity Execution_Manager Fallible_State
begin

text \<open>
  \<^verbatim>\<open>src/debbuilder/execution_recovery.py\<close>: what startup does with the Runs that the previous
  process left behind, before any Run is admitted.  Every definition is a function on the world
  (the disk, the command records, and the result that is built); what the host answers (locks,
  writes, directory listings, systemd, \<^verbatim>\<open>/proc\<close>) is the record \<open>rec_host\<close>, with an answer of
  its own for every Run and every write.

  \<^verbatim>\<open>recover_systemd_containment\<close> and \<^verbatim>\<open>recover_orphan_systemd_containment\<close> of
  \<^verbatim>\<open>command_containment.py\<close> talk to systemd; only their verdicts are used here.  The texts of
  the reasons are a function of what they say.
\<close>

section \<open>The host\<close>

datatype reason =
    ContainmentGone bool | ContainmentUnresolved verification | GroupUnresolved | PreviousBoot | NeverBegan
  | NoDurableIdentity | MetadataUnverifiable | AmbiguousSteps | LockUnavailable | RunUnverifiable
  | BootUnavailable | InventoryEntry | InventoryUnverifiable | UnitScanFailed | BoundUnitRemains
  | UnitsUnowned | OrphanUnresolved | TerminalUnresolved

datatype purpose = PublicationSave | BlockerSave | TerminalSave | ResolutionSave

text \<open>What \<^verbatim>\<open>recover_systemd_containment\<close> of \<^verbatim>\<open>command_containment.py\<close> does: its verdict, what it leaves of
  the identity file through the recorder, or the exception it raises after that.\<close>

record containment =
  c_raised :: "exn option"
  c_status :: verification
  c_gone :: bool
  c_resource :: json
  c_file :: "id_file \<Rightarrow> id_file"

datatype dir_try = DirAbsent | DirFailed | DirOpened

record history_view =
  hv_logs :: dir_try
  hv_commands :: dir_try
  hv_scan_ok :: bool
  hv_entries :: nat

datatype manifest = ManifestPresent | ManifestAbsent | ManifestFailed

datatype entry_view = StatFailed | NotDirectory | OpenRefused | OpenedRun manifest

datatype root_view = RootMissing | RootFailed exn | RootListed "(string \<times> entry_view) list"

record rec_host =
  h_boot :: "string read"
  h_root :: root_view
  h_lock :: "string \<Rightarrow> exn option"
  h_file :: "string \<Rightarrow> exn option"
  h_path :: "string \<Rightarrow> string"
  h_save :: "string \<Rightarrow> purpose \<Rightarrow> write_outcome"
  h_log :: "string \<Rightarrow> bool"
  h_unlink :: "string \<Rightarrow> write_outcome"
  h_history :: "string \<Rightarrow> history_view"
  h_contain :: "string \<Rightarrow> containment"
  h_proc :: "string \<Rightarrow> proc_view"
  h_signal :: "string \<Rightarrow> signal \<Rightarrow> proc_view"
  h_proc_end :: "string \<Rightarrow> proc_view"
  h_group :: "string \<Rightarrow> group_view"
  h_units :: "string list option"
  h_orphan :: "string \<Rightarrow> verification \<times> bool"
  h_time :: "string \<Rightarrow> nat \<Rightarrow> string"
  h_text :: "string \<Rightarrow> reason \<Rightarrow> string"

record recovery_blocker =
  b_run :: string
  b_backend :: string
  b_reason :: string

record rec_world =
  w_disk :: disk
  w_ids :: "string \<Rightarrow> id_file"
  processed_run_ids :: "string list"
  recovered_run_ids :: "string list"
  blockers :: "recovery_blocker list"
  stray_units :: "string list"
  reconciled_orphan_units :: "string list"
  unit_scan_failed :: bool
  unit_bindings :: "(string \<times> string) list"
  blocked_ids :: "string list"
  trustworthy :: bool

type_synonym 'a rec_op = "rec_world \<Rightarrow> rec_world \<times> 'a result"

definition NON_TERMINAL_STATUSES :: "string list" where
  "NON_TERMINAL_STATUSES = [''pending'', ''queued'', ''running'', ''cancelling'']"

definition RECOVERY_ERROR_CODE :: string where "RECOVERY_ERROR_CODE = ''execution_interrupted''"
definition BLOCKER_CODE :: string where "BLOCKER_CODE = ''execution_recovery_unresolved''"

text \<open>\<^verbatim>\<open>StartupRecoveryResult.admission_blocker is not None\<close>\<close>

definition admission_blocked :: "rec_world \<Rightarrow> bool" where
  "admission_blocked w = (blockers w \<noteq> [] \<or> stray_units w \<noteq> [])"

definition add_blocker :: "string \<Rightarrow> string \<Rightarrow> string \<Rightarrow> unit rec_op" where
  "add_blocker run_id backend text = modify_s (\<lambda>w. w\<lparr>blockers := blockers w @ [\<lparr>b_run = run_id, b_backend = backend, b_reason = text\<rparr>]\<rparr>)"

definition block_run :: "string \<Rightarrow> unit rec_op" where
  "block_run run_id = modify_s (\<lambda>w. w\<lparr>blocked_ids := run_id # blocked_ids w\<rparr>)"

definition process_run :: "string \<Rightarrow> unit rec_op" where
  "process_run run_id = modify_s (\<lambda>w. w\<lparr>processed_run_ids := processed_run_ids w @ [run_id]\<rparr>)"

definition distrust :: "unit rec_op" where
  "distrust = modify_s (\<lambda>w. w\<lparr>trustworthy := False\<rparr>)"

section \<open>Documents\<close>

text \<open>\<^verbatim>\<open>run["id"]\<close> names the directory (\<^verbatim>\<open>read_run\<close> has checked it), so a save writes there.\<close>

definition save_run :: "py_env \<Rightarrow> rec_host \<Rightarrow> string \<Rightarrow> purpose \<Rightarrow> doc \<Rightarrow> unit rec_op" where
  "save_run env h run_id purpose run w =
     (case save env \<lparr>lock_ok = True, read_ok = True, write_outcome = h_save h run_id purpose\<rparr> run (w_disk w) of
        (d, r) \<Rightarrow> (w\<lparr>w_disk := d\<rparr>, r))"

text \<open>\<^verbatim>\<open>run.setdefault("events", []).append(event)\<close>\<close>

definition event :: "string \<Rightarrow> string \<Rightarrow> json" where
  "event at_time message = JObj [(''at'', JStr at_time), (''level'', JStr ''error''), (''message'', JStr message)]"

definition add_event :: "json \<Rightarrow> doc \<Rightarrow> doc result" where
  "add_event e run =
     (case (if has_key run ''events'' then jget run ''events'' else JArr []) of
        JArr es \<Rightarrow> Inr (jset run ''events'' (JArr (es @ [e])))
      | _ \<Rightarrow> Inl (Exn AttributeError [] []))"

text \<open>A publication that was running.\<close>

definition interrupted :: "json \<Rightarrow> bool" where
  "interrupted v = (case v of JObj a \<Rightarrow> jget a ''status'' = JStr ''running'' | _ \<Rightarrow> False)"

definition publication_duration :: "py_env \<Rightarrow> doc \<Rightarrow> string \<Rightarrow> json" where
  "publication_duration env a finished =
     (case (fromisoformat env (str_or env (jget a ''requested_at'') []), fromisoformat env finished) of
        (Some (aware, t), Some (aware', t')) \<Rightarrow>
          if aware = aware' then JFloat (max 0 (of_int (t' - t) / 1000000)) else JNull
      | _ \<Rightarrow> JNull)"

fun fail_publication :: "py_env \<Rightarrow> string \<Rightarrow> json \<Rightarrow> json" where
  "fail_publication env finished (JObj a) =
     JObj (jupdate a [(''status'', JStr ''failed''), (''finished_at'', JStr finished),
       (''duration'', publication_duration env a finished),
       (''error'', JObj [(''code'', JStr ''publication_interrupted''),
         (''message'', JStr ''Publication was interrupted before a durable exact proof was recorded''), (''details'', JObj [])])])"
| "fail_publication env finished v = v"

text \<open>\<^verbatim>\<open>run.get("publications") or []\<close>, as a loop over it sees it.\<close>

definition publications :: "doc \<Rightarrow> json list result" where
  "publications run =
     (let v = jget run ''publications'' in
      if \<not> truthy v then Inr []
      else case v of JArr xs \<Rightarrow> Inr xs | JObj kvs \<Rightarrow> Inr (map (\<lambda>kv. JStr (fst kv)) kvs)
        | JStr s \<Rightarrow> Inr (map (\<lambda>c. JStr [c]) s) | _ \<Rightarrow> Inl type_err)"

definition failed_publications :: "py_env \<Rightarrow> string \<Rightarrow> json list \<Rightarrow> json" where
  "failed_publications env finished rows = JArr (map (\<lambda>v. if interrupted v then fail_publication env finished v else v) rows)"

text \<open>\<^verbatim>\<open>_recover_interrupted_publications\<close>: the Run as it is in memory afterwards.\<close>

definition recover_publications :: "py_env \<Rightarrow> rec_host \<Rightarrow> string \<Rightarrow> doc \<Rightarrow> doc rec_op" where
  "recover_publications env h run_id run =
     bind_o (lift_r (publications run)) (\<lambda>rows.
     if \<not> list_ex interrupted rows then ret run
     else
       bind_o (lift_r (add_event (event (h_time h run_id 1)
           (''Recovered '' @ str_int (int (length (filter interrupted rows))) @ '' interrupted publication attempt(s)''))
         (jset run ''publications'' (failed_publications env (h_time h run_id 0) rows)))) (\<lambda>run'.
       if \<not> h_log h run_id then throw os_err
       else bind_o (save_run env h run_id PublicationSave run') (\<lambda>_. ret run')))"

section \<open>Evidence\<close>

text \<open>\<^verbatim>\<open>_command_history_exists\<close>\<close>

definition command_history_exists :: "history_view \<Rightarrow> bool" where
  "command_history_exists hv =
     (case hv_logs hv of DirAbsent \<Rightarrow> False | DirFailed \<Rightarrow> True
      | DirOpened \<Rightarrow> (case hv_commands hv of DirAbsent \<Rightarrow> False | DirFailed \<Rightarrow> True
          | DirOpened \<Rightarrow> \<not> hv_scan_ok hv \<or> hv_entries hv > 0))"

definition untouched_step :: "json \<Rightarrow> bool" where
  "untouched_step v = (case v of JObj s \<Rightarrow> jget s ''status'' = JStr ''pending'' \<and> jget s ''started_at'' = JNull \<and>
     jget s ''finished_at'' = JNull \<and> jget s ''duration'' = JNull | _ \<Rightarrow> False)"

definition steps_of :: "doc \<Rightarrow> json list" where
  "steps_of run = (case jget run ''steps'' of JArr xs \<Rightarrow> xs | _ \<Rightarrow> [])"

definition no_command_could_have_started :: "doc \<Rightarrow> history_view \<Rightarrow> bool" where
  "no_command_could_have_started run hv =
     (jget run ''status'' \<in> {JStr ''pending'', JStr ''queued''} \<and>
      \<not> truthy (jget run ''started_at'') \<and> \<not> truthy (jget run ''finished_at'') \<and> jget run ''duration'' = JNull \<and>
      \<not> truthy (jget run ''events'') \<and> \<not> truthy (jget run ''error'') \<and> \<not> command_history_exists hv \<and>
      list_all untouched_step (steps_of run))"

text \<open>\<^verbatim>\<open>_terminalization_ambiguity\<close>\<close>

definition ambiguous :: "doc \<Rightarrow> bool" where
  "ambiguous run = (length (filter is_running_step (steps_of run)) > 1)"

section \<open>The recovery record\<close>

definition dict_or_empty :: "json \<Rightarrow> doc" where
  "dict_or_empty v = (case v of JObj kvs \<Rightarrow> kvs | _ \<Rightarrow> [])"

definition truthy_or :: "json \<Rightarrow> json \<Rightarrow> json" where
  "truthy_or v alt = (if truthy v then v else alt)"

definition recovery_record :: "rec_host \<Rightarrow> string \<Rightarrow> bool \<Rightarrow> string \<Rightarrow> string \<Rightarrow> doc \<Rightarrow> doc" where
  "recovery_record h run_id resolved text backend previous =
     [(''status'', JStr (if resolved then ''resolved'' else ''blocked'')),
      (''code'', JStr (if resolved then RECOVERY_ERROR_CODE else BLOCKER_CODE)), (''backend'', JStr backend),
      (''reason'', JStr text), (''recorded_at'', truthy_or (jget previous ''recorded_at'') (JStr (h_time h run_id 3)))] @
     (if resolved then [(''resolved_at'', truthy_or (jget previous ''resolved_at'') (JStr (h_time h run_id 4)))] else [])"

text \<open>\<^verbatim>\<open>_record_blocker\<close>, with the append to the result that follows every call.\<close>

definition blocker_record :: "rec_host \<Rightarrow> string \<Rightarrow> string \<Rightarrow> reason \<Rightarrow> doc \<Rightarrow> doc" where
  "blocker_record h run_id backend why run =
     (let previous = dict_or_empty (jget run ''recovery'') in
      if jget previous ''status'' = JStr ''blocked'' \<and> jget previous ''code'' = JStr BLOCKER_CODE \<and>
        jget previous ''backend'' = JStr backend
      then previous else recovery_record h run_id False (h_text h run_id why) backend previous)"

definition record_blocker :: "py_env \<Rightarrow> rec_host \<Rightarrow> string \<Rightarrow> string \<Rightarrow> reason \<Rightarrow> doc \<Rightarrow> unit rec_op" where
  "record_blocker env h run_id backend why run =
     (let recovery = blocker_record h run_id backend why run in
      bind_o (if \<not> py_eq (jget run ''recovery'') (JObj recovery)
              then save_run env h run_id BlockerSave (jset run ''recovery'' (JObj recovery)) else ret ()) (\<lambda>_.
      bind_o (add_blocker run_id backend (str_or env (jget recovery ''reason'') (h_text h run_id why))) (\<lambda>_.
      block_run run_id)))"

text \<open>\<^verbatim>\<open>_terminalize_interrupted\<close>\<close>

fun update_first :: "('a \<Rightarrow> bool) \<Rightarrow> ('a \<Rightarrow> 'a) \<Rightarrow> 'a list \<Rightarrow> 'a list" where
  "update_first P f [] = []"
| "update_first P f (x # xs) = (if P x then f x # xs else x # update_first P f xs)"

definition INTERRUPTED_MESSAGE :: string where
  "INTERRUPTED_MESSAGE = ''Execution was interrupted before startup recovery completed''"

definition interruption_error :: "py_env \<Rightarrow> string \<Rightarrow> string \<Rightarrow> json \<Rightarrow> doc \<Rightarrow> doc" where
  "interruption_error env backend text resource run =
     [(''stage'', JStr (case List.find is_running_step (steps_of run) of
         Some (JObj s) \<Rightarrow> py_str env (jget s ''name'') | _ \<Rightarrow> ''recovery'')),
      (''code'', JStr RECOVERY_ERROR_CODE), (''message'', JStr INTERRUPTED_MESSAGE),
      (''details'', JObj ([(''recovery_backend'', JStr backend), (''reason'', JStr text)] @
        (if truthy resource then [(''resource_control'', resource)] else [])))]"

fun interrupt_step :: "py_env \<Rightarrow> string \<Rightarrow> doc \<Rightarrow> json \<Rightarrow> json" where
  "interrupt_step env finished err (JObj s) =
     JObj (jupdate s [(''status'', JStr ''failed''), (''finished_at'', JStr finished),
       (''duration'', JFloat (elapsed env (jget s ''started_at'') finished)), (''summary'', JStr INTERRUPTED_MESSAGE),
       (''error'', JObj err)])"
| "interrupt_step env finished err v = v"

definition interrupted_run :: "py_env \<Rightarrow> rec_host \<Rightarrow> string \<Rightarrow> string \<Rightarrow> string \<Rightarrow> json \<Rightarrow> doc \<Rightarrow> doc" where
  "interrupted_run env h run_id backend text resource run =
     (let finished = h_time h run_id 2; err = interruption_error env backend text resource run in
      jupdate (jset run ''steps'' (JArr (update_first is_running_step (interrupt_step env finished err) (steps_of run))))
        [(''status'', JStr ''failed''), (''finished_at'', JStr finished),
         (''duration'', JFloat (elapsed env (jget run ''started_at'') finished)), (''error'', JObj err),
         (''recovery'', JObj (recovery_record h run_id True text backend (dict_or_empty (jget run ''recovery''))))])"

definition terminalize_interrupted :: "py_env \<Rightarrow> rec_host \<Rightarrow> string \<Rightarrow> string \<Rightarrow> reason \<Rightarrow> json \<Rightarrow> doc \<Rightarrow> unit rec_op" where
  "terminalize_interrupted env h run_id backend why resource run =
     bind_o (lift_r (add_event (event (h_time h run_id 2) ''Interrupted execution reconciled during startup; Run marked failed.'')
       (interrupted_run env h run_id backend (h_text h run_id why) resource run))) (\<lambda>run'.
     save_run env h run_id TerminalSave run')"

text \<open>\<^verbatim>\<open>_record_terminal_resolution\<close>\<close>

definition record_terminal_resolution :: "py_env \<Rightarrow> rec_host \<Rightarrow> string \<Rightarrow> string \<Rightarrow> reason \<Rightarrow> doc \<Rightarrow> unit rec_op" where
  "record_terminal_resolution env h run_id backend why run =
     (let previous = dict_or_empty (jget run ''recovery'') in
      if jget previous ''status'' \<noteq> JStr ''blocked'' then ret ()
      else save_run env h run_id ResolutionSave
        (jset run ''recovery'' (JObj (recovery_record h run_id True (h_text h run_id why) backend previous))))"

text \<open>\<^verbatim>\<open>_clear_resolved_identity\<close>: expected failures are ignored.\<close>

definition clear_resolved_identity :: "rec_host \<Rightarrow> string \<Rightarrow> unit rec_op" where
  "clear_resolved_identity h run_id w =
     (case bind_r (read_persisted_identity (w_ids w run_id)) (\<lambda>v.
          if v = JNull then Inr None else bind_r (validated_identity (Some run_id) v) (\<lambda>i. Inr (Some i))) of
        Inl e \<Rightarrow> (w, if expected_failure e then Inr () else Inl e)
      | Inr None \<Rightarrow> (w, Inr ())
      | Inr (Some i) \<Rightarrow>
          (case clear_identity (h_unlink h run_id) (JObj i) (w_ids w run_id) of
             (f, r) \<Rightarrow> (w\<lparr>w_ids := (w_ids w)(run_id := f)\<rparr>,
               case r of Inl e \<Rightarrow> if expected_failure e then Inr () else Inl e | Inr _ \<Rightarrow> Inr ())))"

section \<open>One Run\<close>

text \<open>\<^verbatim>\<open>_reconcile_current_boot_identity\<close>: whether absence is proved, the backend, the reason
  and the observation of the resources.  A process group may be signalled and is never proved
  absent.\<close>

definition reconcile_group :: "rec_host \<Rightarrow> string \<Rightarrow> doc \<Rightarrow> unit result" where
  "reconcile_group h run_id i =
     bind_r (verify_identity (h_proc h run_id) (Some run_id) (JObj i)) (\<lambda>status.
     if status \<noteq> MATCH then Inr ()
     else bind_r (snd (terminate_verified (h_proc h run_id) (h_signal h run_id) (h_proc_end h run_id) (h_group h run_id) run_id (JObj i)))
       (\<lambda>_. Inr ()))"

definition reconcile_identity :: "rec_host \<Rightarrow> string \<Rightarrow> doc \<Rightarrow> json \<Rightarrow> (bool \<times> string \<times> reason \<times> json) rec_op" where
  "reconcile_identity h run_id i admitted w =
     (if jget i ''backend'' = JStr ''systemd_cgroup''
      then
        (let c = h_contain h run_id; mismatch = (\<not> py_eq (jget i ''resource_limits'') admitted);
             w' = w\<lparr>w_ids := (w_ids w)(run_id := c_file c (w_ids w run_id))\<rparr> in
         case c_raised c of
           Some e \<Rightarrow> (w', Inl e)
         | None \<Rightarrow>
         if c_status c = NOT_RUNNING \<and> c_gone c
         then (w', Inr (True, ''systemd_cgroup'', ContainmentGone mismatch,
           if mismatch \<and> truthy (c_resource c)
           then JObj (jset (dict_or_empty (c_resource c)) ''verification'' (JStr ''failed'')) else c_resource c))
         else (w', Inr (False, ''systemd_cgroup'', ContainmentUnresolved (c_status c), c_resource c)))
      else
        (case reconcile_group h run_id i of
           Inl e \<Rightarrow> (w, Inl e)
         | Inr _ \<Rightarrow> (w, Inr (False, ''process_group'', GroupUnresolved, JNull))))"

text \<open>\<^verbatim>\<open>run["resource_limits"]["effective"]\<close> of a validated Run.\<close>

definition admitted_policy :: "doc \<Rightarrow> json" where
  "admitted_policy run = jget (dict_or_empty (jget run ''resource_limits'')) ''effective''"

definition backend_of :: "doc \<Rightarrow> string" where
  "backend_of i = (case jget i ''backend'' of JStr s \<Rightarrow> s | _ \<Rightarrow> [])"

text \<open>An identity of another boot, when this boot is known, says that its command is gone;
  a unit of systemd may have survived in another way.\<close>

definition previous_boot :: "string \<Rightarrow> doc \<Rightarrow> bool" where
  "previous_boot boot i = (jget i ''boot_id'' \<noteq> JStr boot \<and> boot \<noteq> [] \<and> jget i ''backend'' \<noteq> JStr ''systemd_cgroup'')"

text \<open>\<^verbatim>\<open>(run.get("recovery") or {}).get("status")\<close>\<close>

definition recovery_status :: "doc \<Rightarrow> json result" where
  "recovery_status run =
     (let v = jget run ''recovery'' in
      if \<not> truthy v then Inr JNull else case v of JObj r \<Rightarrow> Inr (jget r ''status'') | _ \<Rightarrow> Inl (Exn AttributeError [] []))"

text \<open>A Run that had ended, lines 413 to 446.\<close>

definition recover_terminal :: "py_env \<Rightarrow> rec_host \<Rightarrow> string \<Rightarrow> string \<Rightarrow> doc option \<Rightarrow> doc \<Rightarrow> unit rec_op" where
  "recover_terminal env h boot run_id ident run =
     bind_o (lift_r (recovery_status run)) (\<lambda>status.
     if status = JStr ''resolved'' then clear_resolved_identity h run_id
     else case ident of
       None \<Rightarrow>
         if status = JStr ''blocked'' then
           (let recovery = dict_or_empty (jget run ''recovery'') in
            bind_o (process_run run_id) (\<lambda>_.
            bind_o (add_blocker run_id (str_or env (jget recovery ''backend'') ''unknown'')
              (str_or env (jget recovery ''reason'') (h_text h run_id TerminalUnresolved))) (\<lambda>_.
            block_run run_id)))
         else ret ()
     | Some i \<Rightarrow>
         bind_o (process_run run_id) (\<lambda>_.
         if previous_boot boot i then
           bind_o (clear_resolved_identity h run_id) (\<lambda>_.
           record_terminal_resolution env h run_id (backend_of i) PreviousBoot run)
         else
           bind_o (reconcile_identity h run_id i (admitted_policy run)) (\<lambda>(resolved, backend, why, _).
           if resolved then
             bind_o (clear_resolved_identity h run_id) (\<lambda>_. record_terminal_resolution env h run_id backend why run)
           else record_blocker env h run_id backend why run)))"

text \<open>Absence is proved: the Run is marked failed unless its steps contradict each other.\<close>

definition mark_recovered :: "string \<Rightarrow> unit rec_op" where
  "mark_recovered run_id = modify_s (\<lambda>w. w\<lparr>recovered_run_ids := recovered_run_ids w @ [run_id]\<rparr>)"

definition finish_absent :: "py_env \<Rightarrow> rec_host \<Rightarrow> string \<Rightarrow> string \<Rightarrow> reason \<Rightarrow> json \<Rightarrow> doc \<Rightarrow> unit rec_op" where
  "finish_absent env h run_id backend why resource run =
     (if ambiguous run then record_blocker env h run_id backend AmbiguousSteps run
      else
        bind_o (terminalize_interrupted env h run_id backend why resource run) (\<lambda>_.
        bind_o (clear_resolved_identity h run_id) (\<lambda>_. mark_recovered run_id)))"

text \<open>A Run that had not ended, lines 448 to 507.\<close>

definition recover_active :: "py_env \<Rightarrow> rec_host \<Rightarrow> string \<Rightarrow> string \<Rightarrow> doc option \<Rightarrow> doc \<Rightarrow> unit rec_op" where
  "recover_active env h boot run_id ident run =
     bind_o (process_run run_id) (\<lambda>_.
     case ident of
       None \<Rightarrow>
         if no_command_could_have_started run (h_history h run_id) then
           bind_o (terminalize_interrupted env h run_id ''none'' NeverBegan JNull run) (\<lambda>_. mark_recovered run_id)
         else record_blocker env h run_id ''none'' NoDurableIdentity run
     | Some i \<Rightarrow>
         if previous_boot boot i then finish_absent env h run_id (backend_of i) PreviousBoot JNull run
         else
           bind_o (reconcile_identity h run_id i (admitted_policy run)) (\<lambda>(resolved, backend, why, resource).
           if resolved then finish_absent env h run_id backend why resource run
           else record_blocker env h run_id backend why run))"

text \<open>The locked read of a Run.\<close>

definition read_locked_run :: "py_env \<Rightarrow> rec_host \<Rightarrow> string \<Rightarrow> disk \<Rightarrow> doc result" where
  "read_locked_run env h run_id disk =
     (case h_lock h run_id of Some e \<Rightarrow> Inl e
      | None \<Rightarrow>
          (case h_file h run_id of Some e \<Rightarrow> Inl e
           | None \<Rightarrow>
               (case disk run_id of
                  None \<Rightarrow> Inl (Exn FileNotFoundError [] [])
                | Some f \<Rightarrow>
                    (case run_file f of
                       Parsed (JObj kvs) \<Rightarrow>
                         bind_r (validate_run env (JObj kvs)) (\<lambda>run.
                         if jget run ''id'' \<noteq> JStr run_id \<or>
                           py_str env (if has_key run ''workspace'' then jget run ''workspace'' else JStr []) \<noteq> h_path h run_id
                         then Inl val_err else Inr run)
                     | Unreadable \<Rightarrow> Inl val_err
                     | _ \<Rightarrow> Inl (Exn FileNotFoundError [] [])))))"

definition read_identity_of :: "string \<Rightarrow> id_file \<Rightarrow> doc option result" where
  "read_identity_of run_id f =
     bind_r (read_persisted_identity f) (\<lambda>v.
     if v = JNull then Inr None else bind_r (validated_identity (Some run_id) v) (\<lambda>i. Inr (Some i)))"

definition bind_unit :: "string \<Rightarrow> doc option \<Rightarrow> unit rec_op" where
  "bind_unit run_id ident =
     (case ident of
        None \<Rightarrow> ret ()
      | Some i \<Rightarrow>
          if jget i ''backend'' \<noteq> JStr ''systemd_cgroup'' then ret ()
          else modify_s (\<lambda>w. w\<lparr>unit_bindings := ((case jget i ''unit_name'' of JStr u \<Rightarrow> u | _ \<Rightarrow> []), run_id) # unit_bindings w\<rparr>))"

text \<open>The body of the loop over Runs, and its exception handlers.\<close>

definition recover_run :: "py_env \<Rightarrow> rec_host \<Rightarrow> string \<Rightarrow> string \<Rightarrow> unit rec_op" where
  "recover_run env h boot run_id =
     bind_o (get_s w_disk) (\<lambda>disk.
     bind_o (lift_r (read_locked_run env h run_id disk)) (\<lambda>stored.
     bind_o (if str_or env (jget stored ''status'') [] \<notin> set RUN_STATUSES then throw val_err else ret ()) (\<lambda>_.
     bind_o (recover_publications env h run_id stored) (\<lambda>run.
     bind_o (get_s (\<lambda>w. w_ids w run_id)) (\<lambda>f.
     case read_identity_of run_id f of
       Inl e \<Rightarrow>
         if \<not> expected_failure e then throw e
         else
           bind_o distrust (\<lambda>_.
           bind_o (record_blocker env h run_id ''unknown'' MetadataUnverifiable run) (\<lambda>_. process_run run_id))
     | Inr ident \<Rightarrow>
         bind_o (bind_unit run_id ident) (\<lambda>_.
         if str_or env (jget stored ''status'') [] \<notin> set NON_TERMINAL_STATUSES
         then recover_terminal env h boot run_id ident run
         else recover_active env h boot run_id ident run))))))"

definition give_up :: "rec_host \<Rightarrow> string \<Rightarrow> reason \<Rightarrow> unit rec_op" where
  "give_up h run_id why =
     bind_o distrust (\<lambda>_. bind_o (process_run run_id) (\<lambda>_.
     bind_o (add_blocker run_id ''unknown'' (h_text h run_id why)) (\<lambda>_. block_run run_id)))"

definition recover_run_guarded :: "py_env \<Rightarrow> rec_host \<Rightarrow> string \<Rightarrow> string \<Rightarrow> unit rec_op" where
  "recover_run_guarded env h boot run_id =
     bind_o (attempt (recover_run env h boot run_id)) (\<lambda>outcome.
     case outcome of
       Inr _ \<Rightarrow> ret ()
     | Inl e \<Rightarrow>
         if exn_class e = WorkspaceBusyError then give_up h run_id LockUnavailable
         else if expected_failure e then give_up h run_id RunUnverifiable
         else throw e)"

section \<open>Startup\<close>

text \<open>\<^verbatim>\<open>_persisted_run_ids\<close>: the Runs to look at, and the entries that are evidence of trouble
  (under their name when it is safe).\<close>

fun scan_entries :: "(string \<times> entry_view) list \<Rightarrow> string list \<times> string list" where
  "scan_entries [] = ([], [])"
| "scan_entries ((name, v) # rest) =
     (let (candidates, errors) = scan_entries rest in
      case v of
        StatFailed \<Rightarrow> (candidates, [] # errors)
      | NotDirectory \<Rightarrow> (candidates, [] # errors)
      | _ \<Rightarrow>
          if \<not> safe_name name then (candidates, [] # errors)
          else (case v of
              OpenedRun ManifestPresent \<Rightarrow> (name # candidates, errors)
            | _ \<Rightarrow> (candidates, name # errors)))"

definition persisted_run_ids :: "root_view \<Rightarrow> (string list \<times> string list) result" where
  "persisted_run_ids listing =
     (case listing of
        RootMissing \<Rightarrow> Inr ([], [])
      | RootFailed e \<Rightarrow> Inl e
      | RootListed entries \<Rightarrow> (case scan_entries entries of (candidates, errors) \<Rightarrow> Inr (sort candidates, errors)))"

definition inventory_error :: "rec_host \<Rightarrow> string \<Rightarrow> unit rec_op" where
  "inventory_error h run_id =
     bind_o (add_blocker run_id ''unknown'' (h_text h run_id InventoryEntry)) (\<lambda>_.
     if run_id = [] then ret () else block_run run_id)"

definition recover_inventory :: "rec_host \<Rightarrow> string list rec_op" where
  "recover_inventory h =
     (case persisted_run_ids (h_root h) of
        Inl e \<Rightarrow>
          if is_os_error e \<or> exn_class e = TypeError \<or> is_value_error e
          then bind_o distrust (\<lambda>_. bind_o (add_blocker [] ''unknown'' (h_text h [] InventoryUnverifiable)) (\<lambda>_. ret []))
          else throw e
      | Inr (run_ids, errors) \<Rightarrow>
          bind_o (if errors \<noteq> [] then distrust else ret ()) (\<lambda>_.
          bind_o (for_each (inventory_error h) errors) (\<lambda>_. ret run_ids)))"

definition recover_boot :: "rec_host \<Rightarrow> string rec_op" where
  "recover_boot h =
     (case read_boot_id (h_boot h) of
        Inr boot \<Rightarrow> ret boot
      | Inl e \<Rightarrow>
          if exn_class e = CommandIdentityError \<or> is_os_error e
          then bind_o distrust (\<lambda>_. bind_o (add_blocker [] ''unknown'' (h_text h [] BootUnavailable)) (\<lambda>_. ret []))
          else throw e)"

text \<open>One loaded command unit.\<close>

definition stray :: "string \<Rightarrow> unit rec_op" where
  "stray unit_name = modify_s (\<lambda>w. w\<lparr>stray_units := stray_units w @ [unit_name]\<rparr>)"

definition recover_unit :: "rec_host \<Rightarrow> string \<Rightarrow> unit rec_op" where
  "recover_unit h unit_name =
     bind_o (get_s (\<lambda>w. map_of (unit_bindings w) unit_name)) (\<lambda>bound.
     bind_o (get_s blocked_ids) (\<lambda>blocked.
     case bound of
       Some run_id \<Rightarrow>
         if run_id \<in> set blocked then ret ()
         else
           bind_o (stray unit_name) (\<lambda>_.
           bind_o (add_blocker run_id ''systemd_cgroup'' (h_text h run_id BoundUnitRemains)) (\<lambda>_. block_run run_id))
     | None \<Rightarrow>
         bind_o (get_s trustworthy) (\<lambda>ok.
         if \<not> ok then
           bind_o (stray unit_name) (\<lambda>_. add_blocker [] ''systemd_cgroup'' (take 1000 (h_text h unit_name UnitsUnowned)))
         else if h_orphan h unit_name = (NOT_RUNNING, True)
         then modify_s (\<lambda>w. w\<lparr>reconciled_orphan_units := reconciled_orphan_units w @ [unit_name]\<rparr>)
         else
           bind_o (stray unit_name) (\<lambda>_. add_blocker [] ''systemd_cgroup'' (take 1000 (h_text h unit_name OrphanUnresolved))))))"

definition recover_units :: "rec_host \<Rightarrow> unit rec_op" where
  "recover_units h =
     (case h_units h of
        None \<Rightarrow>
          bind_o (modify_s (\<lambda>w. w\<lparr>unit_scan_failed := True\<rparr>)) (\<lambda>_.
          add_blocker [] ''systemd_cgroup'' (h_text h [] UnitScanFailed))
      | Some units \<Rightarrow> for_each (recover_unit h) (sort (remdups units)))"

definition new_recovery :: "disk \<Rightarrow> (string \<Rightarrow> id_file) \<Rightarrow> rec_world" where
  "new_recovery disk ids = \<lparr>w_disk = disk, w_ids = ids, processed_run_ids = [], recovered_run_ids = [], blockers = [],
     stray_units = [], reconciled_orphan_units = [], unit_scan_failed = False, unit_bindings = [], blocked_ids = [], trustworthy = True\<rparr>"

definition recover_startup :: "py_env \<Rightarrow> rec_host \<Rightarrow> unit rec_op" where
  "recover_startup env h =
     bind_o (recover_boot h) (\<lambda>boot.
     bind_o (recover_inventory h) (\<lambda>run_ids.
     bind_o (for_each (recover_run_guarded env h boot) run_ids) (\<lambda>_. recover_units h)))"

end
