(* ===== verification/Recovery_Properties.thy ===== *)
theory Recovery_Properties
  imports Workspace_Cleanup Execution_Recovery
begin

text \<open>
  What startup recovery guarantees: documents stay valid, only what is proved absent is marked
  failed, and admission opens only over settled Runs.
\<close>

section \<open>What one Run may touch\<close>

text \<open>A relation between the world before and after that operations stay within, exceptions
  included.\<close>

locale step_relation =
  fixes R :: "'s \<Rightarrow> 's \<Rightarrow> bool"
  assumes R_refl: "R s s"
    and R_trans: "R s t \<Longrightarrow> R t u \<Longrightarrow> R s u"
begin

definition stays :: "('a \<Rightarrow> bool) \<Rightarrow> ('s \<Rightarrow> 's \<times> ('e + 'a)) \<Rightarrow> bool" where
  "stays Q m = (\<forall>s. R s (fst (m s)) \<and> (\<forall>x. snd (m s) = Inr x \<longrightarrow> Q x))"

abbreviation stays_any :: "('s \<Rightarrow> 's \<times> ('e + 'a)) \<Rightarrow> bool" where
  "stays_any \<equiv> stays (\<lambda>_. True)"

lemma stays_step: "stays Q m \<Longrightarrow> m s = (s', r) \<Longrightarrow> R s s'"
  unfolding stays_def by (drule spec [of _ s]) simp

lemma stays_value: "stays Q m \<Longrightarrow> m s = (s', Inr x) \<Longrightarrow> Q x"
  unfolding stays_def by (drule spec [of _ s]) simp

lemma stays_weaken: "stays Q m \<Longrightarrow> (\<And>x. Q x \<Longrightarrow> Q' x) \<Longrightarrow> stays Q' m"
  unfolding stays_def by blast

lemma stays_ret: "Q x \<Longrightarrow> stays Q (ret x)"
  by (simp add: stays_def ret_def R_refl)

lemma stays_throw: "stays Q (throw e)"
  by (simp add: stays_def throw_def R_refl)

lemma stays_lift: "(\<And>x. r = Inr x \<Longrightarrow> Q x) \<Longrightarrow> stays Q (lift_r r)"
  by (simp add: stays_def lift_r_def R_refl)

lemma stays_get: "stays_any (get_s f)"
  by (simp add: stays_def get_s_def R_refl)

lemma stays_modify: "(\<And>s. R s (f s)) \<Longrightarrow> stays_any (modify_s f)"
  by (simp add: stays_def modify_s_def)

lemma stays_bind:
  assumes "stays P m" "\<And>x. P x \<Longrightarrow> stays Q (f x)"
  shows "stays Q (bind_o m f)"
  unfolding stays_def
proof (intro allI conjI impI)
  fix s
  obtain s1 r where m: "m s = (s1, r)" by fastforce
  have "R s (fst (bind_o m f s)) \<and> (\<forall>x. snd (bind_o m f s) = Inr x \<longrightarrow> Q x)"
  proof (cases r)
    case (Inl e)
    with m assms(1) show ?thesis by (auto simp: bind_o_def stays_def dest: spec [of _ s])
  next
    case (Inr x)
    then have "P x" "R s s1" using m assms(1) by (auto simp: stays_def dest: spec [of _ s])
    with m Inr assms(2) [OF \<open>P x\<close>] R_trans show ?thesis by (auto simp: bind_o_def stays_def)
  qed
  then show "R s (fst (bind_o m f s))" and "snd (bind_o m f s) = Inr x \<Longrightarrow> Q x" for x by blast+
qed

lemma stays_attempt: "stays_any m \<Longrightarrow> stays_any (attempt m)"
  by (simp add: stays_def attempt_def split_beta)

lemma stays_for_each: "(\<And>x. x \<in> set xs \<Longrightarrow> stays_any (f x)) \<Longrightarrow> stays_any (for_each f xs)"
proof (induction xs)
  case Nil
  show ?case unfolding for_each.simps by (rule stays_ret) simp
next
  case (Cons x xs)
  show ?case unfolding for_each.simps using Cons by (intro stays_bind [of "\<lambda>_. True"]) simp_all
qed

end

definition touches :: "string \<Rightarrow> rec_world \<Rightarrow> rec_world \<Rightarrow> bool" where
  "touches r w w' =
     ((\<forall>x. x \<noteq> r \<longrightarrow> w_disk w' x = w_disk w x \<and> w_ids w' x = w_ids w x) \<and>
      (\<exists>bs. blockers w' = blockers w @ bs \<and> (blocked_ids w' = blocked_ids w \<or> bs \<noteq> [])) \<and>
      set (blocked_ids w) \<subseteq> set (blocked_ids w') \<and> set (unit_bindings w) \<subseteq> set (unit_bindings w') \<and>
      stray_units w' = stray_units w \<and>
      (\<exists>zs. recovered_run_ids w' = recovered_run_ids w @ zs \<and> set zs \<subseteq> {r}))"

lemma touches_trans: "touches r s t \<Longrightarrow> touches r t u \<Longrightarrow> touches r s u"
  unfolding touches_def
proof (elim conjE exE, intro conjI)
  fix bs bs'
  assume "blockers t = blockers s @ bs" "blocked_ids t = blocked_ids s \<or> bs \<noteq> []"
    "blockers u = blockers t @ bs'" "blocked_ids u = blocked_ids t \<or> bs' \<noteq> []"
  then show "\<exists>bs. blockers u = blockers s @ bs \<and> (blocked_ids u = blocked_ids s \<or> bs \<noteq> [])"
    by (intro exI [of _ "bs @ bs'"]) auto
next
  fix zs zs'
  assume "recovered_run_ids t = recovered_run_ids s @ zs" "set zs \<subseteq> {r}" "recovered_run_ids u = recovered_run_ids t @ zs'" "set zs' \<subseteq> {r}"
  then show "\<exists>zs. recovered_run_ids u = recovered_run_ids s @ zs \<and> set zs \<subseteq> {r}"
    by (intro exI [of _ "zs @ zs'"]) auto
qed auto

interpretation run_step: step_relation "touches r" for r
proof
  show "touches r s s" for s by (simp add: touches_def)
qed (rule touches_trans)

lemma validate_run_id: "validate_run env (JObj run) = Inr x \<Longrightarrow> jget x ''id'' = jget run ''id''"
  by (erule validate_run_ok) simp

lemma save_run_touches:
  assumes "jget run ''id'' = JStr r"
  shows "run_step.stays_any r (save_run env h r p run)"
proof -
  have "fst (save env io run d) x = d x" if "x \<noteq> r" for io d x
  proof (cases "validate_run env (JObj run)")
    case (Inr c)
    then have "py_str env (jget c ''id'') = r" using assms validate_run_id by simp
    with that Inr show ?thesis using write_run_other [OF that] by (simp add: save_def Let_def split: sum.split)
  qed (simp add: save_def)
  then show ?thesis by (auto simp: run_step.stays_def save_run_def touches_def split_beta)
qed

lemma block_touches: "run_step.stays_any r (bind_o (add_blocker x b t) (\<lambda>_. block_run y))"
  by (auto simp: run_step.stays_def bind_o_def add_blocker_def block_run_def modify_s_def touches_def)

lemma notes_touch:
  "run_step.stays_any r (process_run x)" "run_step.stays_any r distrust" "run_step.stays_any r (mark_recovered r)"
  "run_step.stays_any r (add_blocker x b t)"
  unfolding process_run_def distrust_def mark_recovered_def add_blocker_def
  by (rule run_step.stays_modify; simp add: touches_def)+

lemma bind_unit_touches: "run_step.stays_any r (bind_unit x ident)"
  unfolding bind_unit_def
  by (auto split: option.split intro!: run_step.stays_ret run_step.stays_modify simp: touches_def)

lemma clear_touches: "run_step.stays_any r (clear_resolved_identity h r)"
  by (auto simp: run_step.stays_def clear_resolved_identity_def touches_def split: sum.split option.split prod.split)

lemma reconcile_touches: "run_step.stays_any r (reconcile_identity h r i p)"
  by (auto simp: run_step.stays_def reconcile_identity_def touches_def Let_def split: sum.split option.split)

lemma ret_touches: "run_step.stays_any r (ret x)" "run_step.stays_any r (get_s g)" "run_step.stays_any r (throw e)"
  "run_step.stays_any r (lift_r q)"
  by (simp_all add: run_step.stays_ret run_step.stays_get run_step.stays_throw run_step.stays_lift)

lemma record_blocker_touches: "jget run ''id'' = JStr r \<Longrightarrow> run_step.stays_any r (record_blocker env h r backend why run)"
  unfolding record_blocker_def Let_def
  by (rule run_step.stays_bind [of _ "\<lambda>_. True"]) (simp_all add: save_run_touches ret_touches block_touches)

lemma add_event_id: "add_event e run = Inr run' \<Longrightarrow> jget run' ''id'' = jget run ''id''"
  by (auto simp: add_event_def split: json.splits)

lemma interrupted_run_id: "jget (interrupted_run env h r backend msg resource run) ''id'' = jget run ''id''"
  by (simp add: interrupted_run_def Let_def)

lemma terminalize_touches:
  assumes "jget run ''id'' = JStr r"
  shows "run_step.stays_any r (terminalize_interrupted env h r backend why resource run)"
  unfolding terminalize_interrupted_def
proof (rule run_step.stays_bind [of _ "\<lambda>run'. jget run' ''id'' = JStr r"])
  show "run_step.stays r (\<lambda>run'. jget run' ''id'' = JStr r) (lift_r (add_event e (interrupted_run env h r backend msg resource run)))"
    for e msg
    by (rule run_step.stays_lift) (simp add: add_event_id interrupted_run_id assms)
qed (rule save_run_touches)

lemma resolution_touches:
  "jget run ''id'' = JStr r \<Longrightarrow> run_step.stays_any r (record_terminal_resolution env h r backend why run)"
  unfolding record_terminal_resolution_def Let_def by (simp add: save_run_touches ret_touches)

lemma publications_touch:
  assumes "jget run ''id'' = JStr r"
  shows "run_step.stays r (\<lambda>run'. jget run' ''id'' = JStr r) (recover_publications env h r run)"
  unfolding recover_publications_def
proof (rule run_step.stays_bind [OF ret_touches(4)])
  fix rows
  let ?m = "bind_o (lift_r (add_event (event (h_time h r 1)
           (''Recovered '' @ str_int (int (length (filter interrupted rows))) @ '' interrupted publication attempt(s)''))
         (jset run ''publications'' (failed_publications env (h_time h r 0) rows)))) (\<lambda>run'.
       if \<not> h_log h r then throw os_err
       else bind_o (save_run env h r PublicationSave run') (\<lambda>_. ret run'))"
  have "run_step.stays r (\<lambda>run'. jget run' ''id'' = JStr r) ?m"
  proof (rule run_step.stays_bind [of _ "\<lambda>run'. jget run' ''id'' = JStr r"])
    fix run' assume run': "jget run' ''id'' = JStr r"
    show "run_step.stays r (\<lambda>run'. jget run' ''id'' = JStr r)
        (if \<not> h_log h r then throw os_err else bind_o (save_run env h r PublicationSave run') (\<lambda>_. ret run'))"
      using run' run_step.stays_bind [OF save_run_touches [OF run'] run_step.stays_ret [where Q = "\<lambda>run'. jget run' ''id'' = JStr r", OF run']]
      by (simp add: run_step.stays_throw)
  qed (rule run_step.stays_lift, drule add_event_id, simp add: assms)
  then show "run_step.stays r (\<lambda>run'. jget run' ''id'' = JStr r) (if \<not> list_ex interrupted rows then ret run else ?m)"
    by (simp add: run_step.stays_ret assms)
qed

lemma finish_absent_touches:
  "jget run ''id'' = JStr r \<Longrightarrow> run_step.stays_any r (finish_absent env h r backend why resource run)"
  unfolding finish_absent_def
  by (simp add: record_blocker_touches)
    (intro impI run_step.stays_bind [OF terminalize_touches] run_step.stays_bind [OF clear_touches] notes_touch)

lemma recover_active_touches:
  assumes "jget run ''id'' = JStr r"
  shows "run_step.stays_any r (recover_active env h boot r ident run)"
  unfolding recover_active_def
proof (rule run_step.stays_bind [OF notes_touch(1)], cases ident)
  case None
  then show "run_step.stays_any r (case ident of
       None \<Rightarrow>
         if no_command_could_have_started run (h_history h r) then
           bind_o (terminalize_interrupted env h r ''none'' NeverBegan JNull run) (\<lambda>_. mark_recovered r)
         else record_blocker env h r ''none'' NoDurableIdentity run
     | Some i \<Rightarrow> m i)" for m
    using assms by (simp add: record_blocker_touches run_step.stays_bind [OF terminalize_touches notes_touch(3)])
next
  case (Some i)
  have "run_step.stays_any r (bind_o (reconcile_identity h r i p) (\<lambda>(resolved, backend, why, resource).
           if resolved then finish_absent env h r backend why resource run else record_blocker env h r backend why run))" for p
    by (rule run_step.stays_bind [OF reconcile_touches])
      (simp add: finish_absent_touches record_blocker_touches assms split: prod.split)
  with Some show "run_step.stays_any r (case ident of
       None \<Rightarrow> m
     | Some i \<Rightarrow>
         if previous_boot boot i then finish_absent env h r (backend_of i) PreviousBoot JNull run
         else bind_o (reconcile_identity h r i (admitted_policy run)) (\<lambda>(resolved, backend, why, resource).
           if resolved then finish_absent env h r backend why resource run else record_blocker env h r backend why run))" for m
    by (simp add: finish_absent_touches assms)
qed

lemma reconcile_then_touches:
  assumes "\<And>resolved backend why resource. run_step.stays_any r (f resolved backend why resource)"
  shows "run_step.stays_any r (bind_o (reconcile_identity h r i p) (\<lambda>(resolved, backend, why, resource). f resolved backend why resource))"
  by (rule run_step.stays_bind [OF reconcile_touches]) (simp add: assms split: prod.split)

lemma resolve_touches:
  assumes "jget run ''id'' = JStr r"
  shows "run_step.stays_any r (bind_o (clear_resolved_identity h r) (\<lambda>_. record_terminal_resolution env h r backend why run))"
  by (rule run_step.stays_bind [OF clear_touches resolution_touches [OF assms]])

lemma recover_terminal_touches:
  assumes "jget run ''id'' = JStr r"
  shows "run_step.stays_any r (recover_terminal env h boot r ident run)"
  unfolding recover_terminal_def
proof (rule run_step.stays_bind [OF ret_touches(4)])
  fix status
  have "run_step.stays_any r (bind_o (process_run r) (\<lambda>_. bind_o (add_blocker r b t) (\<lambda>_. block_run r)))" for b t
    by (rule run_step.stays_bind [OF notes_touch(1) block_touches])
  moreover have "run_step.stays_any r (bind_o (process_run r) (\<lambda>_.
         if previous_boot boot i then
           bind_o (clear_resolved_identity h r) (\<lambda>_. record_terminal_resolution env h r (backend_of i) PreviousBoot run)
         else
           bind_o (reconcile_identity h r i (admitted_policy run)) (\<lambda>(resolved, backend, why, _).
           if resolved then
             bind_o (clear_resolved_identity h r) (\<lambda>_. record_terminal_resolution env h r backend why run)
           else record_blocker env h r backend why run)))" for i
    by (rule run_step.stays_bind [OF notes_touch(1)])
      (simp add: resolve_touches record_blocker_touches reconcile_then_touches assms)
  ultimately show "run_step.stays_any r (if status = JStr ''resolved'' then clear_resolved_identity h r
     else case ident of
       None \<Rightarrow>
         if status = JStr ''blocked'' then
           (let recovery = dict_or_empty (jget run ''recovery'') in
            bind_o (process_run r) (\<lambda>_.
            bind_o (add_blocker r (str_or env (jget recovery ''backend'') ''unknown'')
              (str_or env (jget recovery ''reason'') (h_text h r TerminalUnresolved))) (\<lambda>_.
            block_run r)))
         else ret ()
     | Some i \<Rightarrow>
         bind_o (process_run r) (\<lambda>_.
         if previous_boot boot i then
           bind_o (clear_resolved_identity h r) (\<lambda>_.
           record_terminal_resolution env h r (backend_of i) PreviousBoot run)
         else
           bind_o (reconcile_identity h r i (admitted_policy run)) (\<lambda>(resolved, backend, why, _).
           if resolved then
             bind_o (clear_resolved_identity h r) (\<lambda>_. record_terminal_resolution env h r backend why run)
           else record_blocker env h r backend why run)))"
    by (simp add: clear_touches ret_touches Let_def split: option.split)
qed

lemma read_locked_run_stored:
  "read_locked_run env h r disk = Inr run \<Longrightarrow> stored_run env disk r = Some run \<and> jget run ''id'' = JStr r"
  by (auto simp: read_locked_run_def stored_run_def result_simps split: option.splits run_file.splits json.splits if_splits)

lemma recover_identity_touches:
  assumes "jget run ''id'' = JStr r"
  shows "run_step.stays_any r (case read_identity_of r f of
       Inl e \<Rightarrow>
         if \<not> expected_failure e then throw e
         else
           bind_o distrust (\<lambda>_.
           bind_o (record_blocker env h r ''unknown'' MetadataUnverifiable run) (\<lambda>_. process_run r))
     | Inr ident \<Rightarrow>
         bind_o (bind_unit r ident) (\<lambda>_.
         if ended then recover_terminal env h boot r ident run else recover_active env h boot r ident run))"
  by (auto intro!: run_step.stays_bind [OF notes_touch(2)] run_step.stays_bind [OF record_blocker_touches [OF assms]]
      run_step.stays_bind [OF bind_unit_touches] notes_touch
      simp: ret_touches recover_terminal_touches recover_active_touches assms split: sum.split)

lemma recover_run_touches: "run_step.stays_any r (recover_run env h boot r)"
  unfolding recover_run_def
proof (rule run_step.stays_bind [OF ret_touches(2)], rule run_step.stays_bind [of _ "\<lambda>run. jget run ''id'' = JStr r"])
  fix disk
  show "run_step.stays r (\<lambda>run. jget run ''id'' = JStr r) (lift_r (read_locked_run env h r disk))"
    by (rule run_step.stays_lift) (simp add: read_locked_run_stored)
next
  fix stored
  assume id: "jget stored ''id'' = JStr r"
  let ?status = "str_or env (jget stored ''status'') []"
  show "run_step.stays_any r (bind_o (if ?status \<notin> set RUN_STATUSES then throw val_err else ret ()) (\<lambda>_.
     bind_o (recover_publications env h r stored) (\<lambda>run.
     bind_o (get_s (\<lambda>w. w_ids w r)) (\<lambda>f.
     case read_identity_of r f of
       Inl e \<Rightarrow>
         if \<not> expected_failure e then throw e
         else
           bind_o distrust (\<lambda>_.
           bind_o (record_blocker env h r ''unknown'' MetadataUnverifiable run) (\<lambda>_. process_run r))
     | Inr ident \<Rightarrow>
         bind_o (bind_unit r ident) (\<lambda>_.
         if ?status \<notin> set NON_TERMINAL_STATUSES
         then recover_terminal env h boot r ident run
         else recover_active env h boot r ident run)))))"
  proof (rule run_step.stays_bind [of _ "\<lambda>_. True"])
    show "run_step.stays_any r (if ?status \<notin> set RUN_STATUSES then throw val_err else ret ())" by (simp add: ret_touches)
  qed (intro run_step.stays_bind [OF publications_touch [OF id]] run_step.stays_bind [OF ret_touches(2)] recover_identity_touches)
qed

lemma give_up_touches: "run_step.stays_any r (give_up h x why)"
  unfolding give_up_def
  by (intro run_step.stays_bind [OF notes_touch(2)] run_step.stays_bind [OF notes_touch(1)] block_touches)

lemma guarded_touches: "run_step.stays_any r (recover_run_guarded env h boot r)"
  unfolding recover_run_guarded_def
  by (rule run_step.stays_bind [OF run_step.stays_attempt [OF recover_run_touches]])
    (simp add: ret_touches give_up_touches split: sum.split)

section \<open>What the operations do to the stored Run\<close>

text \<open>\<open>leads P m Q F\<close>: from a world in \<open>P\<close> the operation ends in \<open>Q\<close> with its value, or raises
  in \<open>F\<close>.\<close>

definition leads :: "('s \<Rightarrow> bool) \<Rightarrow> ('s \<Rightarrow> 's \<times> ('e + 'a)) \<Rightarrow> ('a \<Rightarrow> 's \<Rightarrow> bool) \<Rightarrow> ('s \<Rightarrow> bool) \<Rightarrow> bool" where
  "leads P m Q F = (\<forall>s s' r. P s \<longrightarrow> m s = (s', r) \<longrightarrow> (case r of Inl _ \<Rightarrow> F s' | Inr x \<Rightarrow> Q x s'))"

lemma leads_ret: "(\<And>s. P s \<Longrightarrow> Q x s) \<Longrightarrow> leads P (ret x) Q F"
  by (simp add: leads_def ret_def)

lemma leads_throw: "(\<And>s. P s \<Longrightarrow> F s) \<Longrightarrow> leads P (throw e) Q F"
  by (simp add: leads_def throw_def)

lemma leads_lift: "(\<And>s x. P s \<Longrightarrow> q = Inr x \<Longrightarrow> Q x s) \<Longrightarrow> (\<And>s. P s \<Longrightarrow> F s) \<Longrightarrow> leads P (lift_r q) Q F"
  by (auto simp: leads_def lift_r_def split: sum.split)

lemma leads_get: "(\<And>s. P s \<Longrightarrow> Q (g s) s) \<Longrightarrow> leads P (get_s g) Q F"
  by (simp add: leads_def get_s_def)

lemma leads_then:
  assumes "leads P m Q F" "\<And>x. leads (Q x) (f x) Q' F"
  shows "leads P (bind_o m f) Q' F"
  using assms unfolding leads_def bind_o_def by (fastforce split: prod.splits sum.splits)

lemma leads_weaken:
  assumes "leads P m Q F" "\<And>s. P' s \<Longrightarrow> P s" "\<And>x s. Q x s \<Longrightarrow> Q' x s" "\<And>s. F s \<Longrightarrow> F' s"
  shows "leads P' m Q' F'"
  using assms unfolding leads_def by (fastforce split: sum.splits)

lemma leads_branch: "(b \<Longrightarrow> leads P m Q F) \<Longrightarrow> (\<not> b \<Longrightarrow> leads P m' Q F) \<Longrightarrow> leads P (if b then m else m') Q F"
  by simp

text \<open>Operations that leave the disk and the list of recovered Runs alone.\<close>

interpretation quiet_step: step_relation
  "\<lambda>w w' :: rec_world. w_disk w' = w_disk w \<and> recovered_run_ids w' = recovered_run_ids w"
  by unfold_locales simp_all

lemma leads_quiet:
  assumes "quiet_step.stays Q m" "\<And>x w. G (w_disk w) (recovered_run_ids w) \<Longrightarrow> Q x \<Longrightarrow> Q' x w"
    "\<And>w. G (w_disk w) (recovered_run_ids w) \<Longrightarrow> F (w :: rec_world)"
  shows "leads (\<lambda>w. G (w_disk w) (recovered_run_ids w)) m Q' F"
  unfolding leads_def
proof (intro allI impI)
  fix w w' r
  assume start: "G (w_disk w) (recovered_run_ids w)" and run: "m w = (w', r)"
  have "w_disk w' = w_disk w" "recovered_run_ids w' = recovered_run_ids w" "\<forall>x. r = Inr x \<longrightarrow> Q x"
    using assms(1) [unfolded quiet_step.stays_def, rule_format, of w] run by auto
  with start show "case r of Inl _ \<Rightarrow> F w' | Inr x \<Rightarrow> Q' x w'"
    using assms(2) [of w'] assms(3) [of w'] by (auto split: sum.split)
qed

lemma quiet_ops:
  "quiet_step.stays_any (process_run x)" "quiet_step.stays_any distrust"
  "quiet_step.stays_any (bind_unit x ident)" "quiet_step.stays_any (clear_resolved_identity h r)"
  "quiet_step.stays_any (add_blocker x b t)" "quiet_step.stays_any (block_run x)"
  by (simp_all add: quiet_step.stays_def process_run_def distrust_def bind_unit_def add_blocker_def
      block_run_def modify_s_def clear_resolved_identity_def ret_def split: sum.split option.split prod.split)

definition holds :: "py_env \<Rightarrow> string \<Rightarrow> doc \<Rightarrow> disk \<Rightarrow> bool" where
  "holds env r run d = (stored_run env d r = Some run \<and> jget run ''id'' = JStr r)"

lemma holds_wf: "holds env r run d \<Longrightarrow> run_wf env run"
  unfolding holds_def by (blast intro: stored_wf)

text \<open>The stored Run satisfies \<open>S\<close>, and no Run was added to the recovered ones.\<close>

definition keeps :: "py_env \<Rightarrow> string \<Rightarrow> (doc \<Rightarrow> bool) \<Rightarrow> string list \<Rightarrow> rec_world \<Rightarrow> bool" where
  "keeps env r S l w = (\<exists>y. holds env r y (w_disk w) \<and> S y \<and> recovered_run_ids w = l)"

lemma save_run_leads:
  assumes "run_wf env x" "jget x ''id'' = JStr r" "safe_name r" "S run" "S x"
  shows "leads (keeps env r (\<lambda>y. y = run) l) (save_run env h r p x) (\<lambda>_. keeps env r (\<lambda>y. y = x) l) (keeps env r S l)"
  unfolding leads_def
proof (intro allI impI)
  fix w w' q
  assume "keeps env r (\<lambda>y. y = run) l w" and run: "save_run env h r p x w = (w', q)"
  then have before: "holds env r run (w_disk w)" "recovered_run_ids w' = l"
    by (auto simp: keeps_def save_run_def split: prod.splits)
  let ?io = "\<lparr>lock_ok = True, read_ok = True, write_outcome = h_save h r p\<rparr>"
  note eff = save_stored(1,4) [OF assms(1-3), where io = ?io and disk = "w_disk w"] save_stored(2) [OF assms(1-3), where disk = "w_disk w"]
  have d: "w_disk w' = fst (save env ?io x (w_disk w))" and q: "q = snd (save env ?io x (w_disk w))"
    using run by (auto simp: save_run_def split: prod.splits)
  show "case q of Inl _ \<Rightarrow> keeps env r S l w' | Inr _ \<Rightarrow> keeps env r (\<lambda>y. y = x) l w'"
    using eff before assms(2,4,5) unfolding d q keeps_def by (auto simp: holds_def d split: if_splits)
qed

section \<open>The documents that recovery writes\<close>

definition kept :: "string list \<Rightarrow> doc \<Rightarrow> doc \<Rightarrow> bool" where
  "kept ks a b = (\<forall>k. k \<notin> set ks \<longrightarrow> jget b k = jget a k)"

definition RECOVERY_FIELDS :: "string list" where
  "RECOVERY_FIELDS = [''publications'', ''events'', ''recovery'']"

definition LIFECYCLE_FIELDS :: "string list" where
  "LIFECYCLE_FIELDS = [''status'', ''steps'', ''finished_at'', ''duration'', ''error'']"

lemma kept_trans: "kept ks a b \<Longrightarrow> kept ls b c \<Longrightarrow> set ks \<subseteq> set ms \<Longrightarrow> set ls \<subseteq> set ms \<Longrightarrow> kept ms a c"
  unfolding kept_def by (metis subsetD)

lemma kept_refl [simp]: "kept ks a a"
  by (simp add: kept_def)

lemma kept_status: "kept RECOVERY_FIELDS a b \<Longrightarrow> jget b ''status'' = jget a ''status''"
  by (simp add: kept_def RECOVERY_FIELDS_def)

text \<open>A Run after recovery: ended, or with no publication that still runs.\<close>

definition finished :: "doc \<Rightarrow> bool" where
  "finished run = (\<exists>s \<in> set RUN_STATUSES. jget run ''status'' = JStr s \<and> s \<notin> set NON_TERMINAL_STATUSES)"

definition publications_settled :: "doc \<Rightarrow> bool" where
  "publications_settled run = (\<exists>rows. publications run = Inr rows \<and> \<not> list_ex interrupted rows)"

definition speaks :: "rec_host \<Rightarrow> bool" where
  "speaks h = ((\<forall>x why. h_text h x why \<noteq> []) \<and> (\<forall>x n. h_time h x n \<noteq> []))"

lemma update_first_names:
  "map_r step_name (update_first P (interrupt_step env t e) steps) = map_r step_name steps"
proof (induction steps)
  case (Cons step steps)
  then show ?case by (cases step) simp_all
qed simp

lemma update_first_statuses:
  "check_step_statuses steps = Inr () \<Longrightarrow> check_step_statuses (update_first P (interrupt_step env t e) steps) = Inr ()"
proof (induction steps)
  case (Cons step steps)
  then show ?case by (cases step) (auto simp: STEP_STATUSES_def elim!: result_elims)
qed simp

lemma interrupted_steps_ok:
  "check_steps (JArr steps) = Inr () \<Longrightarrow> check_steps (JArr (update_first P (interrupt_step env t e) steps)) = Inr ()"
  by (auto simp: check_steps_def update_first_names elim!: result_elims intro: update_first_statuses)

lemma interrupted_run_ok:
  assumes "run_wf env run"
  shows "run_wf env (interrupted_run env h r backend text resource run)"
    "kept (RECOVERY_FIELDS @ LIFECYCLE_FIELDS) run (interrupted_run env h r backend text resource run)"
    "jget (interrupted_run env h r backend text resource run) ''status'' = JStr ''failed''"
    "jget (interrupted_run env h r backend text resource run) ''publications'' = jget run ''publications''"
    "jget (interrupted_run env h r backend text resource run) ''recovery'' =
       JObj (recovery_record h r True text backend (dict_or_empty (jget run ''recovery'')))"
proof -
  from run_wf_has_steps [OF assms] obtain steps where "jget run ''steps'' = JArr steps" "check_steps (JArr steps) = Inr ()"
    by blast
  then show "run_wf env (interrupted_run env h r backend text resource run)"
    unfolding interrupted_run_def Let_def jupdate_simps steps_of_def using assms
    by (auto intro!: run_wf_unchecked run_wf_status run_wf_steps interrupted_steps_ok simp: CHECKED_FIELDS_def RUN_STATUSES_def)
qed (simp_all add: interrupted_run_def Let_def kept_def RECOVERY_FIELDS_def LIFECYCLE_FIELDS_def)

lemma add_event_ok:
  assumes "add_event e run = Inr run'"
  shows "run_wf env run \<Longrightarrow> run_wf env run'" "kept [''events''] run run'" "truthy (jget run' ''events'')"
proof -
  obtain es where run': "run' = jset run ''events'' (JArr (es @ [e]))"
    using assms by (auto simp: add_event_def split: json.splits)
  show "run_wf env run \<Longrightarrow> run_wf env run'" unfolding run' by (rule run_wf_unchecked) (simp_all add: CHECKED_FIELDS_def)
  show "kept [''events''] run run'" "truthy (jget run' ''events'')" by (simp_all add: run' kept_def)
qed

lemma publications_cong: "jget a ''publications'' = jget b ''publications'' \<Longrightarrow> publications a = publications b"
  by (simp add: publications_def)

lemma failed_publication_settled: "interrupted v \<Longrightarrow> \<not> interrupted (fail_publication env t v)"
  by (cases v) (simp_all add: interrupted_def)

lemma failed_publications_settled:
  assumes "jget run ''publications'' = failed_publications env t rows"
  shows "publications_settled run"
proof -
  let ?rows = "map (\<lambda>v. if interrupted v then fail_publication env t v else v) rows"
  have "publications run = Inr ?rows"
    using assms by (simp add: publications_def failed_publications_def Let_def)
  moreover have "\<not> list_ex interrupted ?rows"
    using failed_publication_settled by (auto simp: list_ex_iff)
  ultimately show ?thesis by (auto simp: publications_settled_def)
qed

lemma recovery_update_ok:
  assumes "run_wf env run"
  shows "run_wf env (jset run ''recovery'' v)" "kept RECOVERY_FIELDS run (jset run ''recovery'' v)"
    "publications (jset run ''recovery'' v) = publications run"
  using run_wf_unchecked [OF assms, of "''recovery''"] by (simp_all add: kept_def RECOVERY_FIELDS_def CHECKED_FIELDS_def publications_def)

section \<open>What happens to one Run\<close>

text \<open>Absence of the command of a Run that has not ended, as recovery may conclude it: from the
  Run and its history without an identity, from an identity of another boot, or from what systemd
  says of the unit.\<close>

definition proved_absent :: "rec_host \<Rightarrow> string \<Rightarrow> string \<Rightarrow> id_file \<Rightarrow> doc \<Rightarrow> bool" where
  "proved_absent h boot r f run =
     (case read_identity_of r f of
        Inl _ \<Rightarrow> False
      | Inr None \<Rightarrow> no_command_could_have_started run (h_history h r)
      | Inr (Some i) \<Rightarrow> previous_boot boot i \<or>
          jget i ''backend'' = JStr ''systemd_cgroup'' \<and> c_status (h_contain h r) = NOT_RUNNING \<and> c_gone (h_contain h r))"

text \<open>What may become of a stored Run, whatever fails on the way.\<close>

definition may_become :: "rec_host \<Rightarrow> string \<Rightarrow> string \<Rightarrow> id_file \<Rightarrow> doc \<Rightarrow> doc \<Rightarrow> bool" where
  "may_become h boot r f old new =
     (kept RECOVERY_FIELDS old new \<or>
      kept (RECOVERY_FIELDS @ LIFECYCLE_FIELDS) old new \<and> \<not> finished old \<and> jget new ''status'' = JStr ''failed'' \<and>
      proved_absent h boot r f old)"

text \<open>A Run that recovery reports as recovered.\<close>

definition recovered_ok :: "rec_host \<Rightarrow> doc \<Rightarrow> bool" where
  "recovered_ok h y = (jget y ''status'' = JStr ''failed'' \<and> (speaks h \<longrightarrow> recovery_resolved (jget y ''recovery'')))"

text \<open>After a Run was looked at: a blocker was recorded, or the Run has ended.\<close>

definition settled :: "py_env \<Rightarrow> rec_host \<Rightarrow> string \<Rightarrow> (doc \<Rightarrow> bool) \<Rightarrow> string list \<Rightarrow> rec_world \<Rightarrow> bool" where
  "settled env h r S l w =
     (\<exists>y. holds env r y (w_disk w) \<and> S y \<and> (blockers w = [] \<longrightarrow> finished y \<and> publications_settled y) \<and>
        (recovered_run_ids w = l \<or> recovered_run_ids w = l @ [r] \<and> recovered_ok h y))"

lemma keeps_mono: "keeps env r S l w \<Longrightarrow> (\<And>y. S y \<Longrightarrow> S' y) \<Longrightarrow> keeps env r S' l w"
  by (auto simp: keeps_def)

lemma blocked_settled: "keeps env r S l w \<Longrightarrow> blockers w \<noteq> [] \<Longrightarrow> settled env h r S l w"
  by (auto simp: keeps_def settled_def)

lemma quiet_leads:
  assumes "quiet_step.stays_any m" "\<And>y. S y \<Longrightarrow> S' y"
  shows "leads (keeps env r S l) m (\<lambda>_. keeps env r S l) (keeps env r S' l)"
  using leads_quiet [OF assms(1), where G = "\<lambda>d k. \<exists>y. holds env r y d \<and> S y \<and> k = l"
      and Q' = "\<lambda>_. keeps env r S l" and F = "keeps env r S' l"] assms(2)
  unfolding keeps_def by blast

lemma quiet_then:
  assumes "quiet_step.stays_any m" "\<And>y. S y \<Longrightarrow> S' y" "\<And>x. leads (keeps env r S l) (f x) Q (keeps env r S' l)"
  shows "leads (keeps env r S l) (bind_o m f) Q (keeps env r S' l)"
  by (rule leads_then [OF quiet_leads [OF assms(1,2)] assms(3)])

text \<open>A step that fails leaves a Run in \<open>S\<close>; one that ends leaves it settled.\<close>

abbreviation settles where
  "settles env h r S l m \<equiv> leads (keeps env r S l) m (\<lambda>_. settled env h r S l) (keeps env r S l)"

lemma block_leads:
  "(\<And>y. S y \<Longrightarrow> S' y) \<Longrightarrow> leads (keeps env r S l) (bind_o (add_blocker x b t) (\<lambda>_. block_run y)) (\<lambda>_. settled env h r S' l) F"
  unfolding leads_def
  by (simp add: bind_o_def add_blocker_def block_run_def modify_s_def keeps_def settled_def) blast

lemma record_blocker_leads:
  assumes "run_wf env run" "jget run ''id'' = JStr r" "safe_name r" "S run" "\<And>v. S (jset run ''recovery'' v)"
  shows "leads (keeps env r (\<lambda>y. y = run) l) (record_blocker env h r backend why run) (\<lambda>_. settled env h r S l) (keeps env r S l)"
  unfolding record_blocker_def Let_def
proof (rule leads_then)
  let ?v = "JObj (blocker_record h r backend why run)"
  let ?x = "jset run ''recovery'' ?v"
  have "leads (keeps env r (\<lambda>y. y = run) l) (save_run env h r BlockerSave ?x) (\<lambda>_. keeps env r (\<lambda>y. y = ?x) l) (keeps env r S l)"
    using assms by (intro save_run_leads recovery_update_ok) simp_all
  then show "leads (keeps env r (\<lambda>y. y = run) l)
     (if \<not> py_eq (jget run ''recovery'') ?v then save_run env h r BlockerSave ?x else ret ()) (\<lambda>_. keeps env r S l) (keeps env r S l)"
  proof (intro leads_branch leads_ret)
    assume "leads (keeps env r (\<lambda>y. y = run) l) (save_run env h r BlockerSave ?x) (\<lambda>_. keeps env r (\<lambda>y. y = ?x) l) (keeps env r S l)"
    then show "leads (keeps env r (\<lambda>y. y = run) l) (save_run env h r BlockerSave ?x) (\<lambda>_. keeps env r S l) (keeps env r S l)"
      by (rule leads_weaken) (use assms(5) [of ?v] in \<open>auto elim: keeps_mono\<close>)
  qed (use assms(4) in \<open>auto elim: keeps_mono\<close>)
qed (rule block_leads, assumption)

definition done_with :: "rec_host \<Rightarrow> (doc \<Rightarrow> bool) \<Rightarrow> doc \<Rightarrow> bool" where
  "done_with h S y = (S y \<and> finished y \<and> publications_settled y \<and> recovered_ok h y)"

lemma recovery_record_resolved:
  "speaks h \<Longrightarrow> text \<noteq> [] \<Longrightarrow> backend \<noteq> [] \<Longrightarrow> recovery_resolved (JObj (recovery_record h r True text backend p))"
  by (simp add: recovery_resolved_def recovery_record_def speaks_def truthy_or_def RECOVERY_ERROR_CODE_def)

lemma terminalize_leads:
  assumes wf: "run_wf env run" and id: "jget run ''id'' = JStr r" "safe_name r" and S: "S run" "publications_settled run" "backend \<noteq> []"
    and fail: "\<And>y. kept (RECOVERY_FIELDS @ LIFECYCLE_FIELDS) run y \<Longrightarrow> jget y ''status'' = JStr ''failed'' \<Longrightarrow> S y"
  shows "leads (keeps env r (\<lambda>y. y = run) l) (terminalize_interrupted env h r backend why resource run)
    (\<lambda>_. keeps env r (done_with h S) l) (keeps env r S l)"
  unfolding terminalize_interrupted_def
proof (rule leads_then)
  let ?new = "interrupted_run env h r backend (h_text h r why) resource run"
  let ?ok = "\<lambda>x. run_wf env x \<and> jget x ''id'' = JStr r \<and> done_with h S x"
  note new = interrupted_run_ok [OF wf, of h r backend "h_text h r why" resource]
  have "?ok x" if "add_event e ?new = Inr x" for e x
  proof -
    have k: "kept [''events''] ?new x" "run_wf env x" using add_event_ok(2) [OF that] add_event_ok(1) [OF that new(1)] by simp_all
    then have "kept (RECOVERY_FIELDS @ LIFECYCLE_FIELDS) run x" by (intro kept_trans [OF new(2) k(1)]) (auto simp: RECOVERY_FIELDS_def)
    moreover have st: "jget x ''status'' = JStr ''failed''" using k(1) new(3) by (simp add: kept_def)
    moreover have "publications x = publications run" using k(1) new(4) by (intro publications_cong) (simp add: kept_def)
    moreover have "speaks h \<longrightarrow> recovery_resolved (jget x ''recovery'')"
      using k(1) new(5) S(3) by (auto simp: kept_def speaks_def intro!: recovery_record_resolved)
    moreover have "jget x ''id'' = JStr r" using id calculation(1) by (simp add: kept_def RECOVERY_FIELDS_def LIFECYCLE_FIELDS_def)
    ultimately show ?thesis using k(2) fail S(2)
      by (simp add: done_with_def recovered_ok_def finished_def publications_settled_def RUN_STATUSES_def NON_TERMINAL_STATUSES_def)
  qed
  then show "leads (keeps env r (\<lambda>y. y = run) l)
      (lift_r (add_event (event (h_time h r 2) ''Interrupted execution reconciled during startup; Run marked failed.'') ?new))
      (\<lambda>x w. ?ok x \<and> keeps env r (\<lambda>y. y = run) l w) (keeps env r S l)"
    by (intro leads_lift) (use S(1) in \<open>auto elim: keeps_mono\<close>)
  show "leads (\<lambda>w. ?ok x \<and> keeps env r (\<lambda>y. y = run) l w) (save_run env h r TerminalSave x) (\<lambda>_. keeps env r (done_with h S) l) (keeps env r S l)" for x
  proof (cases "?ok x")
    case True
    then have "leads (keeps env r (\<lambda>y. y = run) l) (save_run env h r TerminalSave x) (\<lambda>_. keeps env r (\<lambda>y. y = x) l) (keeps env r S l)"
      using id S by (intro save_run_leads) (simp_all add: done_with_def)
    then show ?thesis by (rule leads_weaken) (use True in \<open>auto elim: keeps_mono\<close>)
  qed (auto simp: leads_def)
qed

lemma mark_leads: "leads (keeps env r (done_with h S) l) (mark_recovered r) (\<lambda>_. settled env h r S l) F"
  by (auto simp: leads_def mark_recovered_def modify_s_def keeps_def settled_def done_with_def)

lemma done_with_weaker: "done_with h S y \<Longrightarrow> S y"
  by (simp add: done_with_def)

text \<open>A Run in the hands of recovery: valid, in its directory, its publications settled, and
  \<open>S\<close> allows a recovery record.\<close>

definition in_hand :: "py_env \<Rightarrow> string \<Rightarrow> (doc \<Rightarrow> bool) \<Rightarrow> doc \<Rightarrow> bool" where
  "in_hand env r S run =
     (run_wf env run \<and> jget run ''id'' = JStr r \<and> safe_name r \<and> S run \<and> publications_settled run \<and>
      (\<forall>v. S (jset run ''recovery'' v)))"

definition may_fail :: "(doc \<Rightarrow> bool) \<Rightarrow> doc \<Rightarrow> bool" where
  "may_fail S run = (\<forall>y. kept (RECOVERY_FIELDS @ LIFECYCLE_FIELDS) run y \<longrightarrow> jget y ''status'' = JStr ''failed'' \<longrightarrow> S y)"

abbreviation settles_run where
  "settles_run env h r S l run m \<equiv> leads (keeps env r (\<lambda>y. y = run) l) m (\<lambda>_. settled env h r S l) (keeps env r S l)"

lemma in_hand_blocker: "in_hand env r S run \<Longrightarrow> settles_run env h r S l run (record_blocker env h r backend why run)"
  by (rule record_blocker_leads) (simp_all add: in_hand_def)

lemma in_hand_then:
  assumes "in_hand env r S run" "quiet_step.stays_any m" "\<And>x. settles_run env h r S l run (f x)"
  shows "settles_run env h r S l run (bind_o m f)"
  using assms by (intro quiet_then) (simp_all add: in_hand_def)

lemma in_hand_terminalize:
  assumes "in_hand env r S run" "may_fail S run" "backend \<noteq> []"
  shows "leads (keeps env r (\<lambda>y. y = run) l) (terminalize_interrupted env h r backend why resource run)
    (\<lambda>_. keeps env r (done_with h S) l) (keeps env r S l)"
  using assms unfolding in_hand_def may_fail_def by (intro terminalize_leads) blast+

lemma finish_absent_leads:
  assumes "in_hand env r S run" "may_fail S run" "backend \<noteq> []"
  shows "settles_run env h r S l run (finish_absent env h r backend why resource run)"
  unfolding finish_absent_def
proof (rule leads_branch)
  show "settles_run env h r S l run (record_blocker env h r backend AmbiguousSteps run)" using assms(1) by (rule in_hand_blocker)
  show "settles_run env h r S l run (bind_o (terminalize_interrupted env h r backend why resource run)
      (\<lambda>_. bind_o (clear_resolved_identity h r) (\<lambda>_. mark_recovered r)))"
    by (rule leads_then [OF in_hand_terminalize [OF assms]], rule quiet_then [OF quiet_ops(4) done_with_weaker mark_leads])
qed

lemma reconcile_quiet:
  "quiet_step.stays (\<lambda>(resolved, backend, why, resource). backend \<noteq> [] \<and> (resolved \<longrightarrow>
       jget i ''backend'' = JStr ''systemd_cgroup'' \<and> c_status (h_contain h r) = NOT_RUNNING \<and> c_gone (h_contain h r)))
     (reconcile_identity h r i p)"
  by (auto simp: quiet_step.stays_def reconcile_identity_def Let_def split: sum.split option.split)

text \<open>What follows the reconciliation of an identity.\<close>

lemma reconcile_leads:
  assumes "in_hand env r S run"
    and "\<And>backend why resource. backend \<noteq> [] \<Longrightarrow> jget i ''backend'' = JStr ''systemd_cgroup'' \<Longrightarrow>
       c_status (h_contain h r) = NOT_RUNNING \<Longrightarrow> c_gone (h_contain h r) \<Longrightarrow> settles_run env h r S l run (f backend why resource)"
  shows "settles_run env h r S l run (bind_o (reconcile_identity h r i p) (\<lambda>(resolved, backend, why, resource).
     if resolved then f backend why resource else record_blocker env h r backend why run))"
proof (rule leads_then)
  let ?Q = "\<lambda>(resolved, backend, why, resource). backend \<noteq> [] \<and> (resolved \<longrightarrow>
       jget i ''backend'' = JStr ''systemd_cgroup'' \<and> c_status (h_contain h r) = NOT_RUNNING \<and> c_gone (h_contain h r))"
  show "leads (keeps env r (\<lambda>y. y = run) l) (reconcile_identity h r i p)
     (\<lambda>x w. ?Q x \<and> keeps env r (\<lambda>y. y = run) l w) (keeps env r S l)"
    using leads_quiet [OF reconcile_quiet, where G = "\<lambda>d k. \<exists>y. holds env r y d \<and> y = run \<and> k = l" and Q' = "\<lambda>x w. ?Q x \<and> keeps env r (\<lambda>y. y = run) l w"
        and F = "keeps env r S l"] assms(1) unfolding keeps_def in_hand_def by blast
next
  fix x :: "bool \<times> string \<times> reason \<times> json"
  obtain resolved backend why resource where x: "x = (resolved, backend, why, resource)" by (cases x) blast
  show "leads (\<lambda>w. (case x of (resolved, backend, why, resource) \<Rightarrow> backend \<noteq> [] \<and> (resolved \<longrightarrow>
       jget i ''backend'' = JStr ''systemd_cgroup'' \<and> c_status (h_contain h r) = NOT_RUNNING \<and> c_gone (h_contain h r))) \<and>
       keeps env r (\<lambda>y. y = run) l w)
     (case x of (resolved, backend, why, resource) \<Rightarrow> if resolved then f backend why resource else record_blocker env h r backend why run)
     (\<lambda>_. settled env h r S l) (keeps env r S l)"
    using in_hand_blocker [OF assms(1), where h = h and l = l and backend = backend and why = why] assms(2) [of backend why resource]
    unfolding x leads_def by (cases resolved) auto
qed

lemma read_identity_ofE:
  assumes "read_identity_of r f = Inr (Some i)"
  obtains "read_persisted_identity f = Inr (JObj i)" "identity_shape i"
proof -
  obtain v where v: "read_persisted_identity f = Inr v" "validated_identity (Some r) v = Inr i"
    using assms by (auto simp: read_identity_of_def bind_r_Inr_iff split: if_splits)
  from v(2) show thesis by (rule validated_identityE) (use v that in simp)
qed

lemma backend_known:
  assumes "read_identity_of r f = Inr (Some i)"
  shows "backend_of i \<noteq> []"
  using assms by (rule read_identity_ofE) (auto simp: identity_shape_def backend_of_def)

lemma recover_active_leads:
  assumes hand: "in_hand env r S run" and ident: "read_identity_of r f = Inr ident"
    and absent: "proved_absent h boot r f run \<Longrightarrow> may_fail S run"
  shows "settles_run env h r S l run (recover_active env h boot r ident run)"
proof -
  show ?thesis
  proof (cases ident)
    case None
    have "settles_run env h r S l run (if no_command_could_have_started run (h_history h r)
        then bind_o (terminalize_interrupted env h r ''none'' NeverBegan JNull run) (\<lambda>_. mark_recovered r)
        else record_blocker env h r ''none'' NoDurableIdentity run)"
      using absent by (intro leads_branch in_hand_blocker hand leads_then [OF in_hand_terminalize [OF hand] mark_leads])
        (simp_all add: proved_absent_def ident None)
    then show ?thesis unfolding recover_active_def None option.case by (intro in_hand_then hand quiet_ops)
  next
    case (Some i)
    have sys: "may_fail S run" if "previous_boot boot i \<or> jget i ''backend'' = JStr ''systemd_cgroup'' \<and>
        c_status (h_contain h r) = NOT_RUNNING \<and> c_gone (h_contain h r)"
      using absent that by (simp add: proved_absent_def ident Some)
    have "settles_run env h r S l run (if previous_boot boot i then finish_absent env h r (backend_of i) PreviousBoot JNull run
         else
           bind_o (reconcile_identity h r i (admitted_policy run)) (\<lambda>(resolved, backend, why, resource).
           if resolved then finish_absent env h r backend why resource run
           else record_blocker env h r backend why run))"
      using ident Some by (intro leads_branch reconcile_leads hand finish_absent_leads sys backend_known) simp_all
    then show ?thesis unfolding recover_active_def Some option.case by (intro in_hand_then hand quiet_ops)
  qed
qed

lemma ended_settled:
  "keeps env r (\<lambda>y. S y \<and> finished y \<and> publications_settled y) l w \<Longrightarrow> settled env h r S l w"
  by (auto simp: keeps_def settled_def)

lemma in_hand_ended:
  assumes "in_hand env r S run" "finished run" "quiet_step.stays_any m"
  shows "settles_run env h r S l run m"
  by (rule leads_weaken [OF quiet_leads [OF assms(3), where S = "\<lambda>y. y = run" and S' = S]])
    (use assms in \<open>auto intro!: ended_settled elim: keeps_mono simp: in_hand_def\<close>)

lemma recovery_update_same: "finished (jset run ''recovery'' v) = finished run" "publications_settled (jset run ''recovery'' v) = publications_settled run"
  by (simp_all add: finished_def publications_settled_def publications_def)

lemma in_hand_resolution:
  assumes "in_hand env r S run" "finished run"
  shows "settles_run env h r S l run (record_terminal_resolution env h r backend why run)"
  unfolding record_terminal_resolution_def Let_def
proof (rule leads_branch)
  show "settles_run env h r S l run (ret ())"
    using assms by (intro in_hand_ended quiet_step.stays_ret) simp_all
  let ?x = "jset run ''recovery'' (JObj (recovery_record h r True (h_text h r why) backend (dict_or_empty (jget run ''recovery''))))"
  have "leads (keeps env r (\<lambda>y. y = run) l) (save_run env h r ResolutionSave ?x) (\<lambda>_. keeps env r (\<lambda>y. y = ?x) l) (keeps env r S l)"
    using assms unfolding in_hand_def by (intro save_run_leads recovery_update_ok) simp_all
  then show "settles_run env h r S l run (save_run env h r ResolutionSave ?x)"
    by (rule leads_weaken)
      (use assms in \<open>auto intro!: ended_settled elim!: keeps_mono simp: in_hand_def recovery_update_same\<close>)
qed

lemma in_hand_resolved:
  assumes "in_hand env r S run" "finished run"
  shows "settles_run env h r S l run (bind_o (clear_resolved_identity h r) (\<lambda>_. record_terminal_resolution env h r backend why run))"
  using assms by (intro in_hand_then quiet_ops in_hand_resolution)

lemma recover_terminal_leads:
  assumes hand: "in_hand env r S run" and ended: "finished run"
  shows "settles_run env h r S l run (recover_terminal env h boot r ident run)"
proof -
  have blocked: "settles_run env h r S l run (bind_o (process_run r) (\<lambda>_. bind_o (add_blocker r b t) (\<lambda>_. block_run r)))" for b t
    by (intro in_hand_then [OF hand quiet_ops(1)] block_leads) (use hand in \<open>simp add: in_hand_def\<close>)
  have known: "settles_run env h r S l run (bind_o (process_run r) (\<lambda>_.
         if previous_boot boot i then
           bind_o (clear_resolved_identity h r) (\<lambda>_. record_terminal_resolution env h r (backend_of i) PreviousBoot run)
         else
           bind_o (reconcile_identity h r i (admitted_policy run)) (\<lambda>(resolved, backend, why, _).
           if resolved then
             bind_o (clear_resolved_identity h r) (\<lambda>_. record_terminal_resolution env h r backend why run)
           else record_blocker env h r backend why run)))" for i
    by (intro in_hand_then hand quiet_ops leads_branch in_hand_resolved reconcile_leads hand ended)
  have "leads (keeps env r (\<lambda>y. y = run) l) (lift_r (recovery_status run)) (\<lambda>_. keeps env r (\<lambda>y. y = run) l) (keeps env r S l)"
    by (rule leads_lift) (use hand in \<open>auto elim!: keeps_mono simp: in_hand_def\<close>)
  then show ?thesis unfolding recover_terminal_def
    by (rule leads_then, cases ident)
      (simp_all add: Let_def blocked known in_hand_ended [OF hand ended] quiet_ops quiet_step.stays_ret)
qed

text \<open>Any part of the world that an operation does not change may be carried along.\<close>

interpretation ids_step: step_relation "\<lambda>w w' :: rec_world. w_ids w' = w_ids w"
  by unfold_locales simp_all

lemma leads_ids:
  assumes "leads P m Q F" "ids_step.stays_any m"
  shows "leads (\<lambda>w. P w \<and> w_ids w r = f) m (\<lambda>x w. Q x w \<and> w_ids w r = f) F"
  unfolding leads_def
proof (intro allI impI)
  fix w w' q
  assume "P w \<and> w_ids w r = f" and run: "m w = (w', q)"
  then show "case q of Inl _ \<Rightarrow> F w' | Inr x \<Rightarrow> Q x w' \<and> w_ids w' r = f"
    using assms(1) [unfolded leads_def, rule_format, OF _ run] assms(2) [unfolded ids_step.stays_def, rule_format, of w]
    by (auto split: sum.splits)
qed

lemma recover_publications_ids: "ids_step.stays_any (recover_publications env h r run)"
proof -
  have save: "ids_step.stays_any (save_run env h r p x)" for p x
    by (simp add: ids_step.stays_def save_run_def split: prod.split)
  show ?thesis
    unfolding recover_publications_def
    by (rule ids_step.stays_bind [OF ids_step.stays_lift])
      (auto intro!: ids_step.stays_bind [OF ids_step.stays_lift] ids_step.stays_bind [OF save] ids_step.stays_ret ids_step.stays_throw)
qed

text \<open>The Run after its publications were looked at.\<close>

definition looked_at :: "py_env \<Rightarrow> string \<Rightarrow> doc \<Rightarrow> doc \<Rightarrow> bool" where
  "looked_at env r old run =
     (run_wf env run \<and> jget run ''id'' = JStr r \<and> kept RECOVERY_FIELDS old run \<and> publications_settled run \<and>
      (run = old \<or> truthy (jget run ''events'')))"

lemma recover_publications_leads:
  assumes wf: "run_wf env old" and id: "jget old ''id'' = JStr r" "safe_name r"
    and S: "\<And>y. kept RECOVERY_FIELDS old y \<Longrightarrow> S y"
  shows "leads (keeps env r (\<lambda>y. y = old) l) (recover_publications env h r old)
    (\<lambda>run w. looked_at env r old run \<and> keeps env r (\<lambda>y. y = run) l w) (keeps env r S l)"
proof -
  have fail: "keeps env r (\<lambda>y. y = old) l w \<Longrightarrow> keeps env r S l w" for w
    using S [of old] by (auto elim: keeps_mono)
  show ?thesis
    unfolding recover_publications_def
  proof (rule leads_then)
    show "leads (keeps env r (\<lambda>y. y = old) l) (lift_r (publications old))
      (\<lambda>rows w. publications old = Inr rows \<and> keeps env r (\<lambda>y. y = old) l w) (keeps env r S l)"
      by (rule leads_lift) (use fail in auto)
    fix rows
    let ?failed = "jset old ''publications'' (failed_publications env (h_time h r 0) rows)"
    let ?msg = "''Recovered '' @ str_int (int (length (filter interrupted rows))) @ '' interrupted publication attempt(s)''"
    let ?e = "event (h_time h r 1) ?msg"
    have f: "run_wf env ?failed" using wf by (rule run_wf_unchecked) (simp add: CHECKED_FIELDS_def)
    have new: "looked_at env r old run" if "add_event ?e ?failed = Inr run" for run
    proof -
      note ev = add_event_ok [OF that]
      have "publications_settled run"
        by (rule failed_publications_settled [of _ env "h_time h r 0" rows]) (use ev(2) in \<open>simp add: kept_def\<close>)
      then show ?thesis
        using ev f id by (simp add: looked_at_def kept_def RECOVERY_FIELDS_def)
    qed
    have saved: "leads (keeps env r (\<lambda>y. y = old) l)
        (bind_o (lift_r (add_event ?e ?failed)) (\<lambda>run. if \<not> h_log h r then throw os_err
           else bind_o (save_run env h r PublicationSave run) (\<lambda>_. ret run)))
        (\<lambda>run w. looked_at env r old run \<and> keeps env r (\<lambda>y. y = run) l w) (keeps env r S l)"
    proof (rule leads_then)
      show "leads (keeps env r (\<lambda>y. y = old) l) (lift_r (add_event ?e ?failed))
        (\<lambda>run w. looked_at env r old run \<and> keeps env r (\<lambda>y. y = old) l w) (keeps env r S l)"
        by (rule leads_lift) (use fail new in auto)
      fix run
      have "leads (keeps env r (\<lambda>y. y = old) l) (save_run env h r PublicationSave run) (\<lambda>_. keeps env r (\<lambda>y. y = run) l) (keeps env r S l)"
        if "looked_at env r old run"
        using that id S by (intro save_run_leads) (simp_all add: looked_at_def)
      then show "leads (\<lambda>w. looked_at env r old run \<and> keeps env r (\<lambda>y. y = old) l w)
          (if \<not> h_log h r then throw os_err else bind_o (save_run env h r PublicationSave run) (\<lambda>_. ret run))
          (\<lambda>run w. looked_at env r old run \<and> keeps env r (\<lambda>y. y = run) l w) (keeps env r S l)"
        by (cases "looked_at env r old run")
          (auto intro!: leads_branch leads_throw fail leads_then [OF _ leads_ret] simp: leads_def [of "\<lambda>_. False"])
    qed
    have "looked_at env r old old" if "publications old = Inr rows" "\<not> list_ex interrupted rows"
      using that wf id by (simp add: looked_at_def publications_settled_def)
    then show "leads (\<lambda>w. publications old = Inr rows \<and> keeps env r (\<lambda>y. y = old) l w)
        (if \<not> list_ex interrupted rows then ret old
         else bind_o (lift_r (add_event ?e ?failed)) (\<lambda>run. if \<not> h_log h r then throw os_err
           else bind_o (save_run env h r PublicationSave run) (\<lambda>_. ret run)))
        (\<lambda>run w. looked_at env r old run \<and> keeps env r (\<lambda>y. y = run) l w) (keeps env r S l)"
      by (intro leads_branch leads_ret leads_weaken [OF saved]) auto
  qed
qed

lemma looked_at_in_hand:
  assumes "looked_at env r old run" "safe_name r"
  shows "in_hand env r (may_become h boot r f old) run"
proof -
  have "kept RECOVERY_FIELDS old (jset run ''recovery'' v)" for v
    using assms(1) by (auto simp: looked_at_def kept_def RECOVERY_FIELDS_def)
  with assms show ?thesis by (simp add: in_hand_def looked_at_def may_become_def)
qed

lemma looked_at_may_fail:
  assumes "looked_at env r old run" "\<not> finished old" "proved_absent h boot r f run"
  shows "may_fail (may_become h boot r f old) run"
proof -
  have "proved_absent h boot r f old"
    using assms(1,3) by (auto simp: proved_absent_def looked_at_def no_command_could_have_started_def split: sum.splits option.splits)
  moreover have "kept (RECOVERY_FIELDS @ LIFECYCLE_FIELDS) old y" if "kept (RECOVERY_FIELDS @ LIFECYCLE_FIELDS) run y" for y
    by (rule kept_trans [OF _ that]) (use assms(1) in \<open>auto simp: looked_at_def\<close>)
  ultimately show ?thesis using assms(2) by (simp add: may_fail_def may_become_def)
qed

lemma status_finished:
  assumes "run_wf env run"
  shows "finished run \<longleftrightarrow> str_or env (jget run ''status'') [] \<notin> set NON_TERMINAL_STATUSES"
proof -
  obtain s where "s \<in> set RUN_STATUSES" "jget run ''status'' = JStr s" using run_wf_status_known [OF assms] by blast
  then show ?thesis by (auto simp: finished_def RUN_STATUSES_def)
qed

lemma process_settled: "leads (settled env h r S l) (process_run x) (\<lambda>_. settled env h r S l) F"
  by (simp add: leads_def process_run_def modify_s_def settled_def)

text \<open>From the record of the Run on: everything after the publications.\<close>

lemma recover_identity_leads:
  assumes look: "looked_at env r old run" and safe: "safe_name r" and wf: "run_wf env old"
  shows "settles_run env h r (may_become h boot r f old) l run (case read_identity_of r f of
       Inl e \<Rightarrow>
         if \<not> expected_failure e then throw e
         else
           bind_o distrust (\<lambda>_.
           bind_o (record_blocker env h r ''unknown'' MetadataUnverifiable run) (\<lambda>_. process_run r))
     | Inr ident \<Rightarrow>
         bind_o (bind_unit r ident) (\<lambda>_.
         if str_or env (jget old ''status'') [] \<notin> set NON_TERMINAL_STATUSES
         then recover_terminal env h boot r ident run
         else recover_active env h boot r ident run))"
proof -
  note hand = looked_at_in_hand [OF look safe, of h boot f]
  have same: "finished run = finished old"
    using look by (simp add: looked_at_def finished_def kept_def RECOVERY_FIELDS_def)
  have unread: "keeps env r (\<lambda>y. y = run) l w \<Longrightarrow> keeps env r (may_become h boot r f old) l w" for w
    using hand by (auto elim!: keeps_mono simp: in_hand_def)
  have blocked: "settles_run env h r (may_become h boot r f old) l run (bind_o distrust (\<lambda>_.
           bind_o (record_blocker env h r ''unknown'' MetadataUnverifiable run) (\<lambda>_. process_run r)))"
    by (rule in_hand_then [OF hand quiet_ops(2)], rule leads_then [OF in_hand_blocker [OF hand] process_settled])
  have "settles_run env h r (may_become h boot r f old) l run (bind_o (bind_unit r ident) (\<lambda>_.
         if str_or env (jget old ''status'') [] \<notin> set NON_TERMINAL_STATUSES
         then recover_terminal env h boot r ident run else recover_active env h boot r ident run))"
    if "read_identity_of r f = Inr ident" for ident
    using status_finished [OF wf] same that
    by (intro in_hand_then [OF hand quiet_ops(3)] leads_branch recover_terminal_leads recover_active_leads hand looked_at_may_fail [OF look]) simp_all
  with unread blocked show ?thesis by (cases "read_identity_of r f") (simp_all add: leads_throw)
qed


lemma leads_pure: "(B \<Longrightarrow> leads P m Q F) \<Longrightarrow> leads (\<lambda>w. B \<and> P w) m Q F"
  by (auto simp: leads_def)

lemma recover_run_leads:
  assumes safe: "safe_name r" and old: "run_wf env old" "jget old ''id'' = JStr r"
  shows "leads (\<lambda>w. keeps env r (\<lambda>y. y = old) l w \<and> w_ids w r = f) (recover_run env h boot r)
    (\<lambda>_. settled env h r (may_become h boot r f old) l) (keeps env r (may_become h boot r f old) l)"
    (is "leads ?P _ ?Q ?F")
proof -
  have fail: "?P w \<Longrightarrow> ?F w" for w
    by (auto elim!: keeps_mono simp: may_become_def)
  have disk: "leads ?P (get_s w_disk) (\<lambda>d w. d = w_disk w \<and> ?P w) ?F"
    by (rule leads_get) simp
  have read: "leads (\<lambda>w. d = w_disk w \<and> ?P w) (lift_r (read_locked_run env h r d)) (\<lambda>stored w. stored = old \<and> ?P w) ?F" for d
    by (rule leads_lift) (auto dest!: read_locked_run_stored simp: keeps_def holds_def may_become_def)
  have check: "leads ?P (if b then throw val_err else ret ()) (\<lambda>_. ?P) ?F" for b
    by (intro leads_branch leads_throw leads_ret fail)
  have pubs: "leads ?P (recover_publications env h r old)
      (\<lambda>run w. (looked_at env r old run \<and> keeps env r (\<lambda>y. y = run) l w) \<and> w_ids w r = f) ?F"
    using old by (intro leads_ids recover_publications_leads recover_publications_ids safe) (simp_all add: may_become_def)
  have ids: "leads (\<lambda>w. (looked_at env r old run \<and> keeps env r (\<lambda>y. y = run) l w) \<and> w_ids w r = f) (get_s (\<lambda>w. w_ids w r))
      (\<lambda>g w. (g = f \<and> looked_at env r old run) \<and> keeps env r (\<lambda>y. y = run) l w) ?F" for run
    by (rule leads_get) simp
  show ?thesis
    unfolding recover_run_def
    apply (rule leads_then [OF disk], rule leads_then [OF read], rule leads_pure, hypsubst)
    apply (rule leads_then [OF check], rule leads_then [OF pubs], rule leads_then [OF ids], rule leads_pure, elim conjE, hypsubst)
    by (rule recover_identity_leads [OF _ safe old(1)])
qed

lemma give_up_leads:
  assumes "\<And>y. S y \<Longrightarrow> S' y"
  shows "leads (keeps env r S l) (give_up h x why) (\<lambda>_. settled env h r S' l) F"
  unfolding leads_def
  using assms
  by (simp add: give_up_def bind_o_def distrust_def process_run_def add_blocker_def block_run_def modify_s_def keeps_def settled_def) blast

lemma leads_attempt:
  assumes "leads P m Q F" "\<And>x. leads (Q x) (f (Inr x)) Q' F'" "\<And>e. leads F (f (Inl e)) Q' F'"
  shows "leads P (bind_o (attempt m) f) Q' F'"
  unfolding leads_def
proof (intro allI impI)
  fix s s' q assume P: "P s" and run: "bind_o (attempt m) f s = (s', q)"
  obtain s1 x where m: "m s = (s1, x)" by fastforce
  then have "f x s1 = (s', q)" using run by (simp add: bind_o_def attempt_def)
  moreover have "case x of Inl _ \<Rightarrow> F s1 | Inr y \<Rightarrow> Q y s1" using assms(1) P m by (simp add: leads_def)
  ultimately show "case q of Inl _ \<Rightarrow> F' s' | Inr y \<Rightarrow> Q' y s'"
    using assms(2,3) by (cases x) (auto simp: leads_def)
qed

lemma guarded_leads:
  assumes "safe_name r" "run_wf env old" "jget old ''id'' = JStr r"
  shows "leads (\<lambda>w. keeps env r (\<lambda>y. y = old) l w \<and> w_ids w r = f) (recover_run_guarded env h boot r)
    (\<lambda>_. settled env h r (may_become h boot r f old) l) (keeps env r (may_become h boot r f old) l)"
  unfolding recover_run_guarded_def
  by (rule leads_attempt [OF recover_run_leads [OF assms]]) (auto intro!: leads_ret leads_branch give_up_leads leads_throw)

text \<open>A Run that cannot be read is left alone, under a blocker.\<close>

lemma guarded_missing:
  assumes "\<And>old. \<not> holds env r old (w_disk w)" "recover_run_guarded env h boot r w = (w', q)"
  shows "w_disk w' = w_disk w" "recovered_run_ids w' = recovered_run_ids w" "q = Inr u \<Longrightarrow> blockers w' \<noteq> []"
proof -
  have "\<exists>e. read_locked_run env h r (w_disk w) = Inl e"
    using assms(1) read_locked_run_stored [of env h r "w_disk w"] by (cases "read_locked_run env h r (w_disk w)") (auto simp: holds_def)
  then obtain e where "recover_run env h boot r w = (w, Inl e)"
    by (auto simp: recover_run_def bind_o_def get_s_def lift_r_def)
  then have "(if exn_class e = WorkspaceBusyError then give_up h r LockUnavailable
         else if expected_failure e then give_up h r RunUnverifiable else throw e) w = (w', q)"
    using assms(2) by (simp add: recover_run_guarded_def bind_o_def attempt_def)
  then show "w_disk w' = w_disk w" "recovered_run_ids w' = recovered_run_ids w" "q = Inr u \<Longrightarrow> blockers w' \<noteq> []"
    by (auto simp: give_up_def bind_o_def distrust_def process_run_def add_blocker_def block_run_def modify_s_def throw_def split: if_splits)
qed

text \<open>The unit of a recorded command is known by its Run once the Run was looked at.\<close>

definition unit_known :: "string \<Rightarrow> id_file \<Rightarrow> rec_world \<Rightarrow> bool" where
  "unit_known r f w =
     (\<forall>i. read_identity_of r f = Inr (Some i) \<longrightarrow> jget i ''backend'' = JStr ''systemd_cgroup'' \<longrightarrow>
        (\<exists>u. jget i ''unit_name'' = JStr u \<and> (u, r) \<in> set (unit_bindings w)))"

lemma unit_known_stays:
  assumes "run_step.stays_any x m"
  shows "leads (unit_known r f) m (\<lambda>_. unit_known r f) (\<lambda>_. True)"
  unfolding leads_def
proof (intro allI impI)
  fix w w' q assume known: "unit_known r f w" and run: "m w = (w', q)"
  have "set (unit_bindings w) \<subseteq> set (unit_bindings w')"
    using assms [unfolded run_step.stays_def, rule_format, of w] run by (simp add: touches_def)
  with known show "case q of Inl _ \<Rightarrow> True | Inr _ \<Rightarrow> unit_known r f w'"
    by (auto simp: unit_known_def split: sum.split)
qed

lemma bind_unit_known:
  assumes "read_identity_of r f = Inr ident"
  shows "leads (\<lambda>_. True) (bind_unit r ident) (\<lambda>_. unit_known r f) (\<lambda>_. True)"
  using assms
  by (auto simp: leads_def bind_unit_def unit_known_def ret_def modify_s_def identity_shape_def text_field_iff
      elim!: read_identity_ofE split: option.splits if_splits)

lemma any_ids:
  "ids_step.stays_any m \<Longrightarrow> leads (\<lambda>w. w_ids w r = f) m (\<lambda>_ w. w_ids w r = f) (\<lambda>_. True)"
  using leads_ids [of "\<lambda>_. True" m "\<lambda>_ _. True" "\<lambda>_. True" r f] by (simp add: leads_def split: sum.splits)

lemma recover_run_binds:
  "leads (\<lambda>w. w_ids w r = f) (recover_run env h boot r) (\<lambda>_. unit_known r f) (\<lambda>_. True)"
proof -
  have rest: "leads (\<lambda>w. g = f \<and> True) (case read_identity_of r g of
       Inl e \<Rightarrow>
         if \<not> expected_failure e then throw e
         else
           bind_o distrust (\<lambda>_.
           bind_o (record_blocker env h r ''unknown'' MetadataUnverifiable run) (\<lambda>_. process_run r))
     | Inr ident \<Rightarrow>
         bind_o (bind_unit r ident) (\<lambda>_.
         if ended then recover_terminal env h boot r ident run else recover_active env h boot r ident run))
    (\<lambda>_. unit_known r f) (\<lambda>_. True)" if "jget run ''id'' = JStr r" for g run ended
  proof (rule leads_pure, hypsubst, cases "read_identity_of r f")
    case (Inl e)
    then have "unit_known r f w" for w by (simp add: unit_known_def)
    then show "leads (\<lambda>_. True) (case read_identity_of r f of Inl e \<Rightarrow> m1 e | Inr i \<Rightarrow> m2 i) (\<lambda>_. unit_known r f) (\<lambda>_. True)" for m1 m2
      by (simp add: leads_def split: sum.split)
  next
    case (Inr ident)
    have stay: "leads (unit_known r f) (if ended then recover_terminal env h boot r ident run else recover_active env h boot r ident run)
       (\<lambda>_. unit_known r f) (\<lambda>_. True)"
      using that by (intro unit_known_stays [of r]) (simp add: recover_terminal_touches recover_active_touches)
    show "leads (\<lambda>_. True) (case read_identity_of r f of Inl e \<Rightarrow> m1 e | Inr ident \<Rightarrow> bind_o (bind_unit r ident) (\<lambda>_.
         if ended then recover_terminal env h boot r ident run else recover_active env h boot r ident run))
       (\<lambda>_. unit_known r f) (\<lambda>_. True)" for m1
      unfolding Inr sum.case by (rule leads_then [OF bind_unit_known [OF Inr] stay])
  qed
  have read: "leads (\<lambda>w. w_ids w r = f) (lift_r (read_locked_run env h r d)) (\<lambda>stored w. jget stored ''id'' = JStr r \<and> w_ids w r = f) (\<lambda>_. True)" for d
    by (rule leads_lift) (auto dest: read_locked_run_stored)
  have pubs: "leads (\<lambda>w. w_ids w r = f) (recover_publications env h r stored) (\<lambda>run w. jget run ''id'' = JStr r \<and> w_ids w r = f) (\<lambda>_. True)"
    if "jget stored ''id'' = JStr r" for stored
    unfolding leads_def
  proof (intro allI impI)
    fix w w' q assume "w_ids w r = f" and run: "recover_publications env h r stored w = (w', q)"
    then have "w_ids w' r = f"
      using recover_publications_ids [unfolded ids_step.stays_def, rule_format, of env h r stored w] by simp
    moreover have "\<forall>x. q = Inr x \<longrightarrow> jget x ''id'' = JStr r"
      using publications_touch [OF that, of env h, unfolded run_step.stays_def, rule_format, of w] run by simp
    ultimately show "case q of Inl _ \<Rightarrow> True | Inr run \<Rightarrow> jget run ''id'' = JStr r \<and> w_ids w' r = f"
      by (simp split: sum.split)
  qed
  have ids: "leads (\<lambda>w. w_ids w r = f) (get_s (\<lambda>w. w_ids w r)) (\<lambda>g w. g = f \<and> True) (\<lambda>_. True)"
    by (rule leads_get) simp
  show ?thesis
    unfolding recover_run_def
    apply (rule leads_then [OF any_ids [OF ids_step.stays_get]], rule leads_then [OF read], rule leads_pure)
    apply (rule leads_then [OF any_ids], simp add: ids_step.stays_ret ids_step.stays_throw)
    apply (rule leads_then [OF pubs], assumption, rule leads_pure)
    by (rule leads_then [OF ids rest])
qed

lemma guarded_binds:
  "leads (\<lambda>w. w_ids w r = f) (recover_run_guarded env h boot r) (\<lambda>_ w. blockers w \<noteq> [] \<or> unit_known r f w) (\<lambda>_. True)"
  unfolding recover_run_guarded_def
proof (rule leads_attempt [OF recover_run_binds])
  fix e
  have "leads (\<lambda>_. True) (give_up h r why) (\<lambda>_ w. blockers w \<noteq> [] \<or> unit_known r f w) (\<lambda>_. True)" for why
    by (simp add: leads_def give_up_def bind_o_def distrust_def process_run_def add_blocker_def block_run_def modify_s_def)
  then show "leads (\<lambda>_. True) (case Inl e of Inr _ \<Rightarrow> ret () | Inl e \<Rightarrow>
      if exn_class e = WorkspaceBusyError then give_up h r LockUnavailable
      else if expected_failure e then give_up h r RunUnverifiable else throw e) (\<lambda>_ w. blockers w \<noteq> [] \<or> unit_known r f w) (\<lambda>_. True)"
    by (simp add: leads_throw)
qed (auto intro: leads_ret)

section \<open>All Runs\<close>

text \<open>The disk after some of the Runs were looked at, whatever failed.\<close>

definition sound_disk :: "py_env \<Rightarrow> rec_host \<Rightarrow> string \<Rightarrow> disk \<Rightarrow> (string \<Rightarrow> id_file) \<Rightarrow> rec_world \<Rightarrow> bool" where
  "sound_disk env h boot disk ids w =
     ((\<forall>r old. holds env r old disk \<longrightarrow> (\<exists>y. holds env r y (w_disk w) \<and> may_become h boot r (ids r) old y)) \<and>
      (\<forall>r. (\<forall>old. \<not> holds env r old disk) \<longrightarrow> w_disk w r = disk r) \<and>
      (\<forall>r \<in> set (recovered_run_ids w). \<exists>y. holds env r y (w_disk w) \<and> recovered_ok h y))"

definition cleared :: "py_env \<Rightarrow> (string \<Rightarrow> id_file) \<Rightarrow> rec_world \<Rightarrow> string \<Rightarrow> bool" where
  "cleared env ids w r =
     ((\<exists>y. holds env r y (w_disk w) \<and> finished y \<and> publications_settled y) \<and> unit_known r (ids r) w)"

definition scanned :: "py_env \<Rightarrow> rec_host \<Rightarrow> string \<Rightarrow> disk \<Rightarrow> (string \<Rightarrow> id_file) \<Rightarrow> string list \<Rightarrow> rec_world \<Rightarrow> bool" where
  "scanned env h boot disk ids seen w =
     (sound_disk env h boot disk ids w \<and> (\<forall>x. x \<notin> set seen \<longrightarrow> w_disk w x = disk x \<and> w_ids w x = ids x \<and> x \<notin> set (recovered_run_ids w)) \<and>
      (blockers w = [] \<longrightarrow> blocked_ids w = [] \<and> (\<forall>r \<in> set seen. cleared env ids w r)) \<and> stray_units w = [])"

lemma holds_cong: "d r = d' r \<Longrightarrow> holds env r y d = holds env r y d'"
  by (simp add: holds_def stored_cong [of d r d'])

lemma touches_other:
  assumes "touches r w w'" "x \<noteq> r"
  shows "holds env x y (w_disk w') = holds env x y (w_disk w)" "w_disk w' x = w_disk w x" "w_ids w' x = w_ids w x"
    "x \<in> set (recovered_run_ids w') \<longleftrightarrow> x \<in> set (recovered_run_ids w)"
  using assms by (auto simp: touches_def intro!: holds_cong)

text \<open>What a look at one Run does to the Run itself.\<close>

lemma guarded_effect:
  assumes "safe_name r" "w_disk w r = disk r" "w_ids w r = ids r" "recover_run_guarded env h boot r w = (w', q)"
  shows "holds env r old disk \<Longrightarrow> \<exists>y. holds env r y (w_disk w') \<and> may_become h boot r (ids r) old y"
    "(\<And>old. \<not> holds env r old disk) \<Longrightarrow> w_disk w' r = disk r"
    "recovered_run_ids w' = recovered_run_ids w \<or>
       recovered_run_ids w' = recovered_run_ids w @ [r] \<and> (\<exists>y. holds env r y (w_disk w') \<and> recovered_ok h y)"
    "q = Inr () \<Longrightarrow> blockers w' = [] \<Longrightarrow> cleared env ids w' r"
proof -
  have same: "holds env r old (w_disk w) = holds env r old disk" for old using assms(2) by (rule holds_cong)
  let ?S = "\<lambda>old. may_become h boot r (ids r) old"
  have eff: "case q of Inl _ \<Rightarrow> keeps env r (?S old) (recovered_run_ids w) w' | Inr _ \<Rightarrow> settled env h r (?S old) (recovered_run_ids w) w'"
    if "holds env r old disk" for old
  proof -
    have "run_wf env old" "jget old ''id'' = JStr r" using that by (simp_all add: holds_wf, simp add: holds_def)
    note lead = guarded_leads [OF assms(1) this, of "recovered_run_ids w" "ids r" h boot]
    show ?thesis
      by (rule lead [unfolded leads_def, rule_format, OF _ assms(4)]) (use assms(3) that same in \<open>simp add: keeps_def\<close>)
  qed
  show "\<exists>y. holds env r y (w_disk w') \<and> may_become h boot r (ids r) old y" if "holds env r old disk"
    using eff [OF that] by (cases q) (auto simp: keeps_def settled_def)
  note missing = guarded_missing [OF _ assms(4)]
  show "w_disk w' r = disk r" if "\<And>old. \<not> holds env r old disk"
    using missing(1) that same assms(2) by simp
  show "recovered_run_ids w' = recovered_run_ids w \<or>
       recovered_run_ids w' = recovered_run_ids w @ [r] \<and> (\<exists>y. holds env r y (w_disk w') \<and> recovered_ok h y)"
  proof (cases "\<exists>old. holds env r old disk")
    case True
    then obtain old where "holds env r old disk" ..
    from eff [OF this] show ?thesis by (cases q) (auto simp: keeps_def settled_def)
  next
    case False
    then show ?thesis using missing(2) same by simp
  qed
  show "cleared env ids w' r" if q: "q = Inr ()" and clear: "blockers w' = []"
  proof -
    obtain old where "holds env r old disk" using missing(3) [OF _ q] same clear by blast
    from eff [OF this] q clear have "\<exists>y. holds env r y (w_disk w') \<and> finished y \<and> publications_settled y"
      by (auto simp: settled_def)
    moreover have "unit_known r (ids r) w'"
      using guarded_binds [unfolded leads_def, rule_format, OF assms(3,4)] q clear by simp
    ultimately show ?thesis by (simp add: cleared_def)
  qed
qed

lemma cleared_other:
  assumes "touches r w w'" "x \<noteq> r" "cleared env ids w x"
  shows "cleared env ids w' x"
proof -
  have "set (unit_bindings w) \<subseteq> set (unit_bindings w')" using assms(1) by (simp add: touches_def)
  with assms(3) show ?thesis unfolding cleared_def unit_known_def touches_other(1) [OF assms(1,2)] by blast
qed

lemma guarded_scanned:
  assumes scan: "scanned env h boot disk ids seen w" and new: "r \<notin> set seen" "safe_name r"
    and run: "recover_run_guarded env h boot r w = (w', q)"
  shows "sound_disk env h boot disk ids w'" "q = Inr () \<Longrightarrow> scanned env h boot disk ids (seen @ [r]) w'"
proof -
  have t: "touches r w w'" using guarded_touches run by (rule run_step.stays_step)
  have at: "w_disk w r = disk r" "w_ids w r = ids r" "r \<notin> set (recovered_run_ids w)"
    using scan new by (simp_all add: scanned_def)
  note eff = guarded_effect [where disk = disk and ids = ids, OF new(2) at(1,2) run]
  note other = touches_other [OF t]
  have sound: "sound_disk env h boot disk ids w" using scan by (simp add: scanned_def)
  show sound': "sound_disk env h boot disk ids w'"
    unfolding sound_disk_def
  proof (intro conjI allI impI ballI)
    fix x old assume "holds env x old disk"
    then show "\<exists>y. holds env x y (w_disk w') \<and> may_become h boot x (ids x) old y"
      using eff(1) sound other(1) [of x] by (cases "x = r") (auto simp: sound_disk_def)
  next
    fix x assume "\<forall>old. \<not> holds env x old disk"
    then show "w_disk w' x = disk x"
      using eff(2) sound other(2) [of x] by (cases "x = r") (auto simp: sound_disk_def)
  next
    fix x assume "x \<in> set (recovered_run_ids w')"
    then show "\<exists>y. holds env x y (w_disk w') \<and> recovered_ok h y"
      using eff(3) at(3) sound other(1,4) [of x] by (cases "x = r") (auto simp: sound_disk_def)
  qed
  assume q: "q = Inr ()"
  obtain bs where bs: "blockers w' = blockers w @ bs" "blocked_ids w' = blocked_ids w \<or> bs \<noteq> []" "stray_units w' = stray_units w"
    using t by (auto simp: touches_def)
  have "cleared env ids w' x" if "blockers w' = []" "x \<in> set (seen @ [r])" for x
    using that eff(4) [OF q] scan bs(1) cleared_other [OF t] by (cases "x = r") (auto simp: scanned_def)
  moreover have "w_disk w' x = disk x \<and> w_ids w' x = ids x \<and> x \<notin> set (recovered_run_ids w')" if "x \<notin> set (seen @ [r])" for x
    using that scan other [of x] by (auto simp: scanned_def)
  ultimately show "scanned env h boot disk ids (seen @ [r]) w'"
    using sound' bs scan by (auto simp: scanned_def)
qed

lemma runs_scanned:
  assumes "scanned env h boot disk ids seen w" "distinct (seen @ rs)" "\<forall>r \<in> set rs. safe_name r"
    and "for_each (recover_run_guarded env h boot) rs w = (w', q)"
  shows "sound_disk env h boot disk ids w'" "q = Inr () \<Longrightarrow> scanned env h boot disk ids (seen @ rs) w'"
proof -
  have "sound_disk env h boot disk ids w' \<and> (q = Inr () \<longrightarrow> scanned env h boot disk ids (seen @ rs) w')"
    using assms
  proof (induction rs arbitrary: seen w)
    case Nil
    then show ?case by (auto simp: ret_def scanned_def)
  next
    case (Cons r rs)
    obtain w1 p where one: "recover_run_guarded env h boot r w = (w1, p)" by fastforce
    note step = guarded_scanned [OF Cons.prems(1) _ _ one]
    show ?case
    proof (cases p)
      case (Inl e)
      then show ?thesis using Cons.prems one step(1) by (auto simp: bind_o_def)
    next
      case (Inr u)
      then have "for_each (recover_run_guarded env h boot) rs w1 = (w', q)" using Cons.prems(4) one by (simp add: bind_o_def)
      moreover have "scanned env h boot disk ids (seen @ [r]) w1" using step(2) Inr Cons.prems(2,3) by simp
      ultimately show ?thesis using Cons.IH [of "seen @ [r]" w1] Cons.prems(2,3) by simp
    qed
  qed
  then show "sound_disk env h boot disk ids w'" "q = Inr () \<Longrightarrow> scanned env h boot disk ids (seen @ rs) w'" by blast+
qed

section \<open>Startup as a whole\<close>

definition boot_of :: "rec_host \<Rightarrow> string" where
  "boot_of h = (case read_boot_id (h_boot h) of Inr boot \<Rightarrow> boot | Inl _ \<Rightarrow> [])"

definition listed_runs :: "rec_host \<Rightarrow> string list" where
  "listed_runs h = (case h_root h of RootListed entries \<Rightarrow> sort (fst (scan_entries entries)) | _ \<Rightarrow> [])"

text \<open>The names of one directory are distinct.\<close>

definition names_distinct :: "rec_host \<Rightarrow> bool" where
  "names_distinct h = (case h_root h of RootListed entries \<Rightarrow> distinct (map fst entries) | _ \<Rightarrow> True)"

text \<open>Every entry of the directory is a Run whose manifest was found.\<close>

definition only_runs :: "rec_host \<Rightarrow> bool" where
  "only_runs h =
     (case h_root h of RootMissing \<Rightarrow> True | RootFailed _ \<Rightarrow> False
      | RootListed entries \<Rightarrow> list_all (\<lambda>(name, v). v = OpenedRun ManifestPresent \<and> safe_name name) entries)"

lemma scan_subset: "set (fst (scan_entries es)) \<subseteq> set (map fst es)"
proof (induction es rule: scan_entries.induct)
  case (2 name v rest)
  then show ?case by (cases v) (auto simp: Let_def split: prod.splits manifest.splits)
qed simp

lemma scan_names:
  "distinct (map fst es) \<Longrightarrow> distinct (fst (scan_entries es)) \<and> (\<forall>r \<in> set (fst (scan_entries es)). safe_name r)"
proof (induction es rule: scan_entries.induct)
  case (2 name v rest)
  then have "name \<notin> set (fst (scan_entries rest))" using scan_subset [of rest] by auto
  with 2 show ?case by (cases v) (auto simp: Let_def split: prod.splits manifest.splits)
qed simp

lemma scan_clean: "snd (scan_entries es) = [] \<Longrightarrow> list_all (\<lambda>(name, v). v = OpenedRun ManifestPresent \<and> safe_name name) es"
proof (induction es rule: scan_entries.induct)
  case (2 name v rest)
  then show ?case by (cases v) (auto simp: Let_def split: prod.splits manifest.splits if_splits)
qed simp

lemma listed_names: "names_distinct h \<Longrightarrow> distinct (listed_runs h) \<and> (\<forall>r \<in> set (listed_runs h). safe_name r)"
  using scan_names by (auto simp: names_distinct_def listed_runs_def split: root_view.splits)

text \<open>Before the first Run only blockers are recorded.\<close>

interpretation before_runs: step_relation "\<lambda>w w' :: rec_world.
    w_disk w' = w_disk w \<and> w_ids w' = w_ids w \<and> recovered_run_ids w' = recovered_run_ids w \<and> stray_units w' = stray_units w \<and>
    (blockers w' = [] \<longrightarrow> blockers w = [] \<and> blocked_ids w' = blocked_ids w)"
  by unfold_locales auto

lemma before_ops: "before_runs.stays_any distrust" "before_runs.stays_any (add_blocker x b t)"
  unfolding distrust_def add_blocker_def by (rule before_runs.stays_modify; simp)+

lemma recover_boot_before: "before_runs.stays (\<lambda>boot. boot = boot_of h) (recover_boot h)"
proof (cases "read_boot_id (h_boot h)")
  case (Inl e)
  then show ?thesis unfolding recover_boot_def
    by (auto intro!: before_runs.stays_bind [OF before_ops(1)] before_runs.stays_bind [OF before_ops(2)] before_runs.stays_ret
        before_runs.stays_throw simp: boot_of_def)
qed (simp add: recover_boot_def boot_of_def before_runs.stays_ret)

lemma inventory_error_before: "before_runs.stays_any (inventory_error h r)"
  by (auto simp: before_runs.stays_def inventory_error_def bind_o_def add_blocker_def block_run_def modify_s_def ret_def)

lemma recover_inventory_before: "before_runs.stays (\<lambda>rs. rs = listed_runs h) (recover_inventory h)"
proof -
  have listed: "before_runs.stays (\<lambda>rs. rs = run_ids) (bind_o (if errors \<noteq> [] then distrust else ret ()) (\<lambda>_.
          bind_o (for_each (inventory_error h) errors) (\<lambda>_. ret run_ids)))" for errors run_ids
    by (rule before_runs.stays_bind [of "\<lambda>_. True"])
      (auto intro!: before_ops before_runs.stays_ret before_runs.stays_bind [OF before_runs.stays_for_each [OF inventory_error_before]])
  show ?thesis
  proof (cases "persisted_run_ids (h_root h)")
    case (Inl e)
    then have "listed_runs h = []" by (auto simp: persisted_run_ids_def listed_runs_def split: root_view.splits prod.splits)
    with Inl show ?thesis
      by (auto simp: recover_inventory_def intro!: before_runs.stays_throw before_runs.stays_ret
          before_runs.stays_bind [OF before_ops(1)] before_runs.stays_bind [OF before_ops(2)])
  next
    case (Inr p)
    obtain rs es where p: "p = (rs, es)" by fastforce
    have "rs = listed_runs h" using Inr p by (auto simp: persisted_run_ids_def listed_runs_def split: root_view.splits prod.splits)
    then show ?thesis using listed [of rs es] by (simp only: recover_inventory_def Inr p sum.case prod.case)
  qed
qed

lemma errors_blocked: "for_each (inventory_error h) es w = (w', Inr u) \<Longrightarrow> blockers w' = [] \<Longrightarrow> es = []"
proof (cases es)
  case (Cons e es')
  assume run: "for_each (inventory_error h) es w = (w', Inr u)" and none: "blockers w' = []"
  then obtain w1 where "inventory_error h e w = (w1, Inr ())" "for_each (inventory_error h) es' w1 = (w', Inr u)"
    by (auto simp: Cons result_simps)
  moreover from this(1) have "blockers w1 \<noteq> []"
    by (auto simp: inventory_error_def bind_o_def add_blocker_def block_run_def modify_s_def ret_def split: if_splits)
  moreover have "before_runs.stays_any (for_each (inventory_error h) es')"
    by (intro before_runs.stays_for_each inventory_error_before)
  ultimately show ?thesis using none unfolding before_runs.stays_def by (metis fst_conv)
qed simp

lemma inventory_only_runs:
  assumes "recover_inventory h w = (w', Inr rs)" "blockers w' = []"
  shows "only_runs h"
proof (cases "persisted_run_ids (h_root h)")
  case (Inl e)
  with assms show ?thesis
    by (auto simp: recover_inventory_def bind_o_def distrust_def add_blocker_def modify_s_def ret_def throw_def split: if_splits)
next
  case (Inr p)
  then obtain w1 where "for_each (inventory_error h) (snd p) w1 = (w', Inr ())"
    using assms(1) by (auto simp: recover_inventory_def result_simps split: prod.splits)
  then have "snd p = []" using assms(2) by (rule errors_blocked)
  with Inr show ?thesis using scan_clean
    by (auto simp: persisted_run_ids_def only_runs_def split: root_view.splits prod.splits)
qed

text \<open>The units: nothing but the result changes.\<close>

interpretation unit_step: step_relation "\<lambda>w w' :: rec_world.
    w_disk w' = w_disk w \<and> recovered_run_ids w' = recovered_run_ids w \<and> unit_bindings w' = unit_bindings w \<and>
    trustworthy w' = trustworthy w \<and> (stray_units w' = stray_units w \<or> blockers w' \<noteq> []) \<and>
    (blockers w' = [] \<longrightarrow> blockers w = [] \<and> blocked_ids w' = blocked_ids w)"
  by unfold_locales auto

lemma recover_unit_steps: "unit_step.stays_any (recover_unit h u)"
  by (auto simp: unit_step.stays_def recover_unit_def bind_o_def get_s_def stray_def add_blocker_def block_run_def modify_s_def ret_def
      split: option.split)

lemma recover_units_steps: "unit_step.stays_any (recover_units h)"
proof (cases "h_units h")
  case None
  then show ?thesis
    by (auto simp: unit_step.stays_def recover_units_def bind_o_def add_blocker_def modify_s_def)
qed (simp add: recover_units_def unit_step.stays_for_each recover_unit_steps)

definition unit_gone :: "rec_host \<Rightarrow> (string \<times> string) list \<Rightarrow> string \<Rightarrow> bool" where
  "unit_gone h bindings u = (map_of bindings u = None \<and> h_orphan h u = (NOT_RUNNING, True))"

lemma recover_unit_gone:
  assumes "recover_unit h u w = (w', q)" "blockers w' = []" "blockers w = [] \<longrightarrow> blocked_ids w = []"
  shows "unit_gone h (unit_bindings w') u"
  using assms
  by (auto simp: recover_unit_def unit_gone_def bind_o_def get_s_def stray_def add_blocker_def block_run_def modify_s_def ret_def
      split: option.splits if_splits)

lemma recover_each_unit_gone:
  assumes "for_each (recover_unit h) us w = (w', Inr x)" "blockers w' = []" "blockers w = [] \<longrightarrow> blocked_ids w = []"
  shows "\<forall>u \<in> set us. unit_gone h (unit_bindings w') u"
  using assms
proof (induction us arbitrary: w)
  case (Cons u us)
  then obtain w1 y where one: "recover_unit h u w = (w1, Inr y)" and rest: "for_each (recover_unit h) us w1 = (w', Inr x)"
    by (auto simp: result_simps)
  have "unit_step.stays_any (for_each (recover_unit h) us)"
    by (intro unit_step.stays_for_each recover_unit_steps)
  then have "blockers w1 = [] \<and> unit_bindings w' = unit_bindings w1"
    using rest Cons.prems(2) unfolding unit_step.stays_def by (metis fst_conv)
  moreover have "blockers w1 = [] \<longrightarrow> blocked_ids w1 = []"
    using recover_unit_steps [of h u, unfolded unit_step.stays_def, rule_format, of w] one Cons.prems(3) by simp
  ultimately show ?case using recover_unit_gone [OF one _ Cons.prems(3)] Cons.IH [OF rest Cons.prems(2)] by simp
qed simp

lemma recover_units_gone:
  assumes "recover_units h w = (w', Inr x)" "blockers w' = []" "blockers w = [] \<longrightarrow> blocked_ids w = []"
  shows "\<exists>units. h_units h = Some units \<and> (\<forall>u \<in> set units. unit_gone h (unit_bindings w') u)"
proof (cases "h_units h")
  case None
  with assms show ?thesis by (auto simp: recover_units_def bind_o_def add_blocker_def modify_s_def)
next
  case (Some units)
  then have "for_each (recover_unit h) (sort (remdups units)) w = (w', Inr x)" using assms(1) by (simp add: recover_units_def)
  from recover_each_unit_gone [OF this assms(2,3)] Some show ?thesis by simp
qed

lemma start_scanned:
  assumes "before_runs.stays_any m" "m (new_recovery disk ids) = (w, q)"
  shows "scanned env h boot disk ids [] w"
proof -
  have "w_disk w = disk \<and> w_ids w = ids \<and> recovered_run_ids w = [] \<and> stray_units w = [] \<and> (blockers w = [] \<longrightarrow> blocked_ids w = [])"
    using assms(1) [unfolded before_runs.stays_def, rule_format, of "new_recovery disk ids"] assms(2) by (simp add: new_recovery_def)
  then show ?thesis by (auto simp: scanned_def sound_disk_def may_become_def)
qed

lemma scanned_sound: "scanned env h boot disk ids seen w \<Longrightarrow> sound_disk env h boot disk ids w"
  by (simp add: scanned_def)

lemma units_sound:
  "recover_units h w = (w', q) \<Longrightarrow> sound_disk env h boot disk ids w \<Longrightarrow> sound_disk env h boot disk ids w'"
  using recover_units_steps [of h, unfolded unit_step.stays_def, rule_format, of w] by (simp add: sound_disk_def)

definition before_all :: "rec_host \<Rightarrow> (string \<times> string list) rec_op" where
  "before_all h = bind_o (recover_boot h) (\<lambda>boot. bind_o (recover_inventory h) (\<lambda>rs. ret (boot, rs)))"

lemma before_all_steps: "before_runs.stays (\<lambda>(boot, rs). boot = boot_of h \<and> rs = listed_runs h) (before_all h)"
  unfolding before_all_def
  by (rule before_runs.stays_bind [OF recover_boot_before], rule before_runs.stays_bind [OF recover_inventory_before],
      rule before_runs.stays_ret) simp

lemma recover_startup_split:
  "recover_startup env h = bind_o (before_all h) (\<lambda>(boot, rs). bind_o (for_each (recover_run_guarded env h boot) rs) (\<lambda>_. recover_units h))"
  by (rule ext) (simp add: recover_startup_def before_all_def bind_o_def ret_def split: prod.split sum.split)

interpretation grow_step: step_relation "\<lambda>w w' :: rec_world. blockers w' = [] \<longrightarrow> blockers w = []"
  by unfold_locales auto

lemma guarded_grows: "grow_step.stays_any (recover_run_guarded env h boot r)"
  unfolding grow_step.stays_def
proof (intro allI conjI impI TrueI)
  fix w assume none: "blockers (fst (recover_run_guarded env h boot r w)) = []"
  have "touches r w (fst (recover_run_guarded env h boot r w))"
    using guarded_touches by (rule run_step.stays_step) (rule surjective_pairing)
  with none show "blockers w = []" by (auto simp: touches_def)
qed

text \<open>The stages of a startup: sound whatever fails; and when all of them end without a blocker,
  every Run was looked at and every unit is gone.\<close>

lemma startup_sound:
  assumes "recover_startup env h (new_recovery disk ids) = (w, q)" "names_distinct h"
  shows "sound_disk env h (boot_of h) disk ids w"
proof -
  obtain w1 p where before: "before_all h (new_recovery disk ids) = (w1, p)" by fastforce
  have steps: "before_runs.stays_any (before_all h)" by (rule before_runs.stays_weaken [OF before_all_steps]) simp
  note start = start_scanned [OF steps before, of env h "boot_of h"]
  show ?thesis
  proof (cases p)
    case (Inl e)
    then show ?thesis using assms(1) before scanned_sound [OF start] by (simp add: recover_startup_split bind_o_def)
  next
    case (Inr x)
    then have x: "x = (boot_of h, listed_runs h)"
      using before_runs.stays_value [OF before_all_steps before [unfolded Inr]] by (simp add: case_prod_beta prod_eq_iff)
    obtain w2 p2 where loop: "for_each (recover_run_guarded env h (boot_of h)) (listed_runs h) w1 = (w2, p2)" by fastforce
    have names: "distinct ([] @ listed_runs h)" "\<forall>r \<in> set (listed_runs h). safe_name r" using listed_names [OF assms(2)] by simp_all
    note sound = runs_scanned(1) [OF start names loop]
    show ?thesis
      using assms(1) before Inr x loop sound units_sound [OF _ sound] by (cases p2) (auto simp: recover_startup_split bind_o_def)
  qed
qed

lemma startup_clear:
  assumes run: "recover_startup env h (new_recovery disk ids) = (w, Inr u)" and clear: "blockers w = []" and names: "names_distinct h"
  shows "only_runs h" "\<forall>r \<in> set (listed_runs h). cleared env ids w r"
    "\<exists>units. h_units h = Some units \<and> (\<forall>u \<in> set units. unit_gone h (unit_bindings w) u)"
proof -
  obtain w1 w2 w3 boot rs where boot: "recover_boot h (new_recovery disk ids) = (w1, Inr boot)"
      and inv: "recover_inventory h w1 = (w2, Inr rs)" and loop: "for_each (recover_run_guarded env h boot) rs w2 = (w3, Inr ())"
      and units: "recover_units h w3 = (w, Inr u)"
    using run unfolding recover_startup_def by (auto simp: result_simps)
  have before: "before_all h (new_recovery disk ids) = (w2, Inr (boot, rs))"
    using boot inv by (simp add: before_all_def result_simps)
  then have x: "boot = boot_of h" "rs = listed_runs h"
    using before_runs.stays_value [OF before_all_steps before] by simp_all
  have steps: "before_runs.stays_any (before_all h)" by (rule before_runs.stays_weaken [OF before_all_steps]) simp
  have dist: "distinct ([] @ listed_runs h)" "\<forall>r \<in> set (listed_runs h). safe_name r" using listed_names [OF names] by simp_all
  note scan = runs_scanned(2) [OF start_scanned [OF steps before] dist loop [unfolded x] refl, unfolded append_Nil]
  have unit: "w_disk w = w_disk w3" "unit_bindings w = unit_bindings w3" "blockers w3 = []"
    using recover_units_steps [of h, unfolded unit_step.stays_def, rule_format, of w3] units clear by auto
  have "\<forall>r \<in> set (listed_runs h). cleared env ids w3 r" using scan unit(3) by (simp add: scanned_def)
  then show "\<forall>r \<in> set (listed_runs h). cleared env ids w r" by (simp add: cleared_def unit_known_def unit)
  have "grow_step.stays_any (for_each (recover_run_guarded env h boot) rs)"
    by (intro grow_step.stays_for_each guarded_grows)
  then have "blockers w2 = []" using loop unit(3) unfolding grow_step.stays_def by (metis fst_conv)
  then show "only_runs h" by (rule inventory_only_runs [OF inv])
  show "\<exists>units. h_units h = Some units \<and> (\<forall>u \<in> set units. unit_gone h (unit_bindings w) u)"
    using scan unit(3) by (intro recover_units_gone [OF units clear]) (simp add: scanned_def)
qed

section \<open>A concrete startup\<close>

definition sample_contained :: containment where
  "sample_contained = \<lparr>c_raised = None, c_status = UNVERIFIABLE, c_gone = False, c_resource = JNull, c_file = (\<lambda>f. f)\<rparr>"

definition sample_host :: rec_host where
  "sample_host = \<lparr>h_boot = ReadOk sample_boot, h_root = RootListed [(''run-1'', OpenedRun ManifestPresent)],
     h_lock = (\<lambda>_. None), h_file = (\<lambda>_. None), h_path = (\<lambda>_. ''/w/run-1''), h_save = (\<lambda>_ _. Written), h_log = (\<lambda>_. True),
     h_unlink = (\<lambda>_. Written), h_history = (\<lambda>_. \<lparr>hv_logs = DirAbsent, hv_commands = DirAbsent, hv_scan_ok = True, hv_entries = 0\<rparr>),
     h_contain = (\<lambda>_. sample_contained), h_proc = (\<lambda>_. sample_view), h_signal = (\<lambda>_ _. sample_view),
     h_proc_end = (\<lambda>_. sample_view), h_group = (\<lambda>_. sample_group), h_units = Some [''debbuilder-command-a.service''],
     h_orphan = (\<lambda>_. (NOT_RUNNING, True)), h_time = (\<lambda>_ _. ''2026-01-02T00:00:00+00:00''), h_text = (\<lambda>_ _. ''no command began'')\<rparr>"

lemmas sample_host_simps = sample_host_def rec_host.simps

lemma sample_names: "names_distinct sample_host" "speaks sample_host" "listed_runs sample_host = [''run-1'']"
  by (simp_all add: names_distinct_def speaks_def listed_runs_def sample_host_def safe_name_def char_defs)

lemma sample_pending:
  obtains c where "run_wf sample_env c" "jget c ''id'' = JStr ''run-1''" "jget c ''status'' = JStr ''pending''"
    "jget c ''workspace'' = JStr ''/w/run-1''" "has_key c ''workspace''" "jget c ''events'' = JArr []" "has_key c ''events''"
    "jget c ''publications'' = JNull" "jget c ''recovery'' = JNull" "no_command_could_have_started c (h_history sample_host ''run-1'')"
proof -
  from sample_run obtain c where made: "new_run sample_env ''2026-01-01T00:00:00+00:00'' 0 ''run-1'' ''app'' ''build'' ''/w/run-1''
     (replicate 64 CHR ''a'') JNull JNull JNull JNull = Inr c" ..
  obtain steps limits o' a m sha where steps: "map_r new_step STEP_NAMES = Inr steps"
    and c: "c = [
          (''schema_version'', JInt 4), (''id'', JStr ''run-1''), (''recipe_id'', JStr ''app''),
          (''recipe_sha256'', JStr (replicate 64 CHR ''a'')), (''mode'', JStr ''build''), (''status'', JStr ''pending''),
          (''created_at'', JStr ''2026-01-01T00:00:00+00:00''), (''created_at_epoch'', JFloat 0), (''started_at'', JNull),
          (''finished_at'', JNull), (''duration'', JNull), (''workspace'', JStr ''/w/run-1''),
          (''version'', JObj [(''upstream'', JStr []), (''debian'', JStr [])]),
          (''steps'', JArr steps), (''artifact'', JNull), (''toolchain'', JNull), (''error'', JNull),
          (''events'', JArr []), (''resource_limits'', limits), (''origin'', o'),
          (''automation'', a), (''manual_source_provenance'', m), (''admission_sha256'', JStr sha)]"
    using made unfolding new_run_def by (elim if_Inl_InrE) (auto elim!: bind_r_InrE)
  have "list_all untouched_step steps"
    using steps by (auto simp: STEP_NAMES_def new_step_def untouched_step_def jget_def)
  then have "no_command_could_have_started c (h_history sample_host ''run-1'')"
    by (simp add: no_command_could_have_started_def c jget_def steps_of_def command_history_exists_def sample_host_def)
  with new_run_wf [OF made] show ?thesis by (intro that [of c]) (simp_all add: c jget_def has_key_def)
qed

lemma save_run_written:
  assumes "run_wf env x" "jget x ''id'' = JStr r" "safe_name r" "h_save h r p = Written"
  shows "\<exists>d. save_run env h r p x w = (w\<lparr>w_disk := d\<rparr>, Inr ()) \<and> stored_run env d r = Some x"
proof -
  let ?io = "\<lparr>lock_ok = True, read_ok = True, write_outcome = h_save h r p\<rparr>"
  note eff = save_stored(1,2,4) [OF assms(1-3), where disk = "w_disk w"]
  have "save env ?io x (w_disk w) = (fst (save env ?io x (w_disk w)), Inr ())"
    using eff(3) [of ?io] assms(4) by (simp add: prod_eq_iff)
  moreover have "stored_run env (fst (save env ?io x (w_disk w))) r = Some x"
    using eff(1) [of ?io] eff(2) assms(4) by simp
  moreover have "snd (save env ?io x (w_disk w)) = Inr ()" using eff(3) [of ?io] assms(4) by simp
  ultimately show ?thesis
    by (intro exI [of _ "fst (save env ?io x (w_disk w))"]) (simp add: save_run_def case_prod_beta)
qed

text \<open>The pending Run is marked failed, the unit is gone, and nothing blocks admission.\<close>

lemma sample_startup:
  obtains disk c w where "disk_wf sample_env disk" "stored_run sample_env disk ''run-1'' = Some c" "jget c ''status'' = JStr ''pending''"
    "recover_startup sample_env sample_host (new_recovery disk (\<lambda>_. NoIdentity)) = (w, Inr ())"
    "recovered_run_ids w = [''run-1'']" "\<not> admission_blocked w"
proof -
  obtain c where c: "run_wf sample_env c" "jget c ''id'' = JStr ''run-1''" "jget c ''status'' = JStr ''pending''"
    "jget c ''workspace'' = JStr ''/w/run-1''" "has_key c ''workspace''" "jget c ''events'' = JArr []" "has_key c ''events''"
    "jget c ''publications'' = JNull" "jget c ''recovery'' = JNull" "no_command_could_have_started c (h_history sample_host ''run-1'')"
    by (rule sample_pending)
  let ?disk = "[''run-1'' \<mapsto> \<lparr>plain_dir = True, run_file = Parsed (JObj c)\<rparr>]"
  have safe: "safe_name ''run-1''" by (simp add: safe_name_def char_defs)
  have valid: "validate_run sample_env (JObj c) = Inr c" using c(1) by (rule validate_run_fixed)
  have stored: "stored_run sample_env ?disk ''run-1'' = Some c" by (simp add: stored_run_def valid)
  have dwf: "disk_wf sample_env ?disk" using c(2) safe valid by (auto simp: disk_wf_def stored_run_def split: if_splits)
  let ?w = "new_recovery ?disk (\<lambda>_. NoIdentity)"
  have boot: "recover_boot sample_host w = (w, Inr sample_boot)" for w
  proof -
    have "read_boot_id (ReadOk sample_boot) = Inr sample_boot" by code_simp
    then show ?thesis by (simp add: recover_boot_def sample_host_def ret_def)
  qed
  have inv: "recover_inventory sample_host w = (w, Inr [''run-1''])" for w
    by (simp add: recover_inventory_def persisted_run_ids_def sample_host_def safe bind_o_def ret_def)
  have read: "read_locked_run sample_env sample_host ''run-1'' ?disk = Inr c"
    using c(2,4,5) by (simp add: read_locked_run_def sample_host_def valid)
  let ?new = "interrupted_run sample_env sample_host ''run-1'' ''none'' ''no command began'' JNull c"
  note new = interrupted_run_ok [OF c(1), of sample_host "''run-1''" "''none''" "''no command began''" JNull]
  obtain x where x: "add_event (event (h_time sample_host ''run-1'' 2) ''Interrupted execution reconciled during startup; Run marked failed.'') ?new = Inr x"
    using new(2) c(6,7) by (simp add: add_event_def interrupted_run_def Let_def)
  have xok: "run_wf sample_env x" "jget x ''id'' = JStr ''run-1''"
    using add_event_ok(1) [OF x new(1)] add_event_id [OF x] c(2) by (simp_all add: interrupted_run_id)
  let ?w1 = "?w\<lparr>processed_run_ids := [''run-1'']\<rparr>"
  obtain d where save: "save_run sample_env sample_host ''run-1'' TerminalSave x ?w1 = (?w1\<lparr>w_disk := d\<rparr>, Inr ())"
    using save_run_written [OF xok safe, of sample_host TerminalSave ?w1] by (auto simp: sample_host_def)
  let ?w2 = "?w1\<lparr>w_disk := d, recovered_run_ids := [''run-1'']\<rparr>"
  have ends: "terminalize_interrupted sample_env sample_host ''run-1'' ''none'' NeverBegan JNull c ?w1 = (?w1\<lparr>w_disk := d\<rparr>, Inr ())"
  proof -
    have "h_text sample_host ''run-1'' NeverBegan = ''no command began''" by (simp add: sample_host_def)
    then show ?thesis by (simp add: terminalize_interrupted_def bind_o_def lift_r_def x save)
  qed
  have active: "recover_active sample_env sample_host sample_boot ''run-1'' None c ?w = (?w2, Inr ())"
    using ends by (simp add: recover_active_def c(10) bind_o_def process_run_def mark_recovered_def modify_s_def new_recovery_def)
  have run: "recover_run sample_env sample_host sample_boot ''run-1'' ?w = (?w2, Inr ())"
  proof -
    have "w_disk ?w = ?disk" "w_ids ?w ''run-1'' = NoIdentity" by (simp_all add: new_recovery_def)
    moreover have "read_identity_of ''run-1'' NoIdentity = Inr None"
      by (simp add: read_identity_of_def read_persisted_identity_def)
    moreover have "recover_publications sample_env sample_host ''run-1'' c w = (w, Inr c)" for w
      by (simp add: recover_publications_def publications_def c(8) bind_o_def lift_r_def ret_def)
    moreover have "str_or sample_env (jget c ''status'') [] = ''pending''" by (simp add: c(3))
    ultimately show ?thesis
      using active read
      by (simp add: recover_run_def bind_o_def get_s_def lift_r_def ret_def bind_unit_def RUN_STATUSES_def NON_TERMINAL_STATUSES_def)
  qed
  have guarded: "recover_run_guarded sample_env sample_host sample_boot ''run-1'' ?w = (?w2, Inr ())"
    by (simp add: recover_run_guarded_def attempt_def bind_o_def ret_def run)
  let ?w3 = "?w2\<lparr>reconciled_orphan_units := [''debbuilder-command-a.service'']\<rparr>"
  have units: "recover_units sample_host ?w2 = (?w3, Inr ())"
    by (simp add: recover_units_def sample_host_def recover_unit_def bind_o_def get_s_def ret_def modify_s_def new_recovery_def)
  have "recover_startup sample_env sample_host ?w = (?w3, Inr ())"
    by (simp add: recover_startup_def bind_o_def boot inv guarded units ret_def)
  from that [OF dwf stored c(3) this] show ?thesis by (simp add: admission_blocked_def new_recovery_def)
qed

section \<open>Properties\<close>

lemma disk_wf_holds: "disk_wf env disk \<Longrightarrow> stored_run env disk r = Some run \<longleftrightarrow> holds env r run disk"
  by (auto simp: disk_wf_def holds_def)

lemma sound_disk_wf:
  assumes "sound_disk env h boot disk ids w" "disk_wf env disk"
  shows "disk_wf env (w_disk w)"
    "stored_run env disk r = Some old \<Longrightarrow> \<exists>new. stored_run env (w_disk w) r = Some new \<and> may_become h boot r (ids r) old new"
    "stored_run env disk r = None \<Longrightarrow> stored_run env (w_disk w) r = None"
proof -
  have some: "\<exists>y. holds env r y (w_disk w) \<and> may_become h boot r (ids r) old y" if "stored_run env disk r = Some old" for r old
    using assms that by (simp add: sound_disk_def disk_wf_holds)
  have none: "w_disk w r = disk r" if "stored_run env disk r = None" for r
  proof -
    have "\<not> holds env r old disk" for old using that by (simp add: holds_def)
    then show ?thesis using assms(1) by (simp add: sound_disk_def)
  qed
  show "stored_run env disk r = Some old \<Longrightarrow> \<exists>new. stored_run env (w_disk w) r = Some new \<and> may_become h boot r (ids r) old new"
    using some [of r old] by (auto simp: holds_def)
  show "stored_run env disk r = None \<Longrightarrow> stored_run env (w_disk w) r = None"
    using none [of r] stored_cong [of "w_disk w" r disk] by simp
  show "disk_wf env (w_disk w)"
    unfolding disk_wf_def
  proof (intro allI impI)
    fix x run assume now: "stored_run env (w_disk w) x = Some run"
    then obtain old where old: "stored_run env disk x = Some old"
      using none [of x] stored_cong [of "w_disk w" x disk] by (cases "stored_run env disk x") auto
    then have "safe_name x" using assms(2) by (simp add: disk_wf_def)
    then show "jget run ''id'' = JStr x \<and> safe_name x" using some [OF old] now by (auto simp: holds_def)
  qed
qed

text \<open>C8: startup recovery keeps every stored Run a valid Run of its directory, whatever lock,
  read, write, listing or verdict fails and whatever exception ends it: no Run appears or vanishes, and
  in the ones that are rewritten every field is as before except the publications, events and recovery
  record and the five lifecycle fields (status, steps, finish time, duration, error).\<close>

theorem recovery_documents_stay_valid:
  assumes "disk_wf env disk" "names_distinct h" "recover_startup env h (new_recovery disk ids) = (w, q)"
  shows "disk_wf env (w_disk w) \<and>
    (\<forall>r. (stored_run env (w_disk w) r = None) = (stored_run env disk r = None)) \<and>
    (\<forall>r old new. stored_run env disk r = Some old \<longrightarrow> stored_run env (w_disk w) r = Some new \<longrightarrow>
       run_wf env new \<and> kept (RECOVERY_FIELDS @ LIFECYCLE_FIELDS) old new)"
proof (intro conjI allI impI)
  note sound = sound_disk_wf [OF startup_sound [OF assms(3,2)] assms(1)]
  show "disk_wf env (w_disk w)" by (rule sound(1))
  show "(stored_run env (w_disk w) r = None) = (stored_run env disk r = None)" for r
    using sound(2,3) [of r] by (cases "stored_run env disk r") auto
  fix r old new
  assume old: "stored_run env disk r = Some old" and new: "stored_run env (w_disk w) r = Some new"
  show "run_wf env new" using new by (rule stored_wf)
  show "kept (RECOVERY_FIELDS @ LIFECYCLE_FIELDS) old new"
    using sound(2) [OF old] new by (auto simp: may_become_def kept_def)
qed

text \<open>C7: startup recovery marks a Run failed only when the Run had not ended and the absence of
  its command is proved: there is no command record and the Run and its history show that no command
  began, or the record is of another boot (and not of a systemd unit), or systemd reports the unit gone
  and not running.  Every other Run keeps its status, steps, times and error, whatever fails.\<close>

theorem recovery_fails_only_absent:
  assumes "disk_wf env disk" "names_distinct h" "recover_startup env h (new_recovery disk ids) = (w, q)"
    and "stored_run env disk r = Some old" "stored_run env (w_disk w) r = Some new"
  shows "kept RECOVERY_FIELDS old new \<or>
    \<not> finished old \<and> jget new ''status'' = JStr ''failed'' \<and> proved_absent h (boot_of h) r (ids r) old"
  using sound_disk_wf(2) [OF startup_sound [OF assms(3,2)] assms(1,4)] assms(5) by (auto simp: may_become_def)

text \<open>C6: when startup recovery ends without a blocker, so that Runs may be admitted, every entry
  of the Run directory is a Run, every one of them is stored, has ended and has no publication that still
  runs, and every loaded command unit is proved gone and is not the unit of any of these Runs.\<close>

theorem unblocked_startup_is_settled:
  assumes "names_distinct h" "recover_startup env h (new_recovery disk ids) = (w, Inr u)" "\<not> admission_blocked w"
  shows "only_runs h \<and>
    (\<forall>r \<in> set (listed_runs h). \<exists>run. stored_run env (w_disk w) r = Some run \<and> finished run \<and> publications_settled run) \<and>
    (\<exists>units. h_units h = Some units \<and> (\<forall>u \<in> set units. h_orphan h u = (NOT_RUNNING, True) \<and>
       (\<forall>r \<in> set (listed_runs h). \<forall>i. read_identity_of r (ids r) = Inr (Some i) \<longrightarrow>
          jget i ''backend'' = JStr ''systemd_cgroup'' \<longrightarrow> jget i ''unit_name'' \<noteq> JStr u)))"
proof (intro conjI ballI)
  have clear: "blockers w = []" using assms(3) by (simp add: admission_blocked_def)
  note clean = startup_clear [OF assms(2) clear assms(1)]
  show "only_runs h" by (rule clean(1))
  show "\<exists>run. stored_run env (w_disk w) r = Some run \<and> finished run \<and> publications_settled run" if "r \<in> set (listed_runs h)" for r
    using clean(2) that by (auto simp: cleared_def holds_def)
  obtain units where units: "h_units h = Some units" "\<forall>u \<in> set units. unit_gone h (unit_bindings w) u" using clean(3) by blast
  have "jget i ''unit_name'' \<noteq> JStr u"
    if "u \<in> set units" "r \<in> set (listed_runs h)" "read_identity_of r (ids r) = Inr (Some i)" "jget i ''backend'' = JStr ''systemd_cgroup''" for u r i
  proof
    assume "jget i ''unit_name'' = JStr u"
    then have "(u, r) \<in> set (unit_bindings w)" using clean(2) that(2-4) by (auto simp: cleared_def unit_known_def)
    moreover have "map_of (unit_bindings w) u = None" using units(2) that(1) by (simp add: unit_gone_def)
    ultimately show False by (force simp: map_of_eq_None_iff)
  qed
  with units show "\<exists>units. h_units h = Some units \<and> (\<forall>u \<in> set units. h_orphan h u = (NOT_RUNNING, True) \<and>
       (\<forall>r \<in> set (listed_runs h). \<forall>i. read_identity_of r (ids r) = Inr (Some i) \<longrightarrow>
          jget i ''backend'' = JStr ''systemd_cgroup'' \<longrightarrow> jget i ''unit_name'' \<noteq> JStr u))"
    unfolding unit_gone_def by blast
qed

text \<open>C9: every Run that startup recovery reports as recovered is stored as failed, with a
  recovery record that the cleanup of workspaces accepts: unless cleanup is blocked as a whole, the Run
  may be cleaned.\<close>

theorem recovered_runs_may_be_cleaned:
  assumes "names_distinct h" "speaks h" "recover_startup env h (new_recovery disk ids) = (w, q)" "r \<in> set (recovered_run_ids w)"
  shows "\<exists>run. stored_run env (w_disk w) r = Some run \<and> jget run ''status'' = JStr ''failed'' \<and>
    (\<forall>g. \<not> global_blocker g \<longrightarrow> require_run g run = Inr ())"
  using startup_sound [OF assms(3,1)] assms(2,4)
  by (auto simp: sound_disk_def recovered_ok_def holds_def require_run_ok)


theorem recovery_documents_stay_valid_witness:
  "\<exists>disk w. disk_wf sample_env (w_disk w) \<and> stored_run sample_env (w_disk w) ''run-1'' \<noteq> None \<and>
     recover_startup sample_env sample_host (new_recovery disk (\<lambda>_. NoIdentity)) = (w, Inr ())"
proof -
  obtain disk c w where s: "disk_wf sample_env disk" "stored_run sample_env disk ''run-1'' = Some c"
    "recover_startup sample_env sample_host (new_recovery disk (\<lambda>_. NoIdentity)) = (w, Inr ())"
    by (rule sample_startup)
  from recovery_documents_stay_valid [OF s(1) sample_names(1) s(3)] s(2,3) show ?thesis by (intro exI [of _ disk] exI [of _ w]) simp
qed

theorem recovery_fails_only_absent_witness:
  "\<exists>disk old new w. recover_startup sample_env sample_host (new_recovery disk (\<lambda>_. NoIdentity)) = (w, Inr ()) \<and>
     stored_run sample_env disk ''run-1'' = Some old \<and> stored_run sample_env (w_disk w) ''run-1'' = Some new \<and>
     jget new ''status'' \<noteq> jget old ''status'' \<and> proved_absent sample_host (boot_of sample_host) ''run-1'' NoIdentity old"
proof -
  obtain disk c w where s: "disk_wf sample_env disk" "stored_run sample_env disk ''run-1'' = Some c" "jget c ''status'' = JStr ''pending''"
    "recover_startup sample_env sample_host (new_recovery disk (\<lambda>_. NoIdentity)) = (w, Inr ())" "recovered_run_ids w = [''run-1'']"
    by (rule sample_startup)
  have "sound_disk sample_env sample_host (boot_of sample_host) disk (\<lambda>_. NoIdentity) w" using s(4) sample_names(1) by (rule startup_sound)
  then obtain new where new: "stored_run sample_env (w_disk w) ''run-1'' = Some new" "jget new ''status'' = JStr ''failed''"
    using s(5) by (auto simp: sound_disk_def holds_def recovered_ok_def)
  from recovery_fails_only_absent [OF s(1) sample_names(1) s(4) s(2) new(1)] s(3) new(2)
  have "proved_absent sample_host (boot_of sample_host) ''run-1'' NoIdentity c"
    by (auto dest: kept_status)
  with s new show ?thesis by (intro exI [of _ disk] exI [of _ c] exI [of _ new] exI [of _ w]) simp
qed

theorem unblocked_startup_is_settled_witness:
  "\<exists>disk w run. recover_startup sample_env sample_host (new_recovery disk (\<lambda>_. NoIdentity)) = (w, Inr ()) \<and>
     stored_run sample_env (w_disk w) ''run-1'' = Some run \<and> finished run \<and>
     h_orphan sample_host ''debbuilder-command-a.service'' = (NOT_RUNNING, True)"
proof -
  obtain disk w where s: "recover_startup sample_env sample_host (new_recovery disk (\<lambda>_. NoIdentity)) = (w, Inr ())" "\<not> admission_blocked w"
    by (rule sample_startup)
  note settled = unblocked_startup_is_settled [OF sample_names(1) s]
  obtain run where "stored_run sample_env (w_disk w) ''run-1'' = Some run" "finished run"
    using settled by (auto simp: sample_names)
  moreover have "h_orphan sample_host ''debbuilder-command-a.service'' = (NOT_RUNNING, True)"
    using settled by (auto simp: sample_host_def)
  ultimately show ?thesis using s(1) by blast
qed

theorem recovered_runs_may_be_cleaned_witness:
  "\<exists>disk w run. recover_startup sample_env sample_host (new_recovery disk (\<lambda>_. NoIdentity)) = (w, Inr ()) \<and>
     stored_run sample_env (w_disk w) ''run-1'' = Some run \<and> require_run quiet_host run = Inr ()"
proof -
  obtain disk w where s: "recover_startup sample_env sample_host (new_recovery disk (\<lambda>_. NoIdentity)) = (w, Inr ())"
    "recovered_run_ids w = [''run-1'']" by (rule sample_startup)
  have "''run-1'' \<in> set (recovered_run_ids w)" using s(2) by simp
  note clean = recovered_runs_may_be_cleaned [OF sample_names(1,2) s(1) this]
  have "\<not> global_blocker quiet_host" by (simp add: quiet_host_def)
  with clean obtain run where "stored_run sample_env (w_disk w) ''run-1'' = Some run" "require_run quiet_host run = Inr ()"
    by auto
  with s(1) show ?thesis by (intro exI [of _ disk] exI [of _ w] exI [of _ run]) simp
qed

end
