(* ===== verification/Archive_Payload.thy ===== *)
theory Archive_Payload
  imports Run_Document Posix_Paths
begin

text \<open>
  \<^verbatim>\<open>src/debbuilder/archive_payload.py\<close>: the selection of files of an archive.  A selector is a
  file, or a directory with everything below it; the canonical list of selectors has no
  duplicates, nothing below a selected directory, and is sorted.
\<close>

section \<open>Paths\<close>

record archive_path =
  path_value :: string
  path_parts :: "string list"
  is_directory :: bool

text \<open>\<^verbatim>\<open>unicodedata.category(c) == "Cc"\<close> on code points below 256.\<close>

definition is_cc :: "char \<Rightarrow> bool" where
  "is_cc c = (cord c < 32 \<or> in_range 127 159 c)"

definition drive_prefix :: "string \<Rightarrow> bool" where
  "drive_prefix s = (case s of c # d # e # _ \<Rightarrow> (is_upper c \<or> is_lower c) \<and> d = CHR '':'' \<and> e = CHR ''/'' | _ \<Rightarrow> False)"

definition parse_archive_path :: "string \<Rightarrow> archive_path result" where
  "parse_archive_path s =
     (if s = [] then Inl val_err
      else if list_ex is_cc s then Inl val_err
      else if CHR 0x5C \<in> set s then Inl val_err
      else if starts_with ''/'' s then Inl val_err
      else if drive_prefix s then Inl val_err
      else
        let directory = ends_with ''/'' s; path = (if directory then butlast s else s) in
        if path = [] \<or> ends_with ''/'' path then Inl val_err
        else
          let parts = split_slash path in
          if [] \<in> set parts then Inl val_err
          else if ''.'' \<in> set parts \<or> ''..'' \<in> set parts then Inl val_err
          else Inr \<lparr>path_value = s, path_parts = parts, is_directory = directory\<rparr>)"

fun parse_path_json :: "json \<Rightarrow> archive_path result" where
  "parse_path_json (JStr s) = parse_archive_path s"
| "parse_path_json _ = Inl val_err"

section \<open>Selection\<close>

definition selector_matches :: "archive_path \<Rightarrow> archive_path \<Rightarrow> bool" where
  "selector_matches selected path =
     (if \<not> is_directory selected then \<not> is_directory path \<and> path_parts selected = path_parts path
      else if take (length (path_parts selected)) (path_parts path) \<noteq> path_parts selected then False
      else length (path_parts path) > length (path_parts selected) \<or> is_directory path)"

definition selectors_match :: "archive_path list \<Rightarrow> archive_path \<Rightarrow> bool" where
  "selectors_match selectors path = list_ex (\<lambda>selector. selector_matches selector path) selectors"

text \<open>\<^verbatim>\<open>kinds_by_parts\<close>: one list of components cannot be a file and a directory.\<close>

fun check_kinds :: "(string list \<rightharpoonup> bool) \<Rightarrow> archive_path list \<Rightarrow> unit result" where
  "check_kinds kinds [] = Inr ()"
| "check_kinds kinds (p # ps) =
     (case kinds (path_parts p) of
        None \<Rightarrow> check_kinds (kinds(path_parts p \<mapsto> is_directory p)) ps
      | Some previous \<Rightarrow> if previous \<noteq> is_directory p then Inl val_err else check_kinds kinds ps)"

fun unique_paths :: "string list \<Rightarrow> archive_path list \<Rightarrow> archive_path list" where
  "unique_paths seen [] = []"
| "unique_paths seen (p # ps) =
     (if path_value p \<in> set seen then unique_paths seen ps else p # unique_paths (path_value p # seen) ps)"

definition below_directory :: "archive_path list \<Rightarrow> archive_path \<Rightarrow> bool" where
  "below_directory paths p =
     list_ex (\<lambda>depth. take depth (path_parts p) \<in> path_parts ` set (filter is_directory paths)) [1..<length (path_parts p)]"

definition canonical_paths :: "archive_path list \<Rightarrow> archive_path list" where
  "canonical_paths parsed =
     (let unique = unique_paths [] parsed in sort_key path_value (filter (\<lambda>p. \<not> below_directory unique p) unique))"

definition canonical_selectors :: "json \<Rightarrow> string list result" where
  "canonical_selectors v =
     (case (if v = JNull then JArr [] else v) of
        JArr vs \<Rightarrow>
          bind_r (map_r parse_path_json vs) (\<lambda>parsed.
          bind_r (check_kinds Map.empty parsed) (\<lambda>_. Inr (map path_value (canonical_paths parsed))))
      | _ \<Rightarrow> Inl val_err)"

section \<open>The payload\<close>

record payload =
  payload_mode :: string
  payload_include :: "string list"
  payload_exclude :: "string list"

definition PAYLOAD_MODES :: "string list" where
  "PAYLOAD_MODES = [''paths'', ''entire_archive'']"

definition str_list :: "string list \<Rightarrow> json" where
  "str_list xs = JArr (map JStr xs)"

definition payload_json :: "payload \<Rightarrow> json" where
  "payload_json p = JObj [(''mode'', JStr (payload_mode p)), (''include'', str_list (payload_include p)),
     (''exclude'', str_list (payload_exclude p))]"

definition normalize_archive_payload :: "py_env \<Rightarrow> bool \<Rightarrow> json \<Rightarrow> payload result" where
  "normalize_archive_payload env require_include v =
     (case (if v = JNull then JObj [] else v) of
        JObj kvs \<Rightarrow>
          let mode = str_or env (jget kvs ''mode'') ''paths'' in
          if mode \<notin> set PAYLOAD_MODES then Inl val_err
          else
            bind_r (canonical_selectors (jget kvs ''include'')) (\<lambda>incl.
            bind_r (canonical_selectors (jget kvs ''exclude'')) (\<lambda>excl.
            if mode \<noteq> ''entire_archive'' \<and> require_include \<and> incl = [] then Inl val_err
            else Inr \<lparr>payload_mode = mode, payload_include = (if mode = ''entire_archive'' then [] else incl),
              payload_exclude = excl\<rparr>))
      | _ \<Rightarrow> Inl val_err)"

section \<open>Lemmas\<close>

text \<open>A parsed selector remembers its text.\<close>

lemma parse_archive_path_value: "parse_archive_path s = Inr p \<Longrightarrow> path_value p = s"
  by (auto simp: parse_archive_path_def Let_def split: if_splits)

lemma parse_path_json_ok: "parse_path_json v = Inr p \<Longrightarrow> v = JStr (path_value p) \<and> parse_archive_path (path_value p) = Inr p"
  by (cases v) (auto dest: parse_archive_path_value)

lemma parsed_pathsE:
  assumes "map_r parse_path_json vs = Inr ps" "p \<in> set ps"
  shows "parse_archive_path (path_value p) = Inr p"
  using assms by (induction vs arbitrary: ps) (auto simp: result_simps dest: parse_path_json_ok)

lemma parse_paths_again:
  assumes "\<forall>p \<in> set ps. parse_archive_path (path_value p) = Inr p"
  shows "map_r parse_path_json (map (JStr \<circ> path_value) ps) = Inr ps"
  using assms by (induction ps) auto

lemma check_kinds_ok:
  "check_kinds kinds ps = Inr u \<longleftrightarrow> (\<exists>K. kinds \<subseteq>\<^sub>m K \<and> (\<forall>p \<in> set ps. K (path_parts p) = Some (is_directory p)))"
proof (induction ps arbitrary: kinds)
  case Nil
  show ?case by (auto intro: map_le_refl)
next
  case (Cons p ps)
  let ?R = "\<lambda>kinds ps. \<exists>K. kinds \<subseteq>\<^sub>m K \<and> (\<forall>q \<in> set ps. K (path_parts q) = Some (is_directory q))"
  show ?case
  proof (cases "kinds (path_parts p)")
    case None
    have "kinds(path_parts p \<mapsto> is_directory p) \<subseteq>\<^sub>m K \<longleftrightarrow> kinds \<subseteq>\<^sub>m K \<and> K (path_parts p) = Some (is_directory p)" for K
      using None by (auto simp: map_le_def)
    then have "?R (kinds(path_parts p \<mapsto> is_directory p)) ps \<longleftrightarrow> ?R kinds (p # ps)" by auto
    then show ?thesis unfolding check_kinds.simps None option.case Cons.IH .
  next
    case (Some k)
    then have K: "K (path_parts p) = Some k" if "kinds \<subseteq>\<^sub>m K" for K
      using that by (auto simp: map_le_def dom_def)
    show ?thesis
    proof (cases "k = is_directory p")
      case True
      then have "?R kinds ps \<longleftrightarrow> ?R kinds (p # ps)" using K by auto
      with Some True Cons.IH show ?thesis by auto
    next
      case False
      then have "\<not> ?R kinds (p # ps)" using K by fastforce
      with Some False show ?thesis by auto
    qed
  qed
qed

text \<open>What remains after duplicates are dropped.\<close>

lemma unique_paths_subset: "p \<in> set (unique_paths seen ps) \<Longrightarrow> p \<in> set ps \<and> path_value p \<notin> set seen"
proof (induction ps arbitrary: seen)
  case (Cons a ps)
  then show ?case using Cons.IH [of seen] Cons.IH [of "path_value a # seen"] by (auto split: if_splits)
qed simp

lemma unique_paths_distinct: "distinct (map path_value (unique_paths seen ps))"
  by (induction ps arbitrary: seen) (auto dest: unique_paths_subset)

lemma unique_paths_values: "path_value ` set (unique_paths seen ps) = path_value ` set ps - set seen"
  by (induction ps arbitrary: seen) auto

lemma unique_paths_fixed:
  "distinct (map path_value ps) \<Longrightarrow> path_value ` set ps \<inter> set seen = {} \<Longrightarrow> unique_paths seen ps = ps"
  by (induction ps arbitrary: seen) auto

lemma unique_paths_set:
  assumes "\<forall>p \<in> set ps. parse_archive_path (path_value p) = Inr p"
  shows "set (unique_paths [] ps) = set ps"
proof
  show "set (unique_paths [] ps) \<subseteq> set ps" by (auto dest: unique_paths_subset)
  show "set ps \<subseteq> set (unique_paths [] ps)"
  proof
    fix p assume p: "p \<in> set ps"
    then have "path_value p \<in> path_value ` set (unique_paths [] ps)" by (simp add: unique_paths_values)
    then obtain q where q: "q \<in> set (unique_paths [] ps)" "path_value q = path_value p" by auto
    moreover have "parse_archive_path (path_value q) = Inr q" using assms q(1) by (auto dest: unique_paths_subset)
    ultimately show "p \<in> set (unique_paths [] ps)" using assms p by auto
  qed
qed

lemma below_directory_iff:
  "below_directory ps p \<longleftrightarrow>
     (\<exists>d \<in> set ps. is_directory d \<and> path_parts d \<noteq> [] \<and> length (path_parts d) < length (path_parts p) \<and>
        take (length (path_parts d)) (path_parts p) = path_parts d)"
  (is "?l \<longleftrightarrow> ?r")
proof
  assume ?l
  then obtain depth d where "1 \<le> depth" "depth < length (path_parts p)" "d \<in> set ps" "is_directory d"
      "take depth (path_parts p) = path_parts d"
    unfolding below_directory_def list_ex_iff by (auto simp: image_iff)
  moreover from this have "length (path_parts d) = depth" by (metis length_take min.absorb4)
  ultimately show ?r by (intro bexI [of _ d]) auto
next
  assume ?r
  then show ?l unfolding below_directory_def list_ex_iff
    by (auto simp: image_iff Suc_le_eq intro!: bexI [where x = "length (path_parts d)" for d])
qed

lemma canonical_paths_set:
  assumes "\<forall>p \<in> set ps. parse_archive_path (path_value p) = Inr p"
  shows "set (canonical_paths ps) = {p \<in> set ps. \<not> below_directory ps p}"
proof -
  have "below_directory (unique_paths [] ps) p = below_directory ps p" for p
    unfolding below_directory_iff unique_paths_set [OF assms] ..
  then show ?thesis by (simp add: canonical_paths_def Let_def unique_paths_set [OF assms])
qed

lemma canonical_paths_fixed:
  assumes parsed: "\<forall>p \<in> set ps. parse_archive_path (path_value p) = Inr p"
  shows "canonical_paths (canonical_paths ps) = canonical_paths ps"
proof -
  let ?c = "canonical_paths ps"
  have c: "set ?c = {p \<in> set ps. \<not> below_directory ps p}" using parsed by (rule canonical_paths_set)
  have "distinct (map path_value (unique_paths [] ps))" by (rule unique_paths_distinct)
  then have "distinct (map path_value (filter P (unique_paths [] ps)))" for P by (rule distinct_map_filter)
  then have "distinct (map path_value ?c)"
    unfolding canonical_paths_def Let_def distinct_map by simp
  then have "unique_paths [] ?c = ?c" by (intro unique_paths_fixed) simp_all
  moreover have "filter (\<lambda>p. \<not> below_directory ?c p) ?c = ?c"
    by (rule filter_True) (auto simp: c below_directory_iff)
  moreover have "sort_key path_value ?c = ?c"
    by (rule sort_key_id_if_sorted) (simp add: canonical_paths_def Let_def)
  ultimately show ?thesis by (metis canonical_paths_def)
qed

text \<open>Below a selected directory there is a topmost one.\<close>

lemma topmost_directory:
  assumes "below_directory ps p"
  shows "\<exists>d \<in> set ps. is_directory d \<and> \<not> below_directory ps d \<and> length (path_parts d) < length (path_parts p) \<and>
     take (length (path_parts d)) (path_parts p) = path_parts d"
  using assms
proof (induction "length (path_parts p)" arbitrary: p rule: less_induct)
  case less
  obtain d where d: "d \<in> set ps" "is_directory d" "length (path_parts d) < length (path_parts p)"
      "take (length (path_parts d)) (path_parts p) = path_parts d"
    using less.prems unfolding below_directory_iff by blast
  show ?case
  proof (cases "below_directory ps d")
    case False
    with d show ?thesis by blast
  next
    case True
    from less.hyps [OF d(3) True] obtain e where e: "e \<in> set ps" "is_directory e" "\<not> below_directory ps e"
        "length (path_parts e) < length (path_parts d)" "take (length (path_parts e)) (path_parts d) = path_parts e" by blast
    then have "take (length (path_parts e)) (path_parts p) = path_parts e"
      using d(4) by (metis min.strict_order_iff take_take)
    with e d(3) show ?thesis by (intro bexI [of _ e]) auto
  qed
qed

lemma canonical_paths_select:
  assumes parsed: "\<forall>p \<in> set ps. parse_archive_path (path_value p) = Inr p"
  shows "selectors_match (canonical_paths ps) path = selectors_match ps path"
proof
  show "selectors_match ps path" if "selectors_match (canonical_paths ps) path"
    using that canonical_paths_set [OF parsed] by (auto simp: selectors_match_def list_ex_iff)
  assume "selectors_match ps path"
  then obtain p where p: "p \<in> set ps" "selector_matches p path" by (auto simp: selectors_match_def list_ex_iff)
  show "selectors_match (canonical_paths ps) path"
  proof (cases "below_directory ps p")
    case False
    with p canonical_paths_set [OF parsed] show ?thesis by (auto simp: selectors_match_def list_ex_iff)
  next
    case True
    from topmost_directory [OF this] obtain d where d: "d \<in> set ps" "is_directory d" "\<not> below_directory ps d"
        "length (path_parts d) < length (path_parts p)" "take (length (path_parts d)) (path_parts p) = path_parts d" by blast
    have pre: "take (length (path_parts p)) (path_parts path) = path_parts p" "length (path_parts p) \<le> length (path_parts path)"
      using p(2) by (auto simp: selector_matches_def split: if_splits dest: arg_cong [where f = length])
    have "take (length (path_parts d)) (path_parts path) = path_parts d"
      using d(4,5) pre(1) by (metis min.strict_order_iff take_take)
    then have "selector_matches d path" using d(2,4) pre(2) by (simp add: selector_matches_def)
    with d canonical_paths_set [OF parsed] show ?thesis by (auto simp: selectors_match_def list_ex_iff)
  qed
qed

lemma canonical_selectorsE:
  assumes "canonical_selectors v = Inr cs"
  obtains vs ps where "v = JNull \<and> vs = [] \<or> v = JArr vs" "map_r parse_path_json vs = Inr ps" "check_kinds Map.empty ps = Inr ()"
    "cs = map path_value (canonical_paths ps)" "\<forall>p \<in> set ps. parse_archive_path (path_value p) = Inr p"
proof -
  obtain vs where vs: "v = JNull \<and> vs = [] \<or> v = JArr vs" "(if v = JNull then JArr [] else v) = JArr vs"
    using assms by (cases v) (auto simp: canonical_selectors_def)
  from assms obtain ps where "map_r parse_path_json vs = Inr ps" "check_kinds Map.empty ps = Inr ()" "cs = map path_value (canonical_paths ps)"
    unfolding canonical_selectors_def vs(2) by (auto simp: result_simps)
  with vs(1) parsed_pathsE show thesis by (intro that [of vs ps]) auto
qed

lemma canonical_selectors_fixed:
  assumes "canonical_selectors v = Inr cs"
  shows "canonical_selectors (str_list cs) = Inr cs"
proof -
  obtain vs ps where ps: "map_r parse_path_json vs = Inr ps" "check_kinds Map.empty ps = Inr ()"
    "cs = map path_value (canonical_paths ps)" "\<forall>p \<in> set ps. parse_archive_path (path_value p) = Inr p"
    using assms by (rule canonical_selectorsE)
  let ?c = "canonical_paths ps"
  have sub: "set ?c \<subseteq> set ps" using canonical_paths_set [OF ps(4)] by auto
  then have "map_r parse_path_json (map JStr cs) = Inr ?c"
    using parse_paths_again [of ?c] ps(3,4) by (simp add: subset_iff)
  moreover have "check_kinds Map.empty ?c = Inr ()"
    using ps(2) sub unfolding check_kinds_ok by (auto simp: subset_iff)
  ultimately show ?thesis
    unfolding str_list_def canonical_selectors_def by (simp add: canonical_paths_fixed [OF ps(4)] ps(3))
qed

definition payload_wf :: "payload \<Rightarrow> bool" where
  "payload_wf p =
     (payload_mode p \<in> set PAYLOAD_MODES \<and> canonical_selectors (str_list (payload_include p)) = Inr (payload_include p) \<and>
      canonical_selectors (str_list (payload_exclude p)) = Inr (payload_exclude p) \<and>
      (payload_mode p = ''entire_archive'' \<longrightarrow> payload_include p = []))"

interpretation payload_doc: canonical_document "normalize_archive_payload env False" payload_json payload_wf for env
proof
  fix p assume "payload_wf p"
  then show "normalize_archive_payload env False (payload_json p) = Inr p"
    by (auto simp: payload_wf_def normalize_archive_payload_def payload_json_def PAYLOAD_MODES_def)
next
  fix v p assume ok: "normalize_archive_payload env False v = Inr p"
  then obtain kvs where "(if v = JNull then JObj [] else v) = JObj kvs"
    by (cases v) (auto simp: normalize_archive_payload_def)
  with ok obtain incl excl where "str_or env (jget kvs ''mode'') ''paths'' \<in> set PAYLOAD_MODES"
      "canonical_selectors (jget kvs ''include'') = Inr incl" "canonical_selectors (jget kvs ''exclude'') = Inr excl"
      "p = \<lparr>payload_mode = str_or env (jget kvs ''mode'') ''paths'',
         payload_include = (if str_or env (jget kvs ''mode'') ''paths'' = ''entire_archive'' then [] else incl), payload_exclude = excl\<rparr>"
    by (auto simp: normalize_archive_payload_def Let_def result_simps split: if_splits)
  moreover have "canonical_selectors (str_list []) = Inr []" by (simp add: canonical_selectors_def str_list_def canonical_paths_def)
  ultimately show "payload_wf p" by (auto simp: payload_wf_def dest: canonical_selectors_fixed)
qed

section \<open>Properties\<close>

text \<open>C29: the canonical selectors of an archive payload select exactly the paths that the given
  selectors select, are selectors themselves, and are their own canonical form.\<close>

theorem canonical_selectors_select_same:
  assumes "canonical_selectors (JArr vs) = Inr cs"
  shows "\<exists>given canonical. map_r parse_path_json vs = Inr given \<and> map_r parse_archive_path cs = Inr canonical \<and>
    (\<forall>path. selectors_match canonical path = selectors_match given path) \<and> canonical_selectors (str_list cs) = Inr cs"
proof -
  obtain vs' ps where ps: "JArr vs = JNull \<and> vs' = [] \<or> JArr vs = JArr vs'" "map_r parse_path_json vs' = Inr ps"
    "cs = map path_value (canonical_paths ps)" "\<forall>p \<in> set ps. parse_archive_path (path_value p) = Inr p"
    using assms by (rule canonical_selectorsE)
  have "set (canonical_paths ps) \<subseteq> set ps" using canonical_paths_set [OF ps(4)] by auto
  then have "map_r parse_archive_path cs = Inr (canonical_paths ps)"
    unfolding ps(3) using ps(4) by (intro map_r_id) auto
  with ps canonical_selectors_fixed [OF assms] canonical_paths_select [OF ps(4)] show ?thesis by auto
qed

theorem canonical_selectors_select_same_witness:
  "\<exists>given canonical. map_r parse_path_json [JStr ''share/'', JStr ''bin/tool'', JStr ''share/doc/a''] = Inr given \<and>
     map_r parse_archive_path [''bin/tool'', ''share/''] = Inr canonical \<and>
     (\<forall>path. selectors_match canonical path = selectors_match given path)"
proof -
  have "canonical_selectors (JArr [JStr ''share/'', JStr ''bin/tool'', JStr ''share/doc/a'']) = Inr [''bin/tool'', ''share/'']"
    by code_simp
  from canonical_selectors_select_same [OF this] show ?thesis by blast
qed

end
