(* ===== verification/Spec2Isabelle.thy ===== *)
theory Spec2Isabelle
  imports Execution_System Ledger_Operations Orchestrator_Properties Retry_Properties Elf_Closure Api_Routes Workspace_Cleanup
    Recovery_Properties Archive_Payload Apt_Repositories
begin

text \<open>
  DebBuilder (\<^verbatim>\<open>src/debbuilder\<close>) turns Recipes into Debian packages.  A server process admits
  \<^emph>\<open>Runs\<close>, queues them for one worker thread, keeps every Run as a JSON document on disk,
  starts Runs by itself when an upstream project changes, and reclaims the disk space of old
  Runs.  This library models the parts that decide, in the state of one process and its files,
  what is executed, recorded and deleted, and proves what those decisions guarantee.

  \<^bold>\<open>Parts and theories\<close>

  \<^item> \<open>Prelude\<close>: the result type, the exceptions, the error monad and its elimination rules, the
    characters and names the validators share, the locale \<open>canonical_document\<close> (the contract
    between a validator and a renderer).  \<open>Py_Json\<close>: JSON values with the Python operations that
    the sources apply to them (\<^verbatim>\<open>get\<close>, truth value, \<^verbatim>\<open>==\<close>, \<^verbatim>\<open>str\<close>) and \<^verbatim>\<open>json.dumps\<close>, with
    the injectivity of the encoding.
  \<^item> \<open>Resource_Limits\<close> (\<^verbatim>\<open>resource_limits.py\<close>): policies as five optional limits,
    their normalization, the effective policy as greatest lower bound, admission contracts.
  \<^item> \<open>Upstream_Identity\<close> (\<^verbatim>\<open>automation_identity.py\<close>): identities of an upstream state, their
    normalization and canonical bytes, pinned execution, attempt keys.
  \<^item> \<open>Lifecycle\<close> (\<^verbatim>\<open>execution_cancellation.py\<close>, \<^verbatim>\<open>lifecycle.py\<close>): the ownership of an
    execution's end, and the gate that drains mutations at shutdown, as step relations.
  \<^item> \<open>Run_Document\<close> (\<^verbatim>\<open>build_models.py\<close>): creation, sealing and validation of Run documents.
    \<open>Run_Store\<close> (\<^verbatim>\<open>build_store.py\<close>, \<^verbatim>\<open>storage.py\<close>): the disk as a map from directories to
    documents, with storage failures before and after the replacing rename.
  \<^item> \<open>Execution_Manager\<close> (\<^verbatim>\<open>execution_manager.py\<close>): the manager as a record of its fields; one
    definition per block that holds the lock and per durable operation.  \<open>Execution_System\<close>: the
    interleavings of request threads, worker, cancellation and shutdown as the step relation
    \<open>sys_step\<close> over manager, disk and a history of executed Runs.
  \<^item> \<open>Command_Identity\<close> (\<^verbatim>\<open>command_identity.py\<close>, \<^verbatim>\<open>terminate_process_group\<close> of
    \<^verbatim>\<open>command_runner.py\<close>): the durable record of the active command of a Run, its capture and its
    verification against what \<^verbatim>\<open>/proc\<close> shows, and the signals that a match allows.
    \<open>Execution_Recovery\<close> (\<^verbatim>\<open>execution_recovery.py\<close>): what startup does with the Runs of the previous
    process, as functions on the world (disk, command records, result) that may raise anywhere.
    \<open>Recovery_Properties\<close>: what one Run may touch (the locale \<open>step_relation\<close>, interpreted for every
    relation between worlds that the proofs use), rules for the stored Run (\<open>leads\<close>), and the properties.
  \<^item> \<open>Automation_Ledger\<close> and \<open>Ledger_Operations\<close> (\<^verbatim>\<open>automation_ledger.py\<close>): the validation of
    the ledger document, and the file with every method of \<^verbatim>\<open>AutomationLedger\<close>, composed as
    load, decide, save.  The locales \<open>ledger_operation\<close> and \<open>ledger_decision\<close> state what every
    method promises; each method is an interpretation, and histories (\<open>ledger_step\<close>) use only
    the contract.
  \<^item> \<open>Automation_Orchestrator\<close> (\<^verbatim>\<open>automation_orchestrator.py\<close>): every handler of the coordinator
    that moves a claimed generation through Run, validation and publication, as a function on
    the world (ledger file, Run store, calls made); other threads may act before each answer.
    \<open>Orchestrator_Flow\<close>: the rules for invariants of such functions and the locale
    \<open>row_flow\<close>, what an invariant must satisfy to survive every handler, indexed by the version of the
    row that the handler has in hand;
    \<open>Orchestrator_Properties\<close>: its two interpretations and the properties.
    \<open>Fallible_State\<close> holds the steps of a handler that may raise after it changed its state.
  \<^item> \<open>Retry_Store\<close> and \<open>Retry_Properties\<close> (\<^verbatim>\<open>automation_scheduler.py\<close>): the file of Recipes whose
    detection failed, the backoff, and the outcome of a detection; the locale \<open>durable_map\<close>
    states what a map is that survives storage failures.
  \<^item> \<open>Posix_Paths\<close>: \<^verbatim>\<open>posixpath\<close> and \<^verbatim>\<open>PurePosixPath\<close> as far as they are used.  \<open>Elf_Resolution\<close>
    (\<^verbatim>\<open>elf_dependency_resolution.py\<close>, the control flow of \<^verbatim>\<open>inspect_elf\<close>, the overrides of
    \<^verbatim>\<open>recipe_schema.py\<close>): the search for the packages that the staged programs need, on a tree of
    files with their inspections and the answers of the tools in the resolution container;
    \<open>Elf_Closure\<close>: what a successful resolution means.
  \<^item> \<open>Archive_Payload\<close> (\<^verbatim>\<open>archive_payload.py\<close>): the selectors of a Recipe for the files of an
    archive.  \<open>Apt_Repositories\<close> (\<^verbatim>\<open>runtime_apt_repositories.py\<close>): the public APT repositories that a
    Recipe declares, with \<^verbatim>\<open>urlsplit\<close> and the shape of an armored key.
  \<^item> \<open>Storage_Pressure\<close> (\<^verbatim>\<open>storage_inventory.py\<close>, \<^verbatim>\<open>workspace_cleanup.py\<close>, \<^verbatim>\<open>app.py\<close>): the
    cleanup policy, measurements, thresholds, hysteresis and the admission guard.
    \<open>Workspace_Cleanup\<close> (\<^verbatim>\<open>workspace_cleanup.py\<close>): authorization, retention and reclamation.
  \<^item> \<open>Api_Routes\<close> (\<^verbatim>\<open>api_routes.py\<close>): the route registry, its validation and matching, and
    which requests take a lease of the mutation gate.

  \<^bold>\<open>How they interact\<close>

  The HTTP layer matches a route and, for a durable mutation, holds a lease of the gate of
  \<open>Lifecycle\<close>.  Admission asks \<open>Storage_Pressure\<close>, creates a document of \<open>Run_Document\<close> through
  \<open>Run_Store\<close> and hands it to \<open>Execution_Manager\<close>, whose worker executes it under a
  cancellation control of \<open>Lifecycle\<close>.  Automation claims an attempt key of \<open>Upstream_Identity\<close>
  in the ledger; the orchestrator preallocates a Run id, has the Run admitted and linked once
  its stored document matches the claim, and then asks for validation and publication.  Before any Run
  is admitted, recovery settles what the previous process left: it reads the record of the command
  (\<open>Command_Identity\<close>), proves the command absent or blocks admission, and leaves a recovery record that
  \<open>Workspace_Cleanup\<close> accepts.  Cleanup reads the documents again under the workspace lock before it
  deletes.

  \<^bold>\<open>What the lemmas show\<close>

  \<^item> Executions: a Run is executed at most once and is always accounted for; places are bounded;
    shutdown freezes the queue; a reported cancellation is final; \<^verbatim>\<open>transition_status\<close> is a
    compare-and-set on the durable status.
  \<^item> Recovery: whatever fails, documents stay valid and only Runs whose command is proved absent are
    marked failed; admission opens only over ended Runs and units that are gone; recovered Runs may be
    cleaned.  A signal reaches only the process group of the recorded process; a command record only moves
    forward, and one that grows beyond 4096 bytes is refused by every later read.
  \<^item> Ledger: every history of operations under any storage failure leaves a loadable, bounded
    ledger that extends the old one; claims, retries and links happen once; an unreadable file
    is never overwritten.
  \<^item> Automation: every call to another component is authorized by the Recipe read for it and
    concerns the Run and the policy of the first unfinished generation, as the ledger has them; a completion is notified at most once; one
    generation of a Recipe has its turn, the first of the unfinished ones; retries wait between one and
    fifteen minutes.  Of the other threads the first two assume that they use the operations of the ledger, or
    do not resume a finished generation.
  \<^item> Detection retries: the store is a map that loses whole operations at most; a failed
    detection is remembered and makes exactly the passes of its backoff wait; the byte bound of
    the file is never reached.
  \<^item> Dependencies: a successful resolution accounts for every library that the programs reach
    and for nothing else; its Depends field has the strictest relation per package, in an order that agrees with the
    comparisons \<^verbatim>\<open>dpkg\<close> makes without complaint (other answers are errors); links of
    staged files are followed to an end for every tree.
  \<^item> Documents: validators return canonical values that survive a write and a read; seals and
    keys are equal exactly when the digests of the canonical bytes of their inputs are, and these bytes
    determine the inputs (the digest is a parameter, and no hypothesis about it is made).
  \<^item> Recipe parts: the canonical selectors of a payload select what the given ones select; a declared
    repository is its own canonical form, up to the length of its key.
  \<^item> Storage: exact thresholds, the admission guard after every history of measurements and policies,
    deletion only from idle and unchanged workspaces, order and limit of retention.
  \<^item> Routes: the registry is valid, no path matches two routes of one method, rendered paths
    match back, durable mutations are classified as such.

  \<^bold>\<open>Conventions and bounds\<close>

  Python integers are \<open>int\<close>, floats that the code only compares are rationals; the width of the
  CPU quota (an unsigned 64-bit D-Bus value) is stated as a bound.  An exception is a value
  \<open>Inl e\<close> with its class and the code and path the callers read.  What the sources ask of the
  operating system or of code that is not here (clock, tokens, \<^verbatim>\<open>fromisoformat\<close>, SHA-256, the
  outcome of writes, locks and probes) is an argument of the definitions, so each property
  holds for all of its behaviours.  The loops over candidates, rows and routes are structural
  recursions over lists; \<^verbatim>\<open>wait_for_quiescence\<close> takes the list of its wake-ups, and the
  handlers of the orchestrator that call each other take the depth that Python's recursion
  limit leaves (beyond it they raise, as Python does; the properties hold for every depth).
  \<^verbatim>\<open>walk\<close> of the dependency search recurses on what is left of its depth bound; the loop over
  symbolic links is a partial function, proved total by the bound on links that the code has.
  There is no loop whose end is assumed.

  \<^bold>\<open>Not modelled\<close>

  The verdicts on systemd units (\<^verbatim>\<open>command_containment.py\<close>), or the exceptions in their place, are parameters of recovery, and the texts of its
  reasons are a function of what they say.  The build pipeline, command containment, container validation and publication run external
  tools, and their logic is in files and processes; the HTTP layer, projections and inspectors
  render data.  Of Recipes only the parts above are modelled; the Recipe and settings stores and the observation store have
  state of their own and are left out.  Of \<^verbatim>\<open>automation_scheduler.py\<close> the passes of the scheduler thread are left out.  The
  output of \<^verbatim>\<open>readelf\<close> is not parsed here: the inspection of a file is a parameter.  Of
  \<^verbatim>\<open>workspace_cleanup.py\<close> the deletion of log history and the descriptor and mount checks are
  left out, of \<^verbatim>\<open>storage_inventory.py\<close> the recursive inventory.
\<close>

end
